(* ===== verification/Prelude.thy ===== *)
theory Prelude
  imports Complex_Main "HOL-Library.Word" "HOL-Library.Product_Lexorder"
begin

text \<open>
  Shared vocabulary of the development: the result type for fallible code, the machine
  integer conversions the source uses, the string functions of Rust's standard library
  that several components call, and the relational reading of the SQL statements
  (\<open>update_where\<close>, \<open>delete_where\<close>, \<open>count_where\<close>) with the lemmas every
  table proof uses.  Strings are byte lists (\<^typ>\<open>string\<close>).
\<close>

named_theorems table_simps \<open>how a statement changes what a query reads\<close>
named_theorems result_simps \<open>when a fallible computation succeeds\<close>

section \<open>Results\<close>

text \<open>\<open>Result<T, E>\<close>: \<open>Inl\<close> is \<open>Err\<close>, \<open>Inr\<close> is \<open>Ok\<close>; \<open>bindE\<close> is the \<open>?\<close> operator.\<close>

definition bindE :: "'e + 'a \<Rightarrow> ('a \<Rightarrow> 'e + 'b) \<Rightarrow> 'e + 'b" where
  "bindE m f = (case m of Inl e \<Rightarrow> Inl e | Inr x \<Rightarrow> f x)"

lemma bindE_simps [simp]:
  "bindE (Inl e) f = Inl e"
  "bindE (Inr x) f = f x"
  by (simp_all add: bindE_def)

lemma bindE_Inr_iff [result_simps]:
  "bindE m f = Inr y \<longleftrightarrow> (\<exists>x. m = Inr x \<and> f x = Inr y)"
  by (cases m) auto

lemma bindE_Inl_iff [result_simps]:
  "bindE m f = Inl e \<longleftrightarrow> m = Inl e \<or> (\<exists>x. m = Inr x \<and> f x = Inl e)"
  by (cases m) auto

definition ok_or :: "'e \<Rightarrow> 'a option \<Rightarrow> 'e + 'a" where
  "ok_or e m = (case m of None \<Rightarrow> Inl e | Some x \<Rightarrow> Inr x)"

lemma ok_or_simps [simp]: "ok_or e None = Inl e" "ok_or e (Some x) = Inr x"
  by (simp_all add: ok_or_def)

definition unwrap_or :: "'a \<Rightarrow> 'a option \<Rightarrow> 'a" where
  "unwrap_or d m = (case m of None \<Rightarrow> d | Some x \<Rightarrow> x)"

lemma unwrap_or_simps [simp]: "unwrap_or d None = d" "unwrap_or d (Some x) = x"
  by (simp_all add: unwrap_or_def)

section \<open>Machine integers\<close>

type_synonym u8 = "8 word"
type_synonym u32 = "32 word"
type_synonym u64 = "64 word"

text \<open>\<open>u32::try_from(v).ok()\<close> and its kin: \<open>None\<close> outside the target's range.\<close>

definition u32_try_from :: "int \<Rightarrow> u32 option" where
  "u32_try_from v = (if 0 \<le> v \<and> v < 2 ^ 32 then Some (word_of_int v) else None)"

definition i32_try_from :: "int \<Rightarrow> int option" where
  "i32_try_from v = (if - (2 ^ 31) \<le> v \<and> v < 2 ^ 31 then Some v else None)"

definition i64_max :: int where
  "i64_max = 2 ^ 63 - 1"

definition i64_try_from :: "int \<Rightarrow> int option" where
  "i64_try_from v = (if - (2 ^ 63) \<le> v \<and> v < 2 ^ 63 then Some v else None)"

text \<open>The two's complement value a release build leaves after an \<open>i64\<close> operation.\<close>

definition wrap_i64 :: "int \<Rightarrow> int" where
  "wrap_i64 v = (v + 2 ^ 63) mod 2 ^ 64 - 2 ^ 63"

lemma wrap_i64_id: "- (2 ^ 63) \<le> v \<Longrightarrow> v < 2 ^ 63 \<Longrightarrow> wrap_i64 v = v"
  by (simp add: wrap_i64_def)

text \<open>\<open>saturating_add\<close> and \<open>saturating_sub\<close> of an unsigned word.\<close>

definition sat_add :: "'a::len word \<Rightarrow> 'a word \<Rightarrow> 'a word" where
  "sat_add a b = (if uint a + uint b < 2 ^ LENGTH('a) then a + b else - 1)"

definition sat_sub :: "'a::len word \<Rightarrow> 'a word \<Rightarrow> 'a word" where
  "sat_sub a b = (if b \<le> a then a - b else 0)"

lemma unat_sat_add: "unat (sat_add a b) = min (2 ^ LENGTH('a) - 1) (unat a + unat (b::'a::len word))"
proof -
  have "(uint a + uint b < 2 ^ LENGTH('a)) = (int (unat a + unat b) < int (2 ^ LENGTH('a)))" by simp
  then have lt: "(uint a + uint b < 2 ^ LENGTH('a)) = (unat a + unat b < 2 ^ LENGTH('a))"
    by (simp only: of_nat_less_iff)
  moreover have "unat (- 1 :: 'a word) = 2 ^ LENGTH('a) - 1"
    by (simp add: unsigned_minus_1_eq_mask mask_eq_exp_minus_1)
  ultimately show ?thesis by (auto simp: sat_add_def unat_word_ariths simp del: of_nat_add)
qed

lemma unat_sat_sub: "unat (sat_sub a b) = unat a - unat (b::'a::len word)"
proof (cases "b \<le> a")
  case True
  then show ?thesis by (simp add: sat_sub_def unat_sub)
next
  case False
  then have "unat a \<le> unat b" by (simp add: word_le_nat_alt)
  with False show ?thesis by (simp add: sat_sub_def)
qed

section \<open>Statements over a table\<close>

text \<open>
  A table is the list of its rows.  \<open>UPDATE t SET f WHERE p\<close> maps the rows,
  \<open>DELETE FROM t WHERE p\<close> filters them, \<open>SELECT COUNT( * ) FROM t WHERE p\<close> counts
  them; the affected-row count of the first two is the count of \<open>p\<close> before.
\<close>

definition update_where :: "('r \<Rightarrow> bool) \<Rightarrow> ('r \<Rightarrow> 'r) \<Rightarrow> 'r list \<Rightarrow> 'r list" where
  "update_where p f t = map (\<lambda>r. if p r then f r else r) t"

definition delete_where :: "('r \<Rightarrow> bool) \<Rightarrow> 'r list \<Rightarrow> 'r list" where
  "delete_where p t = filter (\<lambda>r. \<not> p r) t"

definition count_where :: "('r \<Rightarrow> bool) \<Rightarrow> 'r list \<Rightarrow> nat" where
  "count_where p t = length (filter p t)"

lemma update_where_Nil [simp, table_simps]: "update_where p f [] = []"
  by (simp add: update_where_def)

lemma update_where_Cons [simp, table_simps]:
  "update_where p f (r # t) = (if p r then f r else r) # update_where p f t"
  by (simp add: update_where_def)

lemma length_update_where [simp]: "length (update_where p f t) = length t"
  by (simp add: update_where_def)

lemma set_update_where:
  "set (update_where p f t) = (\<lambda>r. if p r then f r else r) ` set t"
  by (simp add: update_where_def)

lemma map_update_where:
  assumes "\<And>r. r \<in> set t \<Longrightarrow> p r \<Longrightarrow> k (f r) = k r"
  shows "map k (update_where p f t) = map k t"
  using assms by (induction t) auto

lemma update_where_id: "\<forall>r \<in> set t. \<not> p r \<Longrightarrow> update_where p f t = t"
  by (induction t) auto

lemma update_where_append [simp]:
  "update_where p f (t @ u) = update_where p f t @ update_where p f u"
  by (simp add: update_where_def)

lemma set_delete_where [simp]: "set (delete_where p t) = {r \<in> set t. \<not> p r}"
  by (simp add: delete_where_def)

lemma count_where_simps [simp]:
  "count_where p [] = 0"
  "count_where p (r # t) = (if p r then Suc (count_where p t) else count_where p t)"
  "count_where p (t @ u) = count_where p t + count_where p u"
  by (simp_all add: count_where_def)

lemma count_where_le: "(\<And>r. r \<in> set t \<Longrightarrow> p r \<Longrightarrow> q r) \<Longrightarrow> count_where p t \<le> count_where q t"
  by (induction t) auto

lemma count_where_zero_iff [simp]: "count_where p t = 0 \<longleftrightarrow> (\<forall>r \<in> set t. \<not> p r)"
  by (induction t) auto

lemma count_where_eq_one: "distinct t \<Longrightarrow> x \<in> set t \<Longrightarrow> count_where (\<lambda>r. r = x) t = 1"
  by (induction t) auto

lemma count_delete_where:
  "count_where q (delete_where p t) = count_where (\<lambda>r. q r \<and> \<not> p r) t"
  by (induction t) (auto simp: delete_where_def)

text \<open>At most one row has a given value of a key column.\<close>

lemma distinct_key_unique:
  assumes "distinct (map k t)" "r \<in> set t" "r' \<in> set t" "k r = k r'"
  shows "r = r'"
  using assms by (auto simp: distinct_map inj_on_def)

lemma find_distinct_key: "distinct (map k t) \<Longrightarrow> r \<in> set t \<Longrightarrow> find (\<lambda>x. k x = k r) t = Some r"
  by (induction t) (auto simp: image_iff)

lemma distinct_delete_where: "distinct (map k t) \<Longrightarrow> distinct (map k (delete_where p t))"
  by (induction t) (auto simp: delete_where_def)

text \<open>An update of the one row with a given key changes a count by what that row contributes.\<close>

lemma count_update_key:
  assumes "distinct (map k t)" "r \<in> set t" "\<And>x. k (f x) = k x"
  shows "count_where q (update_where (\<lambda>x. k x = k r) f t) + (if q r then 1 else 0)
       = count_where q t + (if q (f r) then 1 else 0)"
  using assms(1,2)
proof (induction t)
  case (Cons x t)
  show ?case
  proof (cases "x = r")
    case True
    with Cons.prems have "\<forall>y \<in> set t. k y \<noteq> k r" by (auto simp: image_iff)
    then have "update_where (\<lambda>x. k x = k r) f t = t" by (intro update_where_id) auto
    with True show ?thesis by simp
  next
    case False
    with Cons.prems have "k x \<noteq> k r" "r \<in> set t" "distinct (map k t)" by auto
    with Cons.IH show ?thesis by auto
  qed
qed simp

section \<open>Strings of the standard library\<close>

text \<open>
  Character classes and the total conversions between a byte and its code.
\<close>

abbreviation char_code :: "char \<Rightarrow> nat" where
  "char_code c \<equiv> of_char c"

definition is_ascii_digit :: "char \<Rightarrow> bool" where
  "is_ascii_digit c \<longleftrightarrow> 48 \<le> char_code c \<and> char_code c \<le> 57"

definition is_ascii_lowercase :: "char \<Rightarrow> bool" where
  "is_ascii_lowercase c \<longleftrightarrow> 97 \<le> char_code c \<and> char_code c \<le> 122"

definition is_ascii_uppercase :: "char \<Rightarrow> bool" where
  "is_ascii_uppercase c \<longleftrightarrow> 65 \<le> char_code c \<and> char_code c \<le> 90"

definition is_ascii_alphanumeric :: "char \<Rightarrow> bool" where
  "is_ascii_alphanumeric c \<longleftrightarrow> is_ascii_digit c \<or> is_ascii_lowercase c \<or> is_ascii_uppercase c"

text \<open>\<open>to_ascii_lowercase\<close>.\<close>

definition ascii_lower :: "char \<Rightarrow> char" where
  "ascii_lower c = (if is_ascii_uppercase c then char_of (char_code c + 32) else c)"

definition ascii_lowercase :: "string \<Rightarrow> string" where
  "ascii_lowercase s = map ascii_lower s"

text \<open>Identifiers that may be spliced into SQL (src/src/db/query/validation.rs).\<close>

definition is_valid_identifier :: "string \<Rightarrow> bool" where
  "is_valid_identifier s \<longleftrightarrow> s \<noteq> [] \<and> list_all (\<lambda>c. is_ascii_alphanumeric c \<or> c = CHR ''_'') s"

text \<open>The ASCII white space that \<open>char::is_whitespace\<close> accepts (tab to carriage return, space).\<close>

definition is_whitespace :: "char \<Rightarrow> bool" where
  "is_whitespace c \<longleftrightarrow> 9 \<le> char_code c \<and> char_code c \<le> 13 \<or> char_code c = 32"

definition trim_start :: "string \<Rightarrow> string" where
  "trim_start s = dropWhile is_whitespace s"

definition trim_end :: "string \<Rightarrow> string" where
  "trim_end s = rev (dropWhile is_whitespace (rev s))"

definition trim :: "string \<Rightarrow> string" where
  "trim s = trim_end (trim_start s)"

text \<open>\<open>strip_suffix(c)\<close> and \<open>strip_prefix(p)\<close>: \<open>None\<close> when it is absent.\<close>

definition strip_suffix_char :: "char \<Rightarrow> string \<Rightarrow> string option" where
  "strip_suffix_char c s = (if s \<noteq> [] \<and> last s = c then Some (butlast s) else None)"

fun strip_prefix :: "string \<Rightarrow> string \<Rightarrow> string option" where
  "strip_prefix [] s = Some s"
| "strip_prefix (p # ps) [] = None"
| "strip_prefix (p # ps) (c # cs) = (if p = c then strip_prefix ps cs else None)"

definition starts_with :: "string \<Rightarrow> string \<Rightarrow> bool" where
  "starts_with p s \<longleftrightarrow> take (length p) s = p"

lemma strip_prefix_Some_iff: "strip_prefix p s = Some r \<longleftrightarrow> s = p @ r"
  by (induction p s rule: strip_prefix.induct) auto

text \<open>\<open>s.split(c)\<close>: always at least one piece.\<close>

fun split_on :: "char \<Rightarrow> string \<Rightarrow> string list" where
  "split_on d [] = [[]]"
| "split_on d (c # cs) =
     (if c = d then [] # split_on d cs
      else (case split_on d cs of [] \<Rightarrow> [[c]] | p # ps \<Rightarrow> (c # p) # ps))"

lemma split_on_nonempty [simp]: "split_on d s \<noteq> []"
  by (cases s) (auto split: list.splits)

text \<open>\<open>parts.join(sep)\<close>.\<close>

fun join_with :: "string \<Rightarrow> string list \<Rightarrow> string" where
  "join_with sep [] = []"
| "join_with sep [p] = p"
| "join_with sep (p # ps) = p @ sep @ join_with sep ps"

lemma join_split_on: "join_with [d] (split_on d s) = s"
proof (induction s)
  case (Cons c cs)
  then show ?case
    by (cases "split_on d cs"; cases "tl (split_on d cs)") auto
qed simp

lemma split_on_free: "d \<notin> set s \<Longrightarrow> split_on d s = [s]"
  by (induction s) auto

text \<open>\<open>split_whitespace\<close>: the maximal runs of other characters.\<close>

fun split_ws_acc :: "string \<Rightarrow> string \<Rightarrow> string list" where
  "split_ws_acc acc [] = (if acc = [] then [] else [rev acc])"
| "split_ws_acc acc (c # cs) =
     (if is_whitespace c then (if acc = [] then split_ws_acc [] cs else rev acc # split_ws_acc [] cs)
      else split_ws_acc (c # acc) cs)"

definition split_whitespace :: "string \<Rightarrow> string list" where
  "split_whitespace s = split_ws_acc [] s"

text \<open>Decimal printing of an unsigned integer (\<open>{n}\<close> in a format string).\<close>

definition digit_char :: "nat \<Rightarrow> char" where
  "digit_char n = char_of (48 + n)"

fun show_nat :: "nat \<Rightarrow> string" where
  "show_nat n = (if n < 10 then [digit_char n] else show_nat (n div 10) @ [digit_char (n mod 10)])"

declare show_nat.simps [simp del]

definition show_int :: "int \<Rightarrow> string" where
  "show_int i = (if i < 0 then CHR ''-'' # show_nat (nat (- i)) else show_nat (nat i))"

text \<open>
  Decimal reading with Rust's \<open>FromStr\<close> rules: an optional sign (only \<open>+\<close> for unsigned
  types), at least one digit, digits only.  The range check is the caller's.
\<close>

definition digits_value :: "string \<Rightarrow> int" where
  "digits_value ds = foldl (\<lambda>v c. 10 * v + (of_char c - 48)) 0 ds"

definition parse_digits :: "string \<Rightarrow> int option" where
  "parse_digits ds =
     (if ds \<noteq> [] \<and> list_all is_ascii_digit ds then Some (digits_value ds) else None)"

definition parse_int :: "string \<Rightarrow> int option" where
  "parse_int s =
     (case s of
        [] \<Rightarrow> None
      | c # cs \<Rightarrow>
          if c = CHR ''-'' then map_option uminus (parse_digits cs)
          else if c = CHR ''+'' then (parse_digits cs)
          else (parse_digits s))"

definition parse_i64 :: "string \<Rightarrow> int option" where
  "parse_i64 s = (case parse_int s of None \<Rightarrow> None | Some v \<Rightarrow> i64_try_from v)"

text \<open>
  \<open>str::parse::<f64>\<close>: a sign, then digits with at most one point and at least one digit, then an
  optional exponent; or an infinity or a NaN in any case.  A finite value is read exactly: rounding
  to the nearest double is not modelled.
\<close>

datatype f64 = Finite rat | Infinite bool | NaN

definition digits_rat :: "string \<Rightarrow> rat" where
  "digits_rat ds = of_int (digits_value ds)"

fun pow10 :: "nat \<Rightarrow> rat" where
  "pow10 0 = 1"
| "pow10 (Suc n) = 10 * pow10 n"

definition scale10 :: "rat \<Rightarrow> int \<Rightarrow> rat" where
  "scale10 q e = (if 0 \<le> e then q * pow10 (nat e) else q / pow10 (nat (- e)))"

definition parse_mantissa :: "string \<Rightarrow> rat option" where
  "parse_mantissa s =
     (let ip = takeWhile is_ascii_digit s; r = dropWhile is_ascii_digit s;
          fp = (if r \<noteq> [] \<and> hd r = CHR ''.'' then tl r else [])
      in if r \<noteq> [] \<and> hd r \<noteq> CHR ''.'' then None
         else if \<not> list_all is_ascii_digit fp then None
         else if ip = [] \<and> fp = [] then None
         else Some (scale10 (digits_rat (ip @ fp)) (- int (length fp))))"

definition parse_unsigned_f64 :: "string \<Rightarrow> rat option" where
  "parse_unsigned_f64 s =
     (let m = takeWhile (\<lambda>c. ascii_lower c \<noteq> CHR ''e'') s; r = dropWhile (\<lambda>c. ascii_lower c \<noteq> CHR ''e'') s
      in case parse_mantissa m of
           None \<Rightarrow> None
         | Some q \<Rightarrow>
             if r = [] then Some q
             else (case parse_int (tl r) of None \<Rightarrow> None | Some e \<Rightarrow> Some (scale10 q e)))"

definition parse_f64 :: "string \<Rightarrow> f64 option" where
  "parse_f64 s =
     (let neg = (s \<noteq> [] \<and> hd s = CHR ''-'');
          u = (if s \<noteq> [] \<and> (hd s = CHR ''-'' \<or> hd s = CHR ''+'') then tl s else s)
      in if ascii_lowercase u \<in> {''inf'', ''infinity''} then Some (Infinite neg)
         else if ascii_lowercase u = ''nan'' then Some NaN
         else map_option (\<lambda>q. Finite (if neg then - q else q)) (parse_unsigned_f64 u))"

text \<open>What is printed reads back.\<close>

lemma char_code_digit [simp]: "n < 10 \<Longrightarrow> char_code (digit_char n) = 48 + n"
  by (simp add: digit_char_def)

lemma of_char_digit [simp]: "n < 10 \<Longrightarrow> (of_char (digit_char n) :: int) = 48 + int n"
  using of_nat_of_char [of "digit_char n", where 'a = int] by simp

lemma is_ascii_digit_digit_char: "n < 10 \<Longrightarrow> is_ascii_digit (digit_char n)"
  by (simp add: is_ascii_digit_def)

lemma show_nat_digits: "list_all is_ascii_digit (show_nat n)"
proof (induction n rule: show_nat.induct)
  case (1 n)
  then show ?case by (subst show_nat.simps) (auto simp: is_ascii_digit_digit_char)
qed

lemma show_nat_nonempty [simp]: "show_nat n \<noteq> []"
  by (subst show_nat.simps) simp

lemma digits_value_snoc: "digits_value (s @ [c]) = 10 * digits_value s + (of_char c - 48)"
  by (simp add: digits_value_def)

lemma digits_value_show_nat [simp]: "digits_value (show_nat n) = int n"
proof (induction n rule: show_nat.induct)
  case (1 n)
  show ?case
  proof (cases "n < 10")
    case True
    then show ?thesis by (subst show_nat.simps) (simp add: digits_value_def)
  next
    case False
    have "int (10 * (n div 10) + n mod 10) = int n" by simp
    then have "10 * int (n div 10) + int (n mod 10) = int n" by linarith
    with 1 False show ?thesis by (subst show_nat.simps) (simp add: digits_value_snoc)
  qed
qed

lemma parse_digits_show_nat [simp]: "parse_digits (show_nat n) = Some (int n)"
  by (simp add: parse_digits_def show_nat_digits)

lemma parse_int_show_int [simp]: "parse_int (show_int i) = Some i"
proof (cases "i < 0")
  case True
  then show ?thesis by (simp add: parse_int_def show_int_def)
next
  case False
  obtain c cs where s: "show_nat (nat i) = c # cs" by (meson list.exhaust show_nat_nonempty)
  then have "is_ascii_digit c" using show_nat_digits [of "nat i"] by simp
  then have "c \<noteq> CHR ''-''" "c \<noteq> CHR ''+''" by (auto simp: is_ascii_digit_def)
  with False s parse_digits_show_nat [of "nat i"] show ?thesis
    by (simp add: parse_int_def show_int_def)
qed

lemma parse_i64_show_int: "- (2 ^ 63) \<le> i \<Longrightarrow> i < 2 ^ 63 \<Longrightarrow> parse_i64 (show_int i) = Some i"
  by (simp add: parse_i64_def i64_try_from_def)

lemma is_ascii_digit_not_ws: "is_ascii_digit c \<Longrightarrow> \<not> is_whitespace c"
  by (auto simp: is_ascii_digit_def is_whitespace_def)

lemma show_nat_not_ws: "c \<in> set (show_nat n) \<Longrightarrow> \<not> is_whitespace c"
  using show_nat_digits [of n] is_ascii_digit_not_ws by (auto simp: list_all_iff)

lemma show_int_not_ws: "c \<in> set (show_int i) \<Longrightarrow> \<not> is_whitespace c"
  using show_nat_not_ws by (auto simp: show_int_def is_whitespace_def split: if_splits)

lemma dropWhile_list_all: "list_all p xs \<Longrightarrow> dropWhile p (xs @ ys) = dropWhile p ys"
  by (induction xs) auto

lemma trim_padded:
  assumes "list_all is_whitespace a" "list_all is_whitespace b" "\<And>c. c \<in> set s \<Longrightarrow> \<not> is_whitespace c"
    and "s \<noteq> []"
  shows "trim (a @ s @ b) = s"
proof -
  have hd: "dropWhile is_whitespace (u @ x) = u @ x"
    if "\<And>c. c \<in> set u \<Longrightarrow> \<not> is_whitespace c" "u \<noteq> []" for u x
    using that by (cases u) auto
  have fst: "dropWhile is_whitespace (s @ x) = s @ x" for x
    using assms(3,4) by (rule hd)
  have "dropWhile is_whitespace (rev s) = rev s"
    using hd [of "rev s" "[]"] assms(3,4) by simp
  then show ?thesis
    using assms(1,2) by (simp add: trim_def trim_start_def trim_end_def dropWhile_list_all fst)
qed

end
