(* ===== verification/JobTypes.thy ===== *)
theory JobTypes
  imports Prelude
begin

text \<open>
  The data of the background-job subsystem (src/src/core/job/): the run status, the run as
  the scheduler sees it (\<open>JobRun\<close>), the row of the table \<open>_crap_jobs\<close> it is read from, the
  job definition, and the enqueue options of src/src/db/query/jobs/lifecycle.rs.  Time stamps
  are seconds since the epoch.  In the table a status is the text the statements write.
\<close>

section \<open>Status\<close>

datatype job_status = Pending | Running | Completed | Failed | Stale

fun as_str :: "job_status \<Rightarrow> string" where
  "as_str Pending = ''pending''"
| "as_str Running = ''running''"
| "as_str Completed = ''completed''"
| "as_str Failed = ''failed''"
| "as_str Stale = ''stale''"

definition from_name :: "string \<Rightarrow> job_status option" where
  "from_name s =
     (if s = ''pending'' then Some Pending
      else if s = ''running'' then Some Running
      else if s = ''completed'' then Some Completed
      else if s = ''failed'' then Some Failed
      else if s = ''stale'' then Some Stale
      else None)"

lemma from_name_as_str [simp]: "from_name (as_str s) = Some s"
  by (cases s) (simp_all add: from_name_def)

lemma from_name_Some_iff: "from_name n = Some s \<longleftrightarrow> n = as_str s"
  by (cases s) (auto simp: from_name_def)

lemma as_str_inject [simp]: "as_str a = as_str b \<longleftrightarrow> a = b"
  by (cases a; cases b) simp_all

section \<open>Rows and runs\<close>

record job_row =
  jr_id :: string
  jr_slug :: string
  jr_status :: string
  jr_queue :: string
  jr_data :: "string option"
  jr_result :: "string option"
  jr_error :: "string option"
  jr_attempt :: int
  jr_max_attempts :: int
  jr_priority :: int
  jr_unique_key :: "string option"
  jr_scheduled_by :: "string option"
  jr_created_at :: int
  jr_started_at :: "int option"
  jr_completed_at :: "int option"
  jr_heartbeat_at :: "int option"
  jr_retry_after :: "int option"

type_synonym job_table = "job_row list"

record job_run =
  run_id :: string
  run_slug :: string
  run_status :: job_status
  run_queue :: string
  run_data :: string
  run_result :: "string option"
  run_error :: "string option"
  run_attempt :: u32
  run_max_attempts :: u32
  run_priority :: int
  run_unique_key :: "string option"
  run_scheduled_by :: "string option"
  run_created_at :: "int option"
  run_started_at :: "int option"
  run_completed_at :: "int option"
  run_heartbeat_at :: "int option"
  run_retry_after :: "int option"

text \<open>\<open>JobRunBuilder::new\<close>: the defaults a builder chain starts from.\<close>

definition job_run_builder :: "string \<Rightarrow> string \<Rightarrow> job_run" where
  "job_run_builder i s =
     \<lparr>run_id = i, run_slug = s, run_status = Pending, run_queue = ''default'', run_data = ''{}'',
      run_result = None, run_error = None, run_attempt = 0, run_max_attempts = 1,
      run_priority = 0, run_unique_key = None, run_scheduled_by = None, run_created_at = None,
      run_started_at = None, run_completed_at = None, run_heartbeat_at = None,
      run_retry_after = None\<rparr>"

section \<open>Definitions\<close>

record job_definition =
  jd_slug :: string
  jd_handler :: string
  jd_schedule :: "string option"
  jd_queue :: string
  jd_retries :: "u32 option"
  jd_timeout :: u64
  jd_concurrency :: u32
  jd_priority :: int
  jd_skip_if_running :: bool
  jd_label_singular :: "string option"
  jd_access :: "string option"

definition job_definition_default :: job_definition where
  "job_definition_default =
     \<lparr>jd_slug = '''', jd_handler = '''', jd_schedule = None, jd_queue = ''default'',
      jd_retries = None, jd_timeout = 60, jd_concurrency = 1, jd_priority = 0,
      jd_skip_if_running = True, jd_label_singular = None, jd_access = None\<rparr>"

definition job_definition_builder :: "string \<Rightarrow> string \<Rightarrow> job_definition" where
  "job_definition_builder s h = job_definition_default\<lparr>jd_slug := s, jd_handler := h\<rparr>"

text \<open>\<open>retries.or(queue_retries).unwrap_or(0).saturating_add(1)\<close>.\<close>

definition effective_max_attempts :: "job_definition \<Rightarrow> u32 option \<Rightarrow> u32" where
  "effective_max_attempts d queue_retries =
     sat_add (unwrap_or 0 (case jd_retries d of Some n \<Rightarrow> Some n | None \<Rightarrow> queue_retries)) 1"

lemma effective_max_attempts_pos: "0 < effective_max_attempts d q"
proof -
  have "0 < unat (effective_max_attempts d q)"
    by (simp add: effective_max_attempts_def unat_sat_add)
  then show ?thesis by (simp add: word_less_nat_alt)
qed

section \<open>Enqueue options\<close>

record insert_job_opts =
  o_slug :: string
  o_data :: string
  o_scheduled_by :: string
  o_max_attempts :: u32
  o_queue :: string
  o_priority :: int
  o_delay_secs :: u64
  o_unique_key :: "string option"

datatype inserted_job = Created job_run | Existing job_run

fun into_inner :: "inserted_job \<Rightarrow> job_run" where
  "into_inner (Created j) = j"
| "into_inner (Existing j) = j"

section \<open>The database clock\<close>

text \<open>
  \<open>datetime('now')\<close> and \<open>datetime('now', '\<plusminus>N seconds')\<close> of the backend at one statement.
  The second is \<open>None\<close> (SQL NULL) where the engine's date functions give NULL because the
  result leaves their range; what that range is belongs to the engine, so the offset is a
  parameter of every statement.
\<close>

record clock =
  clk_now :: int
  clk_offset :: "int \<Rightarrow> int option"

definition clock_exact :: "clock \<Rightarrow> int \<Rightarrow> bool" where
  "clock_exact c d \<longleftrightarrow> clk_offset c d = Some (clk_now c + d)"

text \<open>SQLite's clock: dates outside the years 0 to 9999 are NULL.\<close>

definition sqlite_clock :: "int \<Rightarrow> clock" where
  "sqlite_clock n =
     \<lparr>clk_now = n,
      clk_offset = (\<lambda>d. if - 62167219200 \<le> n + d \<and> n + d \<le> 253402300799
                        then Some (n + d) else None)\<rparr>"

end
