(* ===== verification/JobQueue.thy ===== *)
theory JobQueue
  imports JobTypes
begin

text \<open>
  The statements of src/src/db/query/jobs/ on the table \<open>_crap_jobs\<close>, whose schema
  (src/src/db/migrate/sync.rs) has the primary key \<open>id\<close> and the partial unique index on
  \<open>(slug, unique_key)\<close> over pending and running rows.  An INSERT or UPDATE that would break
  either is an error of the database and leaves the table as it was.  The result of a
  fallible function is \<open>job_error + 'a\<close>.  Failures of the connection are not modelled.
\<close>

section \<open>The schema\<close>

definition is_active_status :: "string \<Rightarrow> bool" where
  "is_active_status s \<longleftrightarrow> s = ''pending'' \<or> s = ''running''"

fun active_keys :: "job_table \<Rightarrow> (string \<times> string) list" where
  "active_keys [] = []"
| "active_keys (r # t) =
     (case jr_unique_key r of
        Some k \<Rightarrow> if is_active_status (jr_status r) then (jr_slug r, k) # active_keys t else active_keys t
      | None \<Rightarrow> active_keys t)"

definition unique_active :: "job_table \<Rightarrow> bool" where
  "unique_active t \<longleftrightarrow> distinct (active_keys t)"

definition unique_ids :: "job_table \<Rightarrow> bool" where
  "unique_ids t \<longleftrightarrow> distinct (map jr_id t)"

definition jobs_wf :: "job_table \<Rightarrow> bool" where
  "jobs_wf t \<longleftrightarrow> unique_ids t \<and> unique_active t \<and> list_all (\<lambda>r. from_name (jr_status r) \<noteq> None) t"

datatype job_error =
    PrimaryKeyViolation
  | UniqueIndexViolation
  | NoActiveRow string string
  | OutOfRange string

text \<open>An UPDATE subject to the unique index: the new table and the affected-row count.\<close>

definition exec_update :: "(job_row \<Rightarrow> bool) \<Rightarrow> (job_row \<Rightarrow> job_row) \<Rightarrow> job_table \<Rightarrow> job_error + job_table \<times> nat" where
  "exec_update p f t =
     (let t' = update_where p f t
      in if unique_active t' then Inr (t', count_where p t) else Inl UniqueIndexViolation)"

section \<open>Reading rows (query.rs)\<close>

text \<open>
  \<open>row_to_job_run\<close> reads by column position.  \<open>wide\<close> says whether the SELECT carries the
  last two columns (priority, unique key): the one in \<open>find_stale_jobs\<close> does not, and their
  defaults are used.
\<close>

definition row_to_job_run :: "bool \<Rightarrow> job_row \<Rightarrow> job_run" where
  "row_to_job_run wide r =
     (job_run_builder (jr_id r) (jr_slug r))
       \<lparr>run_status := unwrap_or Pending (from_name (jr_status r)),
        run_queue := jr_queue r,
        run_data := unwrap_or ''{}'' (jr_data r),
        run_attempt := unwrap_or 0 (u32_try_from (jr_attempt r)),
        run_max_attempts := unwrap_or 0 (u32_try_from (jr_max_attempts r)),
        run_priority := (if wide then unwrap_or 0 (i32_try_from (jr_priority r)) else 0),
        run_result := jr_result r,
        run_error := jr_error r,
        run_scheduled_by := jr_scheduled_by r,
        run_created_at := Some (jr_created_at r),
        run_started_at := jr_started_at r,
        run_completed_at := jr_completed_at r,
        run_heartbeat_at := jr_heartbeat_at r,
        run_retry_after := jr_retry_after r,
        run_unique_key := (if wide then jr_unique_key r else None)\<rparr>"

definition count_running :: "string option \<Rightarrow> job_table \<Rightarrow> int" where
  "count_running slug t =
     (case slug of
        Some s \<Rightarrow> int (count_where (\<lambda>r. jr_status r = ''running'' \<and> jr_slug r = s) t)
      | None \<Rightarrow> int (count_where (\<lambda>r. jr_status r = ''running'') t))"

definition count_running_per_slug :: "job_table \<Rightarrow> (string \<rightharpoonup> int)" where
  "count_running_per_slug t =
     (\<lambda>s. let n = count_where (\<lambda>r. jr_status r = ''running'' \<and> jr_slug r = s) t
          in if n = 0 then None else Some (int n))"

definition count_running_per_queue :: "job_table \<Rightarrow> (string \<rightharpoonup> int)" where
  "count_running_per_queue t =
     (\<lambda>q. let n = count_where (\<lambda>r. jr_status r = ''running'' \<and> jr_queue r = q) t
          in if n = 0 then None else Some (int n))"

definition matches_filters :: "string option \<Rightarrow> string option \<Rightarrow> job_row \<Rightarrow> bool" where
  "matches_filters slug status r \<longleftrightarrow>
     (case slug of None \<Rightarrow> True | Some s \<Rightarrow> jr_slug r = s) \<and>
     (case status of None \<Rightarrow> True | Some st \<Rightarrow> jr_status r = st)"

definition count_job_runs :: "string option \<Rightarrow> string option \<Rightarrow> job_table \<Rightarrow> int" where
  "count_job_runs slug status t = int (count_where (matches_filters slug status) t)"

text \<open>
  \<open>ORDER BY created_at DESC LIMIT l OFFSET o\<close>; a negative limit is no limit and a negative
  offset is none.  Rows of equal key come in table order, here and below.
\<close>

definition list_job_runs :: "string option \<Rightarrow> string option \<Rightarrow> int \<Rightarrow> int \<Rightarrow> job_table \<Rightarrow> job_run list" where
  "list_job_runs slug status limit offset t =
     (let rows = drop (nat offset)
                   (sort_key (\<lambda>r. - jr_created_at r) (filter (matches_filters slug status) t))
      in map (row_to_job_run True) (if limit < 0 then rows else take (nat limit) rows))"

definition get_job_run :: "string \<Rightarrow> job_table \<Rightarrow> job_run option" where
  "get_job_run i t = map_option (row_to_job_run True) (find (\<lambda>r. jr_id r = i) t)"

text \<open>\<open>date_offset_expr(s)\<close> is the expression for \<open>s\<close> seconds ago.\<close>

definition date_offset :: "clock \<Rightarrow> int \<Rightarrow> int option" where
  "date_offset c s = clk_offset c (- s)"

text \<open>\<open>x < e\<close> and \<open>x >= e\<close> where the expression may be NULL: a comparison with NULL is not true.\<close>

definition before :: "int \<Rightarrow> int option \<Rightarrow> bool" where
  "before x e \<longleftrightarrow> (case e of None \<Rightarrow> False | Some y \<Rightarrow> x < y)"

definition not_before :: "int \<Rightarrow> int option \<Rightarrow> bool" where
  "not_before x e \<longleftrightarrow> (case e of None \<Rightarrow> False | Some y \<Rightarrow> y \<le> x)"

definition i64_from_u64 :: "string \<Rightarrow> u64 \<Rightarrow> job_error + int" where
  "i64_from_u64 what n = ok_or (OutOfRange what) (i64_try_from (uint n))"

definition is_stale_row :: "clock \<Rightarrow> int \<Rightarrow> job_row \<Rightarrow> bool" where
  "is_stale_row c threshold r \<longleftrightarrow> jr_status r = ''running'' \<and>
     (case jr_heartbeat_at r of None \<Rightarrow> True | Some h \<Rightarrow> before h (date_offset c threshold))"

definition find_stale_jobs :: "clock \<Rightarrow> u64 \<Rightarrow> job_table \<Rightarrow> job_error + job_run list" where
  "find_stale_jobs c stale_threshold_secs t =
     bindE (i64_from_u64 ''stale_threshold_secs'' stale_threshold_secs) (\<lambda>threshold.
       Inr (map (row_to_job_run False) (filter (is_stale_row c threshold) t)))"

definition count_failed_since :: "clock \<Rightarrow> u64 \<Rightarrow> job_table \<Rightarrow> job_error + int" where
  "count_failed_since c since_secs t =
     bindE (i64_from_u64 ''since_secs'' since_secs) (\<lambda>since.
       Inr (int (count_where (\<lambda>r. jr_status r = ''failed'' \<and>
         (case jr_completed_at r of None \<Rightarrow> False | Some d \<Rightarrow> not_before d (date_offset c since))) t)))"

definition count_pending_older_than :: "clock \<Rightarrow> u64 \<Rightarrow> job_table \<Rightarrow> job_error + int" where
  "count_pending_older_than c older_than_secs t =
     bindE (i64_from_u64 ''older_than_secs'' older_than_secs) (\<lambda>older.
       Inr (int (count_where (\<lambda>r. jr_status r = ''pending'' \<and>
         before (jr_created_at r) (date_offset c older)) t)))"

text \<open>\<open>ORDER BY completed_at DESC LIMIT 1\<close>: NULL comes last.\<close>

definition completed_key :: "job_row \<Rightarrow> nat \<times> int" where
  "completed_key r = (case jr_completed_at r of None \<Rightarrow> (1, 0) | Some d \<Rightarrow> (0, - d))"

definition last_completed_run :: "string \<Rightarrow> job_table \<Rightarrow> job_run option" where
  "last_completed_run slug t =
     (case sort_key completed_key (filter (\<lambda>r. jr_slug r = slug \<and> jr_status r = ''completed'') t) of
        [] \<Rightarrow> None
      | r # _ \<Rightarrow> Some (row_to_job_run True r))"

section \<open>Writing rows (lifecycle.rs)\<close>

text \<open>
  \<open>INSERT INTO _crap_jobs (...) VALUES (...)\<close>: the columns not named take the schema's
  defaults.
\<close>

definition new_row :: "clock \<Rightarrow> string \<Rightarrow> insert_job_opts \<Rightarrow> job_row" where
  "new_row c i opts =
     (let delay_i64 = unwrap_or i64_max (i64_try_from (uint (o_delay_secs opts)))
      in \<lparr>jr_id = i, jr_slug = o_slug opts, jr_status = ''pending'', jr_queue = o_queue opts,
          jr_data = Some (o_data opts), jr_result = None, jr_error = None, jr_attempt = 0,
          jr_max_attempts = uint (o_max_attempts opts), jr_priority = o_priority opts,
          jr_unique_key = o_unique_key opts, jr_scheduled_by = Some (o_scheduled_by opts),
          jr_created_at = clk_now c, jr_started_at = None, jr_completed_at = None,
          jr_heartbeat_at = None,
          jr_retry_after =
            (if 0 < o_delay_secs opts then date_offset c (- delay_i64) else None)\<rparr>)"

definition find_active_by_unique_key :: "string \<Rightarrow> string \<Rightarrow> job_table \<Rightarrow> job_run option" where
  "find_active_by_unique_key slug key t =
     (case sort_key jr_created_at
             (filter (\<lambda>r. jr_slug r = slug \<and> jr_unique_key r = Some key \<and>
                          is_active_status (jr_status r)) t) of
        [] \<Rightarrow> None
      | r # _ \<Rightarrow> get_job_run (jr_id r) t)"

definition created_run :: "string \<Rightarrow> insert_job_opts \<Rightarrow> job_run" where
  "created_run i opts =
     (job_run_builder i (o_slug opts))
       \<lparr>run_queue := o_queue opts, run_data := o_data opts,
        run_max_attempts := o_max_attempts opts,
        run_scheduled_by := Some (o_scheduled_by opts),
        run_priority := o_priority opts,
        run_unique_key := o_unique_key opts\<rparr>"

definition unique_conflict :: "insert_job_opts \<Rightarrow> job_table \<Rightarrow> bool" where
  "unique_conflict opts t \<longleftrightarrow>
     (case o_unique_key opts of None \<Rightarrow> False | Some k \<Rightarrow> (o_slug opts, k) \<in> set (active_keys t))"

text \<open>
  The id is the one the generator returned.  With a unique key the statement carries
  \<open>ON CONFLICT ... DO NOTHING\<close>: no row comes back when an active row has the key, and the
  existing one is looked up.
\<close>

definition insert_job_with ::
  "clock \<Rightarrow> string \<Rightarrow> insert_job_opts \<Rightarrow> job_table \<Rightarrow> job_error + job_table \<times> inserted_job" where
  "insert_job_with c i opts t =
     (if i \<in> jr_id ` set t then Inl PrimaryKeyViolation
      else if \<not> unique_conflict opts t then Inr (t @ [new_row c i opts], Created (created_run i opts))
      else (let key = unwrap_or '''' (o_unique_key opts)
            in case find_active_by_unique_key (o_slug opts) key t of
                 None \<Rightarrow> Inl (NoActiveRow key (o_slug opts))
               | Some existing \<Rightarrow> Inr (t, Existing existing)))"

definition insert_job ::
  "clock \<Rightarrow> string \<Rightarrow> string \<Rightarrow> string \<Rightarrow> string \<Rightarrow> u32 \<Rightarrow> string \<Rightarrow> int \<Rightarrow> job_table
     \<Rightarrow> job_error + job_table \<times> job_run" where
  "insert_job c i slug data scheduled_by max_attempts queue priority t =
     (let opts = \<lparr>o_slug = slug, o_data = data, o_scheduled_by = scheduled_by,
                  o_max_attempts = max_attempts, o_queue = queue, o_priority = priority,
                  o_delay_secs = 0, o_unique_key = None\<rparr>
      in bindE (insert_job_with c i opts t) (\<lambda>(t', ij). Inr (t', into_inner ij)))"

definition has_id :: "string \<Rightarrow> job_row \<Rightarrow> bool" where
  "has_id i r \<longleftrightarrow> jr_id r = i"

definition complete_row :: "clock \<Rightarrow> string option \<Rightarrow> job_row \<Rightarrow> job_row" where
  "complete_row c res r =
     r\<lparr>jr_status := ''completed'', jr_result := res, jr_completed_at := Some (clk_now c)\<rparr>"

definition complete_job :: "clock \<Rightarrow> string \<Rightarrow> string option \<Rightarrow> job_table \<Rightarrow> job_error + job_table" where
  "complete_job c i result_json t =
     bindE (exec_update (has_id i) (complete_row c result_json) t) (\<lambda>(t', _). Inr t')"

definition backoff_seconds :: "u32 \<Rightarrow> int" where
  "backoff_seconds attempt = min (5 * 2 ^ unat (min (sat_sub attempt 1) 6)) 300"

definition retry_row :: "clock \<Rightarrow> string \<Rightarrow> int \<Rightarrow> job_row \<Rightarrow> job_row" where
  "retry_row c err delay r =
     r\<lparr>jr_status := ''pending'', jr_error := Some err, jr_started_at := None,
       jr_completed_at := None, jr_heartbeat_at := None, jr_retry_after := clk_offset c delay\<rparr>"

definition fail_row :: "clock \<Rightarrow> string \<Rightarrow> job_row \<Rightarrow> job_row" where
  "fail_row c err r =
     r\<lparr>jr_status := ''failed'', jr_error := Some err, jr_completed_at := Some (clk_now c)\<rparr>"

definition fail_job :: "clock \<Rightarrow> string \<Rightarrow> string \<Rightarrow> bool \<Rightarrow> u32 \<Rightarrow> job_table \<Rightarrow> job_error + job_table" where
  "fail_job c i err should_retry attempt t =
     (if should_retry
      then bindE (exec_update (has_id i) (retry_row c err (backoff_seconds attempt)) t) (\<lambda>(t', _). Inr t')
      else bindE (exec_update (has_id i) (fail_row c err) t) (\<lambda>(t', _). Inr t'))"

definition update_heartbeat :: "clock \<Rightarrow> string \<Rightarrow> job_table \<Rightarrow> job_error + job_table" where
  "update_heartbeat c i t =
     bindE (exec_update (has_id i) (\<lambda>r. r\<lparr>jr_heartbeat_at := Some (clk_now c)\<rparr>) t) (\<lambda>(t', _). Inr t')"

definition stale_row :: "clock \<Rightarrow> string \<Rightarrow> job_row \<Rightarrow> job_row" where
  "stale_row c err r =
     r\<lparr>jr_status := ''stale'', jr_error := Some err, jr_completed_at := Some (clk_now c)\<rparr>"

definition mark_stale :: "clock \<Rightarrow> string \<Rightarrow> string \<Rightarrow> job_table \<Rightarrow> job_error + job_table" where
  "mark_stale c i err t =
     bindE (exec_update (has_id i) (stale_row c err) t) (\<lambda>(t', _). Inr t')"

section \<open>Bulk deletes (bulk.rs) and the cron window (cron.rs)\<close>

definition cancel_pending_jobs :: "string option \<Rightarrow> job_table \<Rightarrow> job_table \<times> int" where
  "cancel_pending_jobs slug t =
     (let p = (\<lambda>r. jr_status r = ''pending'' \<and> (case slug of None \<Rightarrow> True | Some s \<Rightarrow> jr_slug r = s))
      in (delete_where p t, int (count_where p t)))"

definition is_old_finished :: "clock \<Rightarrow> int \<Rightarrow> job_row \<Rightarrow> bool" where
  "is_old_finished c older r \<longleftrightarrow>
     jr_status r \<in> {''completed'', ''failed'', ''stale''} \<and> before (jr_created_at r) (date_offset c older)"

definition purge_old_jobs :: "clock \<Rightarrow> u64 \<Rightarrow> job_table \<Rightarrow> job_error + job_table \<times> int" where
  "purge_old_jobs c older_than_secs t =
     bindE (i64_from_u64 ''older_than_secs'' older_than_secs) (\<lambda>older.
       Inr (delete_where (is_old_finished c older) t, int (count_where (is_old_finished c older) t)))"

text \<open>
  The table \<open>_crap_cron_fired\<close> maps a slug to the time of its last firing.  The source writes
  and compares RFC 3339 texts of UTC instants; here they are the instants.
\<close>

definition try_claim_cron_window :: "string \<Rightarrow> int \<Rightarrow> int \<Rightarrow> (string \<rightharpoonup> int) \<Rightarrow> (string \<rightharpoonup> int) \<times> bool" where
  "try_claim_cron_window slug fired_at window_start m =
     (case m slug of
        None \<Rightarrow> (m(slug \<mapsto> fired_at), True)
      | Some f \<Rightarrow> if f < window_start then (m(slug \<mapsto> fired_at), True) else (m, False))"

section \<open>The active keys under the statements\<close>

definition row_key :: "job_row \<Rightarrow> (string \<times> string) list" where
  "row_key r = active_keys [r]"

lemma active_keys_Cons: "active_keys (r # t) = row_key r @ active_keys t"
  by (simp add: row_key_def split: option.splits)

lemma active_keys_append: "active_keys (t @ u) = active_keys t @ active_keys u"
  by (induction t) (auto split: option.splits)

lemma row_key_cases: "row_key r = [] \<or> (\<exists>k. jr_unique_key r = Some k \<and> row_key r = [(jr_slug r, k)])"
  by (simp add: row_key_def split: option.splits)

lemma row_key_inactive: "\<not> is_active_status (jr_status r) \<Longrightarrow> row_key r = []"
  by (simp add: row_key_def split: option.splits)

lemma mem_active_keys:
  "(s, k) \<in> set (active_keys t) \<longleftrightarrow>
     (\<exists>r \<in> set t. jr_slug r = s \<and> jr_unique_key r = Some k \<and> is_active_status (jr_status r))"
  by (induction t) (auto split: option.splits)

text \<open>An update that keeps or drops the active key of each row it touches cannot break the index.\<close>

lemma unique_active_update:
  assumes "\<And>r. r \<in> set t \<Longrightarrow> p r \<Longrightarrow> row_key (f r) = row_key r \<or> row_key (f r) = []"
    and "unique_active t"
  shows "unique_active (update_where p f t)"
proof -
  have sub: "set (active_keys (update_where p f u)) \<subseteq> set (active_keys u)" if "set u \<subseteq> set t" for u
    using that
  proof (induction u)
    case (Cons r u)
    then have IH: "set (active_keys (update_where p f u)) \<subseteq> set (active_keys u)" by simp
    have "p r \<Longrightarrow> row_key (f r) = row_key r \<or> row_key (f r) = []"
      using Cons.prems assms(1) by simp
    then have "set (row_key (if p r then f r else r)) \<subseteq> set (row_key r)" by auto
    with IH show ?case
      by (auto simp del: active_keys.simps simp: active_keys_Cons)
  qed simp
  have "distinct (active_keys (update_where p f u))" if "set u \<subseteq> set t" "distinct (active_keys u)" for u
    using that
  proof (induction u)
    case (Cons r u)
    then have IH: "distinct (active_keys (update_where p f u))"
      and disj: "set (row_key r) \<inter> set (active_keys u) = {}"
      by (auto simp del: active_keys.simps simp: active_keys_Cons)
    have "p r \<Longrightarrow> row_key (f r) = row_key r \<or> row_key (f r) = []"
      using Cons.prems assms(1) by simp
    then have "row_key (if p r then f r else r) \<in> {row_key r, []}" by auto
    moreover have "distinct (row_key r)" using row_key_cases [of r] by auto
    moreover have "set (row_key r) \<inter> set (active_keys (update_where p f u)) = {}"
      using sub [of u] Cons.prems(1) disj by auto
    ultimately have "distinct (row_key (if p r then f r else r) @ active_keys (update_where p f u))"
      using IH by (auto simp only: distinct_append distinct.simps list.set)
    then show ?case by (simp del: active_keys.simps add: active_keys_Cons split del: if_split)
  qed simp
  with assms(2) show ?thesis by (simp add: unique_active_def)
qed

lemma unique_active_delete: "unique_active t \<Longrightarrow> unique_active (delete_where p t)"
proof -
  have "set (active_keys (delete_where p t)) \<subseteq> set (active_keys t)"
    by (auto simp: mem_active_keys)
  have "distinct (active_keys t) \<Longrightarrow> distinct (active_keys (delete_where p t))" for t
  proof (induction t)
    case (Cons r t)
    have "set (active_keys (delete_where p t)) \<subseteq> set (active_keys t)"
      by (auto simp: mem_active_keys)
    with Cons show ?case
      by (auto simp: delete_where_def split: option.splits if_splits)
  qed (simp add: delete_where_def)
  then show "unique_active t \<Longrightarrow> unique_active (delete_where p t)" by (simp add: unique_active_def)
qed

section \<open>Well-formedness is kept\<close>

lemma jobs_wf_Nil [simp]: "jobs_wf []"
  by (simp add: jobs_wf_def unique_ids_def unique_active_def)

lemma jobs_wf_status: "jobs_wf t \<Longrightarrow> r \<in> set t \<Longrightarrow> \<exists>s. jr_status r = as_str s"
  by (auto simp: jobs_wf_def list_all_iff from_name_Some_iff)

text \<open>
  Every writer touches one row by id, keeps its id and writes a known status, so only the
  unique index can refuse it; when it does not, the result is well-formed.
\<close>

lemma exec_update_wf:
  assumes "jobs_wf t" "exec_update p f t = Inr (t', n)"
    and "\<And>r. jr_id (f r) = jr_id r" "\<And>r. from_name (jr_status (f r)) \<noteq> None \<or> jr_status (f r) = jr_status r"
  shows "jobs_wf t'"
proof -
  from assms(2) have t': "t' = update_where p f t" and u: "unique_active t'"
    by (auto simp: exec_update_def Let_def split: if_splits)
  have "map jr_id t' = map jr_id t"
    unfolding t' by (rule map_update_where) (simp add: assms(3))
  moreover have "list_all (\<lambda>r. from_name (jr_status r) \<noteq> None) t'"
    using assms(1) assms(4) by (auto simp: t' set_update_where jobs_wf_def list_all_iff split: if_splits) metis
  ultimately show ?thesis using assms(1) u by (simp add: jobs_wf_def unique_ids_def)
qed

lemma exec_update_key_safe:
  assumes "unique_active t"
    and "\<And>r. r \<in> set t \<Longrightarrow> p r \<Longrightarrow> row_key (f r) = row_key r \<or> row_key (f r) = []"
  shows "exec_update p f t = Inr (update_where p f t, count_where p t)"
  using unique_active_update [OF assms(2) assms(1)] by (simp add: exec_update_def)

lemma status_from_name [simp]:
  "from_name ''pending'' = Some Pending" "from_name ''running'' = Some Running"
  "from_name ''completed'' = Some Completed" "from_name ''failed'' = Some Failed"
  "from_name ''stale'' = Some Stale"
  by (simp_all add: from_name_def)

lemma complete_job_eq:
  assumes "unique_active t"
  shows "complete_job c i res t = Inr (update_where (has_id i) (complete_row c res) t)"
  using assms
  by (subst complete_job_def, subst exec_update_key_safe)
     (simp_all add: row_key_inactive is_active_status_def complete_row_def)

lemma fail_job_final_eq:
  assumes "unique_active t"
  shows "fail_job c i e False a t = Inr (update_where (has_id i) (fail_row c e) t)"
  using assms
  by (subst fail_job_def, subst exec_update_key_safe)
     (simp_all add: row_key_inactive is_active_status_def fail_row_def)

lemma mark_stale_eq:
  assumes "unique_active t"
  shows "mark_stale c i e t = Inr (update_where (has_id i) (stale_row c e) t)"
  using assms
  by (subst mark_stale_def, subst exec_update_key_safe)
     (simp_all add: row_key_inactive is_active_status_def stale_row_def)

lemma update_heartbeat_eq:
  assumes "unique_active t"
  shows "update_heartbeat c i t =
    Inr (update_where (has_id i) (\<lambda>r. r\<lparr>jr_heartbeat_at := Some (clk_now c)\<rparr>) t)"
  using assms
  by (subst update_heartbeat_def, subst exec_update_key_safe) (simp_all add: row_key_def split: option.splits)

lemma row_key_retry:
  assumes "is_active_status (jr_status r)"
  shows "row_key (retry_row c e d r) = row_key r"
  using assms by (simp add: row_key_def retry_row_def is_active_status_def split: option.splits)

text \<open>A retry of a row that is still pending or running never meets the unique index.\<close>

lemma fail_job_retry_eq:
  assumes "unique_active t" "\<And>r. r \<in> set t \<Longrightarrow> jr_id r = i \<Longrightarrow> is_active_status (jr_status r)"
  shows "fail_job c i e True a t = Inr (update_where (has_id i) (retry_row c e (backoff_seconds a)) t)"
proof -
  have "exec_update (has_id i) (retry_row c e (backoff_seconds a)) t =
      Inr (update_where (has_id i) (retry_row c e (backoff_seconds a)) t, count_where (has_id i) t)"
    using assms by (intro exec_update_key_safe) (auto simp: row_key_retry has_id_def)
  then show ?thesis by (simp add: fail_job_def)
qed

lemma complete_job_wf: "jobs_wf t \<Longrightarrow> complete_job c i res t = Inr t' \<Longrightarrow> jobs_wf t'"
  by (auto simp: complete_job_def result_simps intro: exec_update_wf simp: complete_row_def)

lemma mark_stale_wf: "jobs_wf t \<Longrightarrow> mark_stale c i e t = Inr t' \<Longrightarrow> jobs_wf t'"
  by (auto simp: mark_stale_def result_simps intro: exec_update_wf simp: stale_row_def)

lemma fail_job_wf: "jobs_wf t \<Longrightarrow> fail_job c i e retry a t = Inr t' \<Longrightarrow> jobs_wf t'"
  by (auto simp: fail_job_def result_simps split: if_splits intro: exec_update_wf
      simp: retry_row_def fail_row_def)

lemma update_heartbeat_wf: "jobs_wf t \<Longrightarrow> update_heartbeat c i t = Inr t' \<Longrightarrow> jobs_wf t'"
  by (auto simp: update_heartbeat_def result_simps intro: exec_update_wf)

lemma delete_where_wf: "jobs_wf t \<Longrightarrow> jobs_wf (delete_where p t)"
  by (auto simp: jobs_wf_def unique_ids_def unique_active_delete distinct_delete_where list_all_iff)

lemma new_row_sel [simp]:
  "jr_id (new_row c i opts) = i" "jr_slug (new_row c i opts) = o_slug opts"
  "jr_status (new_row c i opts) = ''pending''" "jr_unique_key (new_row c i opts) = o_unique_key opts"
  "jr_attempt (new_row c i opts) = 0" "jr_max_attempts (new_row c i opts) = uint (o_max_attempts opts)"
  by (simp_all add: new_row_def Let_def)

lemma insert_job_with_wf:
  assumes "jobs_wf t" "insert_job_with c i opts t = Inr (t', ij)"
  shows "jobs_wf t'"
proof (cases "i \<notin> jr_id ` set t \<and> \<not> unique_conflict opts t")
  case True
  with assms have t': "t' = t @ [new_row c i opts]" by (auto simp: insert_job_with_def)
  have "unique_active t'"
    using assms(1) True
    by (auto simp: t' unique_active_def active_keys_append jobs_wf_def unique_conflict_def
        is_active_status_def split: option.splits)
  with assms(1) True show ?thesis
    by (auto simp: t' jobs_wf_def unique_ids_def)
next
  case False
  with assms show ?thesis
    by (auto simp: insert_job_with_def Let_def split: if_splits option.splits)
qed

end
