(* ===== verification/JobClaim.thy ===== *)
theory JobClaim
  imports Complex_Main JobQueue
begin

text \<open>
  The atomic claim of pending jobs (src/src/db/query/jobs/claim.rs): one SELECT of due rows
  in priority order, then a loop that checks the per-slug and the per-queue cap of each
  candidate and marks it running.  The loop is proved to implement a greedy selection over
  the candidates (\<open>greedy\<close>), from which the caps, the limit and the ordering follow.
\<close>

section \<open>Candidates\<close>

text \<open>
  \<open>priority_order_by\<close>: with \<open>decay_secs = 0\<close> the key is \<open>priority DESC, created_at ASC\<close>, else
  the age in seconds divided by the decay is added to the priority.  The engine computes
  that sum in floating point; here it is the rational number.
\<close>

definition effective_priority :: "int \<Rightarrow> u64 \<Rightarrow> job_row \<Rightarrow> rat" where
  "effective_priority now decay_secs r =
     (if decay_secs = 0 then of_int (jr_priority r)
      else of_int (jr_priority r) + of_int (now - jr_created_at r) / of_int (uint decay_secs))"

definition priority_order_by :: "int \<Rightarrow> u64 \<Rightarrow> job_row \<Rightarrow> rat \<times> int" where
  "priority_order_by now decay_secs r = (- effective_priority now decay_secs r, jr_created_at r)"

definition is_due :: "clock \<Rightarrow> job_row \<Rightarrow> bool" where
  "is_due c r \<longleftrightarrow> jr_status r = ''pending'' \<and>
     (case jr_retry_after r of None \<Rightarrow> True | Some a \<Rightarrow> a \<le> clk_now c)"

text \<open>\<open>LIMIT limit.saturating_mul(2)\<close>, as an \<open>i64\<close>.\<close>

definition fetch_limit :: "nat \<Rightarrow> nat" where
  "fetch_limit limit =
     nat (unwrap_or i64_max (i64_try_from (min (2 * int limit) (2 ^ 64 - 1))))"

definition candidates :: "clock \<Rightarrow> nat \<Rightarrow> u64 \<Rightarrow> job_table \<Rightarrow> job_row list" where
  "candidates c limit decay_secs t =
     take (fetch_limit limit) (sort_key (priority_order_by (clk_now c) decay_secs) (filter (is_due c) t))"

section \<open>The claim loop\<close>

definition per_slug_cap :: "string \<Rightarrow> (string \<rightharpoonup> u32) \<Rightarrow> u32" where
  "per_slug_cap slug job_concurrency = unwrap_or (- 1) (job_concurrency slug)"

text \<open>\<open>parse_job_row\<close>, on the columns of the claim's SELECT.\<close>

definition parse_job_row :: "job_row \<Rightarrow> job_run" where
  "parse_job_row r =
     (job_run_builder (jr_id r) (jr_slug r))
       \<lparr>run_status := Running, run_queue := jr_queue r, run_data := unwrap_or ''{}'' (jr_data r),
        run_attempt := unwrap_or 0 (u32_try_from (jr_attempt r)),
        run_max_attempts := unwrap_or 1 (u32_try_from (jr_max_attempts r)),
        run_priority := unwrap_or 0 (i32_try_from (jr_priority r)),
        run_scheduled_by := jr_scheduled_by r,
        run_created_at := Some (jr_created_at r),
        run_unique_key := jr_unique_key r\<rparr>"

record claim_cfg =
  cc_limit :: nat
  cc_job_concurrency :: "string \<rightharpoonup> u32"
  cc_queue_concurrency :: "string \<rightharpoonup> u32"
  cc_running_per_slug :: "string \<rightharpoonup> int"
  cc_running_per_queue :: "string \<rightharpoonup> int"

record claim_state =
  cs_table :: job_table
  cs_claimed :: "job_run list"
  cs_extra_per_slug :: "string \<rightharpoonup> int"
  cs_extra_per_queue :: "string \<rightharpoonup> int"

definition map_count :: "(string \<rightharpoonup> int) \<Rightarrow> string \<Rightarrow> int" where
  "map_count m k = unwrap_or 0 (m k)"

definition bump :: "(string \<rightharpoonup> int) \<Rightarrow> string \<Rightarrow> (string \<rightharpoonup> int)" where
  "bump m k = m(k \<mapsto> map_count m k + 1)"

definition slug_full :: "claim_cfg \<Rightarrow> (string \<rightharpoonup> int) \<Rightarrow> string \<Rightarrow> bool" where
  "slug_full cfg extra slug \<longleftrightarrow>
     uint (per_slug_cap slug (cc_job_concurrency cfg))
       \<le> map_count (cc_running_per_slug cfg) slug + map_count extra slug"

definition queue_full :: "claim_cfg \<Rightarrow> (string \<rightharpoonup> int) \<Rightarrow> string \<Rightarrow> bool" where
  "queue_full cfg extra queue \<longleftrightarrow>
     (case cc_queue_concurrency cfg queue of
        None \<Rightarrow> False
      | Some cap \<Rightarrow> 0 < cap \<and>
          uint cap \<le> map_count (cc_running_per_queue cfg) queue + map_count extra queue)"

definition start_row :: "clock \<Rightarrow> job_row \<Rightarrow> job_row" where
  "start_row c r =
     r\<lparr>jr_status := ''running'', jr_started_at := Some (clk_now c),
       jr_heartbeat_at := Some (clk_now c), jr_attempt := jr_attempt r + 1\<rparr>"

text \<open>The body of the loop for one candidate row.\<close>

definition claim_row :: "clock \<Rightarrow> claim_cfg \<Rightarrow> job_row \<Rightarrow> claim_state \<Rightarrow> job_error + claim_state" where
  "claim_row c cfg row st =
     (let slug = jr_slug row; queue = jr_queue row
      in if slug_full cfg (cs_extra_per_slug st) slug then Inr st
         else if queue_full cfg (cs_extra_per_queue st) queue then Inr st
         else bindE (exec_update (\<lambda>r. jr_id r = jr_id row \<and> jr_status r = ''pending'')
                       (start_row c) (cs_table st)) (\<lambda>(t', affected).
           if 0 < affected
           then let job = parse_job_row row
                in Inr \<lparr>cs_table = t',
                        cs_claimed = cs_claimed st @ [job\<lparr>run_attempt := run_attempt job + 1\<rparr>],
                        cs_extra_per_slug = bump (cs_extra_per_slug st) slug,
                        cs_extra_per_queue = bump (cs_extra_per_queue st) queue\<rparr>
           else Inr (st\<lparr>cs_table := t'\<rparr>)))"

fun claim_loop :: "clock \<Rightarrow> claim_cfg \<Rightarrow> job_row list \<Rightarrow> claim_state \<Rightarrow> job_error + claim_state" where
  "claim_loop c cfg [] st = Inr st"
| "claim_loop c cfg (row # rows) st =
     (if cc_limit cfg \<le> length (cs_claimed st) then Inr st
      else bindE (claim_row c cfg row st) (claim_loop c cfg rows))"

definition claim_pending_jobs ::
  "clock \<Rightarrow> nat \<Rightarrow> (string \<rightharpoonup> u32) \<Rightarrow> (string \<rightharpoonup> u32) \<Rightarrow> u64 \<Rightarrow> job_table
     \<Rightarrow> job_error + job_table \<times> job_run list" where
  "claim_pending_jobs c limit job_concurrency queue_concurrency decay_secs t =
     (let rows = candidates c limit decay_secs t;
          cfg = \<lparr>cc_limit = limit, cc_job_concurrency = job_concurrency,
                 cc_queue_concurrency = queue_concurrency,
                 cc_running_per_slug = count_running_per_slug t,
                 cc_running_per_queue = count_running_per_queue t\<rparr>
      in bindE (claim_loop c cfg rows
                  \<lparr>cs_table = t, cs_claimed = [], cs_extra_per_slug = Map.empty,
                   cs_extra_per_queue = Map.empty\<rparr>)
           (\<lambda>st. Inr (cs_table st, cs_claimed st)))"

section \<open>The abstract selection\<close>

text \<open>
  What the claim promises, without tables: walk the candidates in order and take each one
  whose slug and queue still have room, until the limit is reached.
\<close>

fun greedy :: "claim_cfg \<Rightarrow> nat \<Rightarrow> (string \<rightharpoonup> int) \<Rightarrow> (string \<rightharpoonup> int) \<Rightarrow> job_row list \<Rightarrow> job_row list" where
  "greedy cfg n es eq [] = []"
| "greedy cfg n es eq (r # rs) =
     (if n = 0 then []
      else if slug_full cfg es (jr_slug r) \<or> queue_full cfg eq (jr_queue r) then greedy cfg n es eq rs
      else r # greedy cfg (n - 1) (bump es (jr_slug r)) (bump eq (jr_queue r)) rs)"

definition claimed_run :: "job_row \<Rightarrow> job_run" where
  "claimed_run r = (parse_job_row r)\<lparr>run_attempt := run_attempt (parse_job_row r) + 1\<rparr>"

definition mark_claimed :: "clock \<Rightarrow> string set \<Rightarrow> job_table \<Rightarrow> job_table" where
  "mark_claimed c ids t = update_where (\<lambda>r. jr_id r \<in> ids) (start_row c) t"

lemma set_greedy: "set (greedy cfg n es eq rs) \<subseteq> set rs"
  by (induction cfg n es eq rs rule: greedy.induct) auto

lemma length_greedy: "length (greedy cfg n es eq rs) \<le> n"
  by (induction cfg n es eq rs rule: greedy.induct) auto

lemma distinct_greedy: "distinct (map f rs) \<Longrightarrow> distinct (map f (greedy cfg n es eq rs))"
proof (induction cfg n es eq rs rule: greedy.induct)
  case (2 cfg n es eq r rs)
  have "set (greedy cfg m es' eq' rs) \<subseteq> set rs" for m es' eq' by (rule set_greedy)
  with 2 show ?case by (auto simp: image_iff) blast
qed simp

lemma sorted_greedy: "sorted (map f rs) \<Longrightarrow> sorted (map f (greedy cfg n es eq rs))"
proof (induction cfg n es eq rs rule: greedy.induct)
  case (2 cfg n es eq r rs)
  have "set (greedy cfg m es' eq' rs) \<subseteq> set rs" for m es' eq' by (rule set_greedy)
  with 2 show ?case by (auto simp: subset_iff)
qed simp

lemma mark_claimed_empty [simp]: "mark_claimed c {} t = t"
  by (simp add: mark_claimed_def update_where_id)

lemma start_row_sel [simp]:
  "jr_id (start_row c r) = jr_id r" "jr_slug (start_row c r) = jr_slug r"
  "jr_queue (start_row c r) = jr_queue r" "jr_unique_key (start_row c r) = jr_unique_key r"
  "jr_status (start_row c r) = ''running''" "jr_attempt (start_row c r) = jr_attempt r + 1"
  "jr_max_attempts (start_row c r) = jr_max_attempts r"
  by (simp_all add: start_row_def)

lemma mark_claimed_insert:
  "i \<notin> ids \<Longrightarrow> mark_claimed c ids (mark_claimed c {i} t) = mark_claimed c (insert i ids) t"
  by (induction t) (auto simp: mark_claimed_def)

lemma map_id_mark_claimed [simp]: "map jr_id (mark_claimed c ids t) = map jr_id t"
  unfolding mark_claimed_def by (rule map_update_where) simp

lemma mark_claimed_other: "r \<in> set t \<Longrightarrow> jr_id r \<notin> ids \<Longrightarrow> r \<in> set (mark_claimed c ids t)"
  by (auto simp: mark_claimed_def set_update_where image_iff)

text \<open>The UPDATE of one candidate, while it is still pending in the table.\<close>

lemma claim_update_eq:
  assumes "unique_ids t" "unique_active t" "row \<in> set t" "jr_status row = ''pending''"
  shows "exec_update (\<lambda>r. jr_id r = jr_id row \<and> jr_status r = ''pending'') (start_row c) t
       = Inr (mark_claimed c {jr_id row} t, 1)"
proof -
  have eq: "jr_id r = jr_id row \<and> jr_status r = ''pending'' \<longleftrightarrow> r = row" if "r \<in> set t" for r
    using that assms distinct_key_unique [of jr_id t r row] by (auto simp: unique_ids_def)
  have "exec_update (\<lambda>r. jr_id r = jr_id row \<and> jr_status r = ''pending'') (start_row c) t =
      Inr (update_where (\<lambda>r. jr_id r = jr_id row \<and> jr_status r = ''pending'') (start_row c) t,
           count_where (\<lambda>r. jr_id r = jr_id row \<and> jr_status r = ''pending'') t)"
    using assms(2) by (intro exec_update_key_safe)
      (auto simp: row_key_def is_active_status_def split: option.splits)
  moreover have "update_where (\<lambda>r. jr_id r = jr_id row \<and> jr_status r = ''pending'') (start_row c) t
      = mark_claimed c {jr_id row} t"
    using eq assms distinct_key_unique [of jr_id t _ row]
    by (auto simp: mark_claimed_def update_where_def unique_ids_def)
  moreover have "count_where (\<lambda>r. jr_id r = jr_id row \<and> jr_status r = ''pending'') t = 1"
  proof -
    have "count_where (\<lambda>r. jr_id r = jr_id row \<and> jr_status r = ''pending'') t = count_where (\<lambda>r. r = row) t"
      unfolding count_where_def by (rule arg_cong [where f = length], rule filter_cong) (simp_all add: eq)
    moreover have "distinct t" using assms(1) by (simp add: unique_ids_def distinct_map)
    ultimately show ?thesis using assms(3) by (simp add: count_where_eq_one)
  qed
  ultimately show ?thesis by simp
qed

lemma mark_claimed_unique_active:
  assumes "unique_ids t" "unique_active t" "row \<in> set t" "jr_status row = ''pending''"
  shows "unique_active (mark_claimed c {jr_id row} t)"
  using claim_update_eq [OF assms, of c] by (auto simp: exec_update_def Let_def split: if_splits)

text \<open>The loop implements the greedy selection.\<close>

lemma claim_loop_greedy:
  assumes "unique_ids (cs_table st)" "unique_active (cs_table st)" "distinct (map jr_id rows)"
    and "\<And>r. r \<in> set rows \<Longrightarrow> r \<in> set (cs_table st) \<and> jr_status r = ''pending''"
  shows "\<exists>st'. claim_loop c cfg rows st = Inr st' \<and>
      (let G = greedy cfg (cc_limit cfg - length (cs_claimed st))
                 (cs_extra_per_slug st) (cs_extra_per_queue st) rows
       in cs_table st' = mark_claimed c (jr_id ` set G) (cs_table st) \<and>
          cs_claimed st' = cs_claimed st @ map claimed_run G)"
  using assms
proof (induction rows arbitrary: st)
  case Nil
  then show ?case by simp
next
  case (Cons r rows)
  let ?n = "cc_limit cfg - length (cs_claimed st)"
  consider (full) "?n = 0"
    | (skip) "?n \<noteq> 0" "slug_full cfg (cs_extra_per_slug st) (jr_slug r) \<or>
        queue_full cfg (cs_extra_per_queue st) (jr_queue r)"
    | (take) "?n \<noteq> 0" "\<not> slug_full cfg (cs_extra_per_slug st) (jr_slug r)"
        "\<not> queue_full cfg (cs_extra_per_queue st) (jr_queue r)"
    by blast
  then show ?case
  proof cases
    case full
    then show ?thesis by simp
  next
    case skip
    then have "claim_row c cfg r st = Inr st" by (auto simp: claim_row_def Let_def)
    with skip Cons.IH [of st] Cons.prems show ?thesis by simp
  next
    case take
    let ?t = "mark_claimed c {jr_id r} (cs_table st)"
    let ?st = "\<lparr>cs_table = ?t, cs_claimed = cs_claimed st @ [claimed_run r],
      cs_extra_per_slug = bump (cs_extra_per_slug st) (jr_slug r),
      cs_extra_per_queue = bump (cs_extra_per_queue st) (jr_queue r)\<rparr>"
    have r: "r \<in> set (cs_table st)" "jr_status r = ''pending''" using Cons.prems(4) by auto
    have step: "claim_row c cfg r st = Inr ?st"
      using take claim_update_eq [OF Cons.prems(1,2) r, of c]
      by (simp add: claim_row_def claimed_run_def Let_def)
    have "\<And>x. x \<in> set rows \<Longrightarrow> x \<in> set ?t \<and> jr_status x = ''pending''"
      using Cons.prems(3,4) by (auto intro!: mark_claimed_other simp: image_iff)
    moreover have "unique_ids ?t" using Cons.prems(1) by (simp add: unique_ids_def)
    moreover have "unique_active ?t"
      using mark_claimed_unique_active [OF Cons.prems(1,2) r] .
    ultimately obtain st' where st': "claim_loop c cfg rows ?st = Inr st'"
      "cs_table st' = mark_claimed c (jr_id ` set (greedy cfg (?n - 1)
         (bump (cs_extra_per_slug st) (jr_slug r)) (bump (cs_extra_per_queue st) (jr_queue r)) rows)) ?t"
      "cs_claimed st' = (cs_claimed st @ [claimed_run r]) @ map claimed_run (greedy cfg (?n - 1)
         (bump (cs_extra_per_slug st) (jr_slug r)) (bump (cs_extra_per_queue st) (jr_queue r)) rows)"
      using Cons.IH [of ?st] Cons.prems(3) by (auto simp: Let_def diff_diff_left)
    have "jr_id r \<notin> jr_id ` set (greedy cfg (?n - 1) (bump (cs_extra_per_slug st) (jr_slug r))
        (bump (cs_extra_per_queue st) (jr_queue r)) rows)"
      using Cons.prems(3) set_greedy by fastforce
    with take step st' show ?thesis
      by (simp add: mark_claimed_insert Let_def)
  qed
qed

section \<open>The claim as a whole\<close>

definition claim_config :: "nat \<Rightarrow> (string \<rightharpoonup> u32) \<Rightarrow> (string \<rightharpoonup> u32) \<Rightarrow> job_table \<Rightarrow> claim_cfg" where
  "claim_config limit jc qc t =
     \<lparr>cc_limit = limit, cc_job_concurrency = jc, cc_queue_concurrency = qc,
      cc_running_per_slug = count_running_per_slug t,
      cc_running_per_queue = count_running_per_queue t\<rparr>"

definition claim_selection ::
  "clock \<Rightarrow> nat \<Rightarrow> (string \<rightharpoonup> u32) \<Rightarrow> (string \<rightharpoonup> u32) \<Rightarrow> u64 \<Rightarrow> job_table \<Rightarrow> job_row list" where
  "claim_selection c limit jc qc decay t =
     greedy (claim_config limit jc qc t) limit Map.empty Map.empty (candidates c limit decay t)"

lemma set_candidates: "set (candidates c limit decay t) \<subseteq> {r \<in> set t. is_due c r}"
  by (auto simp: candidates_def dest: in_set_takeD)

lemma distinct_candidates: "unique_ids t \<Longrightarrow> distinct (map jr_id (candidates c limit decay t))"
proof -
  assume "unique_ids t"
  then have "distinct (map jr_id (filter (is_due c) t))"
    by (simp add: unique_ids_def distinct_map_filter)
  then have "distinct (map jr_id (sort_key (priority_order_by (clk_now c) decay) (filter (is_due c) t)))"
    by (simp add: distinct_map)
  then show ?thesis by (simp add: candidates_def take_map [symmetric])
qed

lemma set_claim_selection:
  "r \<in> set (claim_selection c limit jc qc decay t) \<Longrightarrow> r \<in> set t \<and> is_due c r"
  using set_greedy set_candidates by (fastforce simp: claim_selection_def)

lemma distinct_claim_selection:
  "unique_ids t \<Longrightarrow> distinct (map jr_id (claim_selection c limit jc qc decay t))"
  by (simp add: claim_selection_def distinct_greedy distinct_candidates)

lemma claim_pending_jobs_eq:
  assumes "jobs_wf t"
  shows "claim_pending_jobs c limit jc qc decay t =
    Inr (mark_claimed c (jr_id ` set (claim_selection c limit jc qc decay t)) t,
         map claimed_run (claim_selection c limit jc qc decay t))"
proof -
  have "unique_ids t" "unique_active t" using assms by (simp_all add: jobs_wf_def)
  moreover have "\<And>r. r \<in> set (candidates c limit decay t) \<Longrightarrow> r \<in> set t \<and> jr_status r = ''pending''"
    using set_candidates by (fastforce simp: is_due_def)
  ultimately show ?thesis
    using claim_loop_greedy [where rows = "candidates c limit decay t" and c = c
        and cfg = "claim_config limit jc qc t"
        and st = "\<lparr>cs_table = t, cs_claimed = [], cs_extra_per_slug = Map.empty,
                   cs_extra_per_queue = Map.empty\<rparr>"] distinct_candidates
    by (auto simp: claim_pending_jobs_def claim_selection_def claim_config_def Let_def)
qed

text \<open>How the claim changes a count of running rows.\<close>

lemma count_filter_ids:
  assumes "unique_ids t" "distinct (map jr_id G)" "set G \<subseteq> set t"
  shows "count_where (\<lambda>r. P r \<and> jr_id r \<in> jr_id ` set G) t = length (filter P G)"
proof -
  have "jr_id r \<in> jr_id ` set G \<longleftrightarrow> r \<in> set G" if "r \<in> set t" for r
    using that assms distinct_key_unique [of jr_id t r] by (auto simp: unique_ids_def)
  then have "set (filter (\<lambda>r. P r \<and> jr_id r \<in> jr_id ` set G) t) = set (filter P G)"
    using assms(3) by auto
  moreover have "distinct (filter (\<lambda>r. P r \<and> jr_id r \<in> jr_id ` set G) t)" "distinct (filter P G)"
    using assms by (auto simp: unique_ids_def distinct_map)
  ultimately show ?thesis unfolding count_where_def by (metis distinct_card)
qed

lemma count_running_mark_claimed:
  assumes "unique_ids t" "distinct (map jr_id G)"
    and "\<And>r. r \<in> set G \<Longrightarrow> r \<in> set t \<and> jr_status r = ''pending''"
    and "\<And>r. P (start_row c r) = P r"
  shows "count_where (\<lambda>r. jr_status r = ''running'' \<and> P r) (mark_claimed c (jr_id ` set G) t)
       = count_where (\<lambda>r. jr_status r = ''running'' \<and> P r) t + length (filter P G)"
proof -
  have split: "count_where (\<lambda>r. jr_status r = ''running'' \<and> P r) (mark_claimed c (jr_id ` set G) u)
       = count_where (\<lambda>r. jr_status r = ''running'' \<and> P r) u
         + count_where (\<lambda>r. P r \<and> jr_id r \<in> jr_id ` set G) u"
    if "set u \<subseteq> set t" for u
    using that
  proof (induction u)
    case (Cons r u)
    have "jr_status r \<noteq> ''running''" if "jr_id r \<in> jr_id ` set G"
    proof -
      from that obtain g where "g \<in> set G" "jr_id g = jr_id r" by auto
      with assms(1,3) Cons.prems have "g = r"
        by (auto simp: unique_ids_def intro: distinct_key_unique)
      with \<open>g \<in> set G\<close> assms(3) show ?thesis by auto
    qed
    with Cons assms(4) show ?case by (auto simp: mark_claimed_def)
  qed (simp add: mark_claimed_def)
  have "set G \<subseteq> set t" using assms(3) by auto
  with split [of t] count_filter_ids [OF assms(1,2)] show ?thesis by simp
qed

lemma map_count_bump [simp]: "map_count (bump m k) j = map_count m j + (if j = k then 1 else 0)"
  by (simp add: map_count_def bump_def)

lemma greedy_slug_cap:
  "map_count (cc_running_per_slug cfg) s + map_count es s
     + int (length (filter (\<lambda>r. jr_slug r = s) (greedy cfg n es eq rs)))
   \<le> max (map_count (cc_running_per_slug cfg) s + map_count es s)
         (uint (per_slug_cap s (cc_job_concurrency cfg)))"
proof (induction cfg n es eq rs rule: greedy.induct)
  case (2 cfg n es eq r rs)
  then show ?case by (auto simp: slug_full_def)
qed simp

lemma greedy_queue_cap:
  assumes "cc_queue_concurrency cfg q = Some cap" "0 < cap"
  shows "map_count (cc_running_per_queue cfg) q + map_count eq q
     + int (length (filter (\<lambda>r. jr_queue r = q) (greedy cfg n es eq rs)))
   \<le> max (map_count (cc_running_per_queue cfg) q + map_count eq q) (uint cap)"
  using assms
proof (induction cfg n es eq rs rule: greedy.induct)
  case (2 cfg n es eq r rs)
  then show ?case by (auto simp: queue_full_def)
qed simp

text \<open>Every candidate left behind met a full slug, a full queue or the limit.\<close>

lemma slug_full_mono: "slug_full cfg es s \<Longrightarrow> map_count es s \<le> map_count es' s \<Longrightarrow> slug_full cfg es' s"
  by (simp add: slug_full_def)

definition total :: "(string \<rightharpoonup> int) \<Rightarrow> (job_row \<Rightarrow> string) \<Rightarrow> job_row list \<Rightarrow> string \<Rightarrow> int" where
  "total m k G x = map_count m x + int (length (filter (\<lambda>r. k r = x) G))"

lemma greedy_maximal:
  assumes "r \<in> set rs" "r \<notin> set (greedy cfg n es eq rs)"
  shows "length (greedy cfg n es eq rs) = n \<or>
     uint (per_slug_cap (jr_slug r) (cc_job_concurrency cfg))
        \<le> map_count (cc_running_per_slug cfg) (jr_slug r)
          + total es jr_slug (greedy cfg n es eq rs) (jr_slug r) \<or>
     (\<exists>cap. cc_queue_concurrency cfg (jr_queue r) = Some cap \<and> 0 < cap \<and>
        uint cap \<le> map_count (cc_running_per_queue cfg) (jr_queue r)
          + total eq jr_queue (greedy cfg n es eq rs) (jr_queue r))"
  using assms
proof (induction cfg n es eq rs rule: greedy.induct)
  case (2 cfg n es eq x rs)
  show ?case
  proof (cases "n = 0")
    case False
    show ?thesis
    proof (cases "slug_full cfg es (jr_slug x) \<or> queue_full cfg eq (jr_queue x)")
      case True
      show ?thesis
      proof (cases "r = x")
        case True
        with \<open>slug_full cfg es (jr_slug x) \<or> queue_full cfg eq (jr_queue x)\<close> False show ?thesis
          by (auto simp: slug_full_def queue_full_def total_def split: option.splits)
      next
        case nx: False
        with True False 2 show ?thesis by simp
      qed
    next
      case nf: False
      with False 2 have "length (greedy cfg (n - 1) (bump es (jr_slug x)) (bump eq (jr_queue x)) rs) = n - 1 \<or>
        uint (per_slug_cap (jr_slug r) (cc_job_concurrency cfg))
          \<le> map_count (cc_running_per_slug cfg) (jr_slug r)
            + total (bump es (jr_slug x)) jr_slug (greedy cfg (n - 1) (bump es (jr_slug x)) (bump eq (jr_queue x)) rs) (jr_slug r) \<or>
        (\<exists>cap. cc_queue_concurrency cfg (jr_queue r) = Some cap \<and> 0 < cap \<and>
          uint cap \<le> map_count (cc_running_per_queue cfg) (jr_queue r)
            + total (bump eq (jr_queue x)) jr_queue (greedy cfg (n - 1) (bump es (jr_slug x)) (bump eq (jr_queue x)) rs) (jr_queue r))"
        by auto
      with False nf show ?thesis by (auto simp: total_def)
    qed
  qed simp
qed simp

section \<open>Properties\<close>

text \<open>A small queue for the witnesses: two pending runs and one running run of the same slug.\<close>

definition sample_row :: "string \<Rightarrow> string \<Rightarrow> string \<Rightarrow> int \<Rightarrow> int \<Rightarrow> job_row" where
  "sample_row i slug st prio created =
     (new_row (sqlite_clock created) i
        \<lparr>o_slug = slug, o_data = ''{}'', o_scheduled_by = ''hook'', o_max_attempts = 3,
         o_queue = ''default'', o_priority = prio, o_delay_secs = 0, o_unique_key = None\<rparr>)
       \<lparr>jr_status := st\<rparr>"

definition sample_jobs :: job_table where
  "sample_jobs = [sample_row ''a'' ''mail'' ''pending'' 0 100,
                  sample_row ''b'' ''mail'' ''pending'' 5 200,
                  sample_row ''c'' ''mail'' ''running'' 0 50]"

lemma sample_jobs_wf: "jobs_wf sample_jobs"
  by (simp add: sample_jobs_def sample_row_def new_row_def jobs_wf_def unique_ids_def
      unique_active_def is_active_status_def Let_def)

text \<open>
  C10: On a well-formed job table \<open>claim_pending_jobs\<close> never fails, and it implements the
  abstract greedy selection: exactly the selected rows become running (with the claim time
  and one more attempt), every other row is untouched, and the runs returned are the
  selected rows in selection order.
\<close>
theorem claim_refines_greedy:
  assumes "jobs_wf t"
  shows "claim_pending_jobs c limit jc qc decay t =
    Inr (mark_claimed c (jr_id ` set (claim_selection c limit jc qc decay t)) t,
         map claimed_run (claim_selection c limit jc qc decay t))"
  using assms by (rule claim_pending_jobs_eq)

theorem claim_refines_greedy_witness:
  "jobs_wf sample_jobs \<and>
   claim_pending_jobs (sqlite_clock 300) 2 (Map.empty(''mail'' \<mapsto> 2)) Map.empty 0 sample_jobs =
     Inr (mark_claimed (sqlite_clock 300)
            (jr_id ` set (claim_selection (sqlite_clock 300) 2 (Map.empty(''mail'' \<mapsto> 2)) Map.empty 0 sample_jobs)) sample_jobs,
          map claimed_run (claim_selection (sqlite_clock 300) 2 (Map.empty(''mail'' \<mapsto> 2)) Map.empty 0 sample_jobs))"
  using sample_jobs_wf claim_refines_greedy [OF sample_jobs_wf] by blast

lemma count_running_per_slug_total:
  "map_count (count_running_per_slug t) s = count_running (Some s) t"
  by (simp add: map_count_def count_running_per_slug_def count_running_def Let_def)

definition count_running_queue :: "string \<Rightarrow> job_table \<Rightarrow> int" where
  "count_running_queue q t = int (count_where (\<lambda>r. jr_status r = ''running'' \<and> jr_queue r = q) t)"

lemma count_running_per_queue_total:
  "map_count (count_running_per_queue t) q = count_running_queue q t"
  by (simp add: map_count_def count_running_per_queue_def count_running_queue_def Let_def)

lemma claim_counts:
  assumes "jobs_wf t" "claim_pending_jobs c limit jc qc decay t = Inr (t', runs)"
  defines "G \<equiv> claim_selection c limit jc qc decay t"
  shows "count_running (Some s) t' = count_running (Some s) t + int (length (filter (\<lambda>r. jr_slug r = s) G))"
    and "count_running_queue q t' = count_running_queue q t + int (length (filter (\<lambda>r. jr_queue r = q) G))"
    and "count_running None t' = count_running None t + int (length G)"
proof -
  have t': "t' = mark_claimed c (jr_id ` set G) t"
    using assms(2) claim_pending_jobs_eq [OF assms(1)] by (simp add: G_def)
  have "unique_ids t" using assms(1) by (simp add: jobs_wf_def)
  then have d: "distinct (map jr_id G)" by (simp add: G_def distinct_claim_selection)
  have G: "\<And>r. r \<in> set G \<Longrightarrow> r \<in> set t \<and> jr_status r = ''pending''"
    using set_claim_selection by (auto simp: G_def is_due_def)
  note count = count_running_mark_claimed [OF \<open>unique_ids t\<close> d G, of _ c]
  show "count_running (Some s) t' = count_running (Some s) t + int (length (filter (\<lambda>r. jr_slug r = s) G))"
    using count [of "\<lambda>r. jr_slug r = s"] by (simp add: count_running_def t')
  show "count_running_queue q t' = count_running_queue q t + int (length (filter (\<lambda>r. jr_queue r = q) G))"
    using count [of "\<lambda>r. jr_queue r = q"] by (simp add: count_running_queue_def t')
  show "count_running None t' = count_running None t + int (length G)"
    using count [of "\<lambda>_. True"] by (simp add: count_running_def t')
qed

lemma claim_slug_cap:
  assumes "jobs_wf t" "claim_pending_jobs c limit jc qc decay t = Inr (t', runs)"
  shows "count_running (Some s) t' \<le> max (count_running (Some s) t) (uint (per_slug_cap s jc))"
  using greedy_slug_cap [of "claim_config limit jc qc t" s Map.empty limit Map.empty "candidates c limit decay t"]
    claim_counts(1) [OF assms, of s]
  by (simp add: claim_selection_def claim_config_def count_running_per_slug_total) (simp add: map_count_def)

lemma claim_queue_cap:
  assumes "jobs_wf t" "claim_pending_jobs c limit jc qc decay t = Inr (t', runs)" "qc q = Some cap" "0 < cap"
  shows "count_running_queue q t' \<le> max (count_running_queue q t) (uint cap)"
  using greedy_queue_cap [of "claim_config limit jc qc t" q cap Map.empty limit Map.empty "candidates c limit decay t"]
    claim_counts(2) [OF assms(1,2), of q] assms(3,4)
  by (simp add: claim_selection_def claim_config_def count_running_per_queue_total) (simp add: map_count_def)

text \<open>
  C31: A claim keeps every concurrency limit: no slug runs more often than its cap (or than it
  already did), no capped queue either, and no more than \<open>limit\<close> runs are started, so the
  number of running rows grows by exactly the runs returned.
\<close>
theorem claim_respects_caps:
  assumes "jobs_wf t" "claim_pending_jobs c limit jc qc decay t = Inr (t', runs)"
  shows "(\<forall>s. count_running (Some s) t' \<le> max (count_running (Some s) t) (uint (per_slug_cap s jc))) \<and>
    (\<forall>q cap. qc q = Some cap \<and> 0 < cap \<longrightarrow>
       count_running_queue q t' \<le> max (count_running_queue q t) (uint cap)) \<and>
    length runs \<le> limit \<and>
    count_running None t' = count_running None t + int (length runs)"
proof (intro conjI allI impI)
  show "count_running (Some s) t' \<le> max (count_running (Some s) t) (uint (per_slug_cap s jc))" for s
    using assms by (rule claim_slug_cap)
  show "count_running_queue q t' \<le> max (count_running_queue q t) (uint cap)"
    if "qc q = Some cap \<and> 0 < cap" for q cap
    using claim_queue_cap [OF assms] that by blast
  have runs: "runs = map claimed_run (claim_selection c limit jc qc decay t)"
    using assms claim_pending_jobs_eq [OF assms(1)] by simp
  show "length runs \<le> limit" by (simp add: runs claim_selection_def length_greedy)
  show "count_running None t' = count_running None t + int (length runs)"
    using claim_counts(3) [OF assms] by (simp add: runs)
qed

lemma sample_claim:
  "claim_pending_jobs (sqlite_clock 300) 2 (Map.empty(''mail'' \<mapsto> 2)) Map.empty 0 sample_jobs =
     Inr (mark_claimed (sqlite_clock 300) {''b''} sample_jobs,
          [claimed_run (sample_row ''b'' ''mail'' ''pending'' 5 200)])"
proof -
  have "claim_selection (sqlite_clock 300) 2 (Map.empty(''mail'' \<mapsto> 2)) Map.empty 0 sample_jobs =
      [sample_row ''b'' ''mail'' ''pending'' 5 200]"
    by code_simp
  then show ?thesis
    using claim_pending_jobs_eq [OF sample_jobs_wf, of "sqlite_clock 300" 2 "Map.empty(''mail'' \<mapsto> 2)" Map.empty 0]
    by (simp add: sample_row_def)
qed

theorem claim_respects_caps_witness:
  "count_running (Some ''mail'') (mark_claimed (sqlite_clock 300) {''b''} sample_jobs)
     \<le> max (count_running (Some ''mail'') sample_jobs) (uint (2::u32)) \<and>
   count_running None (mark_claimed (sqlite_clock 300) {''b''} sample_jobs) =
     count_running None sample_jobs + 1"
  using claim_respects_caps [OF sample_jobs_wf sample_claim]
  by (auto simp: per_slug_cap_def dest: spec [of _ "''mail''"])

text \<open>
  The claim is greedy in priority order and maximal: the runs returned are due rows
  sorted by the claim's key (effective priority first, then age), and a candidate that was
  not claimed found the limit exhausted, its slug at its cap or its queue at its cap.
\<close>
theorem claim_ordered_maximal:
  assumes "jobs_wf t" "claim_pending_jobs c limit jc qc decay t = Inr (t', runs)"
  shows "\<exists>G. runs = map claimed_run G \<and> set G \<subseteq> set (candidates c limit decay t) \<and>
      sorted (map (priority_order_by (clk_now c) decay) G) \<and>
      (\<forall>r \<in> set (candidates c limit decay t) - set G.
         length runs = limit \<or>
         uint (per_slug_cap (jr_slug r) jc) \<le> count_running (Some (jr_slug r)) t' \<or>
         (\<exists>cap. qc (jr_queue r) = Some cap \<and> 0 < cap \<and> uint cap \<le> count_running_queue (jr_queue r) t'))"
proof (intro exI conjI ballI)
  let ?G = "claim_selection c limit jc qc decay t"
  let ?cfg = "claim_config limit jc qc t"
  show runs: "runs = map claimed_run ?G"
    using assms(2) claim_pending_jobs_eq [OF assms(1)] by simp
  show "set ?G \<subseteq> set (candidates c limit decay t)"
    by (simp add: claim_selection_def set_greedy)
  have "sorted (map (priority_order_by (clk_now c) decay) (candidates c limit decay t))"
    by (simp add: candidates_def take_map [symmetric] sorted_wrt_take)
  then show "sorted (map (priority_order_by (clk_now c) decay) ?G)"
    unfolding claim_selection_def by (rule sorted_greedy)
  fix r assume r: "r \<in> set (candidates c limit decay t) - set ?G"
  have "length ?G = limit \<or>
     uint (per_slug_cap (jr_slug r) jc)
        \<le> count_running (Some (jr_slug r)) t + int (length (filter (\<lambda>x. jr_slug x = jr_slug r) ?G)) \<or>
     (\<exists>cap. qc (jr_queue r) = Some cap \<and> 0 < cap \<and>
        uint cap \<le> count_running_queue (jr_queue r) t + int (length (filter (\<lambda>x. jr_queue x = jr_queue r) ?G)))"
    using greedy_maximal [of r "candidates c limit decay t" ?cfg limit Map.empty Map.empty] r
    by (simp add: claim_selection_def total_def claim_config_def count_running_per_slug_total
        count_running_per_queue_total) (simp add: map_count_def)
  then show "length runs = limit \<or>
         uint (per_slug_cap (jr_slug r) jc) \<le> count_running (Some (jr_slug r)) t' \<or>
         (\<exists>cap. qc (jr_queue r) = Some cap \<and> 0 < cap \<and> uint cap \<le> count_running_queue (jr_queue r) t')"
    using claim_counts(1,2) [OF assms] by (simp add: runs)
qed

theorem claim_ordered_maximal_witness:
  "\<exists>G. [claimed_run (sample_row ''b'' ''mail'' ''pending'' 5 200)] = map claimed_run G \<and>
     set G \<subseteq> set (candidates (sqlite_clock 300) 2 0 sample_jobs) \<and>
     sorted (map (priority_order_by (clk_now (sqlite_clock 300)) 0) G)"
  by (rule ex_forward [OF claim_ordered_maximal [OF sample_jobs_wf sample_claim]]) simp

end
