(* ===== verification/JobsConfig.thy ===== *)
theory JobsConfig
  imports JobTypes
begin

text \<open>
  Scheduler configuration (src/src/config/features/jobs.rs): the per-queue knobs, the
  framework defaults merged field by field into the operator's settings, the attempt budgets
  of the system jobs, and the lookup maps the scheduler builds from it
  (src/src/scheduler/loop_runner.rs).  The queue table is a map from queue names.
\<close>

record queue_config =
  q_concurrency :: "u32 option"
  q_timeout :: "u64 option"
  q_retries :: "u32 option"

definition queue_config_default :: queue_config where
  "queue_config_default = \<lparr>q_concurrency = None, q_timeout = None, q_retries = None\<rparr>"

definition effective_concurrency :: "queue_config \<Rightarrow> u32" where
  "effective_concurrency q = unwrap_or 0 (q_concurrency q)"

definition effective_timeout :: "queue_config \<Rightarrow> u64" where
  "effective_timeout q = unwrap_or 0 (q_timeout q)"

definition queue_max_attempts :: "queue_config \<Rightarrow> u32 option" where
  "queue_max_attempts q = map_option (\<lambda>r. sat_add r 1) (q_retries q)"

record jobs_config =
  jc_max_concurrent :: nat
  jc_poll_interval :: u64
  jc_cron_interval :: u64
  jc_heartbeat_interval :: u64
  jc_auto_purge :: "u64 option"
  jc_priority_decay :: u64
  jc_queues :: "string \<rightharpoonup> queue_config"

definition jobs_config_default :: jobs_config where
  "jobs_config_default =
     \<lparr>jc_max_concurrent = 10, jc_poll_interval = 1, jc_cron_interval = 60,
      jc_heartbeat_interval = 10, jc_auto_purge = Some (7 * 86400), jc_priority_decay = 0,
      jc_queues = Map.empty\<rparr>"

definition DEFAULT_IMAGES_QUEUE_CONCURRENCY :: u32 where "DEFAULT_IMAGES_QUEUE_CONCURRENCY = 2"
definition DEFAULT_IMAGES_QUEUE_TIMEOUT_SECS :: u64 where "DEFAULT_IMAGES_QUEUE_TIMEOUT_SECS = 300"
definition DEFAULT_IMAGES_QUEUE_RETRIES :: u32 where "DEFAULT_IMAGES_QUEUE_RETRIES = 2"
definition DEFAULT_EMAIL_QUEUE_CONCURRENCY :: u32 where "DEFAULT_EMAIL_QUEUE_CONCURRENCY = 5"
definition DEFAULT_EMAIL_QUEUE_TIMEOUT_SECS :: u64 where "DEFAULT_EMAIL_QUEUE_TIMEOUT_SECS = 30"
definition DEFAULT_EMAIL_QUEUE_RETRIES :: u32 where "DEFAULT_EMAIL_QUEUE_RETRIES = 3"

lemmas queue_default_defs =
  DEFAULT_IMAGES_QUEUE_CONCURRENCY_def DEFAULT_IMAGES_QUEUE_TIMEOUT_SECS_def
  DEFAULT_IMAGES_QUEUE_RETRIES_def DEFAULT_EMAIL_QUEUE_CONCURRENCY_def
  DEFAULT_EMAIL_QUEUE_TIMEOUT_SECS_def DEFAULT_EMAIL_QUEUE_RETRIES_def

text \<open>\<open>entry(name).or_default()\<close> and the three \<open>is_none\<close> fills.\<close>

definition fill_none :: "'a \<Rightarrow> 'a option \<Rightarrow> 'a option" where
  "fill_none d m = (case m of None \<Rightarrow> Some d | Some x \<Rightarrow> Some x)"

definition fill_queue :: "u32 \<Rightarrow> u64 \<Rightarrow> u32 \<Rightarrow> queue_config option \<Rightarrow> queue_config" where
  "fill_queue c t r m =
     (let q = unwrap_or queue_config_default m
      in q\<lparr>q_concurrency := fill_none c (q_concurrency q), q_timeout := fill_none t (q_timeout q),
           q_retries := fill_none r (q_retries q)\<rparr>)"

definition apply_queue_defaults :: "jobs_config \<Rightarrow> jobs_config" where
  "apply_queue_defaults cfg =
     (let qs = jc_queues cfg;
          qs1 = qs(''images'' \<mapsto> fill_queue DEFAULT_IMAGES_QUEUE_CONCURRENCY
                     DEFAULT_IMAGES_QUEUE_TIMEOUT_SECS DEFAULT_IMAGES_QUEUE_RETRIES (qs ''images''));
          qs2 = qs1(''email'' \<mapsto> fill_queue DEFAULT_EMAIL_QUEUE_CONCURRENCY
                     DEFAULT_EMAIL_QUEUE_TIMEOUT_SECS DEFAULT_EMAIL_QUEUE_RETRIES (qs1 ''email''))
      in cfg\<lparr>jc_queues := qs2\<rparr>)"

definition system_image_max_attempts :: "jobs_config \<Rightarrow> u32" where
  "system_image_max_attempts cfg =
     unwrap_or (sat_add DEFAULT_IMAGES_QUEUE_RETRIES 1)
       (Option.bind (jc_queues cfg ''images'') queue_max_attempts)"

definition system_email_max_attempts :: "jobs_config \<Rightarrow> u32" where
  "system_email_max_attempts cfg =
     unwrap_or (sat_add DEFAULT_EMAIL_QUEUE_RETRIES 1)
       (Option.bind (jc_queues cfg ''email'') queue_max_attempts)"

section \<open>The scheduler's lookup maps\<close>

record queue_maps =
  qm_concurrency :: "string \<rightharpoonup> u32"
  qm_timeouts :: "string \<rightharpoonup> u64"
  qm_retries :: "string \<rightharpoonup> u32"

definition build_queue_maps :: "jobs_config \<Rightarrow> queue_maps" where
  "build_queue_maps cfg =
     \<lparr>qm_concurrency = (\<lambda>name. case jc_queues cfg name of None \<Rightarrow> None
        | Some q \<Rightarrow> let c = effective_concurrency q in if 0 < c then Some c else None),
      qm_timeouts = (\<lambda>name. case jc_queues cfg name of None \<Rightarrow> None
        | Some q \<Rightarrow> let t = effective_timeout q in if 0 < t then Some t else None),
      qm_retries = (\<lambda>name. case jc_queues cfg name of None \<Rightarrow> None | Some q \<Rightarrow> q_retries q)\<rparr>"

section \<open>Properties\<close>

lemma fill_queue_sel [simp]:
  "q_concurrency (fill_queue c t r m) = fill_none c (Option.bind m q_concurrency)"
  "q_timeout (fill_queue c t r m) = fill_none t (Option.bind m q_timeout)"
  "q_retries (fill_queue c t r m) = fill_none r (Option.bind m q_retries)"
  by (cases m; simp add: fill_queue_def queue_config_default_def Let_def)+

lemma fill_none_Some [simp]: "fill_none d m = Some (unwrap_or d m)"
  by (simp add: fill_none_def split: option.splits)

lemma fill_queue_full:
  "\<exists>a b d. fill_queue c t r m = \<lparr>q_concurrency = Some a, q_timeout = Some b, q_retries = Some d\<rparr>"
  by (intro exI, rule queue_config.equality) simp_all

lemma fill_queue_idem: "fill_queue c t r (Some (fill_queue c t r m)) = fill_queue c t r m"
  by (rule queue_config.equality) simp_all

text \<open>
  \<open>apply_queue_defaults\<close> seeds concurrency, timeout and retries of both system queues,
  never changes a field the operator set (an explicit 0 included) nor any other queue, is
  idempotent, and leaves the attempt budgets of the system jobs what they were before it ran.
\<close>
theorem apply_queue_defaults_merges:
  "(\<forall>q \<in> {''images'', ''email''}. \<exists>c t r. jc_queues (apply_queue_defaults cfg) q =
       Some \<lparr>q_concurrency = Some c, q_timeout = Some t, q_retries = Some r\<rparr>) \<and>
   (\<forall>q c. Option.bind (jc_queues cfg q) q_concurrency = Some c \<longrightarrow>
      Option.bind (jc_queues (apply_queue_defaults cfg) q) q_concurrency = Some c) \<and>
   (\<forall>q t. Option.bind (jc_queues cfg q) q_timeout = Some t \<longrightarrow>
      Option.bind (jc_queues (apply_queue_defaults cfg) q) q_timeout = Some t) \<and>
   (\<forall>q r. Option.bind (jc_queues cfg q) q_retries = Some r \<longrightarrow>
      Option.bind (jc_queues (apply_queue_defaults cfg) q) q_retries = Some r) \<and>
   (\<forall>q. q \<notin> {''images'', ''email''} \<longrightarrow>
      jc_queues (apply_queue_defaults cfg) q = jc_queues cfg q) \<and>
   apply_queue_defaults (apply_queue_defaults cfg) = apply_queue_defaults cfg \<and>
   system_image_max_attempts (apply_queue_defaults cfg) = system_image_max_attempts cfg \<and>
   system_email_max_attempts (apply_queue_defaults cfg) = system_email_max_attempts cfg"
proof (intro conjI)
  show "\<forall>q \<in> {''images'', ''email''}. \<exists>c t r. jc_queues (apply_queue_defaults cfg) q =
       Some \<lparr>q_concurrency = Some c, q_timeout = Some t, q_retries = Some r\<rparr>"
    by (simp add: apply_queue_defaults_def Let_def fill_queue_full)
  show "apply_queue_defaults (apply_queue_defaults cfg) = apply_queue_defaults cfg"
    by (rule jobs_config.equality)
       (simp_all add: apply_queue_defaults_def Let_def fill_queue_idem fun_upd_twist)
  show "system_image_max_attempts (apply_queue_defaults cfg) = system_image_max_attempts cfg"
    by (cases "jc_queues cfg ''images''"; cases "Option.bind (jc_queues cfg ''images'') q_retries")
       (simp_all add: system_image_max_attempts_def apply_queue_defaults_def queue_max_attempts_def Let_def)
  show "system_email_max_attempts (apply_queue_defaults cfg) = system_email_max_attempts cfg"
    by (cases "jc_queues cfg ''email''"; cases "Option.bind (jc_queues cfg ''email'') q_retries")
       (simp_all add: system_email_max_attempts_def apply_queue_defaults_def queue_max_attempts_def Let_def)
qed (auto simp: apply_queue_defaults_def Let_def)

definition zero_images_config :: jobs_config where
  "zero_images_config = jobs_config_default\<lparr>jc_queues :=
     Map.empty(''images'' \<mapsto> queue_config_default\<lparr>q_concurrency := Some 0\<rparr>)\<rparr>"

theorem apply_queue_defaults_merges_witness:
  "Option.bind (jc_queues (apply_queue_defaults zero_images_config) ''images'') q_concurrency = Some 0"
proof -
  have zero: "Option.bind (jc_queues zero_images_config ''images'') q_concurrency = Some 0"
    by (simp add: zero_images_config_def)
  note merges = apply_queue_defaults_merges [of zero_images_config]
  show ?thesis by (rule merges [THEN conjunct2, THEN conjunct1, rule_format, OF zero])
qed

end
