(* ===== verification/Scheduler.thy ===== *)
theory Scheduler
  imports JobClaim JobsConfig
begin

text \<open>
  The scheduler (src/src/scheduler/runner.rs and loop_runner.rs): executing one claimed run,
  firing cron schedules, recovering stale runs, polling, and the tasks and heartbeats of
  running executions.  The Lua handler, the mail provider, the image encoder, the JSON
  deserialisers, the cron parser and the id generator are parameters.
\<close>

section \<open>Database and parameters\<close>

record app_db =
  db_jobs :: job_table
  db_cron :: "string \<rightharpoonup> int"
  db_docs :: "string \<times> string \<rightharpoonup> (string \<rightharpoonup> string)"
  db_columns :: "string \<rightharpoonup> string list"

record email_job_data =
  em_to :: string
  em_subject :: string
  em_html :: string
  em_text :: "string option"

record image_convert_job_data =
  im_collection :: string
  im_document_id :: string
  im_source_path :: string
  im_target_path :: string
  im_format :: string
  im_quality :: u8
  im_url_column :: string
  im_url_value :: string

record job_env =
  run_job_handler :: "job_definition \<Rightarrow> job_run \<Rightarrow> app_db \<Rightarrow> app_db \<times> (string + string option)"
  email_provider :: "(email_job_data \<Rightarrow> string + unit) option"
  email_from_str :: "string \<Rightarrow> email_job_data option"
  image_from_str :: "string \<Rightarrow> image_convert_job_data option"
  process_image_entry :: "image_convert_job_data \<Rightarrow> string + unit"

datatype exec_error =
    NoEmailProvider
  | InvalidEmailData
  | InvalidImageData
  | UrlColumnUpdateFailed
  | JobUpdate job_error

definition SYSTEM_EMAIL_JOB :: string where "SYSTEM_EMAIL_JOB = ''_system_email''"
definition SYSTEM_EMAIL_QUEUE :: string where "SYSTEM_EMAIL_QUEUE = ''email''"
definition SYSTEM_IMAGE_CONVERT_JOB :: string where
  "SYSTEM_IMAGE_CONVERT_JOB = ''_system_image_convert''"
definition IMAGE_CONVERT_QUEUE :: string where "IMAGE_CONVERT_QUEUE = ''images''"


text \<open>A job statement run on the whole database.\<close>

definition on_jobs :: "(job_table \<Rightarrow> job_error + job_table) \<Rightarrow> app_db \<Rightarrow> app_db \<times> (exec_error + unit)" where
  "on_jobs f db =
     (case f (db_jobs db) of
        Inl e \<Rightarrow> (db, Inl (JobUpdate e))
      | Inr t \<Rightarrow> (db\<lparr>db_jobs := t\<rparr>, Inr ()))"

section \<open>Executing one run\<close>

definition should_retry :: "job_run \<Rightarrow> bool" where
  "should_retry run \<longleftrightarrow> run_attempt run < run_max_attempts run"

definition execute_system_email ::
  "clock \<Rightarrow> job_env \<Rightarrow> job_run \<Rightarrow> app_db \<Rightarrow> app_db \<times> (exec_error + unit)" where
  "execute_system_email c env run db =
     (case email_provider env of
        None \<Rightarrow> (db, Inl NoEmailProvider)
      | Some send \<Rightarrow>
          (case email_from_str env (run_data run) of
             None \<Rightarrow> (db, Inl InvalidEmailData)
           | Some data \<Rightarrow>
               (case send data of
                  Inr _ \<Rightarrow> on_jobs (complete_job c (run_id run) None) db
                | Inl error_msg \<Rightarrow>
                    on_jobs (fail_job c (run_id run) error_msg (should_retry run) (run_attempt run)) db)))"

text \<open>
  \<open>UPDATE "collection" SET "url_column" = ? WHERE id = ?\<close>: an error when the table or the
  column does not exist, no change when the document does not.
\<close>

definition update_url_column :: "image_convert_job_data \<Rightarrow> app_db \<Rightarrow> exec_error + app_db" where
  "update_url_column d db =
     (case db_columns db (im_collection d) of
        None \<Rightarrow> Inl UrlColumnUpdateFailed
      | Some cols \<Rightarrow>
          if im_url_column d \<notin> set cols then Inl UrlColumnUpdateFailed
          else (case db_docs db (im_collection d, im_document_id d) of
                  None \<Rightarrow> Inr db
                | Some doc \<Rightarrow>
                    Inr (db\<lparr>db_docs := (db_docs db)
                           ((im_collection d, im_document_id d) \<mapsto>
                              doc(im_url_column d \<mapsto> im_url_value d))\<rparr>)))"

text \<open>The URL write and the completion share one transaction: an error undoes both.\<close>

definition finish_image_convert ::
  "clock \<Rightarrow> job_run \<Rightarrow> image_convert_job_data \<Rightarrow> app_db \<Rightarrow> app_db \<times> (exec_error + unit)" where
  "finish_image_convert c run d db =
     (case update_url_column d db of
        Inl e \<Rightarrow> (db, Inl e)
      | Inr db' \<Rightarrow>
          (case complete_job c (run_id run) None (db_jobs db') of
             Inl e \<Rightarrow> (db, Inl (JobUpdate e))
           | Inr t \<Rightarrow> (db'\<lparr>db_jobs := t\<rparr>, Inr ())))"

definition execute_system_image_convert ::
  "clock \<Rightarrow> job_env \<Rightarrow> job_run \<Rightarrow> app_db \<Rightarrow> app_db \<times> (exec_error + unit)" where
  "execute_system_image_convert c env run db =
     (case image_from_str env (run_data run) of
        None \<Rightarrow> (db, Inl InvalidImageData)
      | Some d \<Rightarrow>
          if \<not> is_valid_identifier (im_collection d)
          then on_jobs (fail_job c (run_id run) (''invalid collection slug: '' @ im_collection d)
                          False (run_attempt run)) db
          else if \<not> is_valid_identifier (im_url_column d)
          then on_jobs (fail_job c (run_id run) (''invalid url_column: '' @ im_url_column d)
                          False (run_attempt run)) db
          else (case process_image_entry env d of
                  Inr _ \<Rightarrow> finish_image_convert c run d db
                | Inl error_msg \<Rightarrow>
                    on_jobs (fail_job c (run_id run) error_msg (should_retry run) (run_attempt run)) db))"

definition execute_job ::
  "clock \<Rightarrow> job_env \<Rightarrow> job_definition \<Rightarrow> job_run \<Rightarrow> app_db \<Rightarrow> app_db \<times> (exec_error + unit)" where
  "execute_job c env job_def run db =
     (if run_slug run = SYSTEM_EMAIL_JOB then execute_system_email c env run db
      else if run_slug run = SYSTEM_IMAGE_CONVERT_JOB then execute_system_image_convert c env run db
      else (let (db', result) = run_job_handler env job_def run db
            in case result of
                 Inr result_json \<Rightarrow> on_jobs (complete_job c (run_id run) result_json) db'
               | Inl error_msg \<Rightarrow>
                   on_jobs (fail_job c (run_id run) error_msg (should_retry run) (run_attempt run)) db'))"

section \<open>Cron\<close>

definition normalize_cron :: "string \<Rightarrow> string" where
  "normalize_cron expr =
     (let fields = split_whitespace expr
      in if length fields = 5 then ''0 '' @ join_with '' '' fields else join_with '' '' fields)"

text \<open>
  A schedule is what \<open>Schedule::from_str\<close> accepts, and its first firing after an instant.
  \<open>new_id\<close> gives the id generated for the run of a slug in this pass.
\<close>

record cron_env =
  schedule_from_str :: "string \<Rightarrow> (int \<Rightarrow> int option) option"
  new_id :: "string \<Rightarrow> string"

type_synonym job_registry = "(string \<times> job_definition) list"

definition schedule_fires :: "(int \<Rightarrow> int option) \<Rightarrow> int \<Rightarrow> int \<Rightarrow> bool" where
  "schedule_fires after last_check now \<longleftrightarrow>
     (case after last_check of None \<Rightarrow> False | Some t \<Rightarrow> t \<le> now)"

definition check_cron_job ::
  "clock \<Rightarrow> cron_env \<Rightarrow> int \<Rightarrow> int \<Rightarrow> (string \<rightharpoonup> u32) \<Rightarrow> string \<Rightarrow> job_definition \<Rightarrow> app_db
     \<Rightarrow> job_error + app_db" where
  "check_cron_job c env last_check now queue_retries slug def db =
     (case jd_schedule def of
        None \<Rightarrow> Inr db
      | Some schedule_str \<Rightarrow>
          (case schedule_from_str env (normalize_cron schedule_str) of
             None \<Rightarrow> Inr db
           | Some after \<Rightarrow>
               if \<not> schedule_fires after last_check now then Inr db
               else (let (cron, won) = try_claim_cron_window slug now last_check (db_cron db);
                         db1 = db\<lparr>db_cron := cron\<rparr>
                     in if \<not> won then Inr db1
                        else if jd_skip_if_running def \<and> 0 < count_running (Some slug) (db_jobs db1)
                        then Inr db1
                        else bindE (insert_job c (new_id env slug) slug ''{}'' ''cron''
                                      (effective_max_attempts def (queue_retries (jd_queue def)))
                                      (jd_queue def) (jd_priority def) (db_jobs db1))
                               (\<lambda>(t, _). Inr (db1\<lparr>db_jobs := t\<rparr>)))))"

fun check_cron_loop ::
  "clock \<Rightarrow> cron_env \<Rightarrow> int \<Rightarrow> int \<Rightarrow> (string \<rightharpoonup> u32) \<Rightarrow> job_registry \<Rightarrow> app_db \<Rightarrow> job_error + app_db" where
  "check_cron_loop c env last_check now qr [] db = Inr db"
| "check_cron_loop c env last_check now qr ((slug, def) # jobs) db =
     bindE (check_cron_job c env last_check now qr slug def db)
       (check_cron_loop c env last_check now qr jobs)"

text \<open>The whole pass is one transaction: on an error the database is as before.\<close>

definition check_cron_schedules ::
  "clock \<Rightarrow> cron_env \<Rightarrow> job_registry \<Rightarrow> int \<Rightarrow> int \<Rightarrow> (string \<rightharpoonup> u32) \<Rightarrow> app_db
     \<Rightarrow> app_db \<times> (job_error + unit)" where
  "check_cron_schedules c env registry last_check now qr db =
     (case check_cron_loop c env last_check now qr registry db of
        Inl e \<Rightarrow> (db, Inl e)
      | Inr db' \<Rightarrow> (db', Inr ()))"

definition RETENTION_PURGE_SLUG :: string where "RETENTION_PURGE_SLUG = ''__retention_purge''"

definition claim_retention_purge_tick :: "int \<Rightarrow> int \<Rightarrow> (string \<rightharpoonup> int) \<Rightarrow> (string \<rightharpoonup> int) \<times> bool" where
  "claim_retention_purge_tick now window_seconds m =
     try_claim_cron_window RETENTION_PURGE_SLUG now (now - window_seconds) m"

text \<open>
  \<open>parse_retention_seconds\<close>: a number with an optional unit.  The multiplication is a plain
  \<open>i64\<close> product, which wraps in a release build.
\<close>

definition parse_retention_seconds :: "string \<Rightarrow> int option" where
  "parse_retention_seconds s0 =
     (let s = trim s0
      in case strip_suffix_char (CHR ''d'') s of
           Some days \<Rightarrow> map_option (\<lambda>d. wrap_i64 (d * 86400)) (parse_i64 days)
         | None \<Rightarrow>
      (case strip_suffix_char (CHR ''h'') s of
           Some hours \<Rightarrow> map_option (\<lambda>h. wrap_i64 (h * 3600)) (parse_i64 hours)
         | None \<Rightarrow>
      (case strip_suffix_char (CHR ''m'') s of
           Some mins \<Rightarrow> map_option (\<lambda>m. wrap_i64 (m * 60)) (parse_i64 mins)
         | None \<Rightarrow>
      (case strip_suffix_char (CHR ''s'') s of
           Some secs \<Rightarrow> parse_i64 secs
         | None \<Rightarrow> parse_i64 s))))"

section \<open>Stale runs\<close>

definition stale_error :: "job_registry \<Rightarrow> string \<Rightarrow> string" where
  "stale_error registry slug =
     ''stale: server restarted (was running, timeout='' @
     show_nat (unat (case map_of registry slug of None \<Rightarrow> 60 | Some d \<Rightarrow> jd_timeout d)) @ ''s)''"

fun mark_all_stale :: "clock \<Rightarrow> job_registry \<Rightarrow> job_run list \<Rightarrow> job_table \<Rightarrow> job_error + job_table" where
  "mark_all_stale c registry [] t = Inr t"
| "mark_all_stale c registry (job # jobs) t =
     bindE (mark_stale c (run_id job) (stale_error registry (run_slug job)) t)
       (mark_all_stale c registry jobs)"

definition recover_stale_jobs :: "clock \<Rightarrow> job_registry \<Rightarrow> job_table \<Rightarrow> job_error + job_table" where
  "recover_stale_jobs c registry t =
     bindE (find_stale_jobs c 0 t) (\<lambda>stale. mark_all_stale c registry stale t)"

section \<open>Polling\<close>

definition read_job_concurrency :: "job_registry \<Rightarrow> (string \<rightharpoonup> u32)" where
  "read_job_concurrency registry = map_option jd_concurrency \<circ> map_of registry"

definition SYSTEM_IMAGE_CONVERT_FALLBACK_TIMEOUT_SECS :: u64 where
  "SYSTEM_IMAGE_CONVERT_FALLBACK_TIMEOUT_SECS = 300"
definition SYSTEM_EMAIL_FALLBACK_TIMEOUT_SECS :: u64 where
  "SYSTEM_EMAIL_FALLBACK_TIMEOUT_SECS = 30"

definition system_job_def :: "string \<Rightarrow> string \<Rightarrow> u64 \<Rightarrow> job_definition" where
  "system_job_def slug queue timeout =
     (job_definition_builder slug ''_system'')\<lparr>jd_queue := queue, jd_timeout := timeout\<rparr>"

text \<open>A run without a definition is marked failed; an error of that statement is ignored.\<close>

definition resolve_job_def ::
  "clock \<Rightarrow> job_registry \<Rightarrow> (string \<rightharpoonup> u64) \<Rightarrow> job_run \<Rightarrow> job_table \<Rightarrow> job_table \<times> job_definition option" where
  "resolve_job_def c registry queue_timeouts run t =
     (case map_of registry (run_slug run) of
        Some d \<Rightarrow> (t, Some d)
      | None \<Rightarrow>
          if run_slug run = SYSTEM_EMAIL_JOB
          then (t, Some (system_job_def SYSTEM_EMAIL_JOB SYSTEM_EMAIL_QUEUE
                           (unwrap_or SYSTEM_EMAIL_FALLBACK_TIMEOUT_SECS (queue_timeouts SYSTEM_EMAIL_QUEUE))))
          else if run_slug run = SYSTEM_IMAGE_CONVERT_JOB
          then (t, Some (system_job_def SYSTEM_IMAGE_CONVERT_JOB IMAGE_CONVERT_QUEUE
                           (unwrap_or SYSTEM_IMAGE_CONVERT_FALLBACK_TIMEOUT_SECS (queue_timeouts IMAGE_CONVERT_QUEUE))))
          else (case fail_job c (run_id run) ''job definition not found'' False (run_attempt run) t of
                  Inl _ \<Rightarrow> (t, None)
                | Inr t' \<Rightarrow> (t', None)))"

text \<open>The runs of a claim in order: those with a definition are spawned.\<close>

fun resolve_claimed ::
  "clock \<Rightarrow> job_registry \<Rightarrow> (string \<rightharpoonup> u64) \<Rightarrow> job_run list \<Rightarrow> job_table
     \<Rightarrow> job_table \<times> (job_run \<times> job_definition) list" where
  "resolve_claimed c registry qt [] t = (t, [])"
| "resolve_claimed c registry qt (run # runs) t =
     (let (t1, d) = resolve_job_def c registry qt run t;
          (t2, spawned) = resolve_claimed c registry qt runs t1
      in (t2, case d of None \<Rightarrow> spawned | Some jd \<Rightarrow> (run, jd) # spawned))"

text \<open>
  \<open>poll_and_execute\<close> reads the number of running rows and then claims; \<open>poll_available\<close> is
  the first half, whose result the second half uses.
\<close>

definition poll_available :: "nat \<Rightarrow> job_table \<Rightarrow> nat" where
  "poll_available max_concurrent t =
     (let running = nat (count_running None t)
      in if max_concurrent \<le> running then 0 else max_concurrent - running)"

definition poll_claim ::
  "clock \<Rightarrow> job_registry \<Rightarrow> queue_maps \<Rightarrow> u64 \<Rightarrow> nat \<Rightarrow> job_table
     \<Rightarrow> job_error + job_table \<times> (job_run \<times> job_definition) list" where
  "poll_claim c registry qm decay available t =
     (if available = 0 then Inr (t, [])
      else bindE (claim_pending_jobs c available (read_job_concurrency registry) (qm_concurrency qm) decay t)
             (\<lambda>(t', claimed). Inr (resolve_claimed c registry (qm_timeouts qm) claimed t')))"

definition poll_and_execute ::
  "clock \<Rightarrow> job_registry \<Rightarrow> queue_maps \<Rightarrow> u64 \<Rightarrow> nat \<Rightarrow> job_table
     \<Rightarrow> job_error + job_table \<times> (job_run \<times> job_definition) list" where
  "poll_and_execute c registry qm decay max_concurrent t =
     poll_claim c registry qm decay (poll_available max_concurrent t) t"

fun update_heartbeats :: "clock \<Rightarrow> string list \<Rightarrow> job_table \<Rightarrow> job_table" where
  "update_heartbeats c [] t = t"
| "update_heartbeats c (i # ids) t =
     update_heartbeats c ids (case update_heartbeat c i t of Inl _ \<Rightarrow> t | Inr t' \<Rightarrow> t')"

definition timeout_error :: "job_definition \<Rightarrow> string" where
  "timeout_error jd = ''timeout after '' @ show_nat (unat (jd_timeout jd)) @ ''s''"

end
