(* ===== verification/SchedulerSteps.thy ===== *)
theory SchedulerSteps
  imports Scheduler
begin

text \<open>
  The scheduler as a state machine.  The state is the job table, the executions that are
  alive (\<open>spawn_blocking\<close> tasks, on any node), the ids the heartbeat ticker tracks
  (\<open>running_jobs\<close>), and the ids ever generated.  A timeout marks the run failed and stops
  tracking it, but the blocking task itself cannot be cancelled and goes on to its own
  completion or failure: in the model the task stays.  Each statement sees its own clock.
\<close>

record sched_state =
  ss_jobs :: job_table
  ss_tasks :: "job_run list"
  ss_tracked :: "string list"
  ss_used :: "string list"

definition sched_init :: sched_state where
  "sched_init = \<lparr>ss_jobs = [], ss_tasks = [], ss_tracked = [], ss_used = []\<rparr>"

datatype sched_event =
  Enqueue | Poll | Finish | Abort | Timeout | Heartbeat | Restart | Cancel | Purge | DropImageJobs

definition end_task :: "job_run \<Rightarrow> sched_state \<Rightarrow> job_table \<Rightarrow> sched_state" where
  "end_task k s t = s\<lparr>ss_jobs := t, ss_tasks := remove1 k (ss_tasks s),
                     ss_tracked := filter (\<lambda>i. i \<noteq> run_id k) (ss_tracked s)\<rparr>"

inductive sched_step ::
  "job_registry \<Rightarrow> queue_maps \<Rightarrow> u64 \<Rightarrow> sched_event \<Rightarrow> sched_state \<Rightarrow> sched_state \<Rightarrow> bool"
  for registry :: job_registry and qm :: queue_maps and decay :: u64
where
  enqueue: "i \<notin> set (ss_used s) \<Longrightarrow> insert_job_with c i opts (ss_jobs s) = Inr (t', ij) \<Longrightarrow>
     sched_step registry qm decay Enqueue s (s\<lparr>ss_jobs := t', ss_used := i # ss_used s\<rparr>)"
| poll: "poll_claim c registry qm decay available (ss_jobs s) = Inr (t', spawned) \<Longrightarrow>
     sched_step registry qm decay Poll s
       (s\<lparr>ss_jobs := t', ss_tasks := ss_tasks s @ map fst spawned,
          ss_tracked := ss_tracked s @ map (run_id \<circ> fst) spawned\<rparr>)"
| finish_ok: "k \<in> set (ss_tasks s) \<Longrightarrow> complete_job c (run_id k) res (ss_jobs s) = Inr t' \<Longrightarrow>
     sched_step registry qm decay Finish s (end_task k s t')"
| finish_err: "k \<in> set (ss_tasks s) \<Longrightarrow>
     fail_job c (run_id k) e (should_retry k) (run_attempt k) (ss_jobs s) = Inr t' \<Longrightarrow>
     sched_step registry qm decay Finish s (end_task k s t')"
| finish_reject: "k \<in> set (ss_tasks s) \<Longrightarrow>
     fail_job c (run_id k) e False (run_attempt k) (ss_jobs s) = Inr t' \<Longrightarrow>
     sched_step registry qm decay Finish s (end_task k s t')"
| abort: "k \<in> set (ss_tasks s) \<Longrightarrow>
     sched_step registry qm decay Abort s (end_task k s (ss_jobs s))"
| timeout: "k \<in> set (ss_tasks s) \<Longrightarrow> run_id k \<in> set (ss_tracked s) \<Longrightarrow>
     t' = (case fail_job c (run_id k) e (should_retry k) (run_attempt k) (ss_jobs s) of
             Inl _ \<Rightarrow> ss_jobs s | Inr t \<Rightarrow> t) \<Longrightarrow>
     sched_step registry qm decay Timeout s
       (s\<lparr>ss_jobs := t', ss_tracked := filter (\<lambda>i. i \<noteq> run_id k) (ss_tracked s)\<rparr>)"
| heartbeat: "sched_step registry qm decay Heartbeat s
     (s\<lparr>ss_jobs := update_heartbeats c (filter P (ss_tracked s)) (ss_jobs s)\<rparr>)"
| restart: "recover_stale_jobs c registry (ss_jobs s) = Inr t' \<Longrightarrow>
     sched_step registry qm decay Restart s
       (s\<lparr>ss_jobs := t', ss_tasks := filter P (ss_tasks s), ss_tracked := filter Q (ss_tracked s)\<rparr>)"
| cancel: "cancel_pending_jobs slug (ss_jobs s) = (t', n) \<Longrightarrow>
     sched_step registry qm decay Cancel s (s\<lparr>ss_jobs := t'\<rparr>)"
| purge: "purge_old_jobs c older (ss_jobs s) = Inr (t', n) \<Longrightarrow>
     sched_step registry qm decay Purge s (s\<lparr>ss_jobs := t'\<rparr>)"
| drop_image_jobs: "sched_step registry qm decay DropImageJobs s
     (s\<lparr>ss_jobs := delete_where (\<lambda>r. P r \<and> jr_status r \<in> {''pending'', ''failed''}) (ss_jobs s)\<rparr>)"

inductive_cases timeoutE: "sched_step registry qm decay Timeout s s'"

inductive sched_reach ::
  "job_registry \<Rightarrow> queue_maps \<Rightarrow> u64 \<Rightarrow> sched_event set \<Rightarrow> sched_state \<Rightarrow> bool"
  for registry :: job_registry and qm :: queue_maps and decay :: u64 and allowed :: "sched_event set"
where
  init: "sched_reach registry qm decay allowed sched_init"
| step: "sched_reach registry qm decay allowed s \<Longrightarrow> ev \<in> allowed \<Longrightarrow>
     sched_step registry qm decay ev s s' \<Longrightarrow> sched_reach registry qm decay allowed s'"

section \<open>What the composite statements do to the table\<close>

lemma update_heartbeats_wf: "jobs_wf t \<Longrightarrow> jobs_wf (update_heartbeats c ids t)"
  by (induction ids arbitrary: t) (auto split: sum.splits intro: update_heartbeat_wf)

lemma mark_all_stale_wf:
  "jobs_wf t \<Longrightarrow> mark_all_stale c registry js t = Inr t' \<Longrightarrow> jobs_wf t'"
  by (induction js arbitrary: t) (auto simp: result_simps intro: mark_stale_wf)

lemma recover_wf: "jobs_wf t \<Longrightarrow> recover_stale_jobs c registry t = Inr t' \<Longrightarrow> jobs_wf t'"
  by (auto simp: recover_stale_jobs_def result_simps intro: mark_all_stale_wf)

lemma jobs_wf_mark_claimed:
  assumes "jobs_wf t"
  shows "jobs_wf (mark_claimed c (jr_id ` set (claim_selection c limit jc qc decay t)) t)"
proof -
  let ?G = "claim_selection c limit jc qc decay t"
  let ?t = "mark_claimed c (jr_id ` set ?G) t"
  have pend: "jr_status r = ''pending''" if "r \<in> set t" "jr_id r \<in> jr_id ` set ?G" for r
  proof -
    from that(2) obtain g where "g \<in> set ?G" "jr_id g = jr_id r" by auto
    with set_claim_selection have "g \<in> set t" "jr_status g = ''pending''" by (auto simp: is_due_def)
    with that(1) \<open>jr_id g = jr_id r\<close> assms have "g = r"
      by (auto simp: jobs_wf_def unique_ids_def intro: distinct_key_unique)
    with \<open>jr_status g = ''pending''\<close> show ?thesis by simp
  qed
  have "unique_active ?t"
    unfolding mark_claimed_def
    using assms pend by (intro unique_active_update)
      (auto simp: jobs_wf_def row_key_def is_active_status_def split: option.splits)
  moreover have "list_all (\<lambda>r. from_name (jr_status r) \<noteq> None) ?t"
    using assms by (auto simp: list_all_iff mark_claimed_def set_update_where jobs_wf_def split: if_splits)
  ultimately show ?thesis using assms by (simp add: jobs_wf_def unique_ids_def)
qed

lemma resolve_job_def_wf: "jobs_wf t \<Longrightarrow> jobs_wf (fst (resolve_job_def c registry qt run t))"
  by (auto simp: resolve_job_def_def split: option.splits sum.splits intro: fail_job_wf)

lemma resolve_claimed_wf: "jobs_wf t \<Longrightarrow> jobs_wf (fst (resolve_claimed c registry qt runs t))"
proof (induction runs arbitrary: t)
  case (Cons run runs)
  then show ?case using resolve_job_def_wf [of t c registry qt run]
    by (auto split: prod.splits simp: Let_def) (metis fst_conv)
qed simp

lemma poll_claim_cases:
  assumes "jobs_wf t" "poll_claim c registry qm decay n t = Inr (t', sp)"
  obtains "n = 0" "t' = t" "sp = []"
  | G where "G = claim_selection c n (read_job_concurrency registry) (qm_concurrency qm) decay t"
      "claim_pending_jobs c n (read_job_concurrency registry) (qm_concurrency qm) decay t =
         Inr (mark_claimed c (jr_id ` set G) t, map claimed_run G)"
      "(t', sp) = resolve_claimed c registry (qm_timeouts qm) (map claimed_run G)
         (mark_claimed c (jr_id ` set G) t)"
  using assms(2) claim_pending_jobs_eq [OF assms(1)]
  by (cases "n = 0") (auto simp: poll_claim_def)

lemma poll_claim_wf:
  assumes "jobs_wf t" "poll_claim c registry qm decay n t = Inr (t', sp)"
  shows "jobs_wf t'"
  using assms
proof (cases rule: poll_claim_cases)
  case 1
  with assms show ?thesis by simp
next
  case (2 G)
  with jobs_wf_mark_claimed [OF assms(1)] resolve_claimed_wf show ?thesis
    by (metis fst_conv)
qed

lemma sched_step_wf:
  "sched_step registry qm decay ev s s' \<Longrightarrow> jobs_wf (ss_jobs s) \<Longrightarrow> jobs_wf (ss_jobs s')"
proof (induction rule: sched_step.induct)
  case (poll c available s t' spawned)
  then show ?case by (auto intro: poll_claim_wf)
next
  case (timeout k s t' c e)
  then show ?case by (auto split: sum.splits intro: fail_job_wf)
next
  case (cancel slug s t' n)
  then show ?case by (auto simp: cancel_pending_jobs_def Let_def intro: delete_where_wf)
next
  case (purge c older s t' n)
  then show ?case by (auto simp: purge_old_jobs_def result_simps intro: delete_where_wf)
qed (auto simp: end_task_def intro: insert_job_with_wf complete_job_wf fail_job_wf
      update_heartbeats_wf recover_wf delete_where_wf)

lemma sched_reach_wf: "sched_reach registry qm decay allowed s \<Longrightarrow> jobs_wf (ss_jobs s)"
  by (induction rule: sched_reach.induct) (auto simp: sched_init_def intro: sched_step_wf)

section \<open>The attempt budget\<close>

text \<open>
  A row never has more attempts than its budget, and a pending row still has one left; a live
  task is the only one for its row, which it alone may finish and whose counters it carries.
\<close>

definition budget :: "job_row \<Rightarrow> int" where
  "budget r = max 1 (jr_max_attempts r)"

definition row_ok :: "job_row \<Rightarrow> bool" where
  "row_ok r \<longleftrightarrow> 0 \<le> jr_attempt r \<and> jr_attempt r \<le> budget r \<and>
     0 \<le> jr_max_attempts r \<and> jr_max_attempts r < 2 ^ 32 \<and>
     (jr_status r = ''pending'' \<longrightarrow> jr_attempt r < budget r)"

definition task_ok :: "job_run \<Rightarrow> job_row \<Rightarrow> bool" where
  "task_ok k r \<longleftrightarrow> jr_id r = run_id k \<longrightarrow>
     jr_status r \<in> {''running'', ''stale''} \<and> jr_attempt r = uint (run_attempt k) \<and>
     jr_max_attempts r = uint (run_max_attempts k)"

definition attempts_inv :: "sched_state \<Rightarrow> bool" where
  "attempts_inv s \<longleftrightarrow> jobs_wf (ss_jobs s) \<and>
     jr_id ` set (ss_jobs s) \<subseteq> set (ss_used s) \<and> run_id ` set (ss_tasks s) \<subseteq> set (ss_used s) \<and>
     distinct (map run_id (ss_tasks s)) \<and>
     (\<forall>k \<in> set (ss_tasks s). \<forall>r \<in> set (ss_jobs s). task_ok k r) \<and>
     (\<forall>r \<in> set (ss_jobs s). row_ok r)"

text \<open>
  A step that only drops rows, or changes a row without giving it back to the queue, keeps the
  invariant for the tasks that stay.
\<close>

definition row_shrinks :: "job_run set \<Rightarrow> job_row \<Rightarrow> job_row \<Rightarrow> bool" where
  "row_shrinks K r r' \<longleftrightarrow> jr_id r' = jr_id r \<and> jr_attempt r' = jr_attempt r \<and>
     jr_max_attempts r' = jr_max_attempts r \<and>
     (jr_status r' = ''pending'' \<longrightarrow> jr_attempt r < budget r) \<and>
     (\<forall>k \<in> K. run_id k = jr_id r \<longrightarrow> jr_status r \<in> {''running'', ''stale''} \<longrightarrow>
        jr_status r' \<in> {''running'', ''stale''})"

lemma attempts_inv_shrink:
  assumes "attempts_inv s" "jobs_wf t'" "set K \<subseteq> set (ss_tasks s)" "distinct (map run_id K)"
    and "\<And>r'. r' \<in> set t' \<Longrightarrow> \<exists>r \<in> set (ss_jobs s). row_shrinks (set K) r r'"
  shows "attempts_inv (s\<lparr>ss_jobs := t', ss_tasks := K, ss_tracked := L\<rparr>)"
proof -
  have "jr_id ` set t' \<subseteq> set (ss_used s)"
  proof
    fix i assume "i \<in> jr_id ` set t'"
    then obtain r' where "r' \<in> set t'" "i = jr_id r'" by blast
    with assms(5) obtain r where "r \<in> set (ss_jobs s)" "jr_id r' = jr_id r"
      by (auto simp: row_shrinks_def)
    with \<open>i = jr_id r'\<close> assms(1) show "i \<in> set (ss_used s)" by (auto simp: attempts_inv_def)
  qed
  moreover have "run_id ` set K \<subseteq> set (ss_used s)"
    using assms(1) image_mono [OF assms(3), of run_id] by (meson attempts_inv_def subset_trans)
  moreover have "task_ok k r'" if "k \<in> set K" "r' \<in> set t'" for k r'
  proof -
    from assms(5) that obtain r where "r \<in> set (ss_jobs s)" "row_shrinks (set K) r r'" by blast
    then have "task_ok k r" using that assms(1,3) by (auto simp: attempts_inv_def)
    with \<open>row_shrinks (set K) r r'\<close> that(1) show ?thesis
      by (auto simp: task_ok_def row_shrinks_def)
  qed
  moreover have "row_ok r'" if "r' \<in> set t'" for r'
  proof -
    from assms(5) that obtain r where "r \<in> set (ss_jobs s)" "row_shrinks (set K) r r'" by blast
    with assms(1) show ?thesis
      by (auto simp: attempts_inv_def row_ok_def row_shrinks_def budget_def)
  qed
  ultimately show ?thesis using assms(2,4) by (simp add: attempts_inv_def)
qed

lemma row_shrinks_refl: "row_ok r \<Longrightarrow> row_shrinks K r r"
  by (simp add: row_shrinks_def row_ok_def)

lemma end_task_shrink:
  assumes "attempts_inv s" "k \<in> set (ss_tasks s)" "jobs_wf t'"
    and "t' = update_where (has_id (run_id k)) f (ss_jobs s)"
    and "\<And>r. jr_id (f r) = jr_id r \<and> jr_attempt (f r) = jr_attempt r \<and> jr_max_attempts (f r) = jr_max_attempts r"
    and "\<And>r. r \<in> set (ss_jobs s) \<Longrightarrow> jr_id r = run_id k \<Longrightarrow> jr_status (f r) = ''pending'' \<Longrightarrow> jr_attempt r < budget r"
  shows "attempts_inv (end_task k s t')"
  unfolding end_task_def
proof (rule attempts_inv_shrink [OF assms(1) assms(3)])
  have d: "distinct (map run_id (ss_tasks s))" using assms(1) by (simp add: attempts_inv_def)
  then show "distinct (map run_id (remove1 k (ss_tasks s)))"
    by (simp add: distinct_map inj_on_diff)
  show "set (remove1 k (ss_tasks s)) \<subseteq> set (ss_tasks s)" by (rule set_remove1_subset)
  fix r' assume "r' \<in> set t'"
  then obtain r where r: "r \<in> set (ss_jobs s)" "r' = (if jr_id r = run_id k then f r else r)"
    by (auto simp: assms(4) set_update_where has_id_def)
  have "j \<noteq> k \<Longrightarrow> run_id j \<noteq> run_id k" if "j \<in> set (ss_tasks s)" for j
    using d that assms(2) by (auto simp: distinct_map inj_on_def)
  moreover have "set (remove1 k (ss_tasks s)) = set (ss_tasks s) - {k}"
    using d by (simp add: distinct_map set_remove1_eq)
  ultimately have "\<forall>j \<in> set (remove1 k (ss_tasks s)). run_id j \<noteq> run_id k" by auto
  moreover have "row_ok r" using assms(1) r(1) by (simp add: attempts_inv_def)
  ultimately have "row_shrinks (set (remove1 k (ss_tasks s))) r r'"
    using r assms(5,6) by (auto simp: row_shrinks_def row_ok_def)
  with r(1) show "\<exists>r \<in> set (ss_jobs s). row_shrinks (set (remove1 k (ss_tasks s))) r r'" by blast
qed

lemma jobs_wf_unique_active: "jobs_wf t \<Longrightarrow> unique_active t"
  by (simp add: jobs_wf_def)

lemma complete_job_Inr:
  "complete_job c i res t = Inr t' \<Longrightarrow> t' = update_where (has_id i) (complete_row c res) t"
  by (auto simp: complete_job_def exec_update_def Let_def result_simps split: if_splits)

lemma fail_job_Inr:
  "fail_job c i e retry a t = Inr t' \<Longrightarrow>
     t' = update_where (has_id i) (if retry then retry_row c e (backoff_seconds a) else fail_row c e) t"
  by (auto simp: fail_job_def exec_update_def Let_def result_simps split: if_splits)

lemma row_writers_sel [simp]:
  "jr_id (complete_row c res r) = jr_id r" "jr_attempt (complete_row c res r) = jr_attempt r"
  "jr_max_attempts (complete_row c res r) = jr_max_attempts r"
  "jr_status (complete_row c res r) = ''completed''"
  "jr_id (fail_row c e r) = jr_id r" "jr_attempt (fail_row c e r) = jr_attempt r"
  "jr_max_attempts (fail_row c e r) = jr_max_attempts r" "jr_status (fail_row c e r) = ''failed''"
  "jr_id (retry_row c e d r) = jr_id r" "jr_attempt (retry_row c e d r) = jr_attempt r"
  "jr_max_attempts (retry_row c e d r) = jr_max_attempts r" "jr_status (retry_row c e d r) = ''pending''"
  "jr_id (stale_row c e r) = jr_id r" "jr_attempt (stale_row c e r) = jr_attempt r"
  "jr_max_attempts (stale_row c e r) = jr_max_attempts r" "jr_status (stale_row c e r) = ''stale''"
  by (simp_all add: complete_row_def fail_row_def retry_row_def stale_row_def)

lemma finish_ok_inv:
  assumes "attempts_inv s" "k \<in> set (ss_tasks s)" "complete_job c (run_id k) res (ss_jobs s) = Inr t'"
  shows "attempts_inv (end_task k s t')"
proof (rule end_task_shrink [OF assms(1,2) _ complete_job_Inr [OF assms(3)]])
  show "jobs_wf t'" using assms by (auto simp: attempts_inv_def intro: complete_job_wf)
qed simp_all

lemma finish_err_inv:
  assumes "attempts_inv s" "k \<in> set (ss_tasks s)"
    and "fail_job c (run_id k) e retry a (ss_jobs s) = Inr t'" "retry \<Longrightarrow> should_retry k"
  shows "attempts_inv (end_task k s t')"
proof (rule end_task_shrink [OF assms(1,2) _ fail_job_Inr [OF assms(3)]])
  show "jobs_wf t'" using assms by (auto simp: attempts_inv_def intro: fail_job_wf)
  fix r assume r: "r \<in> set (ss_jobs s)" "jr_id r = run_id k"
    "jr_status ((if retry then retry_row c e (backoff_seconds a) else fail_row c e) r) = ''pending''"
  then have "should_retry k" using assms(4) by (auto split: if_splits)
  moreover have "task_ok k r" using assms(1,2) r(1) by (simp add: attempts_inv_def)
  ultimately show "jr_attempt r < budget r"
    using r(2) by (auto simp: task_ok_def should_retry_def budget_def word_less_def)
qed (auto split: if_splits)

lemma mark_all_stale_rows:
  "mark_all_stale c registry js t = Inr t' \<Longrightarrow> r' \<in> set t' \<Longrightarrow>
     \<exists>r \<in> set t. jr_id r' = jr_id r \<and> jr_attempt r' = jr_attempt r \<and>
       jr_max_attempts r' = jr_max_attempts r \<and> (r' = r \<or> jr_status r' = ''stale'')"
proof (induction js arbitrary: t)
  case (Cons j js)
  then obtain t1 where t1: "mark_stale c (run_id j) (stale_error registry (run_slug j)) t = Inr t1"
    and rest: "mark_all_stale c registry js t1 = Inr t'"
    by (auto simp: result_simps)
  from Cons.IH [OF rest Cons.prems(2)] obtain r1 where r1: "r1 \<in> set t1" "jr_id r' = jr_id r1"
    "jr_attempt r' = jr_attempt r1" "jr_max_attempts r' = jr_max_attempts r1"
    "r' = r1 \<or> jr_status r' = ''stale''" by blast
  have "t1 = update_where (has_id (run_id j)) (stale_row c (stale_error registry (run_slug j))) t"
    using t1 by (auto simp: mark_stale_def exec_update_def Let_def result_simps split: if_splits)
  with r1(1) obtain r where "r \<in> set t"
    "r1 = (if has_id (run_id j) r then stale_row c (stale_error registry (run_slug j)) r else r)"
    by (auto simp: set_update_where)
  with r1 show ?case by (intro bexI [of _ r]) (auto split: if_splits)
qed auto

lemma restart_inv:
  assumes "attempts_inv s" "recover_stale_jobs c registry (ss_jobs s) = Inr t'"
  shows "attempts_inv (s\<lparr>ss_jobs := t', ss_tasks := filter P (ss_tasks s), ss_tracked := L\<rparr>)"
proof (rule attempts_inv_shrink [OF assms(1)])
  show "jobs_wf t'" using assms by (auto simp: attempts_inv_def intro: recover_wf)
  show "distinct (map run_id (filter P (ss_tasks s)))"
    using assms(1) by (simp add: attempts_inv_def distinct_map_filter)
  fix r' assume r': "r' \<in> set t'"
  obtain js where "mark_all_stale c registry js (ss_jobs s) = Inr t'"
    using assms(2) by (auto simp: recover_stale_jobs_def result_simps)
  from mark_all_stale_rows [OF this r'] obtain r where r: "r \<in> set (ss_jobs s)"
    "jr_id r' = jr_id r" "jr_attempt r' = jr_attempt r" "jr_max_attempts r' = jr_max_attempts r"
    "r' = r \<or> jr_status r' = ''stale''" by blast
  moreover have "row_ok r" using assms(1) r(1) by (simp add: attempts_inv_def)
  ultimately show "\<exists>r \<in> set (ss_jobs s). row_shrinks (set (filter P (ss_tasks s))) r r'"
    by (intro bexI [of _ r]) (auto simp: row_shrinks_def row_ok_def)
qed auto

lemma delete_inv:
  assumes "attempts_inv s"
  shows "attempts_inv (s\<lparr>ss_jobs := delete_where P (ss_jobs s)\<rparr>)"
proof -
  have "attempts_inv (s\<lparr>ss_jobs := delete_where P (ss_jobs s), ss_tasks := ss_tasks s, ss_tracked := ss_tracked s\<rparr>)"
    using assms by (intro attempts_inv_shrink)
      (auto simp: attempts_inv_def delete_where_wf intro!: bexI row_shrinks_refl)
  then show ?thesis by simp
qed

lemma heartbeat_rows:
  "r' \<in> set (update_heartbeats c ids t) \<Longrightarrow> \<exists>r \<in> set t. jr_id r' = jr_id r \<and>
     jr_attempt r' = jr_attempt r \<and> jr_max_attempts r' = jr_max_attempts r \<and> jr_status r' = jr_status r"
proof (induction ids arbitrary: t)
  case (Cons i ids)
  let ?t = "case update_heartbeat c i t of Inl _ \<Rightarrow> t | Inr t' \<Rightarrow> t'"
  from Cons obtain r1 where r1: "r1 \<in> set ?t" "jr_id r' = jr_id r1" "jr_attempt r' = jr_attempt r1"
    "jr_max_attempts r' = jr_max_attempts r1" "jr_status r' = jr_status r1" by fastforce
  have "?t = t \<or> ?t = update_where (has_id i) (\<lambda>r. r\<lparr>jr_heartbeat_at := Some (clk_now c)\<rparr>) t"
    by (auto simp: update_heartbeat_def exec_update_def Let_def split: sum.splits if_splits)
  with r1(1) obtain r where "r \<in> set t" "jr_id r1 = jr_id r" "jr_attempt r1 = jr_attempt r"
    "jr_max_attempts r1 = jr_max_attempts r" "jr_status r1 = jr_status r"
    by (force simp: set_update_where split: if_splits)
  with r1 show ?case by metis
qed auto

lemma heartbeat_inv:
  assumes "attempts_inv s"
  shows "attempts_inv (s\<lparr>ss_jobs := update_heartbeats c ids (ss_jobs s)\<rparr>)"
proof -
  have "attempts_inv (s\<lparr>ss_jobs := update_heartbeats c ids (ss_jobs s), ss_tasks := ss_tasks s, ss_tracked := ss_tracked s\<rparr>)"
  proof (rule attempts_inv_shrink [OF assms])
    show "jobs_wf (update_heartbeats c ids (ss_jobs s))"
      using assms by (simp add: attempts_inv_def update_heartbeats_wf)
    fix r' assume "r' \<in> set (update_heartbeats c ids (ss_jobs s))"
    from heartbeat_rows [OF this] obtain r where r: "r \<in> set (ss_jobs s)" "jr_id r' = jr_id r"
      "jr_attempt r' = jr_attempt r" "jr_max_attempts r' = jr_max_attempts r" "jr_status r' = jr_status r"
      by blast
    moreover have "row_ok r" using assms r(1) by (simp add: attempts_inv_def)
    ultimately show "\<exists>r \<in> set (ss_jobs s). row_shrinks (set (ss_tasks s)) r r'"
      by (intro bexI [of _ r]) (auto simp: row_shrinks_def row_ok_def)
  qed (use assms in \<open>simp_all add: attempts_inv_def\<close>)
  then show ?thesis by simp
qed

lemma enqueue_inv:
  assumes "attempts_inv s" "i \<notin> set (ss_used s)" "insert_job_with c i opts (ss_jobs s) = Inr (t', ij)"
  shows "attempts_inv (s\<lparr>ss_jobs := t', ss_used := i # ss_used s\<rparr>)"
proof -
  have wf: "jobs_wf t'" using assms by (auto simp: attempts_inv_def intro: insert_job_with_wf)
  have "t' = ss_jobs s \<or> t' = ss_jobs s @ [new_row c i opts]"
    using assms(3) by (auto simp: insert_job_with_def Let_def split: if_splits option.splits)
  moreover have "row_ok (new_row c i opts)"
    using uint_bounded [of "o_max_attempts opts"]
    by (simp add: row_ok_def budget_def less_max_iff_disj le_max_iff_disj)
  moreover have "task_ok k (new_row c i opts)" if "k \<in> set (ss_tasks s)" for k
    using assms(1,2) that by (auto simp: attempts_inv_def task_ok_def)
  ultimately show ?thesis using assms(1) wf by (auto simp: attempts_inv_def image_subset_iff)
qed

section \<open>Polling and the attempt budget\<close>

definition resolvable :: "job_registry \<Rightarrow> job_run \<Rightarrow> bool" where
  "resolvable registry run \<longleftrightarrow> map_of registry (run_slug run) \<noteq> None \<or>
     run_slug run = SYSTEM_EMAIL_JOB \<or> run_slug run = SYSTEM_IMAGE_CONVERT_JOB"

lemma resolve_job_def_spawns:
  "(snd (resolve_job_def c registry qt run t) \<noteq> None) = resolvable registry run"
  by (auto simp: resolve_job_def_def resolvable_def split: option.splits sum.splits)

lemma claimed_run_id [simp]: "run_id (claimed_run r) = jr_id r"
  by (simp add: claimed_run_def parse_job_row_def job_run_builder_def)

lemma resolve_claimed_spawned:
  "map fst (snd (resolve_claimed c registry qt runs t)) = filter (resolvable registry) runs"
proof (induction runs arbitrary: t)
  case (Cons run runs)
  obtain t1 d where d: "resolve_job_def c registry qt run t = (t1, d)" by fastforce
  then have "(d \<noteq> None) = resolvable registry run"
    using resolve_job_def_spawns [of c registry qt run t] by simp
  with d Cons [of t1] show ?case by (auto split: prod.splits option.splits)
qed simp

text \<open>Resolving changes only rows of runs it does not spawn, which it marks failed.\<close>

lemma resolve_claimed_rows:
  "r' \<in> set (fst (resolve_claimed c registry qt runs t)) \<Longrightarrow>
     \<exists>r \<in> set t. jr_id r' = jr_id r \<and> jr_attempt r' = jr_attempt r \<and>
       jr_max_attempts r' = jr_max_attempts r \<and>
       (r' = r \<or> jr_status r' = ''failed'' \<and> jr_id r \<in> run_id ` {k \<in> set runs. \<not> resolvable registry k})"
proof (induction runs arbitrary: t)
  case (Cons run runs)
  obtain t1 d where d: "resolve_job_def c registry qt run t = (t1, d)" by fastforce
  from Cons.prems d have "r' \<in> set (fst (resolve_claimed c registry qt runs t1))"
    by (simp split: prod.splits)
  from Cons.IH [OF this] obtain r1 where r1: "r1 \<in> set t1" "jr_id r' = jr_id r1"
    "jr_attempt r' = jr_attempt r1" "jr_max_attempts r' = jr_max_attempts r1"
    "r' = r1 \<or> jr_status r' = ''failed'' \<and> jr_id r1 \<in> run_id ` {k \<in> set runs. \<not> resolvable registry k}"
    by blast
  have "t1 = t \<or> \<not> resolvable registry run \<and> t1 = update_where (has_id (run_id run)) (fail_row c ''job definition not found'') t"
    using d by (auto simp: resolve_job_def_def resolvable_def split: option.splits if_splits sum.splits
        dest!: fail_job_Inr)
  then show ?case
  proof
    assume "t1 = t"
    with r1 show ?thesis by (intro bexI [of _ r1]) auto
  next
    assume t1: "\<not> resolvable registry run \<and> t1 = update_where (has_id (run_id run)) (fail_row c ''job definition not found'') t"
    with r1(1) obtain r where r: "r \<in> set t"
      "r1 = (if has_id (run_id run) r then fail_row c ''job definition not found'' r else r)"
      by (auto simp: set_update_where)
    then have "jr_id r1 = jr_id r" "jr_attempt r1 = jr_attempt r" "jr_max_attempts r1 = jr_max_attempts r"
      by auto
    with r1 r t1 show ?thesis
      by (intro bexI [of _ r]) (auto simp: has_id_def split: if_splits)
  qed
qed auto

lemma claimed_run_sel:
  assumes "row_ok r" "jr_status r = ''pending''"
  shows "run_id (claimed_run r) = jr_id r" "uint (run_attempt (claimed_run r)) = jr_attempt r + 1"
    "uint (run_max_attempts (claimed_run r)) = jr_max_attempts r"
proof -
  have b: "0 \<le> jr_attempt r" "jr_attempt r < budget r" "0 \<le> jr_max_attempts r" "jr_max_attempts r < 2 ^ 32"
    using assms by (auto simp: row_ok_def)
  then have lt: "jr_attempt r + 1 < 2 ^ 32" by (auto simp: budget_def max_def split: if_splits)
  show "run_id (claimed_run r) = jr_id r"
    by (simp add: claimed_run_def parse_job_row_def job_run_builder_def)
  have "run_attempt (claimed_run r) = word_of_int (jr_attempt r + 1)"
    using b lt by (simp add: claimed_run_def parse_job_row_def u32_try_from_def wi_hom_add [symmetric])
  then show "uint (run_attempt (claimed_run r)) = jr_attempt r + 1"
    using b(1) lt by (simp only: uint_word_of_int) simp
  show "uint (run_max_attempts (claimed_run r)) = jr_max_attempts r"
    using b(3,4) by (simp add: claimed_run_def parse_job_row_def u32_try_from_def uint_word_of_int)
qed

lemma poll_inv:
  assumes inv: "attempts_inv s" and p: "poll_claim c registry qm decay n (ss_jobs s) = Inr (t', sp)"
  shows "attempts_inv (s\<lparr>ss_jobs := t', ss_tasks := ss_tasks s @ map fst sp, ss_tracked := L\<rparr>)"
proof -
  have wf: "jobs_wf (ss_jobs s)" using inv by (simp add: attempts_inv_def)
  show ?thesis using wf p
  proof (cases rule: poll_claim_cases)
    case 1
    with inv show ?thesis by (simp add: attempts_inv_def)
  next
    case (2 G)
    let ?t = "mark_claimed c (jr_id ` set G) (ss_jobs s)"
    have sp: "map fst sp = filter (resolvable registry) (map claimed_run G)"
      using resolve_claimed_spawned 2(3) by (metis snd_conv)
    have G: "r \<in> set (ss_jobs s) \<and> jr_status r = ''pending'' \<and> row_ok r" if "r \<in> set G" for r
      using set_claim_selection that 2(1) inv by (auto simp: is_due_def attempts_inv_def)
    have dG: "distinct (map jr_id G)" using wf 2(1) by (simp add: jobs_wf_def distinct_claim_selection)
    have ids: "map run_id (map claimed_run G) = map jr_id G" using G claimed_run_sel(1) by simp
    have wf': "jobs_wf t'" using wf p by (rule poll_claim_wf)
    have fresh: "run_id k \<noteq> jr_id g" if "k \<in> set (ss_tasks s)" "g \<in> set G" for k g
      using that G inv by (fastforce simp: attempts_inv_def task_ok_def)
    define U where "U = run_id ` {k \<in> set (map claimed_run G). \<not> resolvable registry k}"
    have rows: "\<exists>r \<in> set (ss_jobs s). jr_id r' = jr_id r \<and> jr_max_attempts r' = jr_max_attempts r \<and>
        (if jr_id r \<in> jr_id ` set G
         then r \<in> set G \<and> jr_attempt r' = jr_attempt r + 1 \<and>
              (jr_status r' = ''running'' \<or>
               jr_status r' = ''failed'' \<and> jr_id r \<in> U)
         else r' = r)" if "r' \<in> set t'" for r'
    proof -
      from that 2(3) have "r' \<in> set (fst (resolve_claimed c registry (qm_timeouts qm) (map claimed_run G) ?t))"
        by (metis fst_conv)
      from resolve_claimed_rows [OF this, folded U_def] obtain r1 where r1: "r1 \<in> set ?t" "jr_id r' = jr_id r1"
        "jr_attempt r' = jr_attempt r1" "jr_max_attempts r' = jr_max_attempts r1"
        "r' = r1 \<or> jr_status r' = ''failed'' \<and>
           jr_id r1 \<in> U" by blast
      from r1(1) obtain r where r: "r \<in> set (ss_jobs s)"
        "r1 = (if jr_id r \<in> jr_id ` set G then start_row c r else r)"
        by (auto simp: mark_claimed_def set_update_where)
      have "r \<in> set G" if "jr_id r \<in> jr_id ` set G"
      proof -
        from that obtain g where "g \<in> set G" "jr_id r = jr_id g" by auto
        moreover from this G have "g \<in> set (ss_jobs s)" by blast
        ultimately have "r = g" using r(1) wf
          by (auto simp: jobs_wf_def unique_ids_def intro: distinct_key_unique)
        with \<open>g \<in> set G\<close> show ?thesis by simp
      qed
      moreover have "U \<subseteq> jr_id ` set G"
        by (auto simp: U_def)
      ultimately show ?thesis using r r1 by (intro bexI [of _ r]) auto
    qed
    have "jr_id ` set t' \<subseteq> set (ss_used s)"
    proof
      fix i assume "i \<in> jr_id ` set t'"
      then obtain r' where "r' \<in> set t'" "i = jr_id r'" by blast
      with rows [OF this(1)] obtain r where "r \<in> set (ss_jobs s)" "i = jr_id r" by auto
      with inv show "i \<in> set (ss_used s)" by (auto simp: attempts_inv_def)
    qed
    have tasks: "k \<in> set (ss_tasks s) \<or> (\<exists>g \<in> set G. k = claimed_run g \<and> resolvable registry k)"
      if "k \<in> set (ss_tasks s @ map fst sp)" for k
      using that by (auto simp: sp)
    have "run_id ` set (ss_tasks s @ map fst sp) \<subseteq> set (ss_used s)"
      using inv G claimed_run_sel(1) by (auto simp: sp attempts_inv_def image_subset_iff)
    moreover have "distinct (map run_id (ss_tasks s @ map fst sp))"
    proof -
      have "distinct (map run_id (map fst sp))"
        unfolding sp by (intro distinct_map_filter) (simp only: ids dG)
      with inv fresh G claimed_run_sel(1) show ?thesis by (fastforce simp: attempts_inv_def sp)
    qed
    moreover have "task_ok k r'" if "k \<in> set (ss_tasks s @ map fst sp)" "r' \<in> set t'" for k r'
    proof -
      from rows [OF that(2)] obtain r where r: "r \<in> set (ss_jobs s)" "jr_id r' = jr_id r"
        "jr_max_attempts r' = jr_max_attempts r"
        "if jr_id r \<in> jr_id ` set G
         then r \<in> set G \<and> jr_attempt r' = jr_attempt r + 1 \<and>
              (jr_status r' = ''running'' \<or>
               jr_status r' = ''failed'' \<and> jr_id r \<in> U)
         else r' = r" by blast
      have eqG: "g = g'" if "g \<in> set G" "g' \<in> set G" "jr_id g = jr_id g'" for g g'
        using dG that by (auto simp: distinct_map inj_on_def)
      from tasks [OF that(1)] show ?thesis
      proof
        assume k: "k \<in> set (ss_tasks s)"
        then have "task_ok k r" using inv r(1) by (simp add: attempts_inv_def)
        moreover have "jr_id r \<notin> jr_id ` set G" if "jr_id r = run_id k"
          using that fresh [OF k] by auto
        ultimately show ?thesis using r by (auto simp: task_ok_def)
      next
        assume "\<exists>g \<in> set G. k = claimed_run g \<and> resolvable registry k"
        then obtain g where g: "g \<in> set G" "k = claimed_run g" "resolvable registry k" by blast
        have nf: "jr_id g \<notin> U"
        proof
          assume "jr_id g \<in> U"
          then obtain x where x: "x \<in> set G" "jr_id g = jr_id x" "\<not> resolvable registry (claimed_run x)"
            by (auto simp: U_def)
          with g eqG [OF g(1) x(1)] show False by simp
        qed
        show ?thesis
        proof (cases "jr_id r = jr_id g")
          case True
          with g r eqG have "r = g" by (auto split: if_splits)
          with r g nf claimed_run_sel [of g] G show ?thesis by (auto simp: task_ok_def)
        next
          case False
          with r g claimed_run_sel(1) [of g] G show ?thesis by (auto simp: task_ok_def)
        qed
      qed
    qed
    moreover have "row_ok r'" if "r' \<in> set t'" for r'
    proof -
      from rows [OF that] obtain r where r: "r \<in> set (ss_jobs s)" "jr_max_attempts r' = jr_max_attempts r"
        "r' = r \<or> jr_status r = ''pending'' \<and> jr_attempt r' = jr_attempt r + 1 \<and> jr_status r' \<in> {''running'', ''failed''}"
        using G by (auto split: if_splits)
      moreover have "row_ok r" using inv r(1) by (simp add: attempts_inv_def)
      ultimately show ?thesis by (auto simp: row_ok_def budget_def)
    qed
    ultimately show ?thesis using wf' \<open>jr_id ` set t' \<subseteq> set (ss_used s)\<close> by (simp add: attempts_inv_def)
  qed
qed

lemma sched_step_attempts:
  "sched_step registry qm decay ev s s' \<Longrightarrow> ev \<noteq> Timeout \<Longrightarrow> attempts_inv s \<Longrightarrow> attempts_inv s'"
proof (induction rule: sched_step.induct)
  case (finish_err k s c e t')
  then show ?case by (auto intro: finish_err_inv)
next
  case (finish_reject k s c e t')
  then show ?case by (auto intro: finish_err_inv)
next
  case (abort k s)
  have "ss_jobs s = update_where (has_id (run_id k)) id (ss_jobs s)"
    by (simp add: update_where_def map_idI)
  then show ?case using abort
    by (intro end_task_shrink [where f = id]) (auto simp: attempts_inv_def row_ok_def)
next
  case (cancel slug s t' n)
  then show ?case by (auto simp: cancel_pending_jobs_def Let_def intro: delete_inv)
next
  case (purge c older s t' n)
  then show ?case by (auto simp: purge_old_jobs_def result_simps intro: delete_inv)
qed (auto intro: enqueue_inv poll_inv finish_ok_inv heartbeat_inv restart_inv delete_inv)

lemma sched_reach_attempts:
  "sched_reach registry qm decay allowed s \<Longrightarrow> Timeout \<notin> allowed \<Longrightarrow> attempts_inv s"
proof (induction rule: sched_reach.induct)
  case init
  show ?case by (simp add: attempts_inv_def sched_init_def)
next
  case (step s ev s')
  then show ?case by (auto intro: sched_step_attempts)
qed

end
