(* ===== verification/SchedulerCaps.thy ===== *)
theory SchedulerCaps
  imports SchedulerSteps
begin

text \<open>
  The concurrency limits over whole runs of the scheduler, and the properties of its state
  machine: the caps, the attempt budget, and how a timed-out execution escapes both.
\<close>

section \<open>Counting running rows\<close>

lemma count_update_le:
  "(\<And>r. r \<in> set t \<Longrightarrow> p r \<Longrightarrow> q (f r) \<Longrightarrow> q r) \<Longrightarrow> count_where q (update_where p f t) \<le> count_where q t"
  by (induction t) auto

lemma count_delete_le: "count_where q (delete_where p t) \<le> count_where q t"
  by (induction t) (auto simp: delete_where_def)

definition running_in :: "(string \<Rightarrow> string \<Rightarrow> bool) \<Rightarrow> job_row \<Rightarrow> bool" where
  "running_in P r \<longleftrightarrow> jr_status r = ''running'' \<and> P (jr_slug r) (jr_queue r)"

lemma complete_running_le:
  assumes "complete_job c i res t = Inr t'"
  shows "count_where (running_in P) t' \<le> count_where (running_in P) t"
  unfolding complete_job_Inr [OF assms] by (rule count_update_le) (simp add: running_in_def)

lemma fail_running_le:
  assumes "fail_job c i e retry a t = Inr t'"
  shows "count_where (running_in P) t' \<le> count_where (running_in P) t"
  unfolding fail_job_Inr [OF assms]
  by (rule count_update_le) (simp add: running_in_def split: if_splits)

lemma mark_all_stale_running_le:
  "mark_all_stale c registry js t = Inr t' \<Longrightarrow> count_where (running_in P) t' \<le> count_where (running_in P) t"
proof (induction js arbitrary: t)
  case (Cons j js)
  then obtain t1 where t1: "mark_stale c (run_id j) (stale_error registry (run_slug j)) t = Inr t1"
    and le: "count_where (running_in P) t' \<le> count_where (running_in P) t1"
    by (auto simp: result_simps)
  have "t1 = update_where (has_id (run_id j)) (stale_row c (stale_error registry (run_slug j))) t"
    using t1 by (auto simp: mark_stale_def exec_update_def Let_def result_simps split: if_splits)
  also have "count_where (running_in P) \<dots> \<le> count_where (running_in P) t"
    by (rule count_update_le) (simp add: running_in_def)
  finally show ?case using le by simp
qed simp

lemma heartbeats_running_le:
  "count_where (running_in P) (update_heartbeats c ids t) \<le> count_where (running_in P) t"
proof (induction ids arbitrary: t)
  case (Cons i ids)
  let ?t = "case update_heartbeat c i t of Inl _ \<Rightarrow> t | Inr t' \<Rightarrow> t'"
  have "?t = t \<or> ?t = update_where (has_id i) (\<lambda>r. r\<lparr>jr_heartbeat_at := Some (clk_now c)\<rparr>) t"
    by (auto simp: update_heartbeat_def exec_update_def Let_def split: sum.splits if_splits)
  moreover have "count_where (running_in P) (update_where (has_id i) (\<lambda>r. r\<lparr>jr_heartbeat_at := Some (clk_now c)\<rparr>) t)
      \<le> count_where (running_in P) t"
    by (rule count_update_le) (simp add: running_in_def)
  ultimately have "count_where (running_in P) ?t \<le> count_where (running_in P) t" by auto
  moreover have "count_where (running_in P) (update_heartbeats c ids ?t) \<le> count_where (running_in P) ?t"
    by (rule Cons)
  ultimately show ?case by simp
qed simp

lemma resolve_running_le:
  "count_where (running_in P) (fst (resolve_claimed c registry qt runs t)) \<le> count_where (running_in P) t"
proof (induction runs arbitrary: t)
  case (Cons run runs)
  obtain t1 d where d: "resolve_job_def c registry qt run t = (t1, d)" by fastforce
  then have "count_where (running_in P) t1 \<le> count_where (running_in P) t"
    by (auto simp: resolve_job_def_def split: option.splits if_splits sum.splits intro: fail_running_le)
  moreover have "fst (resolve_claimed c registry qt (run # runs) t) = fst (resolve_claimed c registry qt runs t1)"
    using d by (simp split: prod.splits)
  ultimately show ?case using Cons [of t1] by simp
qed simp

text \<open>Every step but a claim lets the number of running rows of a slug or a queue only fall.\<close>

lemma sched_step_running_le:
  assumes "sched_step registry qm decay ev s s'" "ev \<noteq> Poll"
  shows "count_where (running_in P) (ss_jobs s') \<le> count_where (running_in P) (ss_jobs s)"
  using assms
proof (induction rule: sched_step.induct)
  case (enqueue i s c opts t' ij)
  then show ?case
    by (auto simp: insert_job_with_def Let_def running_in_def split: if_splits option.splits)
next
  case (timeout k s t' c e)
  then show ?case by (auto split: sum.splits intro: fail_running_le)
next
  case (restart s c t')
  then show ?case by (auto simp: recover_stale_jobs_def result_simps intro: mark_all_stale_running_le)
next
  case (cancel slug s t' n)
  then show ?case by (auto simp: cancel_pending_jobs_def Let_def count_delete_le)
next
  case (purge c older s t' n)
  then show ?case by (auto simp: purge_old_jobs_def result_simps count_delete_le)
qed (auto simp: end_task_def count_delete_le intro: complete_running_le fail_running_le heartbeats_running_le)

lemma count_running_slug: "count_running (Some s) t = int (count_where (running_in (\<lambda>sl q. sl = s)) t)"
  by (simp add: count_running_def running_in_def [abs_def])

lemma count_running_queue: "count_running_queue q t = int (count_where (running_in (\<lambda>sl qu. qu = q)) t)"
  by (simp add: count_running_queue_def running_in_def [abs_def])

text \<open>One step keeps both caps.\<close>

definition caps_kept :: "job_registry \<Rightarrow> queue_maps \<Rightarrow> job_table \<Rightarrow> bool" where
  "caps_kept registry qm t \<longleftrightarrow>
     (\<forall>s. count_running (Some s) t \<le> uint (per_slug_cap s (read_job_concurrency registry))) \<and>
     (\<forall>q cap. qm_concurrency qm q = Some cap \<and> 0 < cap \<longrightarrow> count_running_queue q t \<le> uint cap)"

lemma poll_claim_caps:
  assumes "jobs_wf t" "poll_claim c registry qm decay n t = Inr (t', sp)" "caps_kept registry qm t"
  shows "caps_kept registry qm t'"
  using assms(1,2)
proof (cases rule: poll_claim_cases)
  case 1
  with assms show ?thesis by simp
next
  case (2 G)
  let ?t = "mark_claimed c (jr_id ` set G) t"
  have t': "t' = fst (resolve_claimed c registry (qm_timeouts qm) (map claimed_run G) ?t)"
    using 2(3) by (metis fst_conv)
  have "count_running (Some s) t' \<le> count_running (Some s) ?t" for s
    unfolding t' count_running_slug using resolve_running_le by simp
  moreover have "count_running (Some s) ?t \<le> uint (per_slug_cap s (read_job_concurrency registry))" for s
    using claim_slug_cap [OF assms(1) 2(2), of s] assms(3) by (auto simp: caps_kept_def)
  moreover have "count_running_queue q t' \<le> count_running_queue q ?t" for q
    unfolding t' count_running_queue using resolve_running_le by simp
  moreover have "count_running_queue q ?t \<le> uint cap" if "qm_concurrency qm q = Some cap" "0 < cap" for q cap
    using claim_queue_cap [OF assms(1) 2(2) that] assms(3) that by (auto simp: caps_kept_def)
  ultimately show ?thesis unfolding caps_kept_def by (meson order_trans)
qed

lemma sched_step_caps:
  assumes "sched_step registry qm decay ev s s'" "jobs_wf (ss_jobs s)" "caps_kept registry qm (ss_jobs s)"
  shows "caps_kept registry qm (ss_jobs s')"
proof (cases "ev = Poll")
  case True
  with assms show ?thesis
    by (cases rule: sched_step.cases) (auto intro: poll_claim_caps)
next
  case False
  note le = sched_step_running_le [OF assms(1) False]
  have "count_running (Some sl) (ss_jobs s') \<le> count_running (Some sl) (ss_jobs s)" for sl
    unfolding count_running_slug using le by simp
  moreover have "count_running_queue q (ss_jobs s') \<le> count_running_queue q (ss_jobs s)" for q
    unfolding count_running_queue using le by simp
  ultimately show ?thesis using assms(3) unfolding caps_kept_def by (meson order_trans)
qed

lemma caps_kept_init: "caps_kept registry qm []"
  by (simp add: caps_kept_def count_running_def count_running_queue_def)

section \<open>Properties of the machine\<close>

definition demo_def :: job_definition where
  "demo_def = (job_definition_builder ''j'' ''jobs.j.run'')\<lparr>jd_retries := Some 1, jd_timeout := 5\<rparr>"

definition demo_registry :: job_registry where
  "demo_registry = [(''j'', demo_def)]"

definition demo_maps :: queue_maps where
  "demo_maps = build_queue_maps jobs_config_default"

definition demo_opts :: insert_job_opts where
  "demo_opts = \<lparr>o_slug = ''j'', o_data = ''{}'', o_scheduled_by = ''hook'',
     o_max_attempts = effective_max_attempts demo_def None, o_queue = ''default'', o_priority = 0,
     o_delay_secs = 0, o_unique_key = Some ''k''\<rparr>"

definition demo_start :: sched_state where
  "demo_start = \<lparr>ss_jobs = [new_row (sqlite_clock 100) ''a'' demo_opts], ss_tasks = [],
                 ss_tracked = [], ss_used = [''a'']\<rparr>"

lemma demo_start_reach:
  "Enqueue \<in> allowed \<Longrightarrow> sched_reach demo_registry demo_maps 0 allowed demo_start"
proof -
  assume "Enqueue \<in> allowed"
  have "insert_job_with (sqlite_clock 100) ''a'' demo_opts (ss_jobs sched_init) =
      Inr ([new_row (sqlite_clock 100) ''a'' demo_opts], Created (created_run ''a'' demo_opts))"
    by (simp add: insert_job_with_def sched_init_def unique_conflict_def split: option.splits)
  then have "sched_step demo_registry demo_maps 0 Enqueue sched_init
      (sched_init\<lparr>ss_jobs := [new_row (sqlite_clock 100) ''a'' demo_opts], ss_used := ''a'' # ss_used sched_init\<rparr>)"
    by (intro sched_step.enqueue) (simp_all add: sched_init_def)
  with \<open>Enqueue \<in> allowed\<close> show ?thesis
    by (auto simp: demo_start_def sched_init_def intro: sched_reach.intros)
qed

text \<open>
  C3: In every reachable state of the scheduler, whatever happened before (crashes, timeouts,
  recoveries, cancellations), the job table is well-formed (ids are unique, at most one
  pending or running row per slug and unique key, only the five statuses), and the rows
  marked running respect every per-slug and every positive per-queue cap.
\<close>
theorem scheduler_caps_invariant:
  assumes "sched_reach registry qm decay allowed s"
  shows "jobs_wf (ss_jobs s) \<and> caps_kept registry qm (ss_jobs s)"
  using assms
proof (induction rule: sched_reach.induct)
  case init
  show ?case by (simp add: sched_init_def caps_kept_init)
next
  case (step s ev s')
  then show ?case using sched_step_wf sched_step_caps by blast
qed

theorem scheduler_caps_invariant_witness:
  "sched_reach demo_registry demo_maps 0 {Enqueue} demo_start \<and> caps_kept demo_registry demo_maps (ss_jobs demo_start)"
  using demo_start_reach scheduler_caps_invariant [OF demo_start_reach [of "{Enqueue}"]] by simp

text \<open>
  As long as no execution times out, a run is never attempted more often than its budget
  (\<open>max_attempts\<close>, at least one), a pending row always has an attempt left, and no two live
  executions belong to the same run.
\<close>
theorem attempts_within_budget:
  assumes "sched_reach registry qm decay allowed s" "Timeout \<notin> allowed" "r \<in> set (ss_jobs s)"
  shows "jr_attempt r \<le> max 1 (jr_max_attempts r) \<and>
    (jr_status r = ''pending'' \<longrightarrow> jr_attempt r < max 1 (jr_max_attempts r)) \<and>
    distinct (map run_id (ss_tasks s))"
  using sched_reach_attempts [OF assms(1,2)] assms(3)
  by (auto simp: attempts_inv_def row_ok_def budget_def)

theorem attempts_within_budget_witness:
  "jr_attempt (new_row (sqlite_clock 100) ''a'' demo_opts) < max 1 (jr_max_attempts (new_row (sqlite_clock 100) ''a'' demo_opts))"
  using attempts_within_budget [OF demo_start_reach [of "{Enqueue}"], of "new_row (sqlite_clock 100) ''a'' demo_opts"]
  by (simp add: demo_start_def)

text \<open>
  The run of a timed-out execution, step by step: \<open>demo_row\<close> is claimed (attempt 1 of 2), times
  out and is queued for a retry, is claimed again (attempt 2), then the first execution, still
  alive, reports its own failure, and the row is claimed a third time.
\<close>

definition demo_row :: job_row where "demo_row = new_row (sqlite_clock 100) ''a'' demo_opts"
definition demo_run1 :: job_row where "demo_run1 = start_row (sqlite_clock 101) demo_row"
definition demo_wait1 :: job_row where
  "demo_wait1 = retry_row (sqlite_clock 106) ''timeout after 5s'' 5 demo_run1"
definition demo_run2 :: job_row where "demo_run2 = start_row (sqlite_clock 111) demo_wait1"
definition demo_wait2 :: job_row where "demo_wait2 = retry_row (sqlite_clock 112) ''boom'' 5 demo_run2"
definition demo_run3 :: job_row where "demo_run3 = start_row (sqlite_clock 117) demo_wait2"

lemma demo_poll1: "poll_claim (sqlite_clock 101) demo_registry demo_maps 0 1 [demo_row] =
    Inr ([demo_run1], [(claimed_run demo_row, demo_def)])"
  by code_simp

lemma demo_poll2: "poll_claim (sqlite_clock 111) demo_registry demo_maps 0 1 [demo_wait1] =
    Inr ([demo_run2], [(claimed_run demo_wait1, demo_def)])"
  by code_simp

lemma demo_poll3: "poll_claim (sqlite_clock 117) demo_registry demo_maps 0 1 [demo_wait2] =
    Inr ([demo_run3], [(claimed_run demo_wait2, demo_def)])"
  by code_simp

lemma demo_timeout: "fail_job (sqlite_clock 106) ''a'' ''timeout after 5s'' (should_retry (claimed_run demo_row))
    (run_attempt (claimed_run demo_row)) [demo_run1] = Inr [demo_wait1]"
  by code_simp

lemma demo_late_failure: "fail_job (sqlite_clock 112) ''a'' ''boom'' (should_retry (claimed_run demo_row))
    (run_attempt (claimed_run demo_row)) [demo_run2] = Inr [demo_wait2]"
  by code_simp

lemma demo_ids: "jr_id demo_row = ''a''" "jr_id demo_wait1 = ''a''" "jr_id demo_wait2 = ''a''"
  by code_simp+

text \<open>
  A timed-out execution breaks the budget: since \<open>spawn_blocking\<close> work is not cancelled and
  neither \<open>complete_job\<close> nor \<open>fail_job\<close> checks that the row is still the execution's own, the
  scheduler reaches a state where a run with a budget of two attempts is on its third, and
  two executions of it are alive although its slug has a concurrency cap of one.
\<close>
theorem timeout_escapes_budget_and_cap:
  "\<exists>s r. sched_reach demo_registry demo_maps 0 {Enqueue, Poll, Timeout, Finish} s \<and>
     r \<in> set (ss_jobs s) \<and> jr_max_attempts r = 2 \<and> jr_attempt r = 3 \<and>
     length (filter (\<lambda>k. run_id k = jr_id r) (ss_tasks s)) = 2 \<and>
     per_slug_cap (jr_slug r) (read_job_concurrency demo_registry) = 1"
proof -
  let ?A = "{Enqueue, Poll, Timeout, Finish}"
  let ?R = "sched_reach demo_registry demo_maps 0 ?A"
  let ?k1 = "claimed_run demo_row" and ?k2 = "claimed_run demo_wait1" and ?k3 = "claimed_run demo_wait2"
  let ?s0 = "\<lparr>ss_jobs = [demo_row], ss_tasks = [], ss_tracked = [], ss_used = [''a'']\<rparr>"
  let ?s1 = "\<lparr>ss_jobs = [demo_run1], ss_tasks = [?k1], ss_tracked = [''a''], ss_used = [''a'']\<rparr>"
  let ?s2 = "\<lparr>ss_jobs = [demo_wait1], ss_tasks = [?k1], ss_tracked = [], ss_used = [''a'']\<rparr>"
  let ?s3 = "\<lparr>ss_jobs = [demo_run2], ss_tasks = [?k1, ?k2], ss_tracked = [''a''], ss_used = [''a'']\<rparr>"
  let ?s4 = "\<lparr>ss_jobs = [demo_wait2], ss_tasks = [?k2], ss_tracked = [], ss_used = [''a'']\<rparr>"
  let ?s5 = "\<lparr>ss_jobs = [demo_run3], ss_tasks = [?k2, ?k3], ss_tracked = [''a''], ss_used = [''a'']\<rparr>"
  have "?R ?s0" using demo_start_reach [of ?A] by (simp add: demo_start_def demo_row_def)
  moreover have "sched_step demo_registry demo_maps 0 Poll ?s0 ?s1"
    using sched_step.poll [where s = ?s0 and c = "sqlite_clock 101" and available = 1
        and t' = "[demo_run1]" and spawned = "[(?k1, demo_def)]"] demo_poll1
    by (simp add: demo_ids)
  ultimately have "?R ?s1" by (auto intro: sched_reach.step)
  moreover have "sched_step demo_registry demo_maps 0 Timeout ?s1 ?s2"
    using sched_step.timeout [where s = ?s1 and k = ?k1 and c = "sqlite_clock 106"
        and e = "''timeout after 5s''" and t' = "[demo_wait1]"] demo_timeout
    by (simp add: demo_ids)
  ultimately have "?R ?s2" by (auto intro: sched_reach.step)
  moreover have "sched_step demo_registry demo_maps 0 Poll ?s2 ?s3"
    using sched_step.poll [where s = ?s2 and c = "sqlite_clock 111" and available = 1
        and t' = "[demo_run2]" and spawned = "[(?k2, demo_def)]"] demo_poll2
    by (simp add: demo_ids)
  ultimately have "?R ?s3" by (auto intro: sched_reach.step)
  moreover have "sched_step demo_registry demo_maps 0 Finish ?s3 ?s4"
    using sched_step.finish_err [where s = ?s3 and k = ?k1 and c = "sqlite_clock 112"
        and e = "''boom''" and t' = "[demo_wait2]"] demo_late_failure
    by (simp add: demo_ids end_task_def)
  ultimately have "?R ?s4" by (auto intro: sched_reach.step)
  moreover have "sched_step demo_registry demo_maps 0 Poll ?s4 ?s5"
    using sched_step.poll [where s = ?s4 and c = "sqlite_clock 117" and available = 1
        and t' = "[demo_run3]" and spawned = "[(?k3, demo_def)]"] demo_poll3
    by (simp add: demo_ids)
  ultimately have "?R ?s5" by (auto intro: sched_reach.step)
  moreover have "jr_max_attempts demo_run3 = 2" "jr_attempt demo_run3 = 3"
    "length (filter (\<lambda>k. run_id k = jr_id demo_run3) [?k2, ?k3]) = 2"
    "per_slug_cap (jr_slug demo_run3) (read_job_concurrency demo_registry) = 1"
    by code_simp+
  ultimately show ?thesis by (intro exI [of _ ?s5] exI [of _ demo_run3]) simp
qed

end
