(* ===== verification/JobLifecycle.thy ===== *)
theory JobLifecycle
  imports Scheduler
begin

text \<open>
  What the statements of src/src/db/query/jobs/lifecycle.rs promise to their callers.  The
  interface \<open>row_writer\<close> is a statement that rewrites the row of one id and no other;
  completing, failing, marking stale and the heartbeat are its instances.  Its client lemma
  lifts the promise to a sequence of statements, which gives the recovery at start-up and
  the heartbeat tick in closed form.  The last part is about the outcome of one execution.
\<close>

section \<open>Statements that rewrite one row\<close>

text \<open>A statement applied to each item in turn, stopping at the first error.\<close>

fun write_all :: "('k \<Rightarrow> 't \<Rightarrow> 'e + 't) \<Rightarrow> 'k list \<Rightarrow> 't \<Rightarrow> 'e + 't" where
  "write_all w [] t = Inr t"
| "write_all w (k # ks) t = bindE (w k t) (write_all w ks)"

locale row_writer =
  fixes ok :: "'t \<Rightarrow> bool"
    and row :: "'t \<Rightarrow> 'i \<Rightarrow> 'r option"
    and key :: "'k \<Rightarrow> 'i"
    and wr :: "'k \<Rightarrow> 't \<Rightarrow> 'e + 't"
    and effect :: "'k \<Rightarrow> 'r \<Rightarrow> 'r"
  assumes write_ok: "ok t \<Longrightarrow> \<exists>t'. wr k t = Inr t' \<and> ok t'"
    and write_row: "ok t \<Longrightarrow> wr k t = Inr t' \<Longrightarrow>
      row t' i = (if i = key k then map_option (effect k) (row t i) else row t i)"
begin

lemma write_all_ok: "ok t \<Longrightarrow> \<exists>t'. write_all wr ks t = Inr t' \<and> ok t'"
proof (induction ks arbitrary: t)
  case (Cons k ks)
  obtain t1 where "wr k t = Inr t1" "ok t1" using write_ok [OF Cons.prems] by blast
  with Cons.IH [of t1] show ?case by simp
qed simp

lemma write_all_row:
  assumes "ok t" "write_all wr ks t = Inr t'"
  shows "row t' i = map_option (fold effect (filter (\<lambda>k. key k = i) ks)) (row t i)"
  using assms
proof (induction ks arbitrary: t)
  case Nil
  then show ?case by (simp add: option.map_ident)
next
  case (Cons k ks)
  obtain t1 where t1: "wr k t = Inr t1" "ok t1" using write_ok [OF Cons.prems(1)] by blast
  with Cons.prems(2) have "write_all wr ks t1 = Inr t'" by simp
  from Cons.IH [OF t1(2) this] write_row [OF Cons.prems(1) t1(1), of i]
  show ?case by (auto simp: option.map_comp comp_def)
qed

lemma write_all_untouched:
  assumes "ok t" "write_all wr ks t = Inr t'" "i \<notin> key ` set ks"
  shows "row t' i = row t i"
proof -
  have "filter (\<lambda>k. key k = i) ks = []" using assms(3) by (auto simp: filter_empty_conv)
  with write_all_row [OF assms(1,2), of i] show ?thesis by (simp add: option.map_id)
qed

lemma write_all_once:
  assumes "ok t" "write_all wr ks t = Inr t'" "distinct (map key ks)" "k \<in> set ks"
  shows "row t' (key k) = map_option (effect k) (row t (key k))"
proof -
  have "filter (\<lambda>x. key x = key k) ks = [k]"
    using assms(3,4)
  proof (induction ks)
    case (Cons a ks)
    show ?case
    proof (cases "a = k")
      case True
      with Cons.prems(1) have "filter (\<lambda>x. key x = key k) ks = []"
        by (auto simp: filter_empty_conv image_iff)
      with True show ?thesis by simp
    next
      case False
      with Cons.prems have "k \<in> set ks" "key a \<noteq> key k" by (auto simp: image_iff)
      with Cons show ?thesis by simp
    qed
  qed simp
  with write_all_row [OF assms(1,2), of "key k"] show ?thesis by simp
qed

end

section \<open>The row of an id\<close>

definition row_of :: "job_table \<Rightarrow> string \<Rightarrow> job_row option" where
  "row_of t i = find (has_id i) t"

lemma row_of_update:
  assumes "\<And>r. jr_id (f r) = jr_id r"
  shows "row_of (update_where (has_id i) f t) j =
    (if j = i then map_option f (row_of t j) else row_of t j)"
  using assms by (induction t) (auto simp: row_of_def has_id_def)

lemma get_job_run_row_of: "get_job_run i t = map_option (row_to_job_run True) (row_of t i)"
  by (simp add: get_job_run_def row_of_def has_id_def [abs_def])

lemma row_of_simps [simp]:
  "row_of [] i = None"
  "row_of (r # t) i = (if jr_id r = i then Some r else row_of t i)"
  by (simp_all add: row_of_def has_id_def)

lemma row_of_SomeD: "row_of t i = Some r \<Longrightarrow> r \<in> set t \<and> jr_id r = i"
  by (induction t) (auto split: if_splits)

lemma row_of_mem: "unique_ids t \<Longrightarrow> r \<in> set t \<Longrightarrow> row_of t (jr_id r) = Some r"
  by (induction t) (auto simp: unique_ids_def image_iff)

lemma row_of_Some_iff: "unique_ids t \<Longrightarrow> row_of t i = Some r \<longleftrightarrow> r \<in> set t \<and> jr_id r = i"
  using row_of_mem row_of_SomeD by blast

text \<open>A table with unique ids is determined by its ids in order and the row of each.\<close>

lemma table_eqI:
  assumes "map jr_id t = map jr_id u" "unique_ids t" "\<And>i. row_of t i = row_of u i"
  shows "t = u"
proof (rule nth_equalityI)
  show len: "length t = length u" using assms(1) by (rule map_eq_imp_length_eq)
  fix n assume n: "n < length t"
  have u: "unique_ids u" using assms(1,2) by (simp add: unique_ids_def)
  have eq: "jr_id (t ! n) = jr_id (u ! n)" using assms(1) n len by (metis nth_map)
  have "Some (t ! n) = row_of t (jr_id (t ! n))"
    using assms(2) n by (simp add: row_of_mem)
  also have "\<dots> = row_of u (jr_id (u ! n))" unfolding eq by (rule assms(3))
  also have "\<dots> = Some (u ! n)"
    using u n len by (simp add: row_of_mem)
  finally show "t ! n = u ! n" by simp
qed

lemma single_writer_laws:
  assumes "\<And>t. jobs_wf t \<Longrightarrow> w t = Inr (update_where (has_id i) f t)"
    and "\<And>r. jr_id (f r) = jr_id r"
    and "\<And>t t'. jobs_wf t \<Longrightarrow> w t = Inr t' \<Longrightarrow> jobs_wf t'"
    and "jobs_wf t"
  shows "\<exists>t'. w t = Inr t' \<and> jobs_wf t'"
    and "w t = Inr t' \<Longrightarrow> row_of t' j = (if j = i then map_option f (row_of t j) else row_of t j)"
  using assms by (auto simp: row_of_update)

lemma jobs_wf_unique: "jobs_wf t \<Longrightarrow> unique_active t"
  by (simp add: jobs_wf_def)

interpretation complete: row_writer jobs_wf row_of "\<lambda>k. k" "\<lambda>k. complete_job c k res" "\<lambda>_. complete_row c res"
  for c res
proof
  note laws = single_writer_laws [of "complete_job c k res" k "complete_row c res" for k,
      OF complete_job_eq [OF jobs_wf_unique] _ complete_job_wf]
  show "jobs_wf t \<Longrightarrow> \<exists>t'. complete_job c k res t = Inr t' \<and> jobs_wf t'" for t k
    by (rule laws(1)) (auto simp: complete_row_def)
  show "jobs_wf t \<Longrightarrow> complete_job c k res t = Inr t' \<Longrightarrow>
      row_of t' i = (if i = k then map_option (complete_row c res) (row_of t i) else row_of t i)" for t k t' i
    by (rule laws(2)) (auto simp: complete_row_def)
qed

interpretation stale: row_writer jobs_wf row_of run_id
    "\<lambda>k. mark_stale c (run_id k) (stale_error registry (run_slug k))"
    "\<lambda>k. stale_row c (stale_error registry (run_slug k))"
  for c registry
proof
  note laws = single_writer_laws [of "mark_stale c i e" i "stale_row c e" for i e,
      OF mark_stale_eq [OF jobs_wf_unique] _ mark_stale_wf]
  show "jobs_wf t \<Longrightarrow> \<exists>t'. mark_stale c (run_id k) (stale_error registry (run_slug k)) t = Inr t' \<and> jobs_wf t'"
    for t k by (rule laws(1)) (auto simp: stale_row_def)
  show "jobs_wf t \<Longrightarrow> mark_stale c (run_id k) (stale_error registry (run_slug k)) t = Inr t' \<Longrightarrow>
      row_of t' i = (if i = run_id k then map_option (stale_row c (stale_error registry (run_slug k))) (row_of t i)
                     else row_of t i)" for t k t' i
    by (rule laws(2)) (auto simp: stale_row_def)
qed

definition beat_row :: "clock \<Rightarrow> job_row \<Rightarrow> job_row" where
  "beat_row c r = r\<lparr>jr_heartbeat_at := Some (clk_now c)\<rparr>"

lemma update_heartbeat_beat: "jobs_wf t \<Longrightarrow> update_heartbeat c i t = Inr (update_where (has_id i) (beat_row c) t)"
  by (simp add: update_heartbeat_eq [OF jobs_wf_unique] beat_row_def [abs_def])

interpretation beat: row_writer jobs_wf row_of "\<lambda>k. k" "update_heartbeat c" "\<lambda>_. beat_row c"
  for c
proof
  note laws = single_writer_laws [of "update_heartbeat c k" k "beat_row c" for k,
      OF update_heartbeat_beat _ update_heartbeat_wf]
  show "jobs_wf t \<Longrightarrow> \<exists>t'. update_heartbeat c k t = Inr t' \<and> jobs_wf t'" for t k
    by (rule laws(1)) (auto simp: beat_row_def)
  show "jobs_wf t \<Longrightarrow> update_heartbeat c k t = Inr t' \<Longrightarrow>
      row_of t' i = (if i = k then map_option (beat_row c) (row_of t i) else row_of t i)" for t k t' i
    by (rule laws(2)) (auto simp: beat_row_def)
qed

section \<open>Recovery and heartbeats in closed form\<close>

lemma mark_all_stale_write_all:
  "mark_all_stale c registry js t =
     write_all (\<lambda>k. mark_stale c (run_id k) (stale_error registry (run_slug k))) js t"
  by (induction js arbitrary: t) (simp_all add: bindE_def split: sum.splits)

lemma mark_all_stale_ids:
  "jobs_wf t \<Longrightarrow> mark_all_stale c registry js t = Inr t' \<Longrightarrow> map jr_id t' = map jr_id t"
proof (induction js arbitrary: t)
  case (Cons j js)
  obtain t1 where t1: "mark_stale c (run_id j) (stale_error registry (run_slug j)) t = Inr t1"
    "mark_all_stale c registry js t1 = Inr t'"
    using Cons.prems(2) by (auto simp: result_simps)
  have "map jr_id t1 = map jr_id t"
    using t1(1) mark_stale_eq [OF jobs_wf_unique [OF Cons.prems(1)]]
    by (auto simp: stale_row_def intro: map_update_where)
  with Cons.IH [OF mark_stale_wf [OF Cons.prems(1) t1(1)] t1(2)] show ?case by simp
qed simp

lemma row_to_job_run_sel [simp]:
  "run_id (row_to_job_run w r) = jr_id r" "run_slug (row_to_job_run w r) = jr_slug r"
  by (simp_all add: row_to_job_run_def job_run_builder_def)

lemma row_of_map:
  assumes "\<And>r. jr_id (g r) = jr_id r"
  shows "row_of (map g t) i = map_option g (row_of t i)"
  using assms by (induction t) auto

lemma mark_all_stale_eq:
  assumes wf: "jobs_wf t"
  shows "mark_all_stale c registry (map (row_to_job_run False) (filter p t)) t =
    Inr (map (\<lambda>r. if p r then stale_row c (stale_error registry (jr_slug r)) r else r) t)"
proof -
  let ?js = "map (row_to_job_run False) (filter p t)"
  let ?w = "\<lambda>k. mark_stale c (run_id k) (stale_error registry (run_slug k))"
  let ?g = "\<lambda>r. if p r then stale_row c (stale_error registry (jr_slug r)) r else r"
  have ids: "jr_id (?g r) = jr_id r" for r by (simp add: stale_row_def)
  have uids: "unique_ids t" using wf by (simp add: jobs_wf_def)
  have dist: "distinct (map run_id ?js)"
    using uids by (simp add: unique_ids_def comp_def distinct_map_filter)
  obtain t' where t': "write_all ?w ?js t = Inr t'" "jobs_wf t'"
    using stale.write_all_ok [OF wf] by blast
  have "row_of t' i = row_of (map ?g t) i" for i
  proof (cases "i \<in> run_id ` set ?js")
    case True
    then obtain r where r: "r \<in> set t" "p r" "i = jr_id r" by auto
    then have "row_to_job_run False r \<in> set ?js" by auto
    from stale.write_all_once [OF wf t'(1) dist this] r row_of_mem [OF uids r(1)]
    show ?thesis by (simp add: row_of_map [OF ids])
  next
    case False
    then have "row_of t i = Some r \<Longrightarrow> \<not> p r" for r by (force dest: row_of_SomeD)
    with stale.write_all_untouched [OF wf t'(1) False]
    show ?thesis by (cases "row_of t i") (simp_all add: row_of_map [OF ids])
  qed
  moreover have "map jr_id t' = map jr_id (map ?g t)"
    using mark_all_stale_ids [OF wf] t'(1) by (simp add: mark_all_stale_write_all stale_row_def)
  ultimately have "t' = map ?g t"
    using t'(2) by (intro table_eqI) (simp_all add: jobs_wf_def)
  with t'(1) show ?thesis by (simp add: mark_all_stale_write_all)
qed

lemma update_heartbeats_eq:
  assumes "jobs_wf t"
  shows "update_heartbeats c ids t = map (\<lambda>r. if jr_id r \<in> set ids then beat_row c r else r) t"
  using assms
proof (induction ids arbitrary: t)
  case (Cons i ids)
  have "jobs_wf (update_where (has_id i) (beat_row c) t)"
    using update_heartbeat_wf [OF Cons.prems update_heartbeat_beat [OF Cons.prems]] .
  from Cons.IH [OF this] show ?case
    by (auto simp: update_heartbeat_beat [OF Cons.prems] update_where_def has_id_def beat_row_def)
qed simp

text \<open>
  Recovery at start-up cannot fail on a well-formed table, marks stale exactly the running
  rows without a heartbeat or with one before the database's clock, each with the timeout of
  its own job in the message, and changes no other row.
\<close>
theorem recover_marks_exactly_stale:
  assumes "jobs_wf t"
  shows "recover_stale_jobs c registry t =
    Inr (map (\<lambda>r. if is_stale_row c 0 r then stale_row c (stale_error registry (jr_slug r)) r else r) t)"
proof -
  have "find_stale_jobs c 0 t = Inr (map (row_to_job_run False) (filter (is_stale_row c 0) t))"
    by (simp add: find_stale_jobs_def i64_from_u64_def i64_try_from_def)
  then show ?thesis by (simp add: recover_stale_jobs_def mark_all_stale_eq [OF assms])
qed

text \<open>
  A heartbeat tick writes the current time into the rows of the tracked runs and into no
  other row, whatever the order of the ids and however often one occurs.
\<close>
theorem heartbeat_tick_exact:
  assumes "jobs_wf t"
  shows "update_heartbeats c ids t = map (\<lambda>r. if jr_id r \<in> set ids then beat_row c r else r) t"
  by (rule update_heartbeats_eq [OF assms])

section \<open>Enqueueing\<close>

definition holds_key :: "string \<Rightarrow> string \<Rightarrow> job_row \<Rightarrow> bool" where
  "holds_key slug k r \<longleftrightarrow> jr_slug r = slug \<and> jr_unique_key r = Some k \<and> is_active_status (jr_status r)"

lemma mem_active_keys_holds: "(s, k) \<in> set (active_keys t) \<longleftrightarrow> (\<exists>r \<in> set t. holds_key s k r)"
  by (auto simp: mem_active_keys holds_key_def)

lemma holds_key_unique:
  assumes "unique_active t"
  shows "filter (holds_key s k) t = (case find (holds_key s k) t of None \<Rightarrow> [] | Some r \<Rightarrow> [r])"
  using assms unfolding unique_active_def
proof (induction t)
  case (Cons r t)
  show ?case
  proof (cases "holds_key s k r")
    case True
    with Cons.prems have "(s, k) \<notin> set (active_keys t)"
      by (auto simp: holds_key_def split: option.splits)
    then have "filter (holds_key s k) t = []" by (auto simp: mem_active_keys_holds filter_empty_conv)
    with True show ?thesis by simp
  next
    case False
    with Cons show ?thesis by (auto split: option.splits if_splits)
  qed
qed simp

text \<open>
  An enqueue with a fresh id on a well-formed table never fails.  Without a unique key, or
  with one no pending or running run of the slug has, it appends the new row; otherwise it
  leaves the table as it is and returns the one run that holds the key.
\<close>
theorem unique_key_dedup:
  assumes "jobs_wf t" "i \<notin> jr_id ` set t"
  shows "insert_job_with c i opts t =
    (case Option.bind (o_unique_key opts) (\<lambda>k. find (holds_key (o_slug opts) k) t) of
       None \<Rightarrow> Inr (t @ [new_row c i opts], Created (created_run i opts))
     | Some r \<Rightarrow> Inr (t, Existing (row_to_job_run True r)))"
proof (cases "o_unique_key opts")
  case None
  with assms(2) show ?thesis by (simp add: insert_job_with_def unique_conflict_def)
next
  case (Some k)
  let ?h = "holds_key (o_slug opts) k"
  have uc: "unique_conflict opts t \<longleftrightarrow> find ?h t \<noteq> None"
    using Some by (auto simp: unique_conflict_def mem_active_keys_holds find_None_iff)
  show ?thesis
  proof (cases "find ?h t")
    case None
    with assms(2) Some uc show ?thesis by (simp add: insert_job_with_def)
  next
    case (Some r)
    then have r: "r \<in> set t" by (auto simp: find_Some_iff)
    have "filter (\<lambda>r. jr_slug r = o_slug opts \<and> jr_unique_key r = Some k \<and> is_active_status (jr_status r)) t = [r]"
      using holds_key_unique [OF jobs_wf_unique [OF assms(1)]] Some
      by (simp add: holds_key_def [abs_def])
    moreover have "get_job_run (jr_id r) t = Some (row_to_job_run True r)"
      using row_of_mem [of t r] assms(1) r by (simp add: get_job_run_row_of jobs_wf_def)
    ultimately show ?thesis
      using Some \<open>o_unique_key opts = Some k\<close> uc assms(2)
      by (simp add: insert_job_with_def find_active_by_unique_key_def)
  qed
qed

text \<open>
  A created run reads back: looking its id up gives the run the enqueue returned, now with
  the creation time and, for a delayed run, the time it becomes due.
\<close>
theorem insert_then_get:
  assumes "insert_job_with c i opts t = Inr (t', Created run)"
    and "- (2 ^ 31) \<le> o_priority opts" "o_priority opts < 2 ^ 31"
  shows "get_job_run i t' = Some (run\<lparr>run_created_at := Some (clk_now c),
    run_retry_after := (if o_delay_secs opts = 0 then None
                        else clk_offset c (unwrap_or i64_max (i64_try_from (uint (o_delay_secs opts)))))\<rparr>)"
proof -
  have i: "i \<notin> jr_id ` set t" "t' = t @ [new_row c i opts]" "run = created_run i opts"
    using assms(1) by (auto simp: insert_job_with_def Let_def split: if_splits option.splits)
  have "row_of t i = None" using i(1) by (cases "row_of t i") (auto dest: row_of_SomeD)
  then have "find (has_id i) (t @ [new_row c i opts]) = Some (new_row c i opts)"
    by (induction t) (auto simp: has_id_def split: if_splits)
  moreover have "u32_try_from (uint m) = Some m" for m :: u32
    using unsigned_less [of m, where 'a = int] by (simp add: u32_try_from_def)
  moreover have "(0 < o_delay_secs opts) = (o_delay_secs opts \<noteq> 0)" by (simp add: word_gt_0)
  ultimately show ?thesis
    using assms(2,3) i(2,3)
    by (simp add: get_job_run_def has_id_def [abs_def] row_to_job_run_def new_row_def created_run_def
        job_run_builder_def u32_try_from_def i32_try_from_def Let_def date_offset_def)
qed

section \<open>The outcome of an execution\<close>

lemma update_where_single:
  assumes "unique_ids t" "r \<in> set t" "jr_id r = i"
  shows "update_where (has_id i) f t = update_where (has_id i) (\<lambda>_. f r) t"
proof -
  have "f x = f r" if "x \<in> set t" "has_id i x" for x
    using that assms distinct_key_unique [of jr_id t x r] by (simp add: unique_ids_def has_id_def)
  then show ?thesis by (simp add: update_where_def)
qed

text \<open>How a run can leave its execution: the row the last statement writes.\<close>

definition rejected_image :: "job_env \<Rightarrow> job_run \<Rightarrow> bool" where
  "rejected_image env run \<longleftrightarrow> run_slug run = SYSTEM_IMAGE_CONVERT_JOB \<and>
     (case image_from_str env (run_data run) of
        None \<Rightarrow> False
      | Some d \<Rightarrow> \<not> is_valid_identifier (im_collection d) \<or> \<not> is_valid_identifier (im_url_column d))"

definition settles :: "clock \<Rightarrow> job_env \<Rightarrow> job_run \<Rightarrow> job_row \<Rightarrow> job_row \<Rightarrow> bool" where
  "settles c env run r r' \<longleftrightarrow>
     (\<exists>res. r' = complete_row c res r) \<or>
     (\<exists>e. r' = retry_row c e (backoff_seconds (run_attempt run)) r \<and> should_retry run \<and> \<not> rejected_image env run) \<or>
     (\<exists>e. r' = fail_row c e r \<and> (\<not> should_retry run \<or> rejected_image env run))"

definition settled_by :: "clock \<Rightarrow> job_env \<Rightarrow> job_run \<Rightarrow> job_table \<Rightarrow> job_row \<Rightarrow> job_table \<Rightarrow> bool" where
  "settled_by c env run t r t' \<longleftrightarrow>
     (\<exists>r'. t' = update_where (has_id (run_id run)) (\<lambda>_. r') t \<and> settles c env run r r')"

definition active_row :: "job_table \<Rightarrow> string \<Rightarrow> job_row \<Rightarrow> bool" where
  "active_row t i r \<longleftrightarrow> jobs_wf t \<and> r \<in> set t \<and> jr_id r = i \<and> is_active_status (jr_status r)"

lemma active_row_single:
  "active_row t i r \<Longrightarrow> update_where (has_id i) f t = update_where (has_id i) (\<lambda>_. f r) t"
  by (intro update_where_single) (simp_all add: active_row_def jobs_wf_def)

lemma active_row_only: "active_row t i r \<Longrightarrow> x \<in> set t \<Longrightarrow> jr_id x = i \<Longrightarrow> is_active_status (jr_status x)"
  using distinct_key_unique [of jr_id t x r] by (simp add: active_row_def jobs_wf_def unique_ids_def)

lemma complete_active:
  assumes "active_row t i r"
  shows "complete_job c i res t = Inr (update_where (has_id i) (\<lambda>_. complete_row c res r) t)"
  using assms active_row_single [OF assms, of "complete_row c res"]
  by (simp add: active_row_def complete_job_eq jobs_wf_unique)

lemma fail_active:
  assumes "active_row t i r"
  shows "fail_job c i e b a t = Inr (update_where (has_id i)
     (\<lambda>_. if b then retry_row c e (backoff_seconds a) r else fail_row c e r) t)"
proof -
  have u: "unique_active t" using assms by (simp add: active_row_def jobs_wf_def)
  show ?thesis
    using fail_job_final_eq [OF u, where c = c and i = i and e = e and a = a]
      fail_job_retry_eq [OF u active_row_only [OF assms], where c = c and e = e and a = a]
      active_row_single [OF assms, of "fail_row c e"]
      active_row_single [OF assms, of "retry_row c e (backoff_seconds a)"]
    by (cases b) simp_all
qed

lemmas run_statements = complete_active fail_active

lemma settled_by_complete:
  "complete_job c (run_id run) res t = Inr t' \<Longrightarrow> active_row t (run_id run) r \<Longrightarrow>
     settled_by c env run t r t'"
  by (auto simp: run_statements settled_by_def settles_def)

lemma settled_by_fail:
  "fail_job c (run_id run) e b (run_attempt run) t = Inr t' \<Longrightarrow> active_row t (run_id run) r \<Longrightarrow>
     b \<longleftrightarrow> should_retry run \<and> \<not> rejected_image env run \<Longrightarrow> settled_by c env run t r t'"
  by (cases b) (auto simp: run_statements settled_by_def settles_def)

lemma slug_neq [simp]: "SYSTEM_EMAIL_JOB \<noteq> SYSTEM_IMAGE_CONVERT_JOB" "SYSTEM_IMAGE_CONVERT_JOB \<noteq> SYSTEM_EMAIL_JOB"
  by (simp_all add: SYSTEM_EMAIL_JOB_def SYSTEM_IMAGE_CONVERT_JOB_def)

lemma on_jobs_Inr: "on_jobs f db = (db', Inr u) \<longleftrightarrow> (\<exists>t'. f (db_jobs db) = Inr t' \<and> db' = db\<lparr>db_jobs := t'\<rparr>)"
  by (auto simp: on_jobs_def split: sum.splits)

lemma on_jobs_Inl: "on_jobs f db = (db', Inl e) \<longleftrightarrow> (\<exists>je. f (db_jobs db) = Inl je \<and> e = JobUpdate je \<and> db' = db)"
  by (auto simp: on_jobs_def split: sum.splits)

lemma execute_system_email_settles:
  assumes "active_row (db_jobs db) (run_id run) r" "run_slug run = SYSTEM_EMAIL_JOB"
    and "execute_system_email c env run db = (db', Inr ())"
  shows "settled_by c env run (db_jobs db) r (db_jobs db')"
  using assms
  by (auto simp: execute_system_email_def on_jobs_Inr rejected_image_def
      split: option.splits sum.splits intro: settled_by_complete settled_by_fail)

lemma update_url_column_jobs: "update_url_column d db = Inr db' \<Longrightarrow> db_jobs db' = db_jobs db"
  by (auto simp: update_url_column_def split: option.splits if_splits)

lemma execute_system_image_settles:
  assumes "active_row (db_jobs db) (run_id run) r" "run_slug run = SYSTEM_IMAGE_CONVERT_JOB"
    and "execute_system_image_convert c env run db = (db', Inr ())"
  shows "settled_by c env run (db_jobs db) r (db_jobs db')"
  using assms
  by (auto simp: execute_system_image_convert_def on_jobs_Inr rejected_image_def finish_image_convert_def
      update_url_column_jobs
      split: option.splits sum.splits if_splits intro: settled_by_complete settled_by_fail)

text \<open>
  An execution that reports success has settled its own run and no other: the row is completed,
  or pending again after the backoff exactly when an attempt is left and the data was not
  rejected, or failed for good; every other row is as it was, and the table stays well-formed.
  This holds whatever the handler returns, as long as it leaves the job table alone.
\<close>
theorem execute_job_settles_run:
  assumes "active_row (db_jobs db) (run_id run) r"
    and "\<And>db2 res. run_job_handler env job_def run db = (db2, res) \<Longrightarrow> db_jobs db2 = db_jobs db"
    and "execute_job c env job_def run db = (db', Inr ())"
  shows "settled_by c env run (db_jobs db) r (db_jobs db')"
proof (cases "run_slug run = SYSTEM_EMAIL_JOB \<or> run_slug run = SYSTEM_IMAGE_CONVERT_JOB")
  case True
  with assms(3) show ?thesis
    using execute_system_email_settles [OF assms(1)] execute_system_image_settles [OF assms(1)]
    by (auto simp: execute_job_def split: if_splits)
next
  case False
  obtain db2 res where h: "run_job_handler env job_def run db = (db2, res)" by fastforce
  have "active_row (db_jobs db2) (run_id run) r" using assms(1) assms(2) [OF h] by simp
  with False h assms(3) assms(2) [OF h] show ?thesis
    by (auto simp: execute_job_def on_jobs_Inr rejected_image_def
        split: sum.splits intro: settled_by_complete settled_by_fail)
qed

text \<open>
  An execution of a system job that reports an error (no mail provider, data that does not
  parse, a missing table or column, a refused statement) has changed nothing: neither the run,
  which stays marked running, nor any document; for an image conversion the URL and the
  completion are written together or not at all.
\<close>
theorem system_job_error_changes_nothing:
  assumes "run_slug run = SYSTEM_EMAIL_JOB \<or> run_slug run = SYSTEM_IMAGE_CONVERT_JOB"
    and "execute_job c env job_def run db = (db', Inl e)"
  shows "db' = db"
  using assms
  by (auto simp: execute_job_def execute_system_email_def execute_system_image_convert_def
      finish_image_convert_def on_jobs_Inl split: option.splits sum.splits if_splits)

lemma backoff_seconds_nat: "backoff_seconds a = min (5 * 2 ^ min (unat a - 1) 6) 300"
proof -
  have "unat (min (sat_sub a 1) 6) = min (unat a - 1) 6"
    by (simp add: min_def word_le_nat_alt unat_sat_sub)
  then show ?thesis by (simp add: backoff_seconds_def)
qed

text \<open>
  The delay before a retry is 5 seconds after the first attempt and doubles with each further
  one up to the sixth, then is 5 minutes; it never leaves that range and never shrinks.
\<close>
theorem backoff_bounds:
  "backoff_seconds a = (if a \<le> 1 then 5 else if a \<le> 6 then 5 * 2 ^ (unat a - 1) else 300) \<and>
   (a \<le> b \<longrightarrow> backoff_seconds a \<le> backoff_seconds b)"
proof
  have "unat a \<le> 6 \<Longrightarrow> unat a \<in> {0, 1, 2, 3, 4, 5, 6}" by auto
  moreover have "\<not> unat a \<le> 6 \<Longrightarrow> min (unat a - 1) 6 = 6" by simp
  ultimately show "backoff_seconds a = (if a \<le> 1 then 5 else if a \<le> 6 then 5 * 2 ^ (unat a - 1) else 300)"
    by (cases "unat a \<le> 6") (auto simp: backoff_seconds_nat word_le_nat_alt)
  show "a \<le> b \<longrightarrow> backoff_seconds a \<le> backoff_seconds b"
  proof
    assume "a \<le> b"
    then have "min (unat a - 1) 6 \<le> min (unat b - 1) 6" by (simp add: word_le_nat_alt)
    then have "(2::int) ^ min (unat a - 1) 6 \<le> 2 ^ min (unat b - 1) 6" by (intro power_increasing) simp_all
    then have "(5::int) * 2 ^ min (unat a - 1) 6 \<le> 5 * 2 ^ min (unat b - 1) 6" by (rule mult_left_mono) simp
    then show "backoff_seconds a \<le> backoff_seconds b"
      unfolding backoff_seconds_nat by (rule min.mono) (rule order_refl)
  qed
qed

theorem backoff_bounds_witness: "backoff_seconds 2 \<le> backoff_seconds 5"
  using backoff_bounds [of 2 5] by simp

section \<open>Concrete inputs\<close>

lemma sample_fresh: "''z'' \<notin> jr_id ` set sample_jobs"
  by (simp add: sample_jobs_def sample_row_def)

theorem recover_marks_exactly_stale_witness:
  "recover_stale_jobs (sqlite_clock 300) [] sample_jobs =
     Inr (map (\<lambda>r. if is_stale_row (sqlite_clock 300) 0 r
                   then stale_row (sqlite_clock 300) (stale_error [] (jr_slug r)) r else r) sample_jobs)"
  by (rule recover_marks_exactly_stale [OF sample_jobs_wf])

theorem heartbeat_tick_exact_witness:
  "update_heartbeats (sqlite_clock 300) [''c'', ''c''] sample_jobs =
     map (\<lambda>r. if jr_id r \<in> set [''c'', ''c''] then beat_row (sqlite_clock 300) r else r) sample_jobs"
  by (rule heartbeat_tick_exact [OF sample_jobs_wf])

definition sample_keyed_opts :: insert_job_opts where
  "sample_keyed_opts = \<lparr>o_slug = ''mail'', o_data = ''{}'', o_scheduled_by = ''hook'', o_max_attempts = 3,
     o_queue = ''default'', o_priority = 7, o_delay_secs = 10, o_unique_key = Some ''k''\<rparr>"

theorem unique_key_dedup_witness:
  "insert_job_with (sqlite_clock 300) ''z'' sample_keyed_opts sample_jobs =
     Inr (sample_jobs @ [new_row (sqlite_clock 300) ''z'' sample_keyed_opts],
          Created (created_run ''z'' sample_keyed_opts))"
  using unique_key_dedup [OF sample_jobs_wf sample_fresh, of "sqlite_clock 300" sample_keyed_opts]
  by (simp add: sample_keyed_opts_def sample_jobs_def sample_row_def holds_key_def new_row_def Let_def)

lemma sample_insert: "insert_job_with (sqlite_clock 300) ''z'' sample_keyed_opts sample_jobs =
    Inr (sample_jobs @ [new_row (sqlite_clock 300) ''z'' sample_keyed_opts],
         Created (created_run ''z'' sample_keyed_opts))"
  using sample_fresh by (simp add: insert_job_with_def sample_keyed_opts_def unique_conflict_def
      sample_jobs_def sample_row_def new_row_def Let_def)

theorem insert_then_get_witness:
  "get_job_run ''z'' (sample_jobs @ [new_row (sqlite_clock 300) ''z'' sample_keyed_opts]) \<noteq> None"
  using insert_then_get [OF sample_insert] by (simp add: sample_keyed_opts_def)

definition sample_env :: job_env where
  "sample_env = \<lparr>run_job_handler = (\<lambda>_ _ db. (db, Inl ''boom'')), email_provider = None,
     email_from_str = Map.empty, image_from_str = Map.empty, process_image_entry = (\<lambda>_. Inr ())\<rparr>"

definition sample_db :: app_db where
  "sample_db = \<lparr>db_jobs = sample_jobs, db_cron = Map.empty, db_docs = Map.empty, db_columns = Map.empty\<rparr>"

definition sample_running :: job_row where
  "sample_running = sample_row ''c'' ''mail'' ''running'' 0 50"

definition sample_run :: job_run where
  "sample_run = row_to_job_run True sample_running"

lemma sample_active: "active_row (db_jobs sample_db) (run_id sample_run) sample_running"
  using sample_jobs_wf
  by (simp add: active_row_def sample_db_def sample_run_def sample_jobs_def sample_running_def
      is_active_status_def sample_row_def)

lemma sample_execute:
  "execute_job (sqlite_clock 300) sample_env job_definition_default sample_run sample_db =
     (sample_db\<lparr>db_jobs := update_where (has_id ''c'')
        (retry_row (sqlite_clock 300) ''boom'' 5) sample_jobs\<rparr>, Inr ())"
proof -
  have "fail_job (sqlite_clock 300) ''c'' ''boom'' True 0 sample_jobs =
      Inr (update_where (has_id ''c'') (retry_row (sqlite_clock 300) ''boom'' 5) sample_jobs)"
    by code_simp
  moreover have "run_slug sample_run = ''mail''" "run_id sample_run = ''c''" "should_retry sample_run"
    "run_attempt sample_run = 0"
    by code_simp+
  ultimately show ?thesis
    by (simp add: execute_job_def SYSTEM_EMAIL_JOB_def SYSTEM_IMAGE_CONVERT_JOB_def sample_env_def
        on_jobs_def sample_db_def)
qed

theorem execute_job_settles_run_witness:
  "settled_by (sqlite_clock 300) sample_env sample_run sample_jobs sample_running
     (update_where (has_id ''c'') (retry_row (sqlite_clock 300) ''boom'' 5) sample_jobs)"
  using execute_job_settles_run [OF sample_active _ sample_execute]
  by (simp add: sample_env_def sample_db_def)

theorem system_job_error_changes_nothing_witness:
  "execute_job (sqlite_clock 300) sample_env job_definition_default
      (sample_run\<lparr>run_slug := SYSTEM_EMAIL_JOB\<rparr>) sample_db = (sample_db, Inl NoEmailProvider)"
proof -
  let ?x = "execute_job (sqlite_clock 300) sample_env job_definition_default
      (sample_run\<lparr>run_slug := SYSTEM_EMAIL_JOB\<rparr>) sample_db"
  have "snd ?x = Inl NoEmailProvider"
    by (simp add: execute_job_def execute_system_email_def sample_env_def)
  then have x: "?x = (fst ?x, Inl NoEmailProvider)" by (metis prod.collapse)
  have "fst ?x = sample_db" by (rule system_job_error_changes_nothing [OF _ x]) simp
  with x show ?thesis by metis
qed

end
