(* ===== verification/SchedulerOrphans.thy ===== *)
theory SchedulerOrphans
  imports SchedulerCaps JobLifecycle
begin

text \<open>
  Runs whose execution ended without a statement on their row (\<open>execute_job\<close> returned an error or
  panicked: \<open>spawn_job_execution\<close> only logs it).  Such a row stays marked running and counts
  against the caps until the next start of a node.
\<close>

definition orphaned :: "sched_state \<Rightarrow> job_row \<Rightarrow> bool" where
  "orphaned s r \<longleftrightarrow> jobs_wf (ss_jobs s) \<and> r \<in> set (ss_jobs s) \<and> jr_status r = ''running'' \<and>
     jr_id r \<notin> run_id ` set (ss_tasks s) \<and> jr_id r \<notin> set (ss_tracked s)"

lemma update_where_other:
  "r \<in> set t \<Longrightarrow> jr_id r \<noteq> i \<Longrightarrow> r \<in> set (update_where (has_id i) f t)"
  by (force simp: set_update_where has_id_def)

lemma resolve_job_def_other:
  "r \<in> set t \<Longrightarrow> jr_id r \<noteq> run_id run \<Longrightarrow> r \<in> set (fst (resolve_job_def c registry qt run t))"
  by (auto simp: resolve_job_def_def update_where_other split: option.splits sum.splits dest!: fail_job_Inr)

lemma resolve_claimed_other:
  "r \<in> set t \<Longrightarrow> jr_id r \<notin> run_id ` set runs \<Longrightarrow> r \<in> set (fst (resolve_claimed c registry qt runs t))"
proof (induction runs arbitrary: t)
  case (Cons run runs)
  have "r \<in> set (fst (resolve_job_def c registry qt run t))"
    using Cons.prems by (intro resolve_job_def_other) auto
  from Cons.IH [OF this] Cons.prems(2) show ?case by (auto simp: Let_def split: prod.splits)
qed simp

lemma heartbeats_other:
  "r \<in> set t \<Longrightarrow> jr_id r \<notin> set ids \<Longrightarrow> r \<in> set (update_heartbeats c ids t)"
proof (induction ids arbitrary: t)
  case (Cons i ids)
  let ?t = "case update_heartbeat c i t of Inl _ \<Rightarrow> t | Inr t' \<Rightarrow> t'"
  have "?t = t \<or> ?t = update_where (has_id i) (\<lambda>r. r\<lparr>jr_heartbeat_at := Some (clk_now c)\<rparr>) t"
    by (auto simp: update_heartbeat_def exec_update_def Let_def split: sum.splits if_splits)
  then have "r \<in> set ?t" using Cons.prems update_where_other [of r t i] by auto
  with Cons show ?case by simp
qed simp

lemma poll_orphan:
  assumes wf: "jobs_wf t" and r: "r \<in> set t" "jr_status r = ''running''"
    and p: "poll_claim c registry qm decay n t = Inr (t', sp)"
  shows "r \<in> set t' \<and> jr_id r \<notin> run_id ` fst ` set sp"
  using wf p
proof (cases rule: poll_claim_cases)
  case 1
  with r show ?thesis by simp
next
  case (2 G)
  have G: "jr_id r \<notin> jr_id ` set G"
  proof
    assume "jr_id r \<in> jr_id ` set G"
    then obtain g where g: "g \<in> set G" "jr_id g = jr_id r" by auto
    have "g \<in> {r \<in> set t. is_due c r}"
      using g(1) 2(1) set_claim_selection by blast
    then have gt: "g \<in> set t" "jr_status g = ''pending''" by (simp_all add: is_due_def)
    have "g = r"
      using wf gt(1) r(1) g(2) by (auto simp: jobs_wf_def unique_ids_def intro: distinct_key_unique)
    with gt r show False by simp
  qed
  have "r \<in> set (mark_claimed c (jr_id ` set G) t)"
    by (rule mark_claimed_other [OF r(1) G])
  moreover have ids: "run_id ` set (map claimed_run G) = jr_id ` set G" by (simp add: image_image)
  ultimately have "r \<in> set (fst (resolve_claimed c registry (qm_timeouts qm) (map claimed_run G)
      (mark_claimed c (jr_id ` set G) t)))"
    using G by (intro resolve_claimed_other) simp_all
  then have r': "r \<in> set t'" using 2(3) by (metis fst_conv)
  have "map fst sp = filter (resolvable registry) (map claimed_run G)"
    using 2(3) resolve_claimed_spawned by (metis snd_conv)
  then have "fst ` set sp \<subseteq> set (map claimed_run G)" by (metis filter_is_subset set_map)
  then have "run_id ` fst ` set sp \<subseteq> run_id ` set (map claimed_run G)" by (rule image_mono)
  with ids G r' show ?thesis by blast
qed

lemma end_task_orphan:
  assumes "orphaned s r" "k \<in> set (ss_tasks s)" "jobs_wf t'" "jr_id r \<noteq> run_id k \<Longrightarrow> r \<in> set t'"
  shows "orphaned (end_task k s t') r"
proof -
  have "jr_id r \<noteq> run_id k" using assms(1,2) by (auto simp: orphaned_def)
  with assms show ?thesis
    using set_remove1_subset [of k "ss_tasks s"] by (auto simp: orphaned_def end_task_def)
qed

lemma ss_jobs_end_task [simp]: "ss_jobs (end_task k s t) = t"
  by (simp add: end_task_def)

text \<open>
  A run that is marked running and has no execution and no heartbeat stays so, with its row
  untouched, through every event of the scheduler other than a node's start: no enqueue, poll,
  finish, timeout, heartbeat, cancellation or purge ever settles or removes it.
\<close>
theorem orphaned_run_persists:
  assumes "orphaned s r" "sched_step registry qm decay ev s s'" "ev \<noteq> Restart"
  shows "orphaned s' r"
proof -
  have wf': "jobs_wf (ss_jobs s')" using assms(1,2) sched_step_wf by (auto simp: orphaned_def)
  have other: "jr_id r \<noteq> run_id k" if "k \<in> set (ss_tasks s)" for k
    using assms(1) that by (auto simp: orphaned_def)
  show ?thesis
    using assms(2)
  proof (cases rule: sched_step.cases)
    case (enqueue i c opts t' ij)
    then show ?thesis using assms(1) wf'
      by (auto simp: orphaned_def insert_job_with_def Let_def split: if_splits option.splits)
  next
    case (poll c available t' spawned)
    then show ?thesis using assms(1) wf' poll_orphan [of "ss_jobs s" r c registry qm decay available t' spawned]
      by (auto simp: orphaned_def image_comp)
  next
    case (finish_ok k c res t')
    have "jr_id r \<noteq> run_id k \<Longrightarrow> r \<in> set t'"
      using complete_job_Inr [OF finish_ok(4)] assms(1) by (simp add: orphaned_def update_where_other)
    with finish_ok wf' show ?thesis using end_task_orphan [OF assms(1) finish_ok(3)] by simp
  next
    case (finish_err k c e t')
    have "jr_id r \<noteq> run_id k \<Longrightarrow> r \<in> set t'"
      using fail_job_Inr [OF finish_err(4)] assms(1) by (simp add: orphaned_def update_where_other)
    with finish_err wf' show ?thesis using end_task_orphan [OF assms(1) finish_err(3)] by simp
  next
    case (finish_reject k c e t')
    have "jr_id r \<noteq> run_id k \<Longrightarrow> r \<in> set t'"
      using fail_job_Inr [OF finish_reject(4)] assms(1) by (simp add: orphaned_def update_where_other)
    with finish_reject wf' show ?thesis using end_task_orphan [OF assms(1) finish_reject(3)] by simp
  next
    case (abort k)
    have "jobs_wf (ss_jobs s)" "r \<in> set (ss_jobs s)" using assms(1) by (simp_all add: orphaned_def)
    with abort show ?thesis using end_task_orphan [OF assms(1) abort(3)] by simp
  next
    case (timeout k t' c e)
    have "r \<in> set t'"
      using timeout(5) assms(1) other [OF timeout(3)]
      by (auto simp: orphaned_def update_where_other split: sum.splits dest!: fail_job_Inr)
    with timeout(2) wf' assms(1) show ?thesis by (auto simp: orphaned_def)
  next
    case (heartbeat c P)
    with assms(1) wf' show ?thesis by (auto simp: orphaned_def intro!: heartbeats_other)
  next
    case (restart c t' P Q)
    with assms(3) show ?thesis by simp
  next
    case (cancel slug t' n)
    with assms(1) wf' show ?thesis by (auto simp: orphaned_def cancel_pending_jobs_def Let_def)
  next
    case (purge c older t' n)
    with assms(1) wf' show ?thesis
      by (auto simp: orphaned_def purge_old_jobs_def result_simps is_old_finished_def)
  next
    case (drop_image_jobs P)
    with assms(1) wf' show ?thesis by (auto simp: orphaned_def)
  qed
qed

text \<open>The machine claims \<open>demo_row\<close> and its execution ends with an error.\<close>

definition demo_orphan :: sched_state where
  "demo_orphan = \<lparr>ss_jobs = [demo_run1], ss_tasks = [], ss_tracked = [], ss_used = [''a'']\<rparr>"

lemma demo_orphan_reach: "sched_reach demo_registry demo_maps 0 {Enqueue, Poll, Abort} demo_orphan"
proof -
  let ?A = "{Enqueue, Poll, Abort}" and ?k1 = "claimed_run demo_row"
  let ?R = "sched_reach demo_registry demo_maps 0 ?A"
  let ?s0 = "\<lparr>ss_jobs = [demo_row], ss_tasks = [], ss_tracked = [], ss_used = [''a'']\<rparr>"
  let ?s1 = "\<lparr>ss_jobs = [demo_run1], ss_tasks = [?k1], ss_tracked = [''a''], ss_used = [''a'']\<rparr>"
  have "?R ?s0" using demo_start_reach [of ?A] by (simp add: demo_start_def demo_row_def)
  moreover have "sched_step demo_registry demo_maps 0 Poll ?s0 ?s1"
    using sched_step.poll [where s = ?s0 and c = "sqlite_clock 101" and available = 1
        and t' = "[demo_run1]" and spawned = "[(?k1, demo_def)]"] demo_poll1
    by (simp add: demo_ids)
  ultimately have "?R ?s1" by (auto intro: sched_reach.step)
  moreover have "sched_step demo_registry demo_maps 0 Abort ?s1 demo_orphan"
    using sched_step.abort [where s = ?s1 and k = ?k1]
    by (simp add: demo_ids end_task_def demo_orphan_def)
  ultimately show ?thesis by (auto intro: sched_reach.step)
qed

lemma demo_orphan_orphaned: "orphaned demo_orphan demo_run1"
proof -
  have "jr_status demo_run1 = ''running''" by code_simp
  with sched_reach_wf [OF demo_orphan_reach] show ?thesis by (simp add: orphaned_def demo_orphan_def)
qed

theorem orphaned_run_persists_witness:
  "\<exists>s'. sched_reach demo_registry demo_maps 0 {Enqueue, Poll, Abort} demo_orphan \<and>
     sched_step demo_registry demo_maps 0 Heartbeat demo_orphan s' \<and> orphaned s' demo_run1"
  using demo_orphan_reach sched_step.heartbeat
    orphaned_run_persists [OF demo_orphan_orphaned sched_step.heartbeat]
  by blast

end
