(* ===== verification/Cron.thy ===== *)
theory Cron
  imports Scheduler
begin

text \<open>
  What the cron pass (src/src/scheduler/runner.rs, src/src/db/query/jobs/cron.rs) does: which
  of several overlapping windows fires, the closed form of one pass over the registry, the
  pass that follows a firing on the same node, and the retention durations.
\<close>

section \<open>Windows\<close>

definition window_open :: "(string \<rightharpoonup> int) \<Rightarrow> string \<Rightarrow> int \<Rightarrow> bool" where
  "window_open m slug start \<longleftrightarrow> (case m slug of None \<Rightarrow> True | Some f \<Rightarrow> f < start)"

lemma try_claim_eq:
  "try_claim_cron_window slug fired start m =
     (if window_open m slug start then (m(slug \<mapsto> fired), True) else (m, False))"
  by (simp add: try_claim_cron_window_def window_open_def split: option.splits)

text \<open>Claims of one slug in some order, by any nodes: the table and the number that won.\<close>

fun claim_windows :: "string \<Rightarrow> (int \<times> int) list \<Rightarrow> (string \<rightharpoonup> int) \<Rightarrow> (string \<rightharpoonup> int) \<times> nat" where
  "claim_windows slug [] m = (m, 0)"
| "claim_windows slug ((fired, start) # ps) m =
     (let (m1, won) = try_claim_cron_window slug fired start m;
          (m2, n) = claim_windows slug ps m1
      in (m2, if won then Suc n else n))"

lemma claim_windows_closed:
  assumes "\<forall>(f, s) \<in> set ps. \<not> window_open m slug s"
  shows "claim_windows slug ps m = (m, 0)"
  using assms by (induction ps) (auto simp: try_claim_eq Let_def)

definition overlapping :: "(int \<times> int) list \<Rightarrow> bool" where
  "overlapping ps \<longleftrightarrow> (\<forall>(f, _) \<in> set ps. \<forall>(_, s) \<in> set ps. s \<le> f)"

lemma overlapping_simps [simp]:
  "overlapping []"
  "overlapping ((f, s) # ps) \<longleftrightarrow> s \<le> f \<and> (\<forall>(f', s') \<in> set ps. s' \<le> f \<and> s \<le> f') \<and> overlapping ps"
  by (auto simp: overlapping_def)

text \<open>
  Among claims whose windows overlap (none starts after another's firing time), however many
  nodes make them and in whatever order, exactly one wins if some window starts after the
  slug's last firing, and none otherwise.
\<close>
theorem overlapping_windows_fire_once:
  assumes "overlapping ps"
  shows "snd (claim_windows slug ps m) = (if \<exists>(f, s) \<in> set ps. window_open m slug s then 1 else 0)"
  using assms
proof (induction ps)
  case (Cons p ps)
  obtain f s where p: "p = (f, s)" by fastforce
  show ?case
  proof (cases "window_open m slug s")
    case True
    have "\<forall>(f', s') \<in> set ps. \<not> window_open (m(slug \<mapsto> f)) slug s'"
      using Cons.prems p by (force simp: window_open_def)
    from claim_windows_closed [OF this] True p show ?thesis by (simp add: try_claim_eq)
  next
    case False
    with Cons p show ?thesis by (auto simp: try_claim_eq Let_def split: prod.splits)
  qed
qed simp

theorem overlapping_windows_fire_once_witness:
  "snd (claim_windows ''j'' [(160, 100), (161, 101), (159, 99)] [''j'' \<mapsto> 100]) = 1"
  using overlapping_windows_fire_once [of "[(160, 100), (161, 101), (159, 99)]" "''j''" "[''j'' \<mapsto> 100]"]
  by (simp add: window_open_def)

section \<open>One pass over the registry\<close>

definition is_due_between :: "cron_env \<Rightarrow> int \<Rightarrow> int \<Rightarrow> job_definition \<Rightarrow> bool" where
  "is_due_between env last_check now def \<longleftrightarrow>
     (case jd_schedule def of
        None \<Rightarrow> False
      | Some s \<Rightarrow>
          (case schedule_from_str env (normalize_cron s) of
             None \<Rightarrow> False
           | Some after \<Rightarrow> schedule_fires after last_check now))"

definition fires_in_pass :: "cron_env \<Rightarrow> int \<Rightarrow> int \<Rightarrow> (string \<rightharpoonup> int) \<Rightarrow> string \<times> job_definition \<Rightarrow> bool" where
  "fires_in_pass env last_check now cron = (\<lambda>(slug, def).
     is_due_between env last_check now def \<and> window_open cron slug last_check)"

definition enqueues_in_pass :: "cron_env \<Rightarrow> int \<Rightarrow> int \<Rightarrow> app_db \<Rightarrow> string \<times> job_definition \<Rightarrow> bool" where
  "enqueues_in_pass env last_check now db = (\<lambda>(slug, def).
     fires_in_pass env last_check now (db_cron db) (slug, def) \<and>
     (jd_skip_if_running def \<longrightarrow> count_running (Some slug) (db_jobs db) = 0))"

definition cron_row :: "clock \<Rightarrow> cron_env \<Rightarrow> (string \<rightharpoonup> u32) \<Rightarrow> string \<times> job_definition \<Rightarrow> job_row" where
  "cron_row c env qr = (\<lambda>(slug, def). new_row c (new_id env slug)
     \<lparr>o_slug = slug, o_data = ''{}'', o_scheduled_by = ''cron'',
      o_max_attempts = effective_max_attempts def (qr (jd_queue def)), o_queue = jd_queue def,
      o_priority = jd_priority def, o_delay_secs = 0, o_unique_key = None\<rparr>)"

lemma cron_row_sel [simp]:
  "jr_id (cron_row c env qr (slug, def)) = new_id env slug"
  "jr_slug (cron_row c env qr (slug, def)) = slug"
  "jr_status (cron_row c env qr (slug, def)) = ''pending''"
  by (simp_all add: cron_row_def)

lemma insert_job_cron:
  assumes "new_id env slug \<notin> jr_id ` set t"
  shows "insert_job c (new_id env slug) slug ''{}'' ''cron''
      (effective_max_attempts def (qr (jd_queue def))) (jd_queue def) (jd_priority def) t =
    Inr (t @ [cron_row c env qr (slug, def)],
         created_run (new_id env slug)
           \<lparr>o_slug = slug, o_data = ''{}'', o_scheduled_by = ''cron'',
            o_max_attempts = effective_max_attempts def (qr (jd_queue def)), o_queue = jd_queue def,
            o_priority = jd_priority def, o_delay_secs = 0, o_unique_key = None\<rparr>)"
  using assms by (simp add: insert_job_def insert_job_with_def unique_conflict_def cron_row_def Let_def)

lemma count_running_nonneg: "0 \<le> count_running x t"
  by (simp add: count_running_def split: option.splits)

text \<open>One job of the pass, when its id is fresh.\<close>

lemma check_cron_job_eq:
  assumes "new_id env slug \<notin> jr_id ` set (db_jobs db)"
  shows "check_cron_job c env last_check now qr slug def db =
    Inr (db\<lparr>db_cron := (if fires_in_pass env last_check now (db_cron db) (slug, def)
                          then (db_cron db)(slug \<mapsto> now) else db_cron db),
            db_jobs := db_jobs db @ (if enqueues_in_pass env last_check now db (slug, def)
                                     then [cron_row c env qr (slug, def)] else [])\<rparr>)"
  using assms count_running_nonneg [of "Some slug" "db_jobs db"]
  by (auto simp: check_cron_job_def is_due_between_def fires_in_pass_def enqueues_in_pass_def
      try_claim_eq insert_job_cron Let_def split: option.splits)

lemma enqueues_in_pass_cong:
  assumes "db_cron db1 slug = db_cron db slug"
    and "count_running (Some slug) (db_jobs db1) = count_running (Some slug) (db_jobs db)"
  shows "enqueues_in_pass env l n db1 (slug, def) = enqueues_in_pass env l n db (slug, def)"
  using assms by (simp add: enqueues_in_pass_def fires_in_pass_def window_open_def)

lemma count_running_pending: "jr_status r \<noteq> ''running'' \<Longrightarrow> count_running s (t @ [r]) = count_running s t"
  by (simp add: count_running_def split: option.splits)

definition fresh_ids :: "cron_env \<Rightarrow> job_registry \<Rightarrow> job_table \<Rightarrow> bool" where
  "fresh_ids env registry t \<longleftrightarrow>
     distinct (map fst registry) \<and> distinct (map (new_id env \<circ> fst) registry) \<and>
     (\<forall>(slug, _) \<in> set registry. new_id env slug \<notin> jr_id ` set t)"

definition pass_result ::
  "clock \<Rightarrow> cron_env \<Rightarrow> job_registry \<Rightarrow> int \<Rightarrow> int \<Rightarrow> (string \<rightharpoonup> u32) \<Rightarrow> app_db \<Rightarrow> app_db" where
  "pass_result c env registry last_check now qr db =
     db\<lparr>db_cron := (\<lambda>s. if \<exists>def. (s, def) \<in> set registry \<and>
                               fires_in_pass env last_check now (db_cron db) (s, def)
                           then Some now else db_cron db s),
        db_jobs := db_jobs db @
          map (cron_row c env qr) (filter (enqueues_in_pass env last_check now db) registry)\<rparr>"

lemma check_cron_loop_eq:
  assumes "fresh_ids env registry (db_jobs db)"
  shows "check_cron_loop c env last_check now qr registry db =
    Inr (pass_result c env registry last_check now qr db)"
  using assms
proof (induction registry arbitrary: db)
  case Nil
  show ?case by (simp add: pass_result_def)
next
  case (Cons j registry)
  obtain slug def where j: "j = (slug, def)" by fastforce
  let ?fires = "fires_in_pass env last_check now (db_cron db) (slug, def)"
  let ?enq = "enqueues_in_pass env last_check now db (slug, def)"
  let ?db1 = "db\<lparr>db_cron := (if ?fires then (db_cron db)(slug \<mapsto> now) else db_cron db),
       db_jobs := db_jobs db @ (if ?enq then [cron_row c env qr (slug, def)] else [])\<rparr>"
  have fresh: "new_id env slug \<notin> jr_id ` set (db_jobs db)"
    and other: "(s, d) \<in> set registry \<Longrightarrow> s \<noteq> slug" for s d
    using Cons.prems j by (auto simp: fresh_ids_def image_iff)
  have "fresh_ids env registry (db_jobs ?db1)"
    using Cons.prems j by (auto simp: fresh_ids_def image_iff)
  note IH = Cons.IH [OF this]
  have enq: "filter (enqueues_in_pass env last_check now ?db1) registry =
      filter (enqueues_in_pass env last_check now db) registry"
  proof (rule filter_cong [OF refl])
    fix x assume "x \<in> set registry"
    obtain s d where x: "x = (s, d)" by fastforce
    with \<open>x \<in> set registry\<close> other have "s \<noteq> slug" by blast
    then show "enqueues_in_pass env last_check now ?db1 x = enqueues_in_pass env last_check now db x"
      using x by (auto intro!: enqueues_in_pass_cong simp: count_running_pending)
  qed
  have fires: "fires_in_pass env last_check now (db_cron ?db1) (s, d) =
      fires_in_pass env last_check now (db_cron db) (s, d)" if "(s, d) \<in> set registry" for s d
    using other [OF that] by (simp add: fires_in_pass_def window_open_def)
  have cron: "db_cron (pass_result c env registry last_check now qr ?db1) =
      db_cron (pass_result c env (j # registry) last_check now qr db)"
  proof
    fix s
    show "db_cron (pass_result c env registry last_check now qr ?db1) s =
      db_cron (pass_result c env (j # registry) last_check now qr db) s"
      using fires other j by (cases "s = slug") (auto simp: pass_result_def)
  qed
  have "pass_result c env registry last_check now qr ?db1 =
      pass_result c env (j # registry) last_check now qr db"
    using cron enq j by (simp add: pass_result_def)
  with IH show ?case by (simp add: j check_cron_job_eq [OF fresh])
qed

text \<open>
  A cron pass over a registry without duplicate slugs, with fresh ids, always commits.  It
  appends one pending run, in registry order, for each job whose schedule is due in the window,
  whose window no pass has taken, and that is not skipped because a run of it is running; it
  records the firing time of exactly the jobs that are due and whose window was open, and
  changes nothing else.
\<close>
theorem cron_pass_exact:
  assumes "fresh_ids env registry (db_jobs db)"
  shows "check_cron_schedules c env registry last_check now qr db =
    (pass_result c env registry last_check now qr db, Inr ())"
  using check_cron_loop_eq [OF assms] by (simp add: check_cron_schedules_def)

section \<open>The pass after a firing\<close>

text \<open>A job that fires every minute: the first firing after an instant is the next full minute.\<close>

definition every_minute_env :: "int \<Rightarrow> cron_env" where
  "every_minute_env pass = \<lparr>schedule_from_str = (\<lambda>s. Some (\<lambda>t. Some ((t div 60 + 1) * 60))),
     new_id = (\<lambda>slug. slug @ show_int pass)\<rparr>"

definition minute_job :: job_definition where
  "minute_job = (job_definition_builder ''tick'' ''jobs.tick'')
     \<lparr>jd_schedule := Some ''* * * * *'', jd_skip_if_running := False\<rparr>"

definition empty_db :: app_db where
  "empty_db = \<lparr>db_jobs = [], db_cron = Map.empty, db_docs = Map.empty, db_columns = Map.empty\<rparr>"

theorem cron_pass_exact_witness:
  "check_cron_schedules (sqlite_clock 120) (every_minute_env 1) [(''tick'', minute_job)] 60 120 Map.empty empty_db =
     (pass_result (sqlite_clock 120) (every_minute_env 1) [(''tick'', minute_job)] 60 120 Map.empty empty_db, Inr ())"
  by (rule cron_pass_exact) (simp add: fresh_ids_def empty_db_def)

text \<open>
  On one node a job that fired in a pass is dropped in the next one, even when it is due
  again: the loop passes the time of the last pass as the start of the next window, which is
  the very time the firing recorded, and the claim asks for a firing strictly before it.  So a
  job due in every window runs only in every other one.
\<close>
theorem consecutive_pass_skips:
  assumes "fires_in_pass env last_check now (db_cron db) (slug, def)"
    and "check_cron_job c env last_check now qr slug def db = Inr db1"
  shows "check_cron_job c' env' now next qr slug def db1 = Inr db1"
proof -
  have "db_cron db1 slug = Some now"
    using assms
    by (auto simp: check_cron_job_def fires_in_pass_def is_due_between_def try_claim_eq Let_def result_simps
        split: option.splits if_splits)
  then have "\<not> window_open (db_cron db1) slug now" by (simp add: window_open_def)
  then show ?thesis
    by (simp add: check_cron_job_def try_claim_eq Let_def split: option.splits)
qed

lemma minute_first_pass:
  "check_cron_job (sqlite_clock 120) (every_minute_env 1) 60 120 Map.empty ''tick'' minute_job empty_db =
     Inr (empty_db\<lparr>db_cron := [''tick'' \<mapsto> 120],
            db_jobs := [cron_row (sqlite_clock 120) (every_minute_env 1) Map.empty (''tick'', minute_job)]\<rparr>)"
  by (subst check_cron_job_eq)
    (simp_all add: empty_db_def fires_in_pass_def enqueues_in_pass_def is_due_between_def minute_job_def
      every_minute_env_def schedule_fires_def window_open_def)

lemma minute_fires:
  "fires_in_pass (every_minute_env 1) 60 120 (db_cron empty_db) (''tick'', minute_job)"
  by (simp add: empty_db_def fires_in_pass_def is_due_between_def minute_job_def
      every_minute_env_def schedule_fires_def window_open_def)

theorem consecutive_pass_skips_witness:
  "is_due_between (every_minute_env 2) 120 180 minute_job \<and>
   (\<exists>db1. length (db_jobs db1) = 1 \<and>
     check_cron_job (sqlite_clock 180) (every_minute_env 2) 120 180 Map.empty ''tick'' minute_job db1 = Inr db1)"
proof
  show "is_due_between (every_minute_env 2) 120 180 minute_job"
    by (simp add: is_due_between_def minute_job_def every_minute_env_def schedule_fires_def)
  show "\<exists>db1. length (db_jobs db1) = 1 \<and>
     check_cron_job (sqlite_clock 180) (every_minute_env 2) 120 180 Map.empty ''tick'' minute_job db1 = Inr db1"
    by (intro exI conjI, rule_tac [2] consecutive_pass_skips [OF minute_fires minute_first_pass]) simp
qed

section \<open>Retention durations\<close>

text \<open>The seconds a unit letter stands for.\<close>

fun unit_seconds :: "char \<Rightarrow> int option" where
  "unit_seconds c =
     (if c = CHR ''d'' then Some 86400 else if c = CHR ''h'' then Some 3600
      else if c = CHR ''m'' then Some 60 else if c = CHR ''s'' then Some 1 else None)"

lemma strip_suffix_char_snoc: "strip_suffix_char c (s @ [d]) = (if d = c then Some s else None)"
  by (simp add: strip_suffix_char_def)

lemma parse_retention_unit:
  assumes "unit_seconds u = Some k" "trim s = show_int n @ [u]" "- (2 ^ 63) \<le> n" "n < 2 ^ 63"
  shows "parse_retention_seconds s = Some (wrap_i64 (n * k))"
  using assms wrap_i64_id [OF assms(3,4)]
  by (auto simp: parse_retention_seconds_def strip_suffix_char_snoc parse_i64_show_int split: if_splits)

lemma is_whitespace_unit: "unit_seconds u = Some k \<Longrightarrow> \<not> is_whitespace u"
  by (auto simp: is_whitespace_def split: if_splits)

text \<open>
  A retention written as a number and a unit, with white space around, is read as that number
  of days, hours, minutes or seconds whenever the product fits an \<open>i64\<close>.
\<close>
theorem parse_retention_roundtrip:
  assumes "unit_seconds u = Some k" "- (2 ^ 63) \<le> n * k" "n * k < 2 ^ 63"
    and "list_all is_whitespace pre" "list_all is_whitespace post"
  shows "parse_retention_seconds (pre @ show_int n @ [u] @ post) = Some (n * k)"
proof -
  have k: "k \<in> {86400, 3600, 60, 1}" using assms(1) by (auto split: if_splits)
  then have n: "- (2 ^ 63) \<le> n" "n < 2 ^ 63" using assms(2,3) by auto
  have "trim (pre @ (show_int n @ [u]) @ post) = show_int n @ [u]"
    using assms(4,5) is_whitespace_unit [OF assms(1)] show_int_not_ws [of _ n]
    by (intro trim_padded) auto
  then show ?thesis
    using parse_retention_unit [OF assms(1) _ n] wrap_i64_id [OF assms(2,3)] by simp
qed

theorem parse_retention_roundtrip_witness: "parse_retention_seconds ''  30d '' = Some 2592000"
proof -
  have "show_int 30 = ''30''" by code_simp
  then show ?thesis using parse_retention_roundtrip [of "CHR ''d''" 86400 30 "''  ''" "'' ''"]
    by (simp add: is_whitespace_def)
qed

text \<open>
  A retention of more days than an \<open>i64\<close> of seconds holds is not refused: the product wraps to a
  negative number of seconds, as a negative retention gives directly, and the purge's cut-off
  then lies in the future.
\<close>
theorem retention_can_be_negative:
  "parse_retention_seconds ''106751991167301d'' = Some (- 9223372036854745216) \<and>
   parse_retention_seconds ''-1d'' = Some (- 86400)"
  by code_simp

end
