(* ===== verification/RateLimit.thy ===== *)
theory RateLimit
  imports Prelude "HOL-Library.AList"
begin

text \<open>
  Rate limiting (src/src/core/rate_limit/): the in-memory backend, the interface the limiters
  use, and the two limiters over it.  A time is a number of nanoseconds since the process
  started; each operation reads the clock once, so it takes the time as an argument.  The map
  behind the mutex is an association list with distinct keys.
\<close>

section \<open>The interface\<close>

text \<open>\<open>now.duration_since(t) < window\<close>: the difference saturates at zero.\<close>

definition in_window :: "u64 \<Rightarrow> int \<Rightarrow> int \<Rightarrow> bool" where
  "in_window w now t \<longleftrightarrow> max 0 (now - t) < uint w * 1000000000"

text \<open>\<open>u32::try_from(times.len()).unwrap_or(u32::MAX)\<close>.\<close>

definition len_u32 :: "'a list \<Rightarrow> u32" where
  "len_u32 xs = (if int (length xs) < 2 ^ 32 then of_nat (length xs) else - 1)"

lemma len_u32_less: "len_u32 xs < n \<longleftrightarrow> length xs < unat n"
proof (cases "int (length xs) < 2 ^ 32")
  case True
  then have "length xs < 2 ^ 32" by simp
  then have "unat (of_nat (length xs) :: u32) = length xs" by (simp add: unat_of_nat)
  with True show ?thesis by (simp add: len_u32_def word_less_nat_alt)
next
  case False
  moreover have "unat n < 2 ^ 32" using unsigned_less [of n, where 'a = nat] by simp
  ultimately have "\<not> length xs < unat n" by simp
  moreover have "\<not> (- 1 :: u32) < n" by (simp add: word_not_simps)
  ultimately show ?thesis using False by (simp add: len_u32_def)
qed

lemma in_window_mono:
  "in_window w' later t \<Longrightarrow> w' \<le> w \<Longrightarrow> now \<le> later \<Longrightarrow> in_window w now t"
  by (auto simp: in_window_def word_le_def)

text \<open>
  What a backend promises.  \<open>evs s k\<close> are the recorded times of a key.  Each operation may forget
  what is outside the window it is called with, of its own key or of any other, so the promise
  is about windows no longer than that.
\<close>

locale rate_backend =
  fixes ok :: "'s \<Rightarrow> bool"
    and evs :: "'s \<Rightarrow> string \<Rightarrow> int list"
    and cnt :: "string \<Rightarrow> u64 \<Rightarrow> int \<Rightarrow> 's \<Rightarrow> 's \<times> u32"
    and rec :: "string \<Rightarrow> u64 \<Rightarrow> int \<Rightarrow> 's \<Rightarrow> 's"
    and chk :: "string \<Rightarrow> u32 \<Rightarrow> u64 \<Rightarrow> int \<Rightarrow> 's \<Rightarrow> 's \<times> bool"
    and clr :: "string \<Rightarrow> 's \<Rightarrow> 's"
  assumes cnt_law: "ok s \<Longrightarrow> cnt k w now s = (s', c) \<Longrightarrow>
      ok s' \<and> c = len_u32 (filter (in_window w now) (evs s k)) \<and>
      (w' \<le> w \<longrightarrow> now \<le> later \<longrightarrow>
        filter (in_window w' later) (evs s' j) = filter (in_window w' later) (evs s j))"
    and rec_law: "ok s \<Longrightarrow>
      ok (rec k w now s) \<and>
      (w' \<le> w \<longrightarrow> now \<le> later \<longrightarrow>
        filter (in_window w' later) (evs (rec k w now s) j) =
        filter (in_window w' later) (evs s j @ (if j = k then [now] else [])))"
    and chk_law: "ok s \<Longrightarrow> chk k n w now s = (s', b) \<Longrightarrow>
      ok s' \<and> b = (len_u32 (filter (in_window w now) (evs s k)) < n) \<and>
      (w' \<le> w \<longrightarrow> now \<le> later \<longrightarrow>
        filter (in_window w' later) (evs s' j) =
        filter (in_window w' later) (evs s j @ (if b \<and> j = k then [now] else [])))"
    and clr_law: "ok s \<Longrightarrow> ok (clr k s) \<and> evs (clr k s) j = (if j = k then [] else evs s j)"

text \<open>A call of a backend, with the time it is made at.\<close>

datatype rate_op =
    OpCount string u64 int
  | OpRecord string u64 int
  | OpCheck string u32 u64 int
  | OpClear string int

fun op_time :: "rate_op \<Rightarrow> int" where
  "op_time (OpCount k w t) = t"
| "op_time (OpRecord k w t) = t"
| "op_time (OpCheck k n w t) = t"
| "op_time (OpClear k t) = t"

text \<open>A call keeps what lies in a window \<open>w\<close>.\<close>

fun op_keeps :: "u64 \<Rightarrow> rate_op \<Rightarrow> bool" where
  "op_keeps w (OpCount k w' t) \<longleftrightarrow> w \<le> w'"
| "op_keeps w (OpRecord k w' t) \<longleftrightarrow> w \<le> w'"
| "op_keeps w (OpCheck k n w' t) \<longleftrightarrow> w \<le> w'"
| "op_keeps w (OpClear k t) \<longleftrightarrow> True"

fun run_op ::
  "(string \<Rightarrow> u64 \<Rightarrow> int \<Rightarrow> 's \<Rightarrow> 's \<times> u32) \<Rightarrow> (string \<Rightarrow> u64 \<Rightarrow> int \<Rightarrow> 's \<Rightarrow> 's)
    \<Rightarrow> (string \<Rightarrow> u32 \<Rightarrow> u64 \<Rightarrow> int \<Rightarrow> 's \<Rightarrow> 's \<times> bool) \<Rightarrow> (string \<Rightarrow> 's \<Rightarrow> 's)
    \<Rightarrow> rate_op \<Rightarrow> 's \<Rightarrow> 's \<times> bool" where
  "run_op cnt rec chk clr (OpCount k w t) s = (fst (cnt k w t s), False)"
| "run_op cnt rec chk clr (OpRecord k w t) s = (rec k w t s, True)"
| "run_op cnt rec chk clr (OpCheck k n w t) s = chk k n w t s"
| "run_op cnt rec chk clr (OpClear k t) s = (clr k s, False)"

text \<open>
  The log of a key: the times its events were recorded, in the order of the calls, since the key
  was last cleared.
\<close>

fun key_log :: "string \<Rightarrow> rate_op \<Rightarrow> bool \<Rightarrow> int list \<Rightarrow> int list" where
  "key_log k (OpCount k' w t) b l = l"
| "key_log k (OpRecord k' w t) b l = (if k' = k then l @ [t] else l)"
| "key_log k (OpCheck k' n w t) b l = (if k' = k \<and> b then l @ [t] else l)"
| "key_log k (OpClear k' t) b l = (if k' = k then [] else l)"

fun run_ops ::
  "(string \<Rightarrow> u64 \<Rightarrow> int \<Rightarrow> 's \<Rightarrow> 's \<times> u32) \<Rightarrow> (string \<Rightarrow> u64 \<Rightarrow> int \<Rightarrow> 's \<Rightarrow> 's)
    \<Rightarrow> (string \<Rightarrow> u32 \<Rightarrow> u64 \<Rightarrow> int \<Rightarrow> 's \<Rightarrow> 's \<times> bool) \<Rightarrow> (string \<Rightarrow> 's \<Rightarrow> 's)
    \<Rightarrow> string \<Rightarrow> rate_op list \<Rightarrow> 's \<times> int list \<Rightarrow> 's \<times> int list" where
  "run_ops cnt rec chk clr k [] (s, l) = (s, l)"
| "run_ops cnt rec chk clr k (x # xs) (s, l) =
     (let (s', b) = run_op cnt rec chk clr x s
      in run_ops cnt rec chk clr k xs (s', key_log k x b l))"

fun is_check :: "string \<Rightarrow> u32 \<Rightarrow> u64 \<Rightarrow> rate_op \<Rightarrow> bool" where
  "is_check k n w (OpCheck k' n' w' t) \<longleftrightarrow> (k' = k \<longrightarrow> n' = n \<and> w' = w)"
| "is_check k n w (OpRecord k' w' t) \<longleftrightarrow> k' \<noteq> k"
| "is_check k n w (OpClear k' t) \<longleftrightarrow> True"
| "is_check k n w (OpCount k' w' t) \<longleftrightarrow> True"

context rate_backend
begin

lemma run_op_log:
  assumes "ok s" "run_op cnt rec chk clr x s = (s', b)" "op_keeps w x" "op_time x \<le> later"
  shows "ok s' \<and> filter (in_window w later) (evs s' k) =
    filter (in_window w later) (key_log k x b (evs s k))"
proof (cases x)
  case (OpCount k' w' t)
  obtain c where "cnt k' w' t s = (s', c)" using assms(2) OpCount by (cases "cnt k' w' t s") simp
  from cnt_law [OF assms(1) this, of w later k] assms OpCount show ?thesis by simp
next
  case (OpRecord k' w' t)
  with rec_law [OF assms(1), of k' w' t w later k] assms show ?thesis by auto
next
  case (OpCheck k' n w' t)
  then have "chk k' n w' t s = (s', b)" using assms(2) by simp
  from chk_law [OF assms(1) this, of w later k] assms OpCheck show ?thesis by auto
next
  case (OpClear k' t)
  with clr_law [OF assms(1), of k' k] assms show ?thesis by auto
qed

text \<open>A log agrees with the backend on every window up to \<open>w\<close> from \<open>now\<close> on.\<close>

definition agrees :: "u64 \<Rightarrow> int \<Rightarrow> string \<Rightarrow> 's \<Rightarrow> int list \<Rightarrow> bool" where
  "agrees w now k s l \<longleftrightarrow> ok s \<and> (\<forall>later \<ge> now.
     filter (in_window w later) (evs s k) = filter (in_window w later) l)"

lemma agrees_step:
  assumes "agrees w now k s l" "run_op cnt rec chk clr x s = (s', b)" "op_keeps w x" "now \<le> op_time x"
  shows "agrees w (op_time x) k s' (key_log k x b l)"
proof -
  have ok: "ok s" using assms(1) by (simp add: agrees_def)
  have eq: "filter (in_window w later) (key_log k x b (evs s k)) =
      filter (in_window w later) (key_log k x b l)" if "op_time x \<le> later" for later
  proof -
    have "filter (in_window w later) (evs s k) = filter (in_window w later) l"
      using assms(1,4) that by (simp add: agrees_def)
    then show ?thesis by (cases x) simp_all
  qed
  have "ok s'" using run_op_log [OF ok assms(2,3) order_refl] by simp
  with run_op_log [OF ok assms(2,3)] eq show ?thesis by (simp add: agrees_def)
qed

lemma agrees_run:
  assumes "agrees w now k s l" "run_ops cnt rec chk clr k xs (s, l) = (s', l')"
    and "\<forall>x \<in> set xs. op_keeps w x" "sorted_wrt (\<le>) (now # map op_time xs)"
  shows "agrees w (last (now # map op_time xs)) k s' l'"
  using assms
proof (induction xs arbitrary: s l now)
  case (Cons x xs)
  obtain s1 b where s1: "run_op cnt rec chk clr x s = (s1, b)" by fastforce
  have "agrees w (op_time x) k s1 (key_log k x b l)"
    using agrees_step [OF Cons.prems(1) s1] Cons.prems(3,4) by simp
  from Cons.IH [OF this] Cons.prems s1 show ?case by simp
qed simp

text \<open>The number of grants of a key in any window is at most the limit.\<close>

lemma window_bound:
  assumes "agrees w now k s l" "run_ops cnt rec chk clr k xs (s, l) = (s', l')"
    and "\<forall>x \<in> set xs. op_keeps w x \<and> is_check k n w x" "sorted_wrt (\<le>) (now # map op_time xs)"
    and "\<forall>t \<in> set l. t \<le> now"
    and "\<And>T. length (filter (\<lambda>t. t \<le> T \<and> in_window w T t) l) \<le> unat n"
  shows "length (filter (\<lambda>t. t \<le> T \<and> in_window w T t) l') \<le> unat n"
  using assms
proof (induction xs arbitrary: s l now)
  case Nil
  then show ?case by simp
next
  case (Cons x xs)
  obtain s1 b where s1: "run_op cnt rec chk clr x s = (s1, b)" by fastforce
  let ?l = "key_log k x b l"
  have ag: "agrees w (op_time x) k s1 ?l"
    using agrees_step [OF Cons.prems(1) s1] Cons.prems(3,4) by simp
  have past: "\<forall>t \<in> set ?l. t \<le> op_time x"
    using Cons.prems(3,4,5) by (cases x) (auto split: if_splits)
  have "length (filter (\<lambda>t. t \<le> T \<and> in_window w T t) ?l) \<le> unat n" for T
  proof (cases "?l = l @ [op_time x]")
    case False
    then have "?l = l \<or> ?l = []" by (cases x) (auto split: if_splits)
    with Cons.prems(6) show ?thesis by auto
  next
    case True
    then obtain n' w' t where x: "x = OpCheck k n' w' t" "b"
      using Cons.prems(3) by (cases x) (auto split: if_splits)
    then have n: "n' = n" "w' = w" using Cons.prems(3) by auto
    have ok: "ok s" using Cons.prems(1) by (simp add: agrees_def)
    have "chk k n w t s = (s1, b)" using s1 x n by simp
    from chk_law [OF ok this, of w t k] x(2)
    have "length (filter (in_window w t) (evs s k)) < unat n" by (simp add: len_u32_less)
    moreover have "filter (in_window w t) (evs s k) = filter (in_window w t) l"
      using Cons.prems(1,4) x by (simp add: agrees_def)
    ultimately have lt: "length (filter (in_window w t) l) < unat n" by simp
    show ?thesis
    proof (cases "t \<le> T")
      case True
      have "length (filter (\<lambda>u. u \<le> T \<and> in_window w T u) l) \<le> length (filter (in_window w t) l)"
        unfolding count_where_def [symmetric]
        using True by (intro count_where_le) (auto intro: in_window_mono)
      with lt \<open>?l = l @ [op_time x]\<close> x(1) show ?thesis by simp
    next
      case False
      with Cons.prems(6) [of T] \<open>?l = l @ [op_time x]\<close> x(1) show ?thesis by simp
    qed
  qed
  from Cons.IH [OF ag _ _ _ past this] Cons.prems(2,3,4) s1 show ?case by simp
qed

end

section \<open>The in-memory backend (memory.rs)\<close>

type_synonym event_map = "(string \<times> int list) list"

definition MAX_MAP_SIZE :: nat where "MAX_MAP_SIZE = 100000"

definition retain :: "u64 \<Rightarrow> int \<Rightarrow> int list \<Rightarrow> int list" where
  "retain w now ts = filter (in_window w now) ts"

text \<open>\<open>map.retain\<close> of the sweep: every key's expired times go, then every key without times.\<close>

definition sweep :: "u64 \<Rightarrow> int \<Rightarrow> event_map \<Rightarrow> event_map" where
  "sweep w now m = filter (\<lambda>(_, ts). ts \<noteq> []) (map (\<lambda>(k, ts). (k, retain w now ts)) m)"

definition maybe_sweep :: "u64 \<Rightarrow> int \<Rightarrow> event_map \<Rightarrow> event_map" where
  "maybe_sweep w now m = (if MAX_MAP_SIZE < length m then sweep w now m else m)"

definition key_times :: "event_map \<Rightarrow> string \<Rightarrow> int list" where
  "key_times m k = unwrap_or [] (map_of m k)"

definition memory_count :: "string \<Rightarrow> u64 \<Rightarrow> int \<Rightarrow> event_map \<Rightarrow> event_map \<times> u32" where
  "memory_count k w now m =
     (case map_of m k of
        None \<Rightarrow> (m, 0)
      | Some ts \<Rightarrow>
          (let ts' = retain w now ts in (AList.update k ts' m, len_u32 ts')))"

definition memory_record :: "string \<Rightarrow> u64 \<Rightarrow> int \<Rightarrow> event_map \<Rightarrow> event_map" where
  "memory_record k w now m0 =
     (let m = maybe_sweep w now m0
      in AList.update k (retain w now (key_times m k) @ [now]) m)"

definition memory_check_and_record :: "string \<Rightarrow> u32 \<Rightarrow> u64 \<Rightarrow> int \<Rightarrow> event_map \<Rightarrow> event_map \<times> bool" where
  "memory_check_and_record k max_count w now m0 =
     (let m = maybe_sweep w now m0;
          ts = retain w now (key_times m k)
      in if max_count \<le> len_u32 ts then (AList.update k ts m, False)
         else (AList.update k (ts @ [now]) m, True))"

definition memory_clear :: "string \<Rightarrow> event_map \<Rightarrow> event_map" where
  "memory_clear k m = AList.delete k m"

definition map_ok :: "event_map \<Rightarrow> bool" where
  "map_ok m \<longleftrightarrow> distinct (map fst m)"

lemma key_times_update [simp]:
  "key_times (AList.update k ts m) j = (if j = k then ts else key_times m j)"
  by (simp add: key_times_def update_conv')

lemma key_times_delete [simp]:
  "key_times (AList.delete k m) j = (if j = k then [] else key_times m j)"
  by (simp add: key_times_def delete_conv')

lemma map_ok_update [simp]: "map_ok m \<Longrightarrow> map_ok (AList.update k ts m)"
  by (simp add: map_ok_def distinct_update)

lemma map_ok_delete [simp]: "map_ok m \<Longrightarrow> map_ok (AList.delete k m)"
  by (simp add: map_ok_def distinct_delete)

lemma key_times_not_mem: "k \<notin> fst ` set m \<Longrightarrow> key_times m k = []"
  using map_of_eq_None_iff [of m k] by (simp add: key_times_def)

lemma fst_sweep: "fst ` set (sweep w now m) \<subseteq> fst ` set m"
  by (force simp: sweep_def)

lemma map_ok_sweep: "map_ok m \<Longrightarrow> map_ok (sweep w now m)"
proof (induction m)
  case (Cons p m)
  with fst_sweep [of w now m] show ?case
    by (cases p) (auto simp: map_ok_def sweep_def)
qed (simp add: sweep_def)

lemma key_times_sweep:
  "map_ok m \<Longrightarrow> key_times (sweep w now m) k = retain w now (key_times m k)"
proof (induction m)
  case (Cons p m)
  obtain j ts where p: "p = (j, ts)" by fastforce
  have step: "sweep w now (p # m) = (if retain w now ts = [] then sweep w now m
      else (j, retain w now ts) # sweep w now m)"
    by (simp add: sweep_def p)
  have "j \<notin> fst ` set m" using Cons.prems p by (simp add: map_ok_def)
  then have "key_times (sweep w now m) j = []"
    using fst_sweep [of w now m] by (intro key_times_not_mem) blast
  moreover have "key_times (sweep w now m) k = retain w now (key_times m k)"
    using Cons by (simp add: map_ok_def)
  ultimately show ?case
    by (cases "k = j") (simp_all add: step, simp_all add: key_times_def p)
qed (simp add: sweep_def key_times_def retain_def)

lemma retain_fold: "filter (in_window w now) xs = retain w now xs"
  by (simp add: retain_def)

lemma retain_Nil [simp]: "retain w now [] = []"
  by (simp add: retain_def)

lemma retain_append [simp]: "retain w now (xs @ ys) = retain w now xs @ retain w now ys"
  by (simp add: retain_def)

lemma retain_retain:
  assumes "w' \<le> w" "now \<le> later"
  shows "retain w' later (retain w now xs) = retain w' later xs"
proof -
  have "filter (in_window w' later) (filter (in_window w now) xs) = filter (in_window w' later) xs"
    unfolding filter_filter using assms by (intro filter_cong) (auto intro: in_window_mono)
  then show ?thesis by (simp add: retain_def)
qed

lemma retain_idem [simp]: "retain w now (retain w now xs) = retain w now xs"
  by (simp add: retain_def)

lemma map_ok_maybe_sweep: "map_ok m \<Longrightarrow> map_ok (maybe_sweep w now m)"
  by (simp add: maybe_sweep_def map_ok_sweep)

lemma maybe_sweep_retain:
  "map_ok m \<Longrightarrow> w' \<le> w \<Longrightarrow> now \<le> later \<Longrightarrow>
     retain w' later (key_times (maybe_sweep w now m) k) = retain w' later (key_times m k)"
  by (simp add: maybe_sweep_def key_times_sweep retain_retain)

lemma memory_count_law:
  assumes "map_ok m" "memory_count k w now m = (m', c)"
  shows "map_ok m' \<and> c = len_u32 (retain w now (key_times m k)) \<and>
    (w' \<le> w \<longrightarrow> now \<le> later \<longrightarrow> retain w' later (key_times m' j) = retain w' later (key_times m j))"
proof (cases "map_of m k")
  case None
  with assms show ?thesis by (auto simp: memory_count_def key_times_def len_u32_def retain_def)
next
  case (Some ts)
  then have "key_times m k = ts" by (simp add: key_times_def)
  with Some assms show ?thesis by (auto simp: memory_count_def Let_def retain_retain)
qed

lemma memory_record_law:
  assumes "map_ok m"
  shows "map_ok (memory_record k w now m) \<and>
    (w' \<le> w \<longrightarrow> now \<le> later \<longrightarrow>
      retain w' later (key_times (memory_record k w now m) j) =
      retain w' later (key_times m j @ (if j = k then [now] else [])))"
  using map_ok_maybe_sweep [OF assms] maybe_sweep_retain [OF assms]
  by (simp add: memory_record_def Let_def retain_retain)

lemma memory_check_law:
  assumes "map_ok m" "memory_check_and_record k n w now m = (m', b)"
  shows "map_ok m' \<and> b = (len_u32 (retain w now (key_times m k)) < n) \<and>
    (w' \<le> w \<longrightarrow> now \<le> later \<longrightarrow>
      retain w' later (key_times m' j) =
      retain w' later (key_times m j @ (if b \<and> j = k then [now] else [])))"
proof -
  let ?m = "maybe_sweep w now m"
  have ok: "map_ok ?m" by (rule map_ok_maybe_sweep [OF assms(1)])
  have now: "retain w now (key_times ?m k) = retain w now (key_times m k)"
    by (rule maybe_sweep_retain [OF assms(1)]) simp_all
  show ?thesis
  proof (cases "n \<le> len_u32 (retain w now (key_times m k))")
    case True
    then have "m' = AList.update k (retain w now (key_times ?m k)) ?m" "\<not> b"
      using assms(2) now by (auto simp: memory_check_and_record_def Let_def)
    with True ok maybe_sweep_retain [OF assms(1)] show ?thesis by (simp add: retain_retain)
  next
    case False
    then have "m' = AList.update k (retain w now (key_times ?m k) @ [now]) ?m" "b"
      using assms(2) now by (auto simp: memory_check_and_record_def Let_def)
    with False ok maybe_sweep_retain [OF assms(1)] not_le [of n] show ?thesis by (simp add: retain_retain)
  qed
qed

interpretation memory: rate_backend map_ok key_times memory_count memory_record
    memory_check_and_record memory_clear
proof (unfold_locales, unfold retain_fold)
  show "map_ok (memory_clear k m) \<and> key_times (memory_clear k m) j = (if j = k then [] else key_times m j)"
    if "map_ok m" for m k j
    using that by (simp add: memory_clear_def)
qed (rule memory_count_law memory_record_law memory_check_law; assumption)+

section \<open>Backends and limiters (backend.rs, none.rs, login.rs, grpc.rs)\<close>

text \<open>The trait: a call may fail, and the memory backend's never does.\<close>

record 's rate_limit_backend =
  be_count :: "string \<Rightarrow> u64 \<Rightarrow> int \<Rightarrow> 's \<Rightarrow> 's \<times> (string + u32)"
  be_record :: "string \<Rightarrow> u64 \<Rightarrow> int \<Rightarrow> 's \<Rightarrow> 's \<times> (string + unit)"
  be_check_and_record :: "string \<Rightarrow> u32 \<Rightarrow> u64 \<Rightarrow> int \<Rightarrow> 's \<Rightarrow> 's \<times> (string + bool)"
  be_clear :: "string \<Rightarrow> 's \<Rightarrow> 's \<times> (string + unit)"

definition memory_backend :: "event_map rate_limit_backend" where
  "memory_backend =
     \<lparr>be_count = (\<lambda>k w now m. map_prod id Inr (memory_count k w now m)),
      be_record = (\<lambda>k w now m. (memory_record k w now m, Inr ())),
      be_check_and_record = (\<lambda>k n w now m. map_prod id Inr (memory_check_and_record k n w now m)),
      be_clear = (\<lambda>k m. (memory_clear k m, Inr ()))\<rparr>"

definition none_backend :: "'s rate_limit_backend" where
  "none_backend =
     \<lparr>be_count = (\<lambda>_ _ _ s. (s, Inr 0)), be_record = (\<lambda>_ _ _ s. (s, Inr ())),
      be_check_and_record = (\<lambda>_ _ _ _ s. (s, Inr True)), be_clear = (\<lambda>_ s. (s, Inr ()))\<rparr>"

record login_rate_limiter =
  ll_prefix :: string
  ll_max_attempts :: u32
  ll_window_secs :: u64

definition prefixed_key :: "login_rate_limiter \<Rightarrow> string \<Rightarrow> string" where
  "prefixed_key lmt key = ll_prefix lmt @ '':'' @ key"

text \<open>A failing backend does not block a login, and a record or clear that fails is only logged.\<close>

definition is_blocked :: "'s rate_limit_backend \<Rightarrow> login_rate_limiter \<Rightarrow> string \<Rightarrow> int \<Rightarrow> 's \<Rightarrow> 's \<times> bool" where
  "is_blocked be lmt key now s =
     (let (s', r) = be_count be (prefixed_key lmt key) (ll_window_secs lmt) now s
      in (s', case r of Inl _ \<Rightarrow> False | Inr count \<Rightarrow> ll_max_attempts lmt \<le> count))"

definition record_failure :: "'s rate_limit_backend \<Rightarrow> login_rate_limiter \<Rightarrow> string \<Rightarrow> int \<Rightarrow> 's \<Rightarrow> 's" where
  "record_failure be lmt key now s =
     fst (be_record be (prefixed_key lmt key) (ll_window_secs lmt) now s)"

definition clear_failures :: "'s rate_limit_backend \<Rightarrow> login_rate_limiter \<Rightarrow> string \<Rightarrow> 's \<Rightarrow> 's" where
  "clear_failures be lmt key s = fst (be_clear be (prefixed_key lmt key) s)"

record grpc_rate_limiter =
  gl_max_requests :: u32
  gl_window_secs :: u64

text \<open>A failing backend refuses the request; a limit of zero lets every request pass.\<close>

definition grpc_check_and_record ::
  "'s rate_limit_backend \<Rightarrow> grpc_rate_limiter \<Rightarrow> string \<Rightarrow> int \<Rightarrow> 's \<Rightarrow> 's \<times> bool" where
  "grpc_check_and_record be lmt ip now s =
     (if gl_max_requests lmt = 0 then (s, True)
      else (let (s', r) = be_check_and_record be (''grpc:'' @ ip) (gl_max_requests lmt) (gl_window_secs lmt) now s
            in (s', case r of Inl _ \<Rightarrow> False | Inr b \<Rightarrow> b)))"

lemma is_blocked_memory:
  "snd (is_blocked memory_backend lmt key now s) =
     (ll_max_attempts lmt \<le> snd (memory_count (prefixed_key lmt key) (ll_window_secs lmt) now s))"
  by (cases "memory_count (prefixed_key lmt key) (ll_window_secs lmt) now s")
    (simp add: is_blocked_def memory_backend_def)

lemma grpc_check_memory:
  "gl_max_requests lmt \<noteq> 0 \<Longrightarrow> fst (grpc_check_and_record memory_backend lmt ip now s) =
     fst (memory_check_and_record (''grpc:'' @ ip) (gl_max_requests lmt) (gl_window_secs lmt) now s)"
  by (cases "memory_check_and_record (''grpc:'' @ ip) (gl_max_requests lmt) (gl_window_secs lmt) now s")
    (simp add: grpc_check_and_record_def memory_backend_def)

section \<open>Properties\<close>

definition memory_run :: "string \<Rightarrow> rate_op list \<Rightarrow> event_map \<times> int list \<Rightarrow> event_map \<times> int list" where
  "memory_run = run_ops memory_count memory_record memory_check_and_record memory_clear"



text \<open>
  A login is blocked exactly when at least \<open>max_attempts\<close> failures of its key were recorded within
  the window since the key was last cleared, whatever other limiters with windows at least as
  long did to the shared backend in between.
\<close>
theorem login_blocked_iff:
  assumes "map_ok m" "key_times m (prefixed_key lmt key) = []"
    and "memory_run (prefixed_key lmt key) xs (m, []) = (m', failures)"
    and "\<forall>x \<in> set xs. op_keeps (ll_window_secs lmt) x" "sorted (map op_time xs @ [now])"
  shows "snd (is_blocked memory_backend lmt key now m') \<longleftrightarrow>
    unat (ll_max_attempts lmt) \<le> length (filter (in_window (ll_window_secs lmt) now) failures)"
proof -
  let ?k = "prefixed_key lmt key" and ?w = "ll_window_secs lmt"
  define start where "start = Min (insert now (op_time ` set xs))"
  have le: "start \<le> op_time x" if "x \<in> set xs" for x
    using that by (auto simp: start_def intro!: Min_le)
  have "memory.agrees ?w start ?k m []"
    using assms(1,2) by (simp add: memory.agrees_def)
  moreover have "run_ops memory_count memory_record memory_check_and_record memory_clear ?k xs (m, []) = (m', failures)"
    using assms(3) by (simp add: memory_run_def)
  moreover have "sorted_wrt (\<le>) (start # map op_time xs)"
    using assms(5) le by (simp add: sorted_append)
  ultimately have "memory.agrees ?w (last (start # map op_time xs)) ?k m' failures"
    by (rule memory.agrees_run [OF _ _ assms(4)])
  moreover have "last (start # map op_time xs) \<le> now"
  proof (cases "xs = []")
    case True
    then show ?thesis by (simp add: start_def)
  next
    case False
    then have "last (map op_time xs) \<in> set (map op_time xs)" by (intro last_in_set) simp
    moreover have "\<forall>t \<in> set (map op_time xs). t \<le> now" using assms(5) by (simp add: sorted_append)
    ultimately have "last (map op_time xs) \<le> now" by blast
    with False show ?thesis by simp
  qed
  ultimately have ok: "map_ok m'"
    and eq: "filter (in_window ?w now) (key_times m' ?k) = filter (in_window ?w now) failures"
    by (simp_all add: memory.agrees_def)
  obtain m2 c where c: "memory_count ?k ?w now m' = (m2, c)" by fastforce
  from memory_count_law [OF ok c] eq have "c = len_u32 (filter (in_window ?w now) failures)"
    by (simp add: retain_def)
  with c show ?thesis
    using len_u32_less [of "filter (in_window ?w now) failures" "ll_max_attempts lmt"]
    by (simp add: is_blocked_def memory_backend_def not_less [symmetric])
qed

definition login_limiter :: login_rate_limiter where
  "login_limiter = \<lparr>ll_prefix = ''login'', ll_max_attempts = 5, ll_window_secs = 300\<rparr>"

theorem login_blocked_iff_witness:
  "\<not> snd (is_blocked memory_backend login_limiter ''a'' 9 (fst (memory_run ''login:a''
      [OpRecord ''login:a'' 300 1, OpClear ''login:a'' 2, OpRecord ''login:a'' 300 3] ([], []))))"
proof -
  let ?xs = "[OpRecord ''login:a'' 300 1, OpClear ''login:a'' 2, OpRecord ''login:a'' 300 3]"
  have k: "prefixed_key login_limiter ''a'' = ''login:a''" by (simp add: prefixed_key_def login_limiter_def)
  obtain m' l where l: "memory_run (prefixed_key login_limiter ''a'') ?xs ([], []) = (m', l)" by fastforce
  then have "l = [3]" by (simp add: k memory_run_def)
  with l k show ?thesis
    using login_blocked_iff [OF _ _ l, of 9]
    by (simp add: map_ok_def key_times_def login_limiter_def)
qed

text \<open>
  The sweep breaks this for windows of different length: when the shared map holds more than
  \<open>MAX_MAP_SIZE\<close> keys, one request of the gRPC limiter (60 seconds) prunes every key with its own
  window, and a key that the login limiter (five failures in 300 seconds) blocks is no longer
  blocked.
\<close>
theorem sweep_lifts_lockout:
  "\<exists>m. map_ok m \<and> snd (is_blocked memory_backend login_limiter ''a'' 100000000000 m) \<and>
     \<not> snd (is_blocked memory_backend login_limiter ''a'' 100000000000
             (fst (grpc_check_and_record memory_backend \<lparr>gl_max_requests = 100, gl_window_secs = 60\<rparr>
                     ''b'' 100000000000 m)))"
proof -
  define others where "others = map (\<lambda>i. (''x'' @ replicate i (CHR ''x''), [0::int])) [0..<MAX_MAP_SIZE]"
  define m where "m = (''login:a'', replicate 5 0) # others"
  let ?now = "100000000000"
  have inj: "inj (\<lambda>i. ''x'' @ replicate i (CHR ''x''))"
    by (rule injI) (auto dest: arg_cong [where f = length])
  then have "distinct (map fst others)"
    by (simp add: others_def comp_def distinct_map inj_on_def inj_def)
  moreover have "''login:a'' \<notin> fst ` set others" by (auto simp: others_def)
  ultimately have ok: "map_ok m" by (simp add: map_ok_def m_def)
  have big: "MAX_MAP_SIZE < length m" by (simp add: m_def others_def)
  have times_a: "key_times m ''login:a'' = replicate 5 0" by (simp add: m_def key_times_def)
  have k: "prefixed_key login_limiter ''a'' = ''login:a''" by (simp add: prefixed_key_def login_limiter_def)
  let ?m = "fst (memory_check_and_record ''grpc:b'' 100 60 ?now m)"
  have swept: "key_times (maybe_sweep 60 ?now m) ''login:a'' = []"
    using big by (simp add: maybe_sweep_def key_times_sweep [OF ok] times_a retain_def in_window_def)
  have "key_times ?m ''login:a'' = []"
    by (simp add: memory_check_and_record_def Let_def swept)
  moreover obtain m1 c1 where c1: "memory_count ''login:a'' 300 ?now m = (m1, c1)" by fastforce
  moreover obtain m2 c2 where c2: "memory_count ''login:a'' 300 ?now ?m = (m2, c2)" by fastforce
  moreover have ok2: "map_ok ?m"
    using memory_check_law [OF ok, of "''grpc:b''" 100 60 ?now] by (metis fst_conv surj_pair)
  ultimately have "c1 = len_u32 (replicate 5 (0::int))" "c2 = len_u32 ([] :: int list)"
    using memory_count_law [OF ok c1] memory_count_law [OF ok2 c2] times_a
    by (simp_all add: retain_def in_window_def)
  then have "c1 = 5" "c2 = 0" by (simp_all add: len_u32_def)
  with c1 c2 ok k show ?thesis
    by (intro exI [of _ m]) (simp add: is_blocked_memory grpc_check_memory login_limiter_def)
qed

end
