(* ===== verification/FieldSchema.thy ===== *)
theory FieldSchema
  imports Complex_Main Prelude "HOL-Library.AList"
begin

text \<open>
  The schema the stores and walkers share (src/src/core/field/, src/src/db/query/helpers.rs,
  src/src/db/query/locale.rs): field definitions as a tree, the JSON values of a document, the
  names of columns with their group prefix and locale suffix, and the walkers over the tree.
  A finite \<open>f64\<close> is a rational number.
\<close>

section \<open>Values\<close>

datatype json_number = JInt int | JFloat rat

datatype json_value =
    JNull
  | JBool bool
  | JNumber json_number
  | JString string
  | JArray "json_value list"
  | JObject "(string \<times> json_value) list"

fun as_json_str :: "json_value \<Rightarrow> string option" where
  "as_json_str (JString s) = Some s"
| "as_json_str v = None"

text \<open>\<open>value.get(key)\<close>: a member of an object, nothing of any other value.\<close>

fun json_get :: "json_value \<Rightarrow> string \<Rightarrow> json_value option" where
  "json_get (JObject ms) k = map_of ms k"
| "json_get v k = None"

type_synonym document_fields = "(string \<times> json_value) list"

section \<open>Field definitions\<close>

datatype field_type =
    Text | Number | Textarea | Richtext | Select | Radio | Checkbox | Date | Email | Json
  | Upload | Relationship | Array | Group | Blocks | Row | Collapsible | Tabs | Code | Join

record relationship_config =
  rc_collection :: string
  rc_has_many :: bool
  rc_polymorphic :: "string list"
  rc_max_depth :: "int option"

definition is_polymorphic :: "relationship_config \<Rightarrow> bool" where
  "is_polymorphic rc \<longleftrightarrow> rc_polymorphic rc \<noteq> []"

record select_option =
  so_label :: string
  so_value :: string

text \<open>
  The members of a definition that are not subtrees and that the modelled code reads; the admin
  display options and hooks are left out.  A join has its target collection and the field there that
  refers to the document.
\<close>

record field_attrs =
  fa_name :: string
  fa_type :: field_type
  fa_required :: bool
  fa_unique :: bool
  fa_options :: "select_option list"
  fa_relationship :: "relationship_config option"
  fa_localized :: bool
  fa_min_rows :: "nat option"
  fa_max_rows :: "nat option"
  fa_min_length :: "nat option"
  fa_max_length :: "nat option"
  fa_min :: "rat option"
  fa_max :: "rat option"
  fa_has_many :: bool
  fa_min_date :: "string option"
  fa_max_date :: "string option"
  fa_timezone :: bool
  fa_validate :: "string option"
  fa_nodes :: "string list"
  fa_richtext_format :: "string option"
  fa_hidden :: bool
  fa_access_read :: "string option"
  fa_access_create :: "string option"
  fa_access_update :: "string option"
  fa_join :: "(string \<times> string) option"

text \<open>A new definition (\<open>FieldDefinitionBuilder::new\<close>).\<close>

definition new_attrs :: "string \<Rightarrow> field_type \<Rightarrow> field_attrs" where
  "new_attrs name ft =
     \<lparr>fa_name = name, fa_type = ft, fa_required = False, fa_unique = False, fa_options = [],
      fa_relationship = None, fa_localized = False, fa_min_rows = None, fa_max_rows = None,
      fa_min_length = None, fa_max_length = None, fa_min = None, fa_max = None, fa_has_many = False,
      fa_min_date = None, fa_max_date = None, fa_timezone = False,
      fa_validate = None, fa_nodes = [], fa_richtext_format = None,
      fa_hidden = False, fa_access_read = None, fa_access_create = None, fa_access_update = None, fa_join = None\<rparr>"

datatype field_definition =
    FieldDefinition (fd_attrs: field_attrs) (fd_fields: "field_definition list")
      (fd_tabs: "field_tab list") (fd_blocks: "block_definition list")
and field_tab = FieldTab (tab_label: string) (tab_fields: "field_definition list")
and block_definition = BlockDefinition (block_type: string) (block_fields: "field_definition list")

definition attrs_has_parent_column :: "field_attrs \<Rightarrow> bool" where
  "attrs_has_parent_column a \<longleftrightarrow>
     (case fa_type a of
        Array \<Rightarrow> False | Group \<Rightarrow> False | Row \<Rightarrow> False | Collapsible \<Rightarrow> False
      | Tabs \<Rightarrow> False | Blocks \<Rightarrow> False | Join \<Rightarrow> False
      | Relationship \<Rightarrow> (case fa_relationship a of Some rc \<Rightarrow> \<not> rc_has_many rc | None \<Rightarrow> True)
      | Upload \<Rightarrow> (case fa_relationship a of Some rc \<Rightarrow> \<not> rc_has_many rc | None \<Rightarrow> True)
      | _ \<Rightarrow> True)"

definition has_parent_column :: "field_definition \<Rightarrow> bool" where
  "has_parent_column f = attrs_has_parent_column (fd_attrs f)"

text \<open>Layout wrappers inside arrays and blocks are transparent.\<close>

fun flatten_array_sub_fields :: "field_definition list \<Rightarrow> field_definition list"
  and flatten_tabs :: "field_tab list \<Rightarrow> field_definition list"
where
  "flatten_array_sub_fields [] = []"
| "flatten_array_sub_fields (FieldDefinition a sub tabs blocks # fs) =
     (case fa_type a of
        Row \<Rightarrow> flatten_array_sub_fields sub
      | Collapsible \<Rightarrow> flatten_array_sub_fields sub
      | Tabs \<Rightarrow> flatten_tabs tabs
      | _ \<Rightarrow> [FieldDefinition a sub tabs blocks]) @ flatten_array_sub_fields fs"
| "flatten_tabs [] = []"
| "flatten_tabs (FieldTab l sub # ts) = flatten_array_sub_fields sub @ flatten_tabs ts"

definition is_wrapper :: "field_definition \<Rightarrow> bool" where
  "is_wrapper f \<longleftrightarrow> fa_type (fd_attrs f) \<in> {Row, Collapsible, Tabs}"

text \<open>No layout wrapper is left at the top, and a list without one is unchanged.\<close>

lemma flatten_no_wrapper:
  "f \<in> set (flatten_array_sub_fields fs) \<Longrightarrow> \<not> is_wrapper f"
  "f \<in> set (flatten_tabs ts) \<Longrightarrow> \<not> is_wrapper f"
  by (induction fs and ts rule: flatten_array_sub_fields_flatten_tabs.induct)
    (auto simp: is_wrapper_def split: field_type.splits)

lemma flatten_id: "\<forall>f \<in> set fs. \<not> is_wrapper f \<Longrightarrow> flatten_array_sub_fields fs = fs"
proof (induction fs)
  case (Cons f fs)
  then show ?case by (cases f) (auto simp: is_wrapper_def split: field_type.splits)
qed simp

section \<open>Names\<close>

definition prefixed_name :: "string \<Rightarrow> string \<Rightarrow> string" where
  "prefixed_name prefix name = (if prefix = [] then name else prefix @ ''__'' @ name)"

record locale_config =
  lc_default_locale :: string
  lc_locales :: "string list"
  lc_fallback :: bool

definition is_enabled :: "locale_config \<Rightarrow> bool" where
  "is_enabled c \<longleftrightarrow> lc_locales c \<noteq> []"

datatype locale_mode = Default | Single string | All

record locale_context =
  lx_mode :: locale_mode
  lx_config :: locale_config

text \<open>\<open>Err\<close> when nothing is left of the locale code.\<close>

definition sanitize_locale :: "string \<Rightarrow> string option" where
  "sanitize_locale l =
     (let r = filter (\<lambda>c. is_ascii_alphanumeric c \<or> c = CHR ''_'')
                (map (\<lambda>c. if c = CHR ''-'' then CHR ''_'' else c) l)
      in if r = [] then None else Some r)"

definition locale_column :: "string \<Rightarrow> string \<Rightarrow> string option" where
  "locale_column field_name locale = map_option (\<lambda>l. field_name @ ''__'' @ l) (sanitize_locale locale)"

text \<open>The column a write of a field goes to.\<close>

definition locale_write_column ::
  "string \<Rightarrow> field_attrs \<Rightarrow> locale_context option \<Rightarrow> bool \<Rightarrow> string option" where
  "locale_write_column field_name a locale_ctx inherited_localized =
     (case locale_ctx of
        None \<Rightarrow> Some field_name
      | Some ctx \<Rightarrow>
          if \<not> is_enabled (lx_config ctx) then Some field_name
          else if \<not> fa_localized a \<and> \<not> inherited_localized then Some field_name
          else (let req = (case lx_mode ctx of Single l \<Rightarrow> l | _ \<Rightarrow> lc_default_locale (lx_config ctx));
                    locale = (if req \<in> set (lc_locales (lx_config ctx)) then req
                              else lc_default_locale (lx_config ctx))
                in locale_column field_name locale))"

text \<open>
  A sanitized locale is made of identifier characters only, and sanitizing it again does
  nothing: no locale can smuggle SQL into a column name.
\<close>

lemma sanitize_locale_chars:
  "sanitize_locale l = Some r \<Longrightarrow> r \<noteq> [] \<and> list_all (\<lambda>c. is_ascii_alphanumeric c \<or> c = CHR ''_'') r"
  by (auto simp: sanitize_locale_def Let_def list_all_iff split: if_splits)

lemma underscore_not_dash: "is_ascii_alphanumeric c \<or> c = CHR ''_'' \<Longrightarrow> c \<noteq> CHR ''-''"
  by (auto simp: is_ascii_alphanumeric_def is_ascii_digit_def is_ascii_lowercase_def is_ascii_uppercase_def)

lemma sanitize_locale_idem: "sanitize_locale l = Some r \<Longrightarrow> sanitize_locale r = Some r"
proof -
  assume a: "sanitize_locale l = Some r"
  have "map (\<lambda>c. if c = CHR ''-'' then CHR ''_'' else c) r = r"
    using sanitize_locale_chars [OF a] underscore_not_dash by (intro map_idI) (auto simp: list_all_iff)
  moreover have "filter (\<lambda>c. is_ascii_alphanumeric c \<or> c = CHR ''_'') r = r"
    using sanitize_locale_chars [OF a] by (simp add: list_all_iff)
  ultimately show ?thesis using sanitize_locale_chars [OF a] by (simp add: sanitize_locale_def)
qed

text \<open>\<open>split_once\<close>: the parts before and after the first occurrence.\<close>

fun split_once :: "char \<Rightarrow> string \<Rightarrow> (string \<times> string) option" where
  "split_once d [] = None"
| "split_once d (c # cs) =
     (if c = d then Some ([], cs)
      else map_option (\<lambda>(a, b). (c # a, b)) (split_once d cs))"

lemma split_once_Some: "split_once d s = Some (a, b) \<longleftrightarrow> s = a @ d # b \<and> d \<notin> set a"
  by (induction s arbitrary: a b) (auto simp: Cons_eq_append_conv)

end
