(* ===== verification/RefCompute.thy ===== *)
theory RefCompute
  imports FieldSchema
begin

text \<open>
  The outgoing references of a document, computed from the data of a write
  (src/src/db/query/ref_count/compute.rs, outgoing_ref.rs), and the predicate that lets an
  update skip the reference counts (api.rs).
\<close>

record outgoing_ref =
  target_collection :: string
  target_id :: string

text \<open>\<open>push_ref\<close>: the reference a value adds, if any.\<close>

definition push_ref :: "string \<Rightarrow> bool \<Rightarrow> string \<Rightarrow> outgoing_ref list" where
  "push_ref v poly default_collection =
     (if v = [] then []
      else if \<not> poly then [\<lparr>target_collection = default_collection, target_id = v\<rparr>]
      else (case split_once (CHR ''/'') v of
              Some (col, i) \<Rightarrow>
                if col \<noteq> [] \<and> i \<noteq> [] then [\<lparr>target_collection = col, target_id = i\<rparr>] else []
            | None \<Rightarrow> []))"

definition parse_id_list :: "json_value \<Rightarrow> string list" where
  "parse_id_list v =
     (case v of
        JArray arr \<Rightarrow> List.map_filter as_json_str arr
      | JString s \<Rightarrow> if s = [] then [] else filter (\<lambda>x. x \<noteq> []) (map trim (split_on (CHR '','') s))
      | _ \<Rightarrow> [])"

definition parse_polymorphic_values :: "json_value \<Rightarrow> (string \<times> string) list" where
  "parse_polymorphic_values v =
     List.map_filter (\<lambda>item. case split_once (CHR ''/'') item of
         None \<Rightarrow> None
       | Some (col, i) \<Rightarrow> if col \<noteq> [] \<and> i \<noteq> [] then Some (col, i) else None) (parse_id_list v)"

text \<open>The first occurrences only: a \<open>HashSet\<close> of what was seen.\<close>

definition dedup :: "'a list \<Rightarrow> 'a list" where
  "dedup xs = rev (remdups (rev xs))"

lemma set_dedup [simp]: "set (dedup xs) = set xs" and distinct_dedup [simp]: "distinct (dedup xs)"
  by (simp_all add: dedup_def)

definition is_ref_type :: "field_type \<Rightarrow> bool" where
  "is_ref_type t \<longleftrightarrow> t = Relationship \<or> t = Upload"

text \<open>The has-one relationship fields among flattened sub-fields.\<close>

definition rel_fields :: "field_definition list \<Rightarrow> (string \<times> bool \<times> string) list" where
  "rel_fields flat =
     List.map_filter (\<lambda>f. let a = fd_attrs f in
       if \<not> is_ref_type (fa_type a) then None
       else (case fa_relationship a of
               None \<Rightarrow> None
             | Some rc \<Rightarrow> if rc_has_many rc then None
                          else Some (fa_name a, is_polymorphic rc, rc_collection rc))) flat"

definition row_refs :: "(string \<times> bool \<times> string) list \<Rightarrow> json_value \<Rightarrow> outgoing_ref list" where
  "row_refs rels row =
     concat (map (\<lambda>(name, poly, default_col).
       case Option.bind (json_get row name) as_json_str of
         None \<Rightarrow> []
       | Some v \<Rightarrow> push_ref v poly default_col) rels)"

definition compute_array_refs_from_data :: "json_value list \<Rightarrow> field_definition list \<Rightarrow> outgoing_ref list" where
  "compute_array_refs_from_data rows fds =
     (let rels = rel_fields (flatten_array_sub_fields fds)
      in if rels = [] then [] else concat (map (row_refs rels) rows))"

definition compute_blocks_refs_from_data :: "json_value list \<Rightarrow> block_definition list \<Rightarrow> outgoing_ref list" where
  "compute_blocks_refs_from_data rows blocks =
     concat (map (\<lambda>row.
       case Option.bind (json_get row ''_block_type'') as_json_str of
         None \<Rightarrow> []
       | Some bt \<Rightarrow>
           (case find (\<lambda>b. block_type b = bt) blocks of
              None \<Rightarrow> []
            | Some b \<Rightarrow> row_refs (rel_fields (flatten_array_sub_fields (block_fields b))) row)) rows)"

definition has_one_columns :: "field_attrs \<Rightarrow> locale_config \<Rightarrow> string \<Rightarrow> string list" where
  "has_one_columns a lc col =
     (if fa_localized a \<and> is_enabled lc then List.map_filter (locale_column col) (lc_locales lc) else [col])"

text \<open>A relationship or upload field.\<close>

definition field_refs :: "field_attrs \<Rightarrow> document_fields \<Rightarrow> locale_config \<Rightarrow> string \<Rightarrow> outgoing_ref list" where
  "field_refs a data lc col =
     (case fa_relationship a of
        None \<Rightarrow> []
      | Some rc \<Rightarrow>
          if attrs_has_parent_column a
          then concat (map (\<lambda>c. case Option.bind (map_of data c) as_json_str of
                                  None \<Rightarrow> []
                                | Some v \<Rightarrow> push_ref v (is_polymorphic rc) (rc_collection rc))
                        (has_one_columns a lc col))
          else (case map_of data col of
                  None \<Rightarrow> []
                | Some v \<Rightarrow>
                    if is_polymorphic rc
                    then concat (map (\<lambda>(coll, i). push_ref (coll @ ''/'' @ i) True '''')
                                  (dedup (parse_polymorphic_values v)))
                    else concat (map (\<lambda>i. push_ref i False (rc_collection rc)) (dedup (parse_id_list v)))))"

definition array_rows :: "document_fields \<Rightarrow> string \<Rightarrow> json_value list" where
  "array_rows data col = (case map_of data col of Some (JArray rows) \<Rightarrow> rows | _ \<Rightarrow> [])"

fun compute_refs_from_data ::
  "field_definition list \<Rightarrow> document_fields \<Rightarrow> locale_config \<Rightarrow> string \<Rightarrow> outgoing_ref list"
  and compute_tab_refs ::
  "field_tab list \<Rightarrow> document_fields \<Rightarrow> locale_config \<Rightarrow> string \<Rightarrow> outgoing_ref list"
where
  "compute_refs_from_data [] data lc prefix = []"
| "compute_refs_from_data (FieldDefinition a sub tabs blocks # fs) data lc prefix =
     (let col = prefixed_name prefix (fa_name a)
      in case fa_type a of
           Group \<Rightarrow> compute_refs_from_data sub data lc col
         | Row \<Rightarrow> compute_refs_from_data sub data lc prefix
         | Collapsible \<Rightarrow> compute_refs_from_data sub data lc prefix
         | Tabs \<Rightarrow> compute_tab_refs tabs data lc prefix
         | Relationship \<Rightarrow> field_refs a data lc col
         | Upload \<Rightarrow> field_refs a data lc col
         | Array \<Rightarrow> compute_array_refs_from_data (array_rows data col) sub
         | Blocks \<Rightarrow> compute_blocks_refs_from_data (array_rows data col) blocks
         | _ \<Rightarrow> []) @ compute_refs_from_data fs data lc prefix"
| "compute_tab_refs [] data lc prefix = []"
| "compute_tab_refs (FieldTab l sub # ts) data lc prefix =
     compute_refs_from_data sub data lc prefix @ compute_tab_refs ts data lc prefix"

section \<open>Whether the data touches a reference\<close>

definition has_key :: "document_fields \<Rightarrow> string \<Rightarrow> bool" where
  "has_key data k \<longleftrightarrow> map_of data k \<noteq> None"

definition has_ref_sub :: "field_definition list \<Rightarrow> bool" where
  "has_ref_sub fds \<longleftrightarrow>
     (\<exists>f \<in> set (flatten_array_sub_fields fds). is_ref_type (fa_type (fd_attrs f)))"

fun data_touches_refs :: "field_definition list \<Rightarrow> document_fields \<Rightarrow> string \<Rightarrow> bool"
  and tabs_touch_refs :: "field_tab list \<Rightarrow> document_fields \<Rightarrow> string \<Rightarrow> bool"
where
  "data_touches_refs [] data prefix = False"
| "data_touches_refs (FieldDefinition a sub tabs blocks # fs) data prefix =
     ((let col = prefixed_name prefix (fa_name a)
       in case fa_type a of
            Group \<Rightarrow> data_touches_refs sub data col
          | Row \<Rightarrow> data_touches_refs sub data prefix
          | Collapsible \<Rightarrow> data_touches_refs sub data prefix
          | Tabs \<Rightarrow> tabs_touch_refs tabs data prefix
          | Relationship \<Rightarrow> has_key data col
          | Upload \<Rightarrow> has_key data col
          | Array \<Rightarrow> has_key data col \<and> has_ref_sub sub
          | Blocks \<Rightarrow> has_key data col \<and> (\<exists>b \<in> set blocks. has_ref_sub (block_fields b))
          | _ \<Rightarrow> False) \<or> data_touches_refs fs data prefix)"
| "tabs_touch_refs [] data prefix = False"
| "tabs_touch_refs (FieldTab l sub # ts) data prefix =
     (data_touches_refs sub data prefix \<or> tabs_touch_refs ts data prefix)"

section \<open>Properties\<close>

lemma map_filter_None: "\<forall>x \<in> set xs. g x = None \<Longrightarrow> List.map_filter g xs = []"
  by (induction xs) (simp_all add: map_filter_simps)

lemma rel_fields_Nil: "\<not> has_ref_sub fds \<Longrightarrow> rel_fields (flatten_array_sub_fields fds) = []"
  by (simp add: rel_fields_def has_ref_sub_def map_filter_None)

lemma array_refs_Nil:
  "\<not> (has_key data col \<and> has_ref_sub sub) \<Longrightarrow> compute_array_refs_from_data (array_rows data col) sub = []"
  by (auto simp: compute_array_refs_from_data_def array_rows_def has_key_def rel_fields_Nil Let_def)

lemma blocks_refs_Nil:
  assumes "\<not> (has_key data col \<and> (\<exists>b \<in> set blocks. has_ref_sub (block_fields b)))"
  shows "compute_blocks_refs_from_data (array_rows data col) blocks = []"
proof (cases "has_key data col")
  case False
  then show ?thesis by (simp add: compute_blocks_refs_from_data_def array_rows_def has_key_def)
next
  case True
  with assms have none: "b \<in> set blocks \<Longrightarrow> \<not> has_ref_sub (block_fields b)" for b by blast
  show ?thesis
    by (auto simp: compute_blocks_refs_from_data_def find_Some_iff rel_fields_Nil row_refs_def
        dest!: none [OF nth_mem] split: option.splits)
qed

lemma field_refs_Nil:
  "\<not> is_enabled lc \<Longrightarrow> \<not> has_key data col \<Longrightarrow> field_refs a data lc col = []"
  by (simp add: field_refs_def has_key_def has_one_columns_def split: option.splits)

text \<open>
  Without localization, an update whose data touches no reference field carries no outgoing
  reference at all, through groups, tabs, arrays and blocks at any depth; so skipping the
  reference counts loses nothing.
\<close>
theorem untouched_data_has_no_refs:
  assumes "\<not> is_enabled lc" "\<not> data_touches_refs fds data prefix"
  shows "compute_refs_from_data fds data lc prefix = []"
proof -
  have "\<not> data_touches_refs fds data prefix \<Longrightarrow> compute_refs_from_data fds data lc prefix = []"
    and "\<not> tabs_touch_refs ts data prefix \<Longrightarrow> compute_tab_refs ts data lc prefix = []" for ts
    using assms(1)
    by (induction fds data prefix and ts data prefix rule: data_touches_refs_tabs_touch_refs.induct)
      (auto simp: Let_def array_refs_Nil blocks_refs_Nil field_refs_Nil split: field_type.splits)
  with assms(2) show ?thesis by blast
qed

text \<open>A has-one reference \<open>author\<close> to the collection \<open>users\<close>, localized or not.\<close>

definition author_attrs :: "bool \<Rightarrow> field_attrs" where
  "author_attrs loc = (new_attrs ''author'' Relationship)\<lparr>fa_localized := loc,
     fa_relationship := Some \<lparr>rc_collection = ''users'', rc_has_many = False, rc_polymorphic = [], rc_max_depth = None\<rparr>\<rparr>"

definition no_locales :: locale_config where
  "no_locales = \<lparr>lc_default_locale = ''en'', lc_locales = [], lc_fallback = True\<rparr>"

theorem untouched_data_has_no_refs_witness:
  "compute_refs_from_data
     [FieldDefinition ((author_attrs False)\<lparr>fa_name := ''meta'', fa_type := Group\<rparr>)
        [FieldDefinition (author_attrs False) [] [] []] [] []]
     [(''title'', JString ''x'')] no_locales '''' = []"
  by (rule untouched_data_has_no_refs)
    (simp_all add: no_locales_def is_enabled_def author_attrs_def new_attrs_def has_key_def prefixed_name_def)

text \<open>
  With localization the create path misses localized references: a document created with
  \<open>author = u1\<close> writes the column \<open>author__en\<close>, but the references are looked up in the write data
  under the names of the locale columns, which the data does not have; so the reference is
  stored and not counted, while the same field without localization is counted.
\<close>
theorem localized_create_misses_reference:
  "let lc = \<lparr>lc_default_locale = ''en'', lc_locales = [''en'', ''de''], lc_fallback = True\<rparr>;
       data = [(''author'', JString ''u1'')]
   in locale_write_column ''author'' (author_attrs True)
        (Some \<lparr>lx_mode = Single ''en'', lx_config = lc\<rparr>) False = Some ''author__en'' \<and>
      compute_refs_from_data [FieldDefinition (author_attrs True) [] [] []] data lc '''' = [] \<and>
      compute_refs_from_data [FieldDefinition (author_attrs False) [] [] []] data lc '''' =
        [\<lparr>target_collection = ''users'', target_id = ''u1''\<rparr>]"
  by code_simp

end
