(* ===== verification/RefCount.thy ===== *)
theory RefCount
  imports RefCompute
begin

text \<open>
  Reference counts (src/src/db/query/ref_count/delta.rs, api.rs) and the writes that keep them
  (src/src/service/persist/, src/src/service/write/delete.rs).  A row stands for a document of
  any collection: its collection and id, its \<open>_ref_count\<close> column (NOT NULL) and the references
  its columns and join tables hold.  The invariant is that every count is the number of
  references to the document and that no reference dangles.
\<close>

section \<open>State\<close>

type_synonym doc_key = "string \<times> string"

record ref_row =
  rr_key :: doc_key
  rr_count :: int
  rr_refs :: "outgoing_ref list"

record ref_db =
  rd_tables :: "string list"
  rd_rows :: "ref_row list"

datatype ref_error =
    NoSuchTable string
  | TargetGone string "string list"
  | Referenced string int
  | DocNotFound string
  | DuplicateId string

definition key_of :: "outgoing_ref \<Rightarrow> doc_key" where
  "key_of r = (target_collection r, target_id r)"

section \<open>Deltas (delta.rs)\<close>

definition bump_delta :: "int \<Rightarrow> outgoing_ref \<Rightarrow> (doc_key \<times> int) list \<Rightarrow> (doc_key \<times> int) list" where
  "bump_delta s r m = AList.update (key_of r) (unwrap_or 0 (map_of m (key_of r)) + s) m"

definition to_delta_map :: "outgoing_ref list \<Rightarrow> outgoing_ref list \<Rightarrow> (doc_key \<times> int) list" where
  "to_delta_map old_refs new_refs =
     filter (\<lambda>(_, v). v \<noteq> 0) (fold (bump_delta 1) new_refs (fold (bump_delta (- 1)) old_refs []))"

text \<open>The ids of each collection and delta, so that each group is one UPDATE.\<close>

type_synonym delta_groups = "((string \<times> int) \<times> string list) list"

definition add_group :: "doc_key \<times> int \<Rightarrow> delta_groups \<Rightarrow> delta_groups" where
  "add_group = (\<lambda>((c, i), d) gs. AList.update (c, d) (unwrap_or [] (map_of gs (c, d)) @ [i]) gs)"

definition group_deltas :: "(doc_key \<times> int) list \<Rightarrow> delta_groups" where
  "group_deltas ds = fold add_group ds []"

definition in_group :: "string \<Rightarrow> string list \<Rightarrow> ref_row \<Rightarrow> bool" where
  "in_group c ids r \<longleftrightarrow> fst (rr_key r) = c \<and> snd (rr_key r) \<in> set ids"

definition add_count :: "int \<Rightarrow> ref_row \<Rightarrow> ref_row" where
  "add_count d r = r\<lparr>rr_count := max 0 (rr_count r + d)\<rparr>"

definition find_missing_ids :: "string \<Rightarrow> string list \<Rightarrow> ref_row list \<Rightarrow> string list" where
  "find_missing_ids c ids t = filter (\<lambda>i. (c, i) \<notin> rr_key ` set t) ids"

definition apply_group :: "string list \<Rightarrow> (string \<times> int) \<times> string list \<Rightarrow> ref_row list \<Rightarrow> ref_error + ref_row list" where
  "apply_group tables = (\<lambda>((c, d), ids) t.
     if c \<notin> set tables then Inl (NoSuchTable c)
     else if 0 < d \<and> count_where (in_group c ids) t < length ids
     then Inl (TargetGone c (find_missing_ids c ids t))
     else Inr (update_where (in_group c ids) (add_count d) t))"

fun apply_groups :: "string list \<Rightarrow> delta_groups \<Rightarrow> ref_row list \<Rightarrow> ref_error + ref_row list" where
  "apply_groups tables [] t = Inr t"
| "apply_groups tables (g # gs) t = bindE (apply_group tables g t) (apply_groups tables gs)"

definition apply_deltas :: "(doc_key \<times> int) list \<Rightarrow> ref_db \<Rightarrow> ref_error + ref_db" where
  "apply_deltas ds db =
     (if ds = [] then Inr db
      else bindE (apply_groups (rd_tables db) (group_deltas ds) (rd_rows db))
             (\<lambda>t. Inr (db\<lparr>rd_rows := t\<rparr>)))"

section \<open>Writes\<close>

definition get_ref_count :: "doc_key \<Rightarrow> ref_db \<Rightarrow> int option" where
  "get_ref_count k db = map_option rr_count (find (\<lambda>r. rr_key r = k) (rd_rows db))"

text \<open>
  \<open>persist_create\<close>: the INSERT with the join tables, after which the row holds the references
  \<open>refs\<close>, then the counts, which are computed from the submitted data and not read back.  The locks
  taken before it (no-ops), the password, the version snapshot and the full-text entry are writes
  to other columns and tables that no count depends on.  An error rolls the transaction back.
\<close>

definition persist_create ::
  "field_definition list \<Rightarrow> locale_config \<Rightarrow> document_fields \<Rightarrow> doc_key \<Rightarrow> outgoing_ref list \<Rightarrow> ref_db
     \<Rightarrow> ref_error + ref_db" where
  "persist_create fds lc data k refs db =
     (if fst k \<notin> set (rd_tables db) then Inl (NoSuchTable (fst k))
      else if k \<in> rr_key ` set (rd_rows db) then Inl (DuplicateId (snd k))
      else apply_deltas (to_delta_map [] (compute_refs_from_data fds data lc ''''))
             (db\<lparr>rd_rows := rd_rows db @ [\<lparr>rr_key = k, rr_count = 0, rr_refs = refs\<rparr>]\<rparr>))"

text \<open>
  \<open>persist_update\<close>: a snapshot of the stored references, the UPDATE, after which the row holds
  \<open>refs\<close>, then the difference to the references read back; the counts are left alone when the data
  touches no reference field.
\<close>

definition persist_update ::
  "field_definition list \<Rightarrow> document_fields \<Rightarrow> doc_key \<Rightarrow> outgoing_ref list \<Rightarrow> ref_db \<Rightarrow> ref_error + ref_db" where
  "persist_update fds data k refs db =
     (case find (\<lambda>r. rr_key r = k) (rd_rows db) of
        None \<Rightarrow> Inl (DocNotFound (snd k))
      | Some r \<Rightarrow>
          (let db1 = db\<lparr>rd_rows := update_where (\<lambda>r. rr_key r = k) (\<lambda>r. r\<lparr>rr_refs := refs\<rparr>) (rd_rows db)\<rparr>
           in if data_touches_refs fds data '''' then apply_deltas (to_delta_map (rr_refs r) refs) db1
              else Inr db1))"

text \<open>The hard delete: refused while the document is referenced.\<close>

definition hard_delete :: "doc_key \<Rightarrow> ref_db \<Rightarrow> ref_error + ref_db" where
  "hard_delete k db =
     (let ref_count = unwrap_or 0 (get_ref_count k db)
      in if 0 < ref_count then Inl (Referenced (snd k) ref_count)
         else (let old = (case find (\<lambda>r. rr_key r = k) (rd_rows db) of None \<Rightarrow> [] | Some r \<Rightarrow> rr_refs r)
               in bindE (apply_deltas (to_delta_map old []) db) (\<lambda>db1.
                    if k \<notin> rr_key ` set (rd_rows db1) then Inl (DocNotFound (snd k))
                    else Inr (db1\<lparr>rd_rows := delete_where (\<lambda>r. rr_key r = k) (rd_rows db1)\<rparr>))))"

section \<open>The deltas are the difference of the counts\<close>

definition refs_to :: "outgoing_ref list \<Rightarrow> doc_key \<Rightarrow> int" where
  "refs_to refs k = int (count_list (map key_of refs) k)"

lemma refs_to_simps [simp]:
  "refs_to [] k = 0"
  "refs_to (r # rs) k = (if key_of r = k then 1 else 0) + refs_to rs k"
  by (simp_all add: refs_to_def)

lemma refs_to_nonneg [simp]: "0 \<le> refs_to refs k"
  by (simp add: refs_to_def)

lemma refs_to_pos: "0 < refs_to refs k \<longleftrightarrow> k \<in> key_of ` set refs"
  by (induction refs) (auto simp: add_nonneg_pos intro: add_pos_nonneg)

lemma bump_deltas:
  "unwrap_or 0 (map_of (fold (bump_delta s) refs m) k) = unwrap_or 0 (map_of m k) + s * refs_to refs k"
  by (induction refs arbitrary: m) (auto simp: bump_delta_def update_conv' distrib_left)

lemma distinct_bump_deltas: "distinct (map fst m) \<Longrightarrow> distinct (map fst (fold (bump_delta s) refs m))"
  by (induction refs arbitrary: m) (auto simp: bump_delta_def distinct_update)

lemma map_of_filter_nonzero:
  "distinct (map fst m) \<Longrightarrow> map_of (filter (\<lambda>(_, v). v \<noteq> 0) m) k =
     (if unwrap_or 0 (map_of m k) = 0 then None else Some (unwrap_or 0 (map_of m k)))"
proof (induction m)
  case (Cons p m)
  obtain j v where p: "p = (j, v)" by fastforce
  show ?case
  proof (cases "j = k")
    case True
    then have "map_of m k = None" using Cons.prems p by (simp add: map_of_eq_None_iff)
    with True p Cons show ?thesis by auto
  next
    case False
    with p Cons show ?thesis by auto
  qed
qed simp

lemma map_of_to_delta_map:
  "map_of (to_delta_map old new) k =
     (if refs_to new k = refs_to old k then None else Some (refs_to new k - refs_to old k))"
  unfolding to_delta_map_def
  by (subst map_of_filter_nonzero) (simp_all add: distinct_bump_deltas bump_deltas)

lemma distinct_to_delta_map: "distinct (map fst (to_delta_map old new))"
  by (simp add: to_delta_map_def distinct_map_filter distinct_bump_deltas)

section \<open>The batched updates are the pointwise ones\<close>

definition groups_ok :: "delta_groups \<Rightarrow> (doc_key \<rightharpoonup> int) \<Rightarrow> bool" where
  "groups_ok gs m \<longleftrightarrow> distinct (map fst gs) \<and>
     (\<forall>c d ids. ((c, d), ids) \<in> set gs \<longrightarrow> distinct ids \<and> ids \<noteq> [] \<and> (\<forall>i \<in> set ids. m (c, i) = Some d))"

definition covered :: "delta_groups \<Rightarrow> doc_key \<Rightarrow> bool" where
  "covered gs k \<longleftrightarrow> (\<exists>d ids. ((fst k, d), ids) \<in> set gs \<and> snd k \<in> set ids)"

definition add_delta :: "(doc_key \<rightharpoonup> int) \<Rightarrow> ref_row \<Rightarrow> ref_row" where
  "add_delta m r = (case m (rr_key r) of None \<Rightarrow> r | Some d \<Rightarrow> add_count d r)"

lemma rr_key_add [simp]: "rr_key (add_count d r) = rr_key r" "rr_key (add_delta m r) = rr_key r"
  by (simp_all add: add_count_def add_delta_def split: option.splits)

lemma rr_refs_add [simp]: "rr_refs (add_count d r) = rr_refs r" "rr_refs (add_delta m r) = rr_refs r"
  by (simp_all add: add_count_def add_delta_def split: option.splits)

text \<open>Every id of a group that updated as many rows as it has ids exists.\<close>

lemma group_all_found:
  assumes "distinct (map rr_key t)" "distinct ids" "length ids \<le> count_where (in_group c ids) t" "i \<in> set ids"
  shows "(c, i) \<in> rr_key ` set t"
proof -
  let ?found = "map (snd \<circ> rr_key) (filter (in_group c ids) t)"
  have "inj_on (snd \<circ> rr_key) (set (filter (in_group c ids) t))"
    using assms(1) by (auto simp: inj_on_def in_group_def distinct_map prod_eq_iff)
  moreover have "distinct (filter (in_group c ids) t)" using assms(1) by (simp add: distinct_map)
  ultimately have "distinct ?found" by (simp only: distinct_map)
  then have "card (set ?found) = count_where (in_group c ids) t"
    by (simp only: distinct_card count_where_def length_map)
  moreover have "set ?found \<subseteq> set ids" by (auto simp: in_group_def)
  ultimately have "set ?found = set ids"
    using assms(2,3) by (intro card_seteq) (simp_all add: distinct_card)
  with assms(4) have "i \<in> set ?found" by simp
  then obtain r where "r \<in> set t" "in_group c ids r" "snd (rr_key r) = i" by auto
  then have "rr_key r = (c, i)" by (simp add: in_group_def prod_eq_iff)
  with \<open>r \<in> set t\<close> show ?thesis by force
qed

lemma apply_groups_eq:
  assumes "groups_ok gs m" "distinct (map rr_key t)" "apply_groups tables gs t = Inr t'"
  shows "t' = map (\<lambda>r. if covered gs (rr_key r) then add_delta m r else r) t \<and>
    (\<forall>c d ids i. ((c, d), ids) \<in> set gs \<longrightarrow> 0 < d \<longrightarrow> i \<in> set ids \<longrightarrow> (c, i) \<in> rr_key ` set t)"
  using assms
proof (induction gs arbitrary: t)
  case Nil
  then show ?case by (simp add: covered_def)
next
  case (Cons g gs)
  obtain c d ids where g: "g = ((c, d), ids)" by (metis surj_pair)
  let ?t1 = "update_where (in_group c ids) (add_count d) t"
  have gs: "groups_ok gs m" using Cons.prems(1) by (simp add: groups_ok_def)
  have ids: "distinct ids" "i \<in> set ids \<Longrightarrow> m (c, i) = Some d" for i
    using Cons.prems(1) g by (auto simp: groups_ok_def)
  have t1: "apply_groups tables gs ?t1 = Inr t'"
    and found: "0 < d \<Longrightarrow> length ids \<le> count_where (in_group c ids) t"
    using Cons.prems(3) by (auto simp: g apply_group_def split: if_splits)
  have keys: "map rr_key ?t1 = map rr_key t" by (rule map_update_where) simp
  have IH: "t' = map (\<lambda>r. if covered gs (rr_key r) then add_delta m r else r) ?t1"
    "\<And>c d ids i. ((c, d), ids) \<in> set gs \<Longrightarrow> 0 < d \<Longrightarrow> i \<in> set ids \<Longrightarrow> (c, i) \<in> rr_key ` set ?t1"
    using Cons.IH [OF gs _ t1] Cons.prems(2) keys by auto
  have disj: "\<not> covered gs (rr_key r)" if "in_group c ids r" for r
  proof
    assume cov: "covered gs (rr_key r)"
    have "fst (rr_key r) = c" using that by (simp add: in_group_def)
    with cov obtain d' ids' where h: "((c, d'), ids') \<in> set gs" "snd (rr_key r) \<in> set ids'"
      unfolding covered_def by blast
    then have "m (c, snd (rr_key r)) = Some d'" using gs by (simp add: groups_ok_def)
    moreover have "m (c, snd (rr_key r)) = Some d" using ids(2) that by (simp add: in_group_def)
    ultimately have "(c, d) \<in> fst ` set gs" using h(1) by force
    with Cons.prems(1) g show False by (simp add: groups_ok_def)
  qed
  have head: "covered (g # gs) (rr_key r) \<longleftrightarrow> in_group c ids r \<or> covered gs (rr_key r)" for r
    by (auto simp: covered_def g in_group_def)
  have add: "in_group c ids r \<Longrightarrow> add_delta m r = add_count d r" for r
    using ids(2) [of "snd (rr_key r)"] by (cases "rr_key r") (auto simp: add_delta_def in_group_def)
  have "t' = map (\<lambda>r. if covered (g # gs) (rr_key r) then add_delta m r else r) t"
    unfolding IH(1) update_where_def using head disj add by auto
  moreover have "(c, i) \<in> rr_key ` set t" if "0 < d" "i \<in> set ids" for i
    using group_all_found [OF Cons.prems(2) ids(1) found [OF that(1)] that(2)] .
  moreover have "rr_key ` set ?t1 = rr_key ` set t" using keys by (metis list.set_map)
  ultimately show ?case using IH(2) g by auto
qed

lemma group_deltas_snoc: "group_deltas (ds @ [x]) = add_group x (group_deltas ds)"
  by (simp add: group_deltas_def)

lemma group_deltas_map:
  "distinct (map fst (group_deltas ds)) \<and>
   map_of (group_deltas ds) (c, d) =
     (let is = map (snd \<circ> fst) (filter (\<lambda>((c', i), d'). c' = c \<and> d' = d) ds)
      in if is = [] then None else Some is)"
proof (induction ds arbitrary: c d rule: rev_induct)
  case Nil
  then show ?case by (simp add: group_deltas_def)
next
  case (snoc x ds)
  obtain c' i d' where x: "x = ((c', i), d')" by (metis surj_pair)
  have "distinct (map fst (group_deltas (ds @ [x])))"
    using snoc by (simp add: group_deltas_snoc add_group_def x distinct_update)
  then show ?case
    using snoc [of c d] snoc [of c' d']
    by (auto simp: group_deltas_snoc add_group_def x update_conv' Let_def)
qed

lemma group_deltas_ok:
  assumes "distinct (map fst ds)"
  shows "groups_ok (group_deltas ds) (map_of ds)"
    and "covered (group_deltas ds) k \<longleftrightarrow> map_of ds k \<noteq> None"
    and "map_of ds (c, i) = Some d \<Longrightarrow> \<exists>ids. ((c, d), ids) \<in> set (group_deltas ds) \<and> i \<in> set ids"
proof -
  have dist: "distinct (map fst (group_deltas ds))" using group_deltas_map [of ds] by blast
  have mem: "((c, d), ids) \<in> set (group_deltas ds) \<longleftrightarrow>
      ids = map (snd \<circ> fst) (filter (\<lambda>((c', i), d'). c' = c \<and> d' = d) ds) \<and> ids \<noteq> []" for c d ids
  proof -
    have "((c, d), ids) \<in> set (group_deltas ds) \<longleftrightarrow> map_of (group_deltas ds) (c, d) = Some ids"
      using dist by simp
    then show ?thesis using group_deltas_map [of ds c d] by (auto simp: Let_def)
  qed
  have in_ids: "i \<in> set (map (snd \<circ> fst) (filter (\<lambda>((c', i), d'). c' = c \<and> d' = d) ds)) \<longleftrightarrow>
      map_of ds (c, i) = Some d" for c d i
    using map_of_eq_Some_iff [OF assms, of "(c, i)" d] by force
  have dist_ids: "distinct (map (snd \<circ> fst) (filter (\<lambda>((c', i), d'). c' = c \<and> d' = d) ds))" for c d
  proof -
    have "distinct (map fst (filter (\<lambda>((c', i), d'). c' = c \<and> d' = d) ds))"
      using assms by (simp add: distinct_map_filter)
    moreover have "inj_on snd (set (map fst (filter (\<lambda>((c', i), d'). c' = c \<and> d' = d) ds)))"
      by (auto simp: inj_on_def)
    ultimately have "distinct (map snd (map fst (filter (\<lambda>((c', i), d'). c' = c \<and> d' = d) ds)))"
      by (simp only: distinct_map)
    then show ?thesis by (simp add: comp_def)
  qed
  show "groups_ok (group_deltas ds) (map_of ds)"
    unfolding groups_ok_def using dist dist_ids in_ids by (simp add: mem del: set_map)
  show cov: "map_of ds (c, i) = Some d \<Longrightarrow> \<exists>ids. ((c, d), ids) \<in> set (group_deltas ds) \<and> i \<in> set ids" for c i d
  proof -
    assume "map_of ds (c, i) = Some d"
    then have i: "i \<in> set (map (snd \<circ> fst) (filter (\<lambda>((c', i), d'). c' = c \<and> d' = d) ds))"
      using in_ids by blast
    then show ?thesis
      by (intro exI [of _ "map (snd \<circ> fst) (filter (\<lambda>((c', i), d'). c' = c \<and> d' = d) ds)"])
        (auto simp: mem filter_empty_conv)
  qed
  show "covered (group_deltas ds) k \<longleftrightarrow> map_of ds k \<noteq> None"
  proof
    assume "covered (group_deltas ds) k"
    then obtain d ids where "((fst k, d), ids) \<in> set (group_deltas ds)" "snd k \<in> set ids"
      by (auto simp: covered_def)
    then show "map_of ds k \<noteq> None" using mem in_ids [of "snd k" "fst k" d] by auto
  next
    assume "map_of ds k \<noteq> None"
    then obtain d where "map_of ds (fst k, snd k) = Some d" by auto
    from cov [OF this] show "covered (group_deltas ds) k" by (auto simp: covered_def)
  qed
qed

end
