(* ===== verification/RefIntegrity.thy ===== *)
theory RefIntegrity
  imports RefCount
begin

text \<open>
  Referential integrity: in every state the writes of \<open>RefCount\<close> reach, each \<open>_ref_count\<close> is the
  number of references to its document and every reference has a target.
\<close>

section \<open>The deltas applied\<close>

lemma apply_deltas_eq:
  assumes "distinct (map fst ds)" "distinct (map rr_key (rd_rows db))" "apply_deltas ds db = Inr db'"
  shows "db' = db\<lparr>rd_rows := map (add_delta (map_of ds)) (rd_rows db)\<rparr> \<and>
    (\<forall>k d. map_of ds k = Some d \<longrightarrow> 0 < d \<longrightarrow> k \<in> rr_key ` set (rd_rows db))"
proof (cases "ds = []")
  case True
  have "add_delta (map_of []) = (\<lambda>r. r)" by (rule ext) (simp add: add_delta_def)
  with True assms(3) show ?thesis by (auto simp: apply_deltas_def)
next
  case False
  with assms(3) obtain t where t: "apply_groups (rd_tables db) (group_deltas ds) (rd_rows db) = Inr t"
    "db' = db\<lparr>rd_rows := t\<rparr>"
    by (auto simp: apply_deltas_def result_simps)
  from apply_groups_eq [OF group_deltas_ok(1) [OF assms(1)] assms(2) t(1)]
  have eq: "t = map (\<lambda>r. if covered (group_deltas ds) (rr_key r) then add_delta (map_of ds) r else r) (rd_rows db)"
    and found: "\<And>c d ids i. ((c, d), ids) \<in> set (group_deltas ds) \<Longrightarrow> 0 < d \<Longrightarrow> i \<in> set ids \<Longrightarrow>
      (c, i) \<in> rr_key ` set (rd_rows db)" by auto
  have "(if covered (group_deltas ds) (rr_key r) then add_delta (map_of ds) r else r) = add_delta (map_of ds) r" for r
    using group_deltas_ok(2) [OF assms(1), of "rr_key r"] by (auto simp: add_delta_def)
  with eq have "t = map (add_delta (map_of ds)) (rd_rows db)" by simp
  moreover have "k \<in> rr_key ` set (rd_rows db)" if "map_of ds k = Some d" "0 < d" for k d
    using group_deltas_ok(3) [OF assms(1), of "fst k" "snd k" d] found that by force
  ultimately show ?thesis using t(2) by blast
qed

text \<open>
  The batched UPDATEs (one per collection and delta) do what one update per target would:
  every row's count moves by exactly the change in the number of references to it, never below
  zero, nothing else changes, and the write fails unless every newly referenced target exists.
\<close>
theorem batched_deltas_pointwise:
  assumes "distinct (map rr_key (rd_rows db))" "apply_deltas (to_delta_map old new) db = Inr db'"
  shows "db' = db\<lparr>rd_rows := map (\<lambda>r. if refs_to new (rr_key r) = refs_to old (rr_key r) then r
        else r\<lparr>rr_count := max 0 (rr_count r + refs_to new (rr_key r) - refs_to old (rr_key r))\<rparr>) (rd_rows db)\<rparr> \<and>
    (\<forall>k. refs_to old k < refs_to new k \<longrightarrow> k \<in> rr_key ` set (rd_rows db))"
proof -
  have "add_delta (map_of (to_delta_map old new)) = (\<lambda>r.
      if refs_to new (rr_key r) = refs_to old (rr_key r) then r
      else r\<lparr>rr_count := max 0 (rr_count r + refs_to new (rr_key r) - refs_to old (rr_key r))\<rparr>)"
    by (auto simp: add_delta_def map_of_to_delta_map add_count_def add_diff_eq)
  moreover have "refs_to old k < refs_to new k \<Longrightarrow> map_of (to_delta_map old new) k = Some (refs_to new k - refs_to old k)" for k
    by (simp add: map_of_to_delta_map)
  ultimately show ?thesis
    using apply_deltas_eq [OF distinct_to_delta_map assms] by force
qed

text \<open>The same with the count written without the case split, for well-formed counts.\<close>

lemma apply_to_delta_map:
  assumes "distinct (map rr_key (rd_rows db))" "apply_deltas (to_delta_map old new) db = Inr db'"
    and "\<And>r. r \<in> set (rd_rows db) \<Longrightarrow> 0 \<le> rr_count r + refs_to new (rr_key r) - refs_to old (rr_key r)"
  shows "db' = db\<lparr>rd_rows := map (\<lambda>r. r\<lparr>rr_count :=
        rr_count r + refs_to new (rr_key r) - refs_to old (rr_key r)\<rparr>) (rd_rows db)\<rparr>"
    and "k \<in> key_of ` set new \<Longrightarrow> k \<in> key_of ` set old \<or> k \<in> rr_key ` set (rd_rows db)"
proof -
  have "add_delta (map_of (to_delta_map old new)) r =
      r\<lparr>rr_count := rr_count r + refs_to new (rr_key r) - refs_to old (rr_key r)\<rparr>"
    if "r \<in> set (rd_rows db)" for r
    using assms(3) [OF that] by (auto simp: add_delta_def map_of_to_delta_map add_count_def)
  then show "db' = db\<lparr>rd_rows := map (\<lambda>r. r\<lparr>rr_count :=
        rr_count r + refs_to new (rr_key r) - refs_to old (rr_key r)\<rparr>) (rd_rows db)\<rparr>"
    using apply_deltas_eq [OF distinct_to_delta_map assms(1,2)] by (simp cong: map_cong)
  assume "k \<in> key_of ` set new"
  then have new: "0 < refs_to new k" by (simp add: refs_to_pos)
  show "k \<in> key_of ` set old \<or> k \<in> rr_key ` set (rd_rows db)"
  proof (cases "refs_to old k = 0")
    case True
    with new have "map_of (to_delta_map old new) k = Some (refs_to new k)"
      by (simp add: map_of_to_delta_map)
    with apply_deltas_eq [OF distinct_to_delta_map assms(1,2)] new show ?thesis by blast
  next
    case False
    then have "0 < refs_to old k" using refs_to_nonneg [of old k] by linarith
    then show ?thesis by (simp add: refs_to_pos)
  qed
qed

section \<open>The invariant\<close>

definition incoming :: "ref_row list \<Rightarrow> doc_key \<Rightarrow> int" where
  "incoming t k = sum_list (map (\<lambda>r. refs_to (rr_refs r) k) t)"

definition ref_inv :: "ref_db \<Rightarrow> bool" where
  "ref_inv db \<longleftrightarrow> distinct (map rr_key (rd_rows db)) \<and>
     fst ` rr_key ` set (rd_rows db) \<subseteq> set (rd_tables db) \<and>
     (\<forall>r \<in> set (rd_rows db). rr_count r = incoming (rd_rows db) (rr_key r)) \<and>
     (\<forall>r \<in> set (rd_rows db). key_of ` set (rr_refs r) \<subseteq> rr_key ` set (rd_rows db))"

lemma incoming_simps [simp]:
  "incoming [] k = 0" "incoming (r # t) k = refs_to (rr_refs r) k + incoming t k"
  "incoming (t @ u) k = incoming t k + incoming u k"
  by (simp_all add: incoming_def)

lemma incoming_nonneg [simp]: "0 \<le> incoming t k"
  by (induction t) simp_all

lemma incoming_zero_iff: "incoming t k = 0 \<longleftrightarrow> (\<forall>r \<in> set t. k \<notin> key_of ` set (rr_refs r))"
proof (induction t)
  case (Cons r t)
  have "refs_to (rr_refs r) k + incoming t k = 0 \<longleftrightarrow> refs_to (rr_refs r) k = 0 \<and> incoming t k = 0"
    using refs_to_nonneg [of "rr_refs r" k] incoming_nonneg [of t k] by linarith
  moreover have "refs_to (rr_refs r) k = 0 \<longleftrightarrow> k \<notin> key_of ` set (rr_refs r)"
    using refs_to_pos [of "rr_refs r" k] refs_to_nonneg [of "rr_refs r" k] by linarith
  ultimately show ?case using Cons by simp
qed simp

lemma incoming_map [simp]:
  "(\<And>r. rr_refs (f r) = rr_refs r) \<Longrightarrow> incoming (map f t) k = incoming t k"
  by (simp add: incoming_def comp_def)

lemma incoming_set_refs:
  assumes "distinct (map rr_key t)" "r \<in> set t" "rr_key r = j"
  shows "incoming (update_where (\<lambda>x. rr_key x = j) (\<lambda>x. x\<lparr>rr_refs := refs\<rparr>) t) k =
    incoming t k - refs_to (rr_refs r) k + refs_to refs k"
  using assms
proof (induction t)
  case (Cons x t)
  show ?case
  proof (cases "x = r")
    case True
    with Cons.prems have "update_where (\<lambda>x. rr_key x = j) (\<lambda>x. x\<lparr>rr_refs := refs\<rparr>) t = t"
      by (intro update_where_id) (auto simp: image_iff)
    with True Cons.prems show ?thesis by simp
  next
    case False
    with Cons.prems have "r \<in> set t" "rr_key x \<noteq> j" by (auto simp: image_iff)
    with Cons show ?thesis by simp
  qed
qed simp

lemma incoming_delete:
  assumes "distinct (map rr_key t)" "r \<in> set t" "rr_key r = j"
  shows "incoming (delete_where (\<lambda>x. rr_key x = j) t) k = incoming t k - refs_to (rr_refs r) k"
  using assms
proof (induction t)
  case (Cons x t)
  show ?case
  proof (cases "x = r")
    case True
    with Cons.prems have "delete_where (\<lambda>x. rr_key x = j) t = t"
      by (auto simp: delete_where_def image_iff filter_id_conv)
    with True Cons.prems show ?thesis by (simp add: delete_where_def)
  next
    case False
    with Cons.prems have "r \<in> set t" "rr_key x \<noteq> j" by (auto simp: image_iff)
    with Cons show ?thesis by (simp add: delete_where_def)
  qed
qed simp

section \<open>Every write keeps it\<close>

lemma persist_create_inv:
  assumes inv: "ref_inv db" and run: "persist_create fds lc data k refs db = Inr db'"
    and same: "refs = compute_refs_from_data fds data lc ''''"
  shows "ref_inv db'"
proof -
  let ?r = "\<lparr>rr_key = k, rr_count = 0, rr_refs = refs\<rparr>"
  let ?db1 = "db\<lparr>rd_rows := rd_rows db @ [?r]\<rparr>"
  have k: "k \<notin> rr_key ` set (rd_rows db)" and ap: "apply_deltas (to_delta_map [] refs) ?db1 = Inr db'"
    using run same by (auto simp: persist_create_def split: if_splits)
  have dist: "distinct (map rr_key (rd_rows ?db1))" using inv k by (simp add: ref_inv_def)
  have cnt: "rr_count r = incoming (rd_rows db) (rr_key r)" if "r \<in> set (rd_rows ?db1)" for r
  proof (cases "r = ?r")
    case True
    have "incoming (rd_rows db) k = 0" unfolding incoming_zero_iff using inv k by (meson ref_inv_def subsetD)
    with True show ?thesis by simp
  next
    case False
    with that inv show ?thesis by (simp add: ref_inv_def)
  qed
  have nn: "0 \<le> rr_count r + refs_to refs (rr_key r) - refs_to [] (rr_key r)" if "r \<in> set (rd_rows ?db1)" for r
    using cnt [OF that] by simp
  note ap' = apply_to_delta_map [OF dist ap nn]
  let ?f = "\<lambda>r. r\<lparr>rr_count := rr_count r + refs_to refs (rr_key r) - refs_to [] (rr_key r)\<rparr>"
  have rows: "rd_rows db' = map ?f (rd_rows ?db1)" using ap'(1) by simp
  have keys: "map rr_key (rd_rows db') = map rr_key (rd_rows ?db1)" by (simp add: rows comp_def)
  have inc: "incoming (rd_rows db') j = incoming (rd_rows db) j + refs_to refs j" for j
    by (simp add: rows)
  have "rr_count x = incoming (rd_rows db') (rr_key x)" if "x \<in> set (rd_rows db')" for x
  proof -
    have "x \<in> ?f ` set (rd_rows ?db1)" using that by (simp only: rows set_map)
    then obtain x0 where x0: "x0 \<in> set (rd_rows ?db1)" "x = ?f x0" by blast
    with cnt [OF x0(1)] have "rr_count x = incoming (rd_rows db) (rr_key x) + refs_to refs (rr_key x)"
      by (simp del: incoming_simps)
    then show ?thesis by (simp only: inc)
  qed
  moreover have "key_of ` set (rr_refs r) \<subseteq> rr_key ` set (rd_rows db')" if "r \<in> set (rd_rows db')" for r
  proof -
    have "rr_key ` set (rd_rows db') = rr_key ` set (rd_rows ?db1)"
      using keys by (metis list.set_map)
    moreover have "r \<in> ?f ` set (rd_rows ?db1)" using that by (simp only: rows set_map)
    then obtain r0 where "r0 \<in> set (rd_rows ?db1)" "r = ?f r0" by blast
    moreover from this have "rr_refs r = rr_refs r0" by simp
    moreover have "key_of ` set refs \<subseteq> rr_key ` set (rd_rows ?db1)"
    proof
      fix j assume "j \<in> key_of ` set refs"
      then show "j \<in> rr_key ` set (rd_rows ?db1)" using ap'(2) [of j] by simp
    qed
    moreover have "key_of ` set (rr_refs y) \<subseteq> rr_key ` set (rd_rows ?db1)" if "y \<in> set (rd_rows db)" for y
    proof -
      have "key_of ` set (rr_refs y) \<subseteq> rr_key ` set (rd_rows db)" using that inv by (simp add: ref_inv_def)
      then show ?thesis by (simp add: subset_insertI2)
    qed
    ultimately show ?thesis by (cases "r0 = ?r") auto
  qed
  moreover have "fst ` rr_key ` set (rd_rows db') \<subseteq> set (rd_tables db')"
  proof -
    have "fst k \<in> set (rd_tables db)" using run by (simp add: persist_create_def split: if_splits)
    moreover have "rr_key ` set (rd_rows db') = insert k (rr_key ` set (rd_rows db))"
      using arg_cong [OF keys, of set] by simp
    moreover have "rd_tables db' = rd_tables db" using ap'(1) by simp
    ultimately show ?thesis using inv by (simp add: ref_inv_def)
  qed
  ultimately show ?thesis using dist keys by (simp add: ref_inv_def)
qed

lemma persist_update_inv:
  assumes inv: "ref_inv db" and run: "persist_update fds data k refs db = Inr db'"
    and kept: "\<And>r. \<not> data_touches_refs fds data '''' \<Longrightarrow> r \<in> set (rd_rows db) \<Longrightarrow> rr_key r = k \<Longrightarrow> rr_refs r = refs"
  shows "ref_inv db'"
proof (cases "data_touches_refs fds data ''''")
  case False
  have "update_where (\<lambda>r. rr_key r = k) (\<lambda>r. r\<lparr>rr_refs := refs\<rparr>) (rd_rows db) = rd_rows db"
    unfolding update_where_def using kept [OF False] by (intro map_idI) auto
  with run False inv show ?thesis
    by (auto simp: persist_update_def Let_def split: option.splits)
next
  case True
  obtain r where r: "find (\<lambda>r. rr_key r = k) (rd_rows db) = Some r"
    and ap: "apply_deltas (to_delta_map (rr_refs r) refs) (db\<lparr>rd_rows :=
      update_where (\<lambda>r. rr_key r = k) (\<lambda>r. r\<lparr>rr_refs := refs\<rparr>) (rd_rows db)\<rparr>) = Inr db'"
    using run True by (auto simp: persist_update_def Let_def split: option.splits)
  from r have rm: "r \<in> set (rd_rows db)" "rr_key r = k" by (auto simp: find_Some_iff)
  let ?t1 = "update_where (\<lambda>r. rr_key r = k) (\<lambda>r. r\<lparr>rr_refs := refs\<rparr>) (rd_rows db)"
  let ?db1 = "db\<lparr>rd_rows := ?t1\<rparr>"
  have d0: "distinct (map rr_key (rd_rows db))" using inv by (simp add: ref_inv_def)
  have keys1: "map rr_key ?t1 = map rr_key (rd_rows db)" by (rule map_update_where) simp
  have dist: "distinct (map rr_key (rd_rows ?db1))" using d0 keys1 by simp
  have cnt: "rr_count x = incoming (rd_rows db) (rr_key x)" if "x \<in> set (rd_rows ?db1)" for x
    using that inv by (auto simp: set_update_where ref_inv_def split: if_splits)
  have inc1: "incoming ?t1 j = incoming (rd_rows db) j - refs_to (rr_refs r) j + refs_to refs j" for j
    by (rule incoming_set_refs [OF d0 rm])
  have nn: "0 \<le> rr_count x + refs_to refs (rr_key x) - refs_to (rr_refs r) (rr_key x)"
    if "x \<in> set (rd_rows ?db1)" for x
    using cnt [OF that] inc1 [of "rr_key x"] incoming_nonneg [of ?t1 "rr_key x"] by linarith
  note ap' = apply_to_delta_map [OF dist ap nn]
  let ?f = "\<lambda>x. x\<lparr>rr_count := rr_count x + refs_to refs (rr_key x) - refs_to (rr_refs r) (rr_key x)\<rparr>"
  have rows: "rd_rows db' = map ?f ?t1" using ap'(1) by simp
  have keys: "map rr_key (rd_rows db') = map rr_key (rd_rows db)" using keys1 by (simp add: rows comp_def)
  have kset: "rr_key ` set (rd_rows db') = rr_key ` set (rd_rows db)"
    using keys by (metis list.set_map)
  have inc: "incoming (rd_rows db') j = incoming (rd_rows db) j - refs_to (rr_refs r) j + refs_to refs j" for j
    by (simp add: rows inc1)
  have "rr_count x = incoming (rd_rows db) (rr_key x) - refs_to (rr_refs r) (rr_key x) + refs_to refs (rr_key x)"
    if "x \<in> set (rd_rows db')" for x
  proof -
    have "x \<in> ?f ` set ?t1" using that by (simp only: rows set_map)
    then obtain x0 where x0: "x0 \<in> set (rd_rows ?db1)" "x = ?f x0" by auto
    with cnt [OF x0(1)] show ?thesis by simp
  qed
  then have "rr_count x = incoming (rd_rows db') (rr_key x)" if "x \<in> set (rd_rows db')" for x
    using that by (simp only: inc)
  moreover have "key_of ` set (rr_refs x) \<subseteq> rr_key ` set (rd_rows db')" if "x \<in> set (rd_rows db')" for x
  proof -
    have new: "key_of ` set refs \<subseteq> rr_key ` set (rd_rows db)"
    proof
      fix j assume "j \<in> key_of ` set refs"
      then have "j \<in> key_of ` set (rr_refs r) \<or> j \<in> rr_key ` set ?t1" using ap'(2) by simp
      moreover have "rr_key ` set ?t1 = rr_key ` set (rd_rows db)" using keys1 by (metis list.set_map)
      moreover have "key_of ` set (rr_refs r) \<subseteq> rr_key ` set (rd_rows db)"
        using inv rm(1) by (simp add: ref_inv_def)
      ultimately show "j \<in> rr_key ` set (rd_rows db)" by blast
    qed
    from that have "rr_refs x = refs \<or> (\<exists>y \<in> set (rd_rows db). rr_refs x = rr_refs y)"
      by (auto simp: rows set_update_where)
    moreover have "key_of ` set (rr_refs y) \<subseteq> rr_key ` set (rd_rows db)" if "y \<in> set (rd_rows db)" for y
      using that inv by (simp add: ref_inv_def)
    ultimately show ?thesis using new unfolding kset by metis
  qed
  moreover have "fst ` rr_key ` set (rd_rows db') \<subseteq> set (rd_tables db')"
    using inv kset ap'(1) by (simp add: ref_inv_def)
  ultimately show ?thesis using d0 keys by (simp add: ref_inv_def)
qed

lemma hard_delete_inv:
  assumes inv: "ref_inv db" and run: "hard_delete k db = Inr db'"
  shows "ref_inv db'"
proof -
  have d0: "distinct (map rr_key (rd_rows db))" using inv by (simp add: ref_inv_def)
  obtain r where r: "find (\<lambda>r. rr_key r = k) (rd_rows db) = Some r"
  proof (cases "find (\<lambda>r. rr_key r = k) (rd_rows db)")
    case None
    then have "k \<notin> rr_key ` set (rd_rows db)" by (auto simp: find_None_iff)
    moreover have "to_delta_map [] [] = []" by (simp add: to_delta_map_def)
    ultimately have "hard_delete k db \<noteq> Inr db'"
      using None by (simp add: hard_delete_def get_ref_count_def apply_deltas_def)
    with run show ?thesis by simp
  qed
  then have rm: "r \<in> set (rd_rows db)" "rr_key r = k" by (auto simp: find_Some_iff)
  from run r obtain db1 where c0: "rr_count r \<le> 0"
    and ap: "apply_deltas (to_delta_map (rr_refs r) []) db = Inr db1"
    and db': "db' = db1\<lparr>rd_rows := delete_where (\<lambda>r. rr_key r = k) (rd_rows db1)\<rparr>"
    by (auto simp: hard_delete_def get_ref_count_def Let_def result_simps split: if_splits)
  have "incoming (rd_rows db) k \<le> 0" using inv rm c0 by (auto simp: ref_inv_def)
  then have "incoming (rd_rows db) k = 0" using incoming_nonneg [of "rd_rows db" k] by linarith
  then have unref: "k \<notin> key_of ` set (rr_refs x)" if "x \<in> set (rd_rows db)" for x
    using that by (simp add: incoming_zero_iff)
  have del: "incoming (delete_where (\<lambda>x. rr_key x = k) (rd_rows db)) j =
      incoming (rd_rows db) j - refs_to (rr_refs r) j" for j
    by (rule incoming_delete [OF d0 rm])
  have cnt: "rr_count x = incoming (rd_rows db) (rr_key x)" if "x \<in> set (rd_rows db)" for x
    using that inv by (simp add: ref_inv_def)
  have nn: "0 \<le> rr_count x + refs_to [] (rr_key x) - refs_to (rr_refs r) (rr_key x)"
    if "x \<in> set (rd_rows db)" for x
    using cnt [OF that] del [of "rr_key x"]
      incoming_nonneg [of "delete_where (\<lambda>x. rr_key x = k) (rd_rows db)" "rr_key x"] by simp
  let ?f = "\<lambda>x. x\<lparr>rr_count := rr_count x + refs_to [] (rr_key x) - refs_to (rr_refs r) (rr_key x)\<rparr>"
  let ?t = "delete_where (\<lambda>x. rr_key x = k) (rd_rows db)"
  have "delete_where (\<lambda>x. rr_key x = k) (map ?f (rd_rows db)) = map ?f ?t"
    by (simp add: delete_where_def filter_map comp_def)
  then have rows: "rd_rows db' = map ?f ?t"
    using apply_to_delta_map(1) [OF d0 ap nn] by (simp add: db')
  have keys: "map rr_key (rd_rows db') = map rr_key ?t" by (simp add: rows comp_def)
  have inc: "incoming (rd_rows db') j = incoming (rd_rows db) j - refs_to (rr_refs r) j" for j
    by (simp add: rows del)
  have "rr_count x = incoming (rd_rows db) (rr_key x) - refs_to (rr_refs r) (rr_key x)"
    if "x \<in> set (rd_rows db')" for x
  proof -
    have "x \<in> ?f ` set ?t" using that by (simp only: rows set_map)
    then obtain x0 where x0: "x0 \<in> set (rd_rows db)" "x = ?f x0" by auto
    with cnt [OF x0(1)] show ?thesis by simp
  qed
  then have "rr_count x = incoming (rd_rows db') (rr_key x)" if "x \<in> set (rd_rows db')" for x
    using that by (simp only: inc)
  moreover have "key_of ` set (rr_refs x) \<subseteq> rr_key ` set (rd_rows db')" if "x \<in> set (rd_rows db')" for x
  proof
    fix j assume j: "j \<in> key_of ` set (rr_refs x)"
    have "x \<in> ?f ` set ?t" using that by (simp only: rows set_map)
    then obtain y where y: "y \<in> set (rd_rows db)" "rr_refs x = rr_refs y" by auto
    have "key_of ` set (rr_refs y) \<subseteq> rr_key ` set (rd_rows db)" using inv y(1) by (simp add: ref_inv_def)
    with j y(2) have "j \<in> rr_key ` set (rd_rows db)" by (simp only:) blast
    moreover have "j \<noteq> k" using unref [OF y(1)] j y(2) by auto
    moreover have "rr_key ` set (rd_rows db') = rr_key ` set ?t" using keys by (metis list.set_map)
    ultimately show "j \<in> rr_key ` set (rd_rows db')" by auto
  qed
  moreover have "fst ` rr_key ` set (rd_rows db') \<subseteq> set (rd_tables db')"
  proof -
    have "rr_key ` set (rd_rows db') \<subseteq> rr_key ` set (rd_rows db)"
      using arg_cong [OF keys, of set] by auto
    moreover have "rd_tables db' = rd_tables db" using apply_to_delta_map(1) [OF d0 ap nn] by (simp add: db')
    ultimately show ?thesis using inv unfolding ref_inv_def by auto
  qed
  moreover have "distinct (map rr_key ?t)" using d0 by (rule distinct_delete_where)
  ultimately show ?thesis using keys by (simp add: ref_inv_def)
qed

section \<open>Reachable states\<close>

text \<open>
  The committed writes.  Created rows hold the references computed from their data (which the
  create path of a localized reference breaks, see \<open>RefCompute\<close>), and an update that touches no
  reference field leaves the stored references alone.
\<close>

inductive ref_step :: "ref_db \<Rightarrow> ref_db \<Rightarrow> bool" where
  create: "refs = compute_refs_from_data fds data lc '''' \<Longrightarrow>
    persist_create fds lc data k refs db = Inr db' \<Longrightarrow> ref_step db db'"
| update: "(\<And>r. \<not> data_touches_refs fds data '''' \<Longrightarrow> r \<in> set (rd_rows db) \<Longrightarrow> rr_key r = k \<Longrightarrow> rr_refs r = refs) \<Longrightarrow>
    persist_update fds data k refs db = Inr db' \<Longrightarrow> ref_step db db'"
| delete: "hard_delete k db = Inr db' \<Longrightarrow> ref_step db db'"

inductive ref_reach :: "string list \<Rightarrow> ref_db \<Rightarrow> bool" for tables :: "string list" where
  start: "ref_reach tables \<lparr>rd_tables = tables, rd_rows = []\<rparr>"
| step: "ref_reach tables db \<Longrightarrow> ref_step db db' \<Longrightarrow> ref_reach tables db'"

inductive_cases ref_stepE: "ref_step db db'"

lemma ref_reach_inv: "ref_reach tables db \<Longrightarrow> ref_inv db"
proof (induction rule: ref_reach.induct)
  case start
  show ?case by (simp add: ref_inv_def)
next
  case (step db db')
  from step.hyps(2) step.IH show ?case
    by (elim ref_stepE) (blast intro: persist_create_inv persist_update_inv hard_delete_inv)+
qed


lemma apply_groups_decrement:
  assumes "\<And>c d ids. ((c, d), ids) \<in> set gs \<Longrightarrow> c \<in> set tables \<and> d \<le> 0"
  shows "\<exists>t'. apply_groups tables gs t = Inr t'"
  using assms
proof (induction gs arbitrary: t)
  case (Cons g gs)
  obtain c d ids where g: "g = ((c, d), ids)" by (metis surj_pair)
  then have "c \<in> set tables" "\<not> 0 < d" using Cons.prems [of c d ids] by auto
  moreover have "\<exists>t'. apply_groups tables gs u = Inr t'" for u
    by (rule Cons.IH) (meson Cons.prems list.set_intros(2))
  ultimately show ?case using g by (simp add: apply_group_def)
qed simp

lemma decrement_succeeds:
  assumes "\<And>x. x \<in> set old \<Longrightarrow> target_collection x \<in> set (rd_tables db)"
  shows "\<exists>db'. apply_deltas (to_delta_map old []) db = Inr db'"
proof -
  let ?ds = "to_delta_map old []"
  have "c \<in> set (rd_tables db) \<and> d \<le> 0" if "((c, d), ids) \<in> set (group_deltas ?ds)" for c d ids
  proof -
    have ok: "groups_ok (group_deltas ?ds) (map_of ?ds)"
      by (rule group_deltas_ok(1) [OF distinct_to_delta_map])
    with that obtain i where "map_of ?ds (c, i) = Some d"
      unfolding groups_ok_def by (meson last_in_set)
    then have "refs_to old (c, i) \<noteq> 0" "d = - refs_to old (c, i)"
      by (auto simp: map_of_to_delta_map split: if_splits)
    moreover from this have "0 < refs_to old (c, i)" using refs_to_nonneg [of old "(c, i)"] by linarith
    then obtain x where "x \<in> set old" "key_of x = (c, i)" by (auto simp: refs_to_pos)
    ultimately show ?thesis using assms by (auto simp: key_of_def)
  qed
  then have "\<exists>t. apply_groups (rd_tables db) (group_deltas ?ds) (rd_rows db) = Inr t"
    by (rule apply_groups_decrement)
  then obtain t where "apply_groups (rd_tables db) (group_deltas ?ds) (rd_rows db) = Inr t" by blast
  then show ?thesis by (simp add: apply_deltas_def)
qed


section \<open>Concrete inputs\<close>

definition sample_ref :: outgoing_ref where
  "sample_ref = \<lparr>target_collection = ''users'', target_id = ''u1''\<rparr>"

definition sample_ref_db :: ref_db where
  "sample_ref_db = \<lparr>rd_tables = [''users'', ''posts''], rd_rows =
     [\<lparr>rr_key = (''users'', ''u1''), rr_count = 1, rr_refs = []\<rparr>,
      \<lparr>rr_key = (''posts'', ''p1''), rr_count = 0, rr_refs = [sample_ref]\<rparr>]\<rparr>"

definition post_fields :: "field_definition list" where
  "post_fields = [FieldDefinition (author_attrs False) [] [] []]"

definition post_data :: document_fields where
  "post_data = [(''author'', JString ''u1'')]"

lemma sample_ref_reach: "ref_reach [''users'', ''posts''] sample_ref_db"
proof -
  let ?T = "[''users'', ''posts'']"
  let ?db1 = "\<lparr>rd_tables = ?T, rd_rows = [\<lparr>rr_key = (''users'', ''u1''), rr_count = 0, rr_refs = []\<rparr>]\<rparr>"
  have "[] = compute_refs_from_data [] [] no_locales ''''"
    "persist_create [] no_locales [] (''users'', ''u1'') [] \<lparr>rd_tables = ?T, rd_rows = []\<rparr> = Inr ?db1"
    by code_simp+
  then have "ref_reach ?T ?db1" by (blast intro: ref_reach.intros ref_step.create)
  moreover have "[sample_ref] = compute_refs_from_data post_fields post_data no_locales ''''"
    "persist_create post_fields no_locales post_data (''posts'', ''p1'') [sample_ref] ?db1 = Inr sample_ref_db"
    by code_simp+
  ultimately show ?thesis by (blast intro: ref_reach.intros ref_step.create)
qed

theorem batched_deltas_pointwise_witness:
  "\<exists>db'. apply_deltas (to_delta_map [sample_ref] []) sample_ref_db = Inr db' \<and>
     map rr_count (rd_rows db') = [0, 0]"
proof -
  obtain db' where db': "apply_deltas (to_delta_map [sample_ref] []) sample_ref_db = Inr db'"
    using decrement_succeeds [of "[sample_ref]" sample_ref_db] by (auto simp: sample_ref_def sample_ref_db_def)
  have "distinct (map rr_key (rd_rows sample_ref_db))" by (simp add: sample_ref_db_def)
  from batched_deltas_pointwise [OF this db'] db' show ?thesis
    by (simp add: sample_ref_db_def sample_ref_def key_of_def)
qed



end
