(* ===== verification/SqlOrder.thy ===== *)
theory SqlOrder
  imports FieldSchema "HOL-Library.List_Lexorder" "HOL-Library.Char_ord"
begin

text \<open>
  The values of a column and the order SQLite sorts them in: NULL first, then the numbers of
  both storage classes by value, then texts byte by byte, then blobs.  \<open>directed\<close> reverses the
  order of a key for a descending sort term, so that a whole ORDER BY is the order of a tuple.
\<close>

datatype db_value = DNull | DInteger int | DReal rat | DText string | DBlob string

datatype sql_key = KNull | KNum rat | KText string | KBlob string

fun value_key :: "db_value \<Rightarrow> sql_key" where
  "value_key DNull = KNull"
| "value_key (DInteger i) = KNum (of_int i)"
| "value_key (DReal f) = KNum f"
| "value_key (DText s) = KText s"
| "value_key (DBlob b) = KBlob b"

fun key_code :: "sql_key \<Rightarrow> nat \<times> rat \<times> string" where
  "key_code KNull = (0, 0, [])"
| "key_code (KNum q) = (1, q, [])"
| "key_code (KText s) = (2, 0, s)"
| "key_code (KBlob s) = (3, 0, s)"

lemma key_code_inject: "key_code a = key_code b \<longleftrightarrow> a = b"
  by (cases a; cases b) auto

instantiation sql_key :: linorder
begin

definition less_eq_sql_key :: "sql_key \<Rightarrow> sql_key \<Rightarrow> bool" where
  "less_eq_sql_key a b \<longleftrightarrow> key_code a \<le> key_code b"

definition less_sql_key :: "sql_key \<Rightarrow> sql_key \<Rightarrow> bool" where
  "less_sql_key a b \<longleftrightarrow> key_code a < key_code b"

instance
proof
  fix x y z :: sql_key
  show "x < y \<longleftrightarrow> x \<le> y \<and> \<not> y \<le> x"
    unfolding less_eq_sql_key_def less_sql_key_def by (rule less_le_not_le)
  show "x \<le> x" by (simp add: less_eq_sql_key_def)
  show "x \<le> y \<Longrightarrow> y \<le> z \<Longrightarrow> x \<le> z" unfolding less_eq_sql_key_def by (rule order_trans)
  show "x \<le> y \<Longrightarrow> y \<le> x \<Longrightarrow> x = y"
    unfolding less_eq_sql_key_def key_code_inject [symmetric] by (rule antisym)
  show "x \<le> y \<or> y \<le> x" unfolding less_eq_sql_key_def by (rule linear)
qed

end

lemma KNull_least [simp]: "KNull \<le> k" "k < KNull \<longleftrightarrow> False" "KNull < k \<longleftrightarrow> k \<noteq> KNull"
  by (cases k; simp add: less_eq_sql_key_def less_sql_key_def)+

lemma KText_less [simp]: "KText s < KText u \<longleftrightarrow> s < u"
  by (simp add: less_sql_key_def)

lemma value_key_KNull [simp]:
  "value_key v = KNull \<longleftrightarrow> v = DNull" "KNull = value_key v \<longleftrightarrow> v = DNull"
  by (cases v; auto)+

datatype 'a directed = Up 'a | Down 'a

fun directed_le :: "'a::linorder directed \<Rightarrow> 'a directed \<Rightarrow> bool" where
  "directed_le (Up a) (Up b) = (a \<le> b)"
| "directed_le (Up a) (Down b) = True"
| "directed_le (Down a) (Up b) = False"
| "directed_le (Down a) (Down b) = (b \<le> a)"

instantiation directed :: (linorder) linorder
begin

definition less_eq_directed :: "'a directed \<Rightarrow> 'a directed \<Rightarrow> bool" where
  "less_eq_directed a b = directed_le a b"

definition less_directed :: "'a directed \<Rightarrow> 'a directed \<Rightarrow> bool" where
  "less_directed a b \<longleftrightarrow> directed_le a b \<and> \<not> directed_le b a"

instance
proof
  fix x y z :: "'a directed"
  show "x < y \<longleftrightarrow> x \<le> y \<and> \<not> y \<le> x" by (simp add: less_directed_def less_eq_directed_def)
  show "x \<le> x" by (cases x) (simp_all add: less_eq_directed_def)
  show "x \<le> y \<Longrightarrow> y \<le> z \<Longrightarrow> x \<le> z"
    by (cases x; cases y; cases z) (auto simp: less_eq_directed_def)
  show "x \<le> y \<Longrightarrow> y \<le> x \<Longrightarrow> x = y"
    by (cases x; cases y) (auto simp: less_eq_directed_def)
  show "x \<le> y \<or> y \<le> x"
    by (cases x; cases y) (auto simp: less_eq_directed_def)
qed

end

lemma directed_less [simp]:
  "Up a < Up b \<longleftrightarrow> a < b" "Down a < Down b \<longleftrightarrow> b < a"
  by (auto simp: less_directed_def)

section \<open>Sort directions (cursor.rs)\<close>

datatype sort_direction = Asc | Desc

fun as_sql :: "sort_direction \<Rightarrow> string" where
  "as_sql Asc = ''ASC''"
| "as_sql Desc = ''DESC''"

fun flip :: "sort_direction \<Rightarrow> sort_direction" where
  "flip Asc = Desc"
| "flip Desc = Asc"

definition direction_from_str :: "string \<Rightarrow> sort_direction option" where
  "direction_from_str s =
     (if s = ''ASC'' then Some Asc else if s = ''DESC'' then Some Desc else None)"

lemma direction_from_str_as_sql [simp]: "direction_from_str (as_sql d) = Some d"
  by (cases d) (simp_all add: direction_from_str_def)

fun in_direction :: "sort_direction \<Rightarrow> 'a \<Rightarrow> 'a directed" where
  "in_direction Asc x = Up x"
| "in_direction Desc x = Down x"

lemma in_direction_less [simp]:
  "in_direction d a < in_direction d b \<longleftrightarrow> (case d of Asc \<Rightarrow> a < b | Desc \<Rightarrow> b < a)"
  by (cases d) simp_all

lemma in_direction_inject [simp]: "in_direction d a = in_direction d b \<longleftrightarrow> a = b"
  by (cases d) simp_all

end
