(* ===== verification/Pagination.thy ===== *)
theory Pagination
  imports SqlOrder "HOL-Library.Signed_Division"
begin

text \<open>
  Pagination parameters and results (src/src/db/query/find_pagination.rs, pagination_result.rs,
  cursor.rs and \<open>apply_pagination_limits\<close> of helpers.rs).  An \<open>i64\<close> is an \<open>int\<close>; where the source
  saturates it says so, and plain sums wrap.  The encoding of a cursor token (JSON in base64url)
  belongs to libraries, so a codec is a parameter.
\<close>

section \<open>Cursors\<close>

datatype sort_value = SNull | SBool bool | SInteger int | SReal rat | SText string

text \<open>
  \<open>From<&Value>\<close>.  A number outside the \<open>i64\<close> range becomes the nearest float, and an array or
  object its JSON text; both conversions are the library's.
\<close>

record json_env =
  nearest_f64 :: "int \<Rightarrow> rat"
  json_text :: "json_value \<Rightarrow> string"

fun sort_value_of_json :: "json_env \<Rightarrow> json_value \<Rightarrow> sort_value" where
  "sort_value_of_json env JNull = SNull"
| "sort_value_of_json env (JBool b) = SBool b"
| "sort_value_of_json env (JNumber (JInt i)) =
     (if i64_try_from i \<noteq> None then SInteger i else SReal (nearest_f64 env i))"
| "sort_value_of_json env (JNumber (JFloat f)) = SReal f"
| "sort_value_of_json env (JString s) = SText s"
| "sort_value_of_json env v = SText (json_text env v)"

fun db_value_of_sort :: "sort_value \<Rightarrow> db_value" where
  "db_value_of_sort SNull = DNull"
| "db_value_of_sort (SBool b) = DInteger (if b then 1 else 0)"
| "db_value_of_sort (SInteger i) = DInteger i"
| "db_value_of_sort (SReal f) = DReal f"
| "db_value_of_sort (SText s) = DText s"

record cursor_data =
  cd_sort_col :: string
  cd_sort_dir :: sort_direction
  cd_sort_val :: sort_value
  cd_id :: string
  cd_status_val :: "string option"

record cursor_codec =
  cc_encode :: "cursor_data \<Rightarrow> string option"
  cc_decode :: "string \<Rightarrow> cursor_data option"

datatype page_error =
    InvalidCursor
  | CursorMissingFields
  | AfterCursorAndPage
  | BeforeCursorAndPage
  | BothCursors

definition decode :: "cursor_codec \<Rightarrow> string \<Rightarrow> page_error + cursor_data" where
  "decode codec s =
     (case cc_decode codec s of
        None \<Rightarrow> Inl InvalidCursor
      | Some d \<Rightarrow> if cd_sort_col d = [] \<or> cd_id d = [] then Inl CursorMissingFields else Inr d)"

section \<open>Request parameters\<close>

definition apply_pagination_limits :: "int option \<Rightarrow> int \<Rightarrow> int \<Rightarrow> int" where
  "apply_pagination_limits requested default_limit max_limit =
     (case requested of None \<Rightarrow> default_limit | Some v \<Rightarrow> min (max v 1) max_limit)"

definition saturating_mul_i64 :: "int \<Rightarrow> int \<Rightarrow> int" where
  "saturating_mul_i64 a b = max (- (2 ^ 63)) (min i64_max (a * b))"

record pagination_ctx =
  pc_default_limit :: int
  pc_max_limit :: int
  pc_cursor_enabled :: bool

record find_pagination =
  fp_limit :: int
  fp_offset :: int
  fp_page :: int
  fp_after :: "cursor_data option"
  fp_before :: "cursor_data option"

definition has_cursor :: "find_pagination \<Rightarrow> bool" where
  "has_cursor p \<longleftrightarrow> fp_after p \<noteq> None \<or> fp_before p \<noteq> None"

definition validate_after :: "cursor_codec \<Rightarrow> bool \<Rightarrow> string option \<Rightarrow> page_error + cursor_data option" where
  "validate_after codec explicit_page req =
     (case req of
        None \<Rightarrow> Inr None
      | Some s \<Rightarrow> if explicit_page then Inl AfterCursorAndPage
                  else bindE (decode codec s) (\<lambda>d. Inr (Some d)))"

definition validate_before ::
  "cursor_codec \<Rightarrow> bool \<Rightarrow> cursor_data option \<Rightarrow> string option \<Rightarrow> page_error + cursor_data option" where
  "validate_before codec explicit_page ac req =
     (case req of
        None \<Rightarrow> Inr None
      | Some s \<Rightarrow> if explicit_page then Inl BeforeCursorAndPage
                  else if ac \<noteq> None then Inl BothCursors
                  else bindE (decode codec s) (\<lambda>d. Inr (Some d)))"

definition validate_find_pagination ::
  "cursor_codec \<Rightarrow> pagination_ctx \<Rightarrow> int option \<Rightarrow> int option \<Rightarrow> string option \<Rightarrow> string option
     \<Rightarrow> page_error + find_pagination" where
  "validate_find_pagination codec ctx req_limit req_page req_after req_before =
     (let limit = apply_pagination_limits req_limit (pc_default_limit ctx) (pc_max_limit ctx);
          page = max (unwrap_or 1 req_page) 1;
          offset = saturating_mul_i64 (page - 1) limit;
          explicit_page = (case req_page of None \<Rightarrow> False | Some p \<Rightarrow> 1 < p);
          result = (\<lambda>ac bc. \<lparr>fp_limit = limit, fp_offset = offset, fp_page = page,
                             fp_after = ac, fp_before = bc\<rparr>)
      in if pc_cursor_enabled ctx
         then bindE (validate_after codec explicit_page req_after) (\<lambda>ac.
              bindE (validate_before codec explicit_page ac req_before) (\<lambda>bc.
                Inr (result ac bc)))
         else Inr (result None None))"

text \<open>What the configuration check (config/validate.rs) guarantees.\<close>

definition validate_pagination :: "pagination_ctx \<Rightarrow> bool" where
  "validate_pagination ctx \<longleftrightarrow>
     0 < pc_default_limit ctx \<and> 0 < pc_max_limit ctx \<and> pc_default_limit ctx \<le> pc_max_limit ctx"

section \<open>Results\<close>

record pagination_result =
  pr_total_docs :: int
  pr_limit :: int
  pr_has_next_page :: bool
  pr_has_prev_page :: bool
  pr_total_pages :: "int option"
  pr_page :: "int option"
  pr_page_start :: "int option"
  pr_prev_page :: "int option"
  pr_next_page :: "int option"
  pr_start_cursor :: "string option"
  pr_end_cursor :: "string option"

definition total_pages :: "int \<Rightarrow> int \<Rightarrow> int \<Rightarrow> int" where
  "total_pages unlimited total_docs limit =
     (if 0 < limit then wrap_i64 (wrap_i64 (total_docs + limit) - 1) sdiv limit else unlimited)"

definition page_result :: "int \<Rightarrow> int \<Rightarrow> int \<Rightarrow> int \<Rightarrow> pagination_result" where
  "page_result total_docs limit page offset =
     (let pages = total_pages 0 total_docs limit
      in \<lparr>pr_total_docs = total_docs, pr_limit = limit, pr_has_next_page = page < pages,
          pr_has_prev_page = 1 < page, pr_total_pages = Some pages, pr_page = Some page,
          pr_page_start = Some (wrap_i64 (offset + 1)),
          pr_prev_page = (if 1 < page then Some (page - 1) else None),
          pr_next_page = (if page < pages then Some (page + 1) else None),
          pr_start_cursor = None, pr_end_cursor = None\<rparr>)"

definition resolve_order :: "string option \<Rightarrow> bool \<Rightarrow> string \<times> sort_direction" where
  "resolve_order order_by has_timestamps =
     (case order_by of
        Some (CHR ''-'' # col) \<Rightarrow> (col, Desc)
      | Some col \<Rightarrow> (col, Asc)
      | None \<Rightarrow> if has_timestamps then (''created_at'', Desc) else (''id'', Asc))"

section \<open>Properties\<close>

lemma decode_nonempty: "decode codec s = Inr d \<Longrightarrow> cd_sort_col d \<noteq> [] \<and> cd_id d \<noteq> []"
  by (auto simp: decode_def split: option.splits if_splits)

text \<open>
  Accepted pagination parameters are consistent: the limit lies between 1 and the configured
  maximum, the page is at least 1 and the offset is the number of documents before it (saturated),
  at most one cursor is set, a cursor names a column and a document, and with a cursor the page is
  the first.
\<close>
theorem validated_pagination_consistent:
  assumes "validate_pagination ctx"
    and "validate_find_pagination codec ctx req_limit req_page req_after req_before = Inr p"
  shows "1 \<le> fp_limit p \<and> fp_limit p \<le> pc_max_limit ctx \<and>
    1 \<le> fp_page p \<and> 0 \<le> fp_offset p \<and> fp_offset p = min i64_max ((fp_page p - 1) * fp_limit p) \<and>
    (fp_after p = None \<or> fp_before p = None) \<and>
    (has_cursor p \<longrightarrow> pc_cursor_enabled ctx \<and> fp_page p = 1 \<and> fp_offset p = 0) \<and>
    (\<forall>d. fp_after p = Some d \<or> fp_before p = Some d \<longrightarrow> cd_sort_col d \<noteq> [] \<and> cd_id d \<noteq> [])"
proof -
  let ?lim = "apply_pagination_limits req_limit (pc_default_limit ctx) (pc_max_limit ctx)"
  let ?page = "max (unwrap_or 1 req_page) 1"
  have lim: "1 \<le> ?lim" "?lim \<le> pc_max_limit ctx"
    using assms(1) by (auto simp: apply_pagination_limits_def validate_pagination_def split: option.splits)
  have sel: "fp_limit p = ?lim" "fp_page p = ?page" "fp_offset p = saturating_mul_i64 (?page - 1) ?lim"
    using assms(2) by (auto simp: validate_find_pagination_def Let_def result_simps split: if_splits)
  have nn: "0 \<le> (?page - 1) * ?lim" using lim(1) by (intro mult_nonneg_nonneg) auto
  then have off: "fp_offset p = min i64_max ((?page - 1) * ?lim)"
    by (simp add: sel saturating_mul_i64_def i64_max_def)
  moreover have "0 \<le> fp_offset p" using nn off by (simp add: i64_max_def)
  moreover have "fp_after p = None \<or> fp_before p = None"
    and cur: "has_cursor p \<Longrightarrow> pc_cursor_enabled ctx \<and> (case req_page of None \<Rightarrow> True | Some q \<Rightarrow> q \<le> 1)"
    and dec: "fp_after p = Some d \<or> fp_before p = Some d \<Longrightarrow> cd_sort_col d \<noteq> [] \<and> cd_id d \<noteq> []" for d
    using assms(2)
    by (auto simp: validate_find_pagination_def validate_after_def validate_before_def has_cursor_def Let_def
        result_simps dest: decode_nonempty split: if_splits option.splits)
  moreover have "has_cursor p \<Longrightarrow> ?page = 1" using cur by (auto split: option.splits)
  ultimately show ?thesis using lim sel by (auto simp: i64_max_def)
qed

lemma total_pages_ceil:
  assumes "0 \<le> total_docs" "0 < limit" "total_docs + limit < 2 ^ 63"
  shows "total_pages u total_docs limit = (total_docs + limit - 1) div limit"
proof -
  have "wrap_i64 (wrap_i64 (total_docs + limit) - 1) = total_docs + limit - 1"
    using assms by (simp add: wrap_i64_id)
  moreover have "total_docs + limit - 1 = 0 \<or> sgn (total_docs + limit - 1) = 1"
    using assms by (auto simp: sgn_if)
  ultimately show ?thesis using assms by (auto simp: total_pages_def signed_divide_int_def)
qed

text \<open>
  In page mode there is a next page exactly when documents remain beyond the current one, the
  page numbers around it are the right ones, and the last page is the one holding the last
  document.
\<close>
theorem page_result_correct:
  assumes "0 \<le> total_docs" "0 < limit" "total_docs + limit < 2 ^ 63" "1 \<le> page"
  shows "(pr_has_next_page (page_result total_docs limit page offset) \<longleftrightarrow> page * limit < total_docs) \<and>
    pr_next_page (page_result total_docs limit page offset) =
      (if page * limit < total_docs then Some (page + 1) else None) \<and>
    pr_prev_page (page_result total_docs limit page offset) = (if page = 1 then None else Some (page - 1)) \<and>
    (\<exists>n. pr_total_pages (page_result total_docs limit page offset) = Some n \<and>
       total_docs \<le> n * limit \<and> (0 < total_docs \<longrightarrow> (n - 1) * limit < total_docs))"
proof -
  define n m where "n = (total_docs + limit - 1) div limit" and "m = (total_docs + limit - 1) mod limit"
  have n: "total_docs + limit - 1 = n * limit + m" "0 \<le> m" "m < limit"
    using assms(2) by (simp_all add: n_def m_def)
  have lt: "page < n \<longleftrightarrow> page * limit < total_docs"
  proof
    assume "page < n"
    then have "(page + 1) * limit \<le> n * limit" using assms(2) by (intro mult_right_mono) auto
    then have "page * limit + limit \<le> n * limit" by (simp add: distrib_right)
    with n show "page * limit < total_docs" by linarith
  next
    assume less: "page * limit < total_docs"
    show "page < n"
    proof (rule ccontr)
      assume "\<not> page < n"
      then have "n * limit \<le> page * limit" using assms(2) by (intro mult_right_mono) auto
      with n less show False by linarith
    qed
  qed
  have pages: "total_pages 0 total_docs limit = n"
    unfolding n_def by (rule total_pages_ceil [OF assms(1-3)])
  have "(n - 1) * limit = n * limit - limit" by (simp add: left_diff_distrib)
  with n have "total_docs \<le> n * limit" "(n - 1) * limit < total_docs" by linarith+
  then show ?thesis using assms(4) lt by (auto simp: page_result_def Let_def pages)
qed

theorem page_result_correct_witness:
  "pr_next_page (page_result 25 10 2 10) = Some 3 \<and> pr_next_page (page_result 25 10 3 20) = None"
  using page_result_correct [of 25 10 2 10] page_result_correct [of 25 10 3 20] by simp

text \<open>A codec for the witnesses: the id and the column, separated by a comma.\<close>

definition sample_codec :: cursor_codec where
  "sample_codec = \<lparr>cc_encode = (\<lambda>d. Some (cd_sort_col d @ '','' @ cd_id d)),
     cc_decode = (\<lambda>s. case split_once (CHR '','') s of
        None \<Rightarrow> None
      | Some (c, i) \<Rightarrow> Some \<lparr>cd_sort_col = c, cd_sort_dir = Asc, cd_sort_val = SNull, cd_id = i,
                             cd_status_val = None\<rparr>)\<rparr>"

theorem validated_pagination_consistent_witness:
  "\<exists>p. validate_find_pagination sample_codec
        \<lparr>pc_default_limit = 10, pc_max_limit = 100, pc_cursor_enabled = True\<rparr>
        (Some 1000) None (Some ''title,a'') None = Inr p \<and> fp_limit p = 100 \<and> fp_offset p = 0"
proof -
  let ?ctx = "\<lparr>pc_default_limit = 10, pc_max_limit = 100, pc_cursor_enabled = True\<rparr>"
  let ?d = "\<lparr>cd_sort_col = ''title'', cd_sort_dir = Asc, cd_sort_val = SNull, cd_id = ''a'', cd_status_val = None\<rparr>"
  let ?p = "\<lparr>fp_limit = 100, fp_offset = 0, fp_page = 1, fp_after = Some ?d, fp_before = None\<rparr>"
  have run: "validate_find_pagination sample_codec ?ctx (Some 1000) None (Some ''title,a'') None = Inr ?p"
    by (simp add: validate_find_pagination_def validate_after_def validate_before_def decode_def
        sample_codec_def apply_pagination_limits_def saturating_mul_i64_def i64_max_def Let_def)
  have "validate_pagination ?ctx" by (simp add: validate_pagination_def)
  from validated_pagination_consistent [OF this run] run show ?thesis by (simp add: has_cursor_def)
qed

end
