(* ===== verification/Keyset.thy ===== *)
theory Keyset
  imports Pagination
begin

text \<open>
  Keyset pagination (src/src/db/query/read/find/, cursor.rs, read/select.rs, db/document.rs) on
  the rows of one collection table, without a locale context: the ORDER BY of a query, the WHERE
  condition a cursor adds, and the cursor taken from a returned document.  The user's filters are
  an arbitrary predicate on rows.  Rows compare as in SQLite.
\<close>

section \<open>Rows and documents\<close>

record find_row =
  fr_id :: string
  fr_cols :: "(string \<times> db_value) list"

definition column :: "find_row \<Rightarrow> string \<Rightarrow> db_value" where
  "column r c = (if c = ''id'' then DText (fr_id r) else unwrap_or DNull (map_of (fr_cols r) c))"

record document =
  doc_id :: string
  doc_created_at :: "string option"
  doc_updated_at :: "string option"
  doc_fields :: document_fields

fun db_to_json :: "(string \<Rightarrow> string) \<Rightarrow> db_value \<Rightarrow> json_value" where
  "db_to_json base64 DNull = JNull"
| "db_to_json base64 (DInteger i) = JNumber (JInt i)"
| "db_to_json base64 (DReal f) = JNumber (JFloat f)"
| "db_to_json base64 (DText s) = JString s"
| "db_to_json base64 (DBlob b) = JString (base64 b)"

definition is_char_boundary :: "string \<Rightarrow> nat \<Rightarrow> bool" where
  "is_char_boundary s i \<longleftrightarrow> i = length s \<or>
     i < length s \<and> \<not> (128 \<le> char_code (s ! i) \<and> char_code (s ! i) < 192)"

definition sqlite_normalize_timestamp :: "string \<Rightarrow> string" where
  "sqlite_normalize_timestamp ts =
     (if length ts = 19 \<and> ts ! 10 = CHR '' '' \<and> is_char_boundary ts 10 \<and> is_char_boundary ts 11
      then take 10 ts @ ''T'' @ drop 11 ts @ ''.000Z'' else ts)"

definition always_selected :: "string list" where
  "always_selected = [''id'', ''created_at'', ''updated_at'', ''_status'']"

text \<open>\<open>split_once("__")\<close>: what is before the first double underscore.\<close>

fun before_double_underscore :: "string \<Rightarrow> string option" where
  "before_double_underscore (a # b # cs) =
     (if a = CHR ''_'' \<and> b = CHR ''_'' then Some []
      else map_option (\<lambda>p. a # p) (before_double_underscore (b # cs)))"
| "before_double_underscore s = None"

definition column_selected :: "string list option \<Rightarrow> string \<Rightarrow> bool" where
  "column_selected select name \<longleftrightarrow>
     (case select of
        None \<Rightarrow> True
      | Some s \<Rightarrow> s = [] \<or> name \<in> set always_selected \<or> name \<in> set s \<or>
          (case before_double_underscore name of None \<Rightarrow> False | Some p \<Rightarrow> p \<in> set s))"

definition timestamp_of :: "db_value \<Rightarrow> string option" where
  "timestamp_of v = (case v of DText s \<Rightarrow> Some (sqlite_normalize_timestamp s) | _ \<Rightarrow> None)"

definition row_to_document :: "(string \<Rightarrow> string) \<Rightarrow> string list option \<Rightarrow> find_row \<Rightarrow> document" where
  "row_to_document base64 select r =
     \<lparr>doc_id = fr_id r,
      doc_created_at = timestamp_of (column r ''created_at''),
      doc_updated_at = timestamp_of (column r ''updated_at''),
      doc_fields = map (\<lambda>(n, v). (n, db_to_json base64 v))
        (filter (\<lambda>(n, _). column_selected select n \<and> n \<notin> {''id'', ''created_at'', ''updated_at''}) (fr_cols r))\<rparr>"

section \<open>The sort\<close>

record collection_info =
  ci_timestamps :: bool
  ci_has_drafts :: bool
  ci_fields :: "field_definition list"

record find_query =
  fq_order_by :: "string option"
  fq_limit :: "int option"
  fq_offset :: "int option"
  fq_select :: "string list option"
  fq_after :: "cursor_data option"
  fq_before :: "cursor_data option"

datatype find_error =
    CursorAndOffset
  | AfterAndBefore
  | InvalidSortColumn string
  | CursorColumnMismatch string string
  | OffsetWithoutLimit

definition cursor_status_active :: "bool \<Rightarrow> string \<Rightarrow> bool" where
  "cursor_status_active has_drafts sort_col \<longleftrightarrow> has_drafts \<and> sort_col \<noteq> ''_status''"

fun check_fields :: "string \<Rightarrow> field_definition list \<Rightarrow> string \<Rightarrow> bool"
  and check_tabs :: "string \<Rightarrow> field_tab list \<Rightarrow> string \<Rightarrow> bool"
where
  "check_fields col [] prefix = False"
| "check_fields col (FieldDefinition a sub tabs blocks # fs) prefix =
     ((let full_name = prefixed_name prefix (fa_name a)
       in full_name = col \<and> attrs_has_parent_column a \<or>
          (case fa_type a of
             Group \<Rightarrow> check_fields col sub full_name
           | Row \<Rightarrow> check_fields col sub prefix
           | Collapsible \<Rightarrow> check_fields col sub prefix
           | Tabs \<Rightarrow> check_tabs col tabs prefix
           | _ \<Rightarrow> False)) \<or> check_fields col fs prefix)"
| "check_tabs col [] prefix = False"
| "check_tabs col (FieldTab l sub # ts) prefix = (check_fields col sub prefix \<or> check_tabs col ts prefix)"

definition is_valid_sort_column :: "string \<Rightarrow> collection_info \<Rightarrow> bool" where
  "is_valid_sort_column col info \<longleftrightarrow>
     col \<in> {''id'', ''created_at'', ''updated_at'', ''_status'', ''_deleted_at'', ''_ref_count''} \<or>
     check_fields col (ci_fields info) ''''"

definition resolve_sort :: "collection_info \<Rightarrow> find_query \<Rightarrow> find_error + string \<times> sort_direction \<times> bool" where
  "resolve_sort info q =
     (let has_cursor = fq_after q \<noteq> None \<or> fq_before q \<noteq> None
      in if has_cursor \<and> fq_offset q \<noteq> None then Inl CursorAndOffset
         else if fq_after q \<noteq> None \<and> fq_before q \<noteq> None then Inl AfterAndBefore
         else (let (col, dir) = resolve_order (fq_order_by q) (ci_timestamps info)
               in if \<not> is_valid_sort_column col info then Inl (InvalidSortColumn col)
                  else Inr (col, dir, fq_before q \<noteq> None)))"

text \<open>The ORDER BY as the order of a tuple: \<open>[_status,] col, id\<close> with their directions.\<close>

type_synonym row_key = "sql_key directed \<times> sql_key directed \<times> sql_key directed"

definition order_key :: "bool \<Rightarrow> string \<Rightarrow> sort_direction \<Rightarrow> bool \<Rightarrow> find_row \<Rightarrow> row_key" where
  "order_key prepend_status col dir using_before r =
     (let effective_dir = (if using_before then flip dir else dir);
          status_dir = (if using_before then Desc else Asc)
      in (if prepend_status then in_direction status_dir (value_key (column r ''_status'')) else Up KNull,
          in_direction effective_dir (value_key (column r col)),
          in_direction effective_dir (KText (fr_id r))))"

section \<open>The condition of a cursor\<close>

datatype key_op = Less | Greater

definition inner_op :: "sort_direction \<Rightarrow> bool \<Rightarrow> key_op" where
  "inner_op dir using_before =
     (if dir = Desc \<and> \<not> using_before \<or> dir = Asc \<and> using_before then Less else Greater)"

text \<open>SQL comparisons are not true when a side is NULL.\<close>

fun sql_cmp :: "key_op \<Rightarrow> db_value \<Rightarrow> db_value \<Rightarrow> bool" where
  "sql_cmp Less a b \<longleftrightarrow> a \<noteq> DNull \<and> b \<noteq> DNull \<and> value_key a < value_key b"
| "sql_cmp Greater a b \<longleftrightarrow> a \<noteq> DNull \<and> b \<noteq> DNull \<and> value_key b < value_key a"

definition sql_eq :: "db_value \<Rightarrow> db_value \<Rightarrow> bool" where
  "sql_eq a b \<longleftrightarrow> a \<noteq> DNull \<and> b \<noteq> DNull \<and> value_key a = value_key b"

definition inner_keyset_clause :: "string \<Rightarrow> key_op \<Rightarrow> db_value \<Rightarrow> string \<Rightarrow> find_row \<Rightarrow> bool" where
  "inner_keyset_clause col op sort_val cursor_id r =
     (if sort_val = DNull
      then (if op = Greater
            then column r col = DNull \<and> sql_cmp Greater (column r ''id'') (DText cursor_id) \<or> column r col \<noteq> DNull
            else column r col = DNull \<and> sql_cmp Less (column r ''id'') (DText cursor_id))
      else sql_cmp op (column r col) sort_val \<or>
           sql_eq (column r col) sort_val \<and> sql_cmp op (column r ''id'') (DText cursor_id))"

definition keyset_clause :: "cursor_data \<Rightarrow> string \<Rightarrow> sort_direction \<Rightarrow> bool \<Rightarrow> find_row \<Rightarrow> bool" where
  "keyset_clause cursor col dir using_before r =
     (let inner = inner_keyset_clause col (inner_op dir using_before) (db_value_of_sort (cd_sort_val cursor))
                    (cd_id cursor) r
      in case cd_status_val cursor of
           None \<Rightarrow> inner
         | Some status_val \<Rightarrow>
             sql_cmp (if using_before then Less else Greater) (column r ''_status'') (DText status_val) \<or>
             sql_eq (column r ''_status'') (DText status_val) \<and> inner)"

definition apply_cursor_keyset ::
  "cursor_data option \<Rightarrow> string \<Rightarrow> sort_direction \<Rightarrow> bool \<Rightarrow> find_error + (find_row \<Rightarrow> bool)" where
  "apply_cursor_keyset cursor col dir using_before =
     (case cursor of
        None \<Rightarrow> Inr (\<lambda>_. True)
      | Some c \<Rightarrow> if cd_sort_col c \<noteq> col then Inl (CursorColumnMismatch (cd_sort_col c) col)
                  else Inr (keyset_clause c col dir using_before))"

section \<open>The query\<close>

definition apply_limit_offset :: "int option \<Rightarrow> int option \<Rightarrow> 'r list \<Rightarrow> find_error + 'r list" where
  "apply_limit_offset limit offset rows =
     (case (limit, offset) of
        (None, None) \<Rightarrow> Inr rows
      | (Some l, None) \<Rightarrow> Inr (take (nat (max l 0)) rows)
      | (Some l, Some off) \<Rightarrow> Inr (take (nat (max l 0)) (drop (nat (max off 0)) rows))
      | (None, Some off) \<Rightarrow> Inl OffsetWithoutLimit)"

definition find_rows ::
  "collection_info \<Rightarrow> find_query \<Rightarrow> (find_row \<Rightarrow> bool) \<Rightarrow> find_row list \<Rightarrow> find_error + find_row list" where
  "find_rows info q where_clause table =
     bindE (resolve_sort info q) (\<lambda>(col, dir, using_before).
     bindE (apply_cursor_keyset (case fq_after q of Some c \<Rightarrow> Some c | None \<Rightarrow> fq_before q) col dir using_before)
       (\<lambda>keyset.
     bindE (apply_limit_offset (fq_limit q) (fq_offset q)
              (sort_key (order_key (cursor_status_active (ci_has_drafts info) col) col dir using_before)
                (filter (\<lambda>r. where_clause r \<and> keyset r) table)))
       (\<lambda>rows. Inr (if using_before then rev rows else rows))))"

text \<open>The cursor of a document (\<open>cursor_from_doc\<close>, before it is encoded).\<close>

definition cursor_from_doc :: "json_env \<Rightarrow> document \<Rightarrow> string \<Rightarrow> sort_direction \<Rightarrow> bool \<Rightarrow> cursor_data" where
  "cursor_from_doc env doc sort_col sort_dir with_status =
     \<lparr>cd_sort_col = sort_col, cd_sort_dir = sort_dir,
      cd_sort_val =
        (if sort_col = ''id'' then SText (doc_id doc)
         else if sort_col = ''created_at'' then (case doc_created_at doc of None \<Rightarrow> SNull | Some v \<Rightarrow> SText v)
         else if sort_col = ''updated_at'' then (case doc_updated_at doc of None \<Rightarrow> SNull | Some v \<Rightarrow> SText v)
         else (case map_of (doc_fields doc) sort_col of None \<Rightarrow> SNull | Some v \<Rightarrow> sort_value_of_json env v)),
      cd_id = doc_id doc,
      cd_status_val =
        (if with_status
         then (case Option.bind (map_of (doc_fields doc) ''_status'') as_json_str of
                 Some s \<Rightarrow> Some s | None \<Rightarrow> Some ''published'')
         else None)\<rparr>"

end
