(* ===== verification/FindService.thy ===== *)
theory FindService
  imports Keyset
begin

text \<open>
  The paginated read of the service layer in cursor mode (src/src/service/read/find.rs,
  service/helpers.rs, db/query/pagination_result.rs, db/query/cursor.rs): one row more than the
  page is fetched to see whether the walk goes on, and the ends of the page become the cursors of
  the answer.  Access control and the injected status filters are part of the row predicate;
  \<open>post\<close> is the per-document post-processing (hydration, population, stripping, hooks).
\<close>

section \<open>Cursors of a page\<close>

definition encode_doc ::
  "json_env \<Rightarrow> cursor_codec \<Rightarrow> document \<Rightarrow> string \<Rightarrow> sort_direction \<Rightarrow> bool \<Rightarrow> string option" where
  "encode_doc env codec doc sort_col sort_dir with_status =
     cc_encode codec (cursor_from_doc env doc sort_col sort_dir with_status)"

definition build_cursors ::
  "json_env \<Rightarrow> cursor_codec \<Rightarrow> document list \<Rightarrow> string \<Rightarrow> sort_direction \<Rightarrow> bool
     \<Rightarrow> string option \<times> string option" where
  "build_cursors env codec docs sort_col sort_dir with_status =
     (if docs = [] then (None, None)
      else (encode_doc env codec (hd docs) sort_col sort_dir with_status,
            encode_doc env codec (last docs) sort_col sort_dir with_status))"

record cursor_flags =
  cf_has_timestamps :: bool
  cf_has_drafts :: bool
  cf_had_before_cursor :: bool
  cf_had_any_cursor :: bool
  cf_cursor_has_more :: "bool option"

definition cursor_result ::
  "json_env \<Rightarrow> cursor_codec \<Rightarrow> document list \<Rightarrow> int \<Rightarrow> int \<Rightarrow> string option \<Rightarrow> cursor_flags
     \<Rightarrow> pagination_result" where
  "cursor_result env codec docs total_docs limit order_by flags =
     (let (sort_col, sort_dir) = resolve_order order_by (cf_has_timestamps flags);
          with_status = cursor_status_active (cf_has_drafts flags) sort_col;
          (start_cursor, end_cursor) = build_cursors env codec docs sort_col sort_dir with_status;
          multiple_pages = 1 < total_pages 1 total_docs limit;
          at_limit = limit \<le> int (length docs) \<and> docs \<noteq> [];
          more_in_direction = unwrap_or at_limit (cf_cursor_has_more flags);
          (has_next_page, has_prev_page) =
            (if cf_had_before_cursor flags then (True, more_in_direction)
             else if cf_had_any_cursor flags then (more_in_direction, True)
             else (multiple_pages, False))
      in \<lparr>pr_total_docs = total_docs, pr_limit = limit, pr_has_next_page = has_next_page,
          pr_has_prev_page = has_prev_page, pr_total_pages = None, pr_page = None, pr_page_start = None,
          pr_prev_page = None, pr_next_page = None, pr_start_cursor = start_cursor,
          pr_end_cursor = end_cursor\<rparr>)"

section \<open>The service call\<close>

record find_input =
  fi_env :: json_env
  fi_codec :: cursor_codec
  fi_base64 :: "string \<Rightarrow> string"
  fi_post :: "document \<Rightarrow> document"
  fi_cursor_enabled :: bool

definition build_pagination ::
  "find_input \<Rightarrow> collection_info \<Rightarrow> find_query \<Rightarrow> document list \<Rightarrow> int \<Rightarrow> bool \<Rightarrow> bool option
     \<Rightarrow> pagination_result" where
  "build_pagination inp info fq docs total_docs had_cursor cursor_has_more =
     (let limit = unwrap_or total_docs (fq_limit fq)
      in if fi_cursor_enabled inp
         then cursor_result (fi_env inp) (fi_codec inp) docs total_docs limit (fq_order_by fq)
                \<lparr>cf_has_timestamps = ci_timestamps info, cf_has_drafts = ci_has_drafts info,
                 cf_had_before_cursor = fq_before fq \<noteq> None, cf_had_any_cursor = had_cursor,
                 cf_cursor_has_more = cursor_has_more\<rparr>
         else (let offset = unwrap_or 0 (fq_offset fq);
                   page = (if 0 < limit then wrap_i64 (offset sdiv limit + 1) else 1)
               in page_result total_docs limit page offset))"

text \<open>The extra row of an overfetch is dropped: the first one of a backward page, else the last.\<close>

definition trim_overfetch :: "bool \<Rightarrow> bool \<Rightarrow> int \<Rightarrow> 'd list \<Rightarrow> 'd list \<times> bool option" where
  "trim_overfetch overfetch before limit docs =
     (if overfetch
      then if limit < int (length docs)
           then (if before then tl docs else butlast docs, Some True)
           else (docs, Some False)
      else (docs, None))"

definition find_documents ::
  "find_input \<Rightarrow> collection_info \<Rightarrow> find_query \<Rightarrow> (find_row \<Rightarrow> bool) \<Rightarrow> find_row list
     \<Rightarrow> find_error + document list \<times> pagination_result" where
  "find_documents inp info fq where_clause table =
     (let had_cursor = fq_after fq \<noteq> None \<or> fq_before fq \<noteq> None;
          overfetch = fi_cursor_enabled inp \<and> had_cursor;
          fetch = (if overfetch then fq\<lparr>fq_limit := map_option (\<lambda>l. wrap_i64 (l + 1)) (fq_limit fq)\<rparr> else fq)
      in bindE (find_rows info fetch where_clause table) (\<lambda>rows.
           let total_docs = int (length (filter where_clause table));
               limit = unwrap_or total_docs (fq_limit fq);
               (docs, has_more) = trim_overfetch overfetch (fq_before fq \<noteq> None) limit
                 (map (row_to_document (fi_base64 inp) (fq_select fq)) rows);
               docs = map (fi_post inp) docs
           in Inr (docs, build_pagination inp info fq docs total_docs had_cursor has_more)))"

text \<open>
  A client that follows \<open>end_cursor\<close> while \<open>has_next_page\<close>: the documents it has seen, or None
  when a call fails, a cursor is missing or the steps run out.
\<close>

primrec walk ::
  "nat \<Rightarrow> find_input \<Rightarrow> collection_info \<Rightarrow> find_query \<Rightarrow> (find_row \<Rightarrow> bool) \<Rightarrow> find_row list
     \<Rightarrow> document list option" where
  "walk 0 inp info fq where_clause table = None"
| "walk (Suc m) inp info fq where_clause table =
     (case find_documents inp info fq where_clause table of
        Inl _ \<Rightarrow> None
      | Inr (docs, pr) \<Rightarrow>
          if pr_has_next_page pr
          then (case pr_end_cursor pr of
                  None \<Rightarrow> None
                | Some s \<Rightarrow>
                    (case decode (fi_codec inp) s of
                       Inl _ \<Rightarrow> None
                     | Inr c \<Rightarrow> map_option (\<lambda>rest. docs @ rest)
                         (walk m inp info (fq\<lparr>fq_after := Some c\<rparr>) where_clause table)))
          else Some docs)"

end
