(* ===== verification/KeysetPages.thy ===== *)
theory KeysetPages
  imports FindService
begin

text \<open>
  Walking the pages: the condition a cursor adds is exactly \<open>after this row in the ORDER BY\<close>, so
  the pages of a walk are the slices of the sorted table.  This needs a sort column without NULL
  in descending order and a cursor taken from a document that still has the sort column; what
  happens otherwise is proved last.
\<close>

section \<open>The cursor of a row\<close>

definition sortable :: "string \<Rightarrow> db_value \<Rightarrow> bool" where
  "sortable col v \<longleftrightarrow>
     (case v of
        DNull \<Rightarrow> True
      | DInteger i \<Rightarrow> i64_try_from i \<noteq> None \<and> col \<notin> {''created_at'', ''updated_at''}
      | DReal f \<Rightarrow> col \<notin> {''created_at'', ''updated_at''}
      | DText s \<Rightarrow> col \<in> {''created_at'', ''updated_at''} \<longrightarrow> sqlite_normalize_timestamp s = s
      | DBlob b \<Rightarrow> False)"

definition has_status :: "find_row \<Rightarrow> bool" where
  "has_status r \<longleftrightarrow> (\<exists>s. column r ''_status'' = DText s)"

definition row_cursor ::
  "json_env \<Rightarrow> (string \<Rightarrow> string) \<Rightarrow> string \<Rightarrow> sort_direction \<Rightarrow> bool \<Rightarrow> find_row \<Rightarrow> cursor_data" where
  "row_cursor env base64 col dir st r = cursor_from_doc env (row_to_document base64 None r) col dir st"

lemma map_of_map_filter:
  "map_of (map (\<lambda>(n, v). (n, f v)) (filter (\<lambda>(n, _). P n) cols)) c =
     (if P c then map_option f (map_of cols c) else None)"
  by (induction cols) auto

lemma map_of_doc_fields:
  assumes "c \<notin> {''id'', ''created_at'', ''updated_at''}"
  shows "map_of (doc_fields (row_to_document base64 None r)) c = map_option (db_to_json base64) (map_of (fr_cols r) c)"
proof -
  have "doc_fields (row_to_document base64 None r) = map (\<lambda>(n, v). (n, db_to_json base64 v))
      (filter (\<lambda>(n, _). n \<notin> {''id'', ''created_at'', ''updated_at''}) (fr_cols r))"
    by (simp add: row_to_document_def column_selected_def)
  then show ?thesis using assms
    by (simp only: map_of_map_filter [where P = "\<lambda>n. n \<notin> {''id'', ''created_at'', ''updated_at''}"]) simp
qed

lemma row_cursor_sel [simp]:
  "cd_sort_col (row_cursor env base64 col dir st r) = col"
  "cd_id (row_cursor env base64 col dir st r) = fr_id r"
  by (simp_all add: row_cursor_def cursor_from_doc_def row_to_document_def)

lemma row_cursor_value_id:
  "db_value_of_sort (cd_sort_val (row_cursor env base64 ''id'' dir st r)) = column r ''id''"
  by (simp add: row_cursor_def cursor_from_doc_def row_to_document_def column_def)

lemma row_cursor_value_timestamp:
  assumes "sortable col (column r col)" "col \<in> {''created_at'', ''updated_at''}"
  shows "db_value_of_sort (cd_sort_val (row_cursor env base64 col dir st r)) = column r col"
proof -
  have "cd_sort_val (row_cursor env base64 col dir st r) =
      (case timestamp_of (column r col) of None \<Rightarrow> SNull | Some v \<Rightarrow> SText v)"
    using assms(2) by (auto simp: row_cursor_def cursor_from_doc_def row_to_document_def)
  then show ?thesis
    using assms by (cases "column r col") (auto simp: sortable_def timestamp_of_def)
qed

lemma row_cursor_value_field:
  assumes "sortable col (column r col)" "col \<notin> {''id'', ''created_at'', ''updated_at''}"
  shows "db_value_of_sort (cd_sort_val (row_cursor env base64 col dir st r)) = column r col"
proof -
  have "cd_sort_val (row_cursor env base64 col dir st r) =
      (case map_option (db_to_json base64) (map_of (fr_cols r) col) of
         None \<Rightarrow> SNull | Some v \<Rightarrow> sort_value_of_json env v)"
    using assms(2) by (simp add: row_cursor_def cursor_from_doc_def map_of_doc_fields)
  moreover have "column r col = unwrap_or DNull (map_of (fr_cols r) col)"
    using assms(2) by (simp add: column_def)
  moreover have "db_value_of_sort (sort_value_of_json env (db_to_json base64 v)) = v" if "sortable col v" for v
    using that by (cases v) (auto simp: sortable_def)
  ultimately show ?thesis using assms(1) by (auto split: option.splits)
qed

lemma row_cursor_value:
  assumes "sortable col (column r col)"
  shows "db_value_of_sort (cd_sort_val (row_cursor env base64 col dir st r)) = column r col"
  using assms row_cursor_value_id row_cursor_value_timestamp row_cursor_value_field by blast

lemma row_cursor_status:
  assumes "st \<Longrightarrow> has_status r"
  shows "cd_status_val (row_cursor env base64 col dir st r) =
    (if st then (case column r ''_status'' of DText s \<Rightarrow> Some s | _ \<Rightarrow> None) else None)"
proof (cases st)
  case True
  with assms obtain s where s: "column r ''_status'' = DText s" by (auto simp: has_status_def)
  then have "map_of (fr_cols r) ''_status'' = Some (DText s)"
    by (simp add: column_def unwrap_or_def split: option.splits)
  with True s show ?thesis by (simp add: row_cursor_def cursor_from_doc_def map_of_doc_fields)
qed (simp add: row_cursor_def cursor_from_doc_def)

section \<open>The condition is the order\<close>

lemma less_lex3:
  "((a::'a::linorder, b::'b::linorder, c::'c::linorder) < (a', b', c')) \<longleftrightarrow>
     a < a' \<or> a = a' \<and> (b < b' \<or> b = b' \<and> c < c')"
  by (auto simp: less_prod_simp)

lemma sql_cmp_id:
  "sql_cmp Greater (column r ''id'') (DText i) \<longleftrightarrow> i < fr_id r"
  "sql_cmp Less (column r ''id'') (DText i) \<longleftrightarrow> fr_id r < i"
  by (simp_all add: column_def)

lemma inner_op_dir:
  "inner_op dir before = (case (if before then flip dir else dir) of Asc \<Rightarrow> Greater | Desc \<Rightarrow> Less)"
  by (cases dir) (simp_all add: inner_op_def)

definition key_after :: "sort_direction \<Rightarrow> db_value \<Rightarrow> string \<Rightarrow> db_value \<Rightarrow> string \<Rightarrow> bool" where
  "key_after d v i w j \<longleftrightarrow>
     in_direction d (value_key v) < in_direction d (value_key w) \<or>
     value_key v = value_key w \<and> in_direction d (KText i) < in_direction d (KText j)"

lemma inner_keyset_asc: "inner_keyset_clause col Greater v i r \<longleftrightarrow> key_after Asc v i (column r col) (fr_id r)"
  unfolding inner_keyset_clause_def key_after_def sql_cmp_id
  by (cases "v = DNull"; cases "column r col = DNull") (simp_all add: sql_eq_def, metis+)

lemma inner_keyset_desc:
  assumes "v = DNull \<or> column r col \<noteq> DNull"
  shows "inner_keyset_clause col Less v i r \<longleftrightarrow> key_after Desc v i (column r col) (fr_id r)"
  using assms unfolding inner_keyset_clause_def key_after_def sql_cmp_id
  by (cases "v = DNull"; cases "column r col = DNull") (auto simp: sql_eq_def)

lemma inner_keyset_iff:
  assumes "inner_op dir before = Greater \<or> v = DNull \<or> column r col \<noteq> DNull"
  shows "inner_keyset_clause col (inner_op dir before) v i r \<longleftrightarrow>
    key_after (if before then flip dir else dir) v i (column r col) (fr_id r)"
  using assms unfolding inner_op_dir
  by (cases "if before then flip dir else dir") (simp_all only: sort_direction.case inner_keyset_asc inner_keyset_desc key_op.distinct simp_thms)

lemma order_key_less:
  "order_key st col dir before r0 < order_key st col dir before r \<longleftrightarrow>
     (let k = key_after (if before then flip dir else dir) (column r0 col) (fr_id r0) (column r col) (fr_id r);
          a = value_key (column r0 ''_status''); b = value_key (column r ''_status'')
      in if st then (if before then b < a else a < b) \<or> a = b \<and> k else k)"
  by (cases before; cases st) (simp_all only: order_key_def Let_def less_lex3 key_after_def if_True if_False simp_thms
    in_direction_less in_direction_inject sort_direction.case order.irrefl)

lemma sql_status:
  "sql_cmp Greater (DText s) (DText s0) \<longleftrightarrow> KText s0 < KText s"
  "sql_cmp Less (DText s) (DText s0) \<longleftrightarrow> KText s < KText s0"
  "sql_eq (DText s) (DText s0) \<longleftrightarrow> KText s0 = KText s"
  by (auto simp: sql_eq_def)

lemma keyset_iff:
  assumes "sortable col (column r0 col)" "st \<Longrightarrow> has_status r0" "st \<Longrightarrow> has_status r"
    and "inner_op dir before = Greater \<or> column r0 col = DNull \<or> column r col \<noteq> DNull"
  shows "keyset_clause (row_cursor env base64 col dir st r0) col dir before r \<longleftrightarrow>
    order_key st col dir before r0 < order_key st col dir before r"
proof (cases st)
  case False
  then have "cd_status_val (row_cursor env base64 col dir st r0) = None"
    by (subst row_cursor_status) simp_all
  with False assms show ?thesis
    by (simp only: keyset_clause_def row_cursor_value row_cursor_sel inner_keyset_iff order_key_less
        Let_def option.case if_False)
next
  case True
  with assms(2,3) obtain s0 s where s: "column r0 ''_status'' = DText s0" "column r ''_status'' = DText s"
    by (auto simp: has_status_def)
  have "cd_status_val (row_cursor env base64 col dir st r0) = Some s0"
    using True s(1) by (subst row_cursor_status) (simp_all add: has_status_def)
  then show ?thesis
    using True assms(1,4) s
    by (cases before)
      (simp_all only: keyset_clause_def row_cursor_value row_cursor_sel inner_keyset_iff order_key_less
        Let_def option.case if_True if_False sql_status s value_key.simps)
qed

section \<open>Pages are slices\<close>

lemma filter_after_nth:
  assumes "sorted_wrt (<) (map k S)" "i < length S"
  shows "filter (\<lambda>r. (k (S ! i) :: 'k::linorder) < k r) S = drop (Suc i) S"
proof -
  let ?x = "S ! i"
  have S: "S = take i S @ ?x # drop (Suc i) S" by (rule id_take_nth_drop [OF assms(2)])
  have "sorted_wrt (<) (map k (take i S @ ?x # drop (Suc i) S))" using assms(1) S by metis
  then have lower: "\<And>r. r \<in> set (take i S) \<Longrightarrow> k r < k ?x"
    and upper: "\<And>r. r \<in> set (drop (Suc i) S) \<Longrightarrow> k ?x < k r"
    by (auto simp: sorted_wrt_append)
  have "filter (\<lambda>r. k ?x < k r) (take i S) = []"
    using lower by (auto simp: filter_empty_conv dest: less_not_sym)
  moreover have "filter (\<lambda>r. k ?x < k r) (drop (Suc i) S) = drop (Suc i) S"
    using upper by (simp add: filter_id_conv)
  moreover have "filter (\<lambda>r. k ?x < k r) S =
      filter (\<lambda>r. k ?x < k r) (take i S) @ filter (\<lambda>r. k ?x < k r) (?x # drop (Suc i) S)"
    using filter_append [of "\<lambda>r. k ?x < k r" "take i S" "?x # drop (Suc i) S"] S by metis
  ultimately show ?thesis by simp
qed

definition in_order :: "bool \<Rightarrow> string \<Rightarrow> sort_direction \<Rightarrow> find_row list \<Rightarrow> find_row list" where
  "in_order st col dir rows = sort_key (order_key st col dir False) rows"

lemma order_key_id: "order_key st col dir before r = order_key st col dir before r' \<Longrightarrow> fr_id r = fr_id r'"
  by (auto simp: order_key_def Let_def)

lemma order_keys_distinct: "distinct (map fr_id rows) \<Longrightarrow> distinct (map (order_key st col dir before) rows)"
  by (induction rows) (auto dest: order_key_id)

lemma in_order_strict:
  assumes "distinct (map fr_id rows)"
  shows "sorted_wrt (<) (map (order_key st col dir before) (sort_key (order_key st col dir before) rows))"
proof -
  have "distinct (map fr_id (sort_key (order_key st col dir before) rows))"
    using assms by (simp add: distinct_map)
  from order_keys_distinct [OF this] show ?thesis by (simp add: strict_sorted_iff)
qed

lemma order_key_flip:
  "order_key st col dir True r < order_key st col dir True r' \<longleftrightarrow>
     order_key st col dir False r' < order_key st col dir False r"
  by (cases dir; cases st) (auto simp only: order_key_less key_after_def Let_def if_True if_False flip.simps
    in_direction_less sort_direction.case)

lemma in_order_before:
  assumes "distinct (map fr_id rows)"
  shows "sort_key (order_key st col dir True) rows = rev (in_order st col dir rows)"
proof -
  let ?k = "order_key st col dir True"
  have "sorted_wrt (\<lambda>r r'. order_key st col dir False r < order_key st col dir False r') (in_order st col dir rows)"
    using in_order_strict [OF assms, of st col dir False] by (simp add: in_order_def sorted_wrt_map)
  then have "sorted_wrt (<) (map ?k (rev (in_order st col dir rows)))"
    by (simp add: sorted_wrt_map sorted_wrt_rev order_key_flip)
  moreover have "sorted_wrt (<) (map ?k (sort_key ?k rows))" by (rule in_order_strict [OF assms])
  moreover have "inj_on ?k (set rows)"
    using order_keys_distinct [OF assms, of st col dir True] by (simp add: distinct_map)
  ultimately show ?thesis
    by (intro map_sorted_distinct_set_unique [of ?k]) (auto simp: strict_sorted_iff in_order_def)
qed

text \<open>What a keyset walk needs of the collection, the query and the rows it selects.\<close>

definition sorts_by :: "collection_info \<Rightarrow> find_query \<Rightarrow> string \<Rightarrow> sort_direction \<Rightarrow> bool" where
  "sorts_by info fq col dir \<longleftrightarrow>
     resolve_order (fq_order_by fq) (ci_timestamps info) = (col, dir) \<and> is_valid_sort_column col info \<and>
     fq_offset fq = None \<and> fq_select fq = None"

definition walkable :: "bool \<Rightarrow> string \<Rightarrow> find_row list \<Rightarrow> bool" where
  "walkable st col rows \<longleftrightarrow>
     distinct (map fr_id rows) \<and> (\<forall>r\<in>set rows. sortable col (column r col) \<and> (st \<longrightarrow> has_status r))"

definition no_nulls :: "string \<Rightarrow> find_row list \<Rightarrow> bool" where
  "no_nulls col rows \<longleftrightarrow> (\<forall>r\<in>set rows. column r col \<noteq> DNull)"

lemma keyset_filter:
  assumes "walkable st col rows" "dir = (if before then Desc else Asc) \<or> no_nulls col rows" "r0 \<in> set rows"
  shows "filter (keyset_clause (row_cursor env base64 col dir st r0) col dir before) rows =
    filter (\<lambda>r. order_key st col dir before r0 < order_key st col dir before r) rows"
proof (rule filter_cong [OF refl])
  fix r assume r: "r \<in> set rows"
  have "inner_op dir before = Greater \<or> column r0 col = DNull \<or> column r col \<noteq> DNull"
    using assms(2) r by (auto simp: inner_op_def no_nulls_def split: if_splits)
  with assms(1,3) r show "keyset_clause (row_cursor env base64 col dir st r0) col dir before r \<longleftrightarrow>
      order_key st col dir before r0 < order_key st col dir before r"
    by (intro keyset_iff) (auto simp: walkable_def)
qed

lemma find_first_page:
  assumes "sorts_by info fq col dir" "st = cursor_status_active (ci_has_drafts info) col"
    and "fq_after fq = None" "fq_before fq = None" "fq_limit fq = Some n"
  shows "find_rows info fq w table = Inr (take (nat (max n 0)) (in_order st col dir (filter w table)))"
  using assms
  by (simp add: find_rows_def resolve_sort_def sorts_by_def apply_cursor_keyset_def apply_limit_offset_def
      result_simps in_order_def)

lemma find_after_page:
  fixes rows st col dir defines "S \<equiv> in_order st col dir rows"
  assumes "sorts_by info fq col dir" "st = cursor_status_active (ci_has_drafts info) col" "rows = filter w table"
    and "walkable st col rows" "dir = Asc \<or> no_nulls col rows" "i < length S"
    and "fq_after fq = Some (row_cursor env base64 col dir st (S ! i))" "fq_before fq = None" "fq_limit fq = Some n"
  shows "find_rows info fq w table = Inr (take (nat (max n 0)) (drop (Suc i) S))"
proof -
  let ?c = "row_cursor env base64 col dir st (S ! i)" and ?k = "order_key st col dir False"
  have mem: "S ! i \<in> set rows" using nth_mem [OF assms(7)] by (simp add: S_def in_order_def)
  have "filter (\<lambda>r. w r \<and> keyset_clause ?c col dir False r) table =
      filter (keyset_clause ?c col dir False) rows"
    by (simp add: assms(4) conj_commute)
  also have "\<dots> = filter (\<lambda>r. ?k (S ! i) < ?k r) rows"
    using assms(5,6) mem by (intro keyset_filter) auto
  finally have "sort_key ?k (filter (\<lambda>r. w r \<and> keyset_clause ?c col dir False r) table) =
      filter (\<lambda>r. ?k (S ! i) < ?k r) S"
    by (simp add: S_def in_order_def filter_sort)
  also have "\<dots> = drop (Suc i) S"
    using assms(5) by (intro filter_after_nth assms) (simp add: S_def in_order_def in_order_strict walkable_def)
  finally show ?thesis
    using assms
    by (simp add: find_rows_def resolve_sort_def sorts_by_def apply_cursor_keyset_def apply_limit_offset_def
        result_simps)
qed

lemma find_before_page:
  fixes rows st col dir defines "S \<equiv> in_order st col dir rows"
  assumes "sorts_by info fq col dir" "st = cursor_status_active (ci_has_drafts info) col" "rows = filter w table"
    and "walkable st col rows" "dir = Desc \<or> no_nulls col rows" "i < length S"
    and "fq_before fq = Some (row_cursor env base64 col dir st (S ! i))" "fq_after fq = None" "fq_limit fq = Some n"
  shows "find_rows info fq w table = Inr (drop (i - nat (max n 0)) (take i S))"
proof -
  let ?c = "row_cursor env base64 col dir st (S ! i)" and ?k = "order_key st col dir True"
  have d: "distinct (map fr_id rows)" using assms(5) by (simp add: walkable_def)
  have mem: "S ! i \<in> set rows" using nth_mem [OF assms(7)] by (simp add: S_def in_order_def)
  have "filter (\<lambda>r. w r \<and> keyset_clause ?c col dir True r) table =
      filter (keyset_clause ?c col dir True) rows"
    by (simp add: assms(4) conj_commute)
  also have "\<dots> = filter (\<lambda>r. ?k (S ! i) < ?k r) rows"
    using assms(5,6) mem by (intro keyset_filter) auto
  finally have "sort_key ?k (filter (\<lambda>r. w r \<and> keyset_clause ?c col dir True r) table) =
      filter (\<lambda>r. ?k (S ! i) < ?k r) (rev S)"
    using d by (simp add: S_def in_order_before [symmetric] filter_sort)
  also have "\<dots> = filter (\<lambda>r. ?k (rev S ! (length S - Suc i)) < ?k r) (rev S)"
    using assms(7) by (simp add: rev_nth)
  also have "\<dots> = drop (Suc (length S - Suc i)) (rev S)"
  proof (rule filter_after_nth)
    show "sorted_wrt (<) (map ?k (rev S))"
      using d by (simp add: S_def in_order_before [symmetric] in_order_strict)
  qed (use assms(7) in simp)
  also have "\<dots> = rev (take i S)" using assms(7) by (simp add: rev_take Suc_diff_Suc)
  finally show ?thesis
    using assms(2-4,7-)
    by (simp add: find_rows_def resolve_sort_def sorts_by_def apply_cursor_keyset_def apply_limit_offset_def
        result_simps take_rev min_def)
qed

section \<open>The pages of the service\<close>

definition shown :: "find_input \<Rightarrow> find_query \<Rightarrow> find_row \<Rightarrow> document" where
  "shown inp fq r = fi_post inp (row_to_document (fi_base64 inp) (fq_select fq) r)"

lemma shown_fun: "(\<lambda>r. fi_post inp (row_to_document (fi_base64 inp) (fq_select fq) r)) = shown inp fq"
  by (simp add: shown_def fun_eq_iff)

lemma shown_after [simp]: "shown inp (fq\<lparr>fq_after := x\<rparr>) = shown inp fq"
  by (simp add: shown_def fun_eq_iff)

lemma wrap_limit: "0 \<le> n \<Longrightarrow> n < i64_max \<Longrightarrow> wrap_i64 (n + 1) = n + 1"
  by (simp add: wrap_i64_id i64_max_def)

lemma trim_map: "trim_overfetch ov b n (map f xs) = map_prod (map f) id (trim_overfetch ov b n xs)"
  by (simp add: trim_overfetch_def map_tl map_butlast)

lemma trim_forward:
  "0 < n \<Longrightarrow> trim_overfetch True False n (take (Suc (nat n)) xs) = (take (nat n) xs, Some (nat n < length xs))"
  by (cases "nat n < length xs") (simp_all add: trim_overfetch_def butlast_take)

lemma trim_backward:
  assumes "0 < n" "i \<le> length xs"
  shows "trim_overfetch True True n (drop (i - Suc (nat n)) (take i xs)) =
    (drop (i - nat n) (take i xs), Some (nat n < i))"
proof (cases "nat n < i")
  case True
  then have "tl (drop (i - Suc (nat n)) (take i xs)) = drop (i - nat n) (take i xs)"
    by (simp add: tl_drop drop_Suc [symmetric] Suc_diff_Suc)
  with True assms show ?thesis by (auto simp: trim_overfetch_def)
qed (use assms in \<open>auto simp: trim_overfetch_def\<close>)

lemma find_documents_after:
  fixes rows st col dir defines "S \<equiv> in_order st col dir rows"
  assumes "sorts_by info fq col dir" "st = cursor_status_active (ci_has_drafts info) col" "rows = filter w table"
    and "walkable st col rows" "dir = Asc \<or> no_nulls col rows" "i < length S"
    and "fq_after fq = Some (row_cursor env base64 col dir st (S ! i))" "fq_before fq = None"
    and "fq_limit fq = Some n" "0 < n" "n < i64_max" "fi_cursor_enabled inp"
  shows "find_documents inp info fq w table =
    (let docs = map (shown inp fq) (take (nat n) (drop (Suc i) S))
     in Inr (docs, build_pagination inp info fq docs (int (length rows)) True
                     (Some (Suc i + nat n < length S))))"
proof -
  let ?fq = "fq\<lparr>fq_limit := Some (n + 1)\<rparr>"
  have n: "nat (max (n + 1) 0) = Suc (nat n)" using assms(11) by (simp add: max_def)
  have sorts: "sorts_by info ?fq col dir" using assms(2) by (simp add: sorts_by_def)
  have "find_rows info ?fq w table = Inr (take (Suc (nat n)) (drop (Suc i) S))"
    unfolding S_def n [symmetric]
    by (rule find_after_page [OF sorts assms(3-6) assms(7) [unfolded S_def]])
      (use assms(8,9) in \<open>simp_all add: S_def\<close>)
  moreover have "nat n < length S - Suc i \<longleftrightarrow> Suc i + nat n < length S" by auto
  ultimately show ?thesis
    using assms(4,8-13)
    by (simp add: find_documents_def wrap_limit result_simps trim_map trim_forward shown_fun Let_def comp_def)
qed

lemma find_documents_before:
  fixes rows st col dir defines "S \<equiv> in_order st col dir rows"
  assumes "sorts_by info fq col dir" "st = cursor_status_active (ci_has_drafts info) col" "rows = filter w table"
    and "walkable st col rows" "dir = Desc \<or> no_nulls col rows" "i < length S"
    and "fq_before fq = Some (row_cursor env base64 col dir st (S ! i))" "fq_after fq = None"
    and "fq_limit fq = Some n" "0 < n" "n < i64_max" "fi_cursor_enabled inp"
  shows "find_documents inp info fq w table =
    (let docs = map (shown inp fq) (drop (i - nat n) (take i S))
     in Inr (docs, build_pagination inp info fq docs (int (length rows)) True (Some (nat n < i))))"
proof -
  let ?fq = "fq\<lparr>fq_limit := Some (n + 1)\<rparr>"
  have n: "nat (max (n + 1) 0) = Suc (nat n)" using assms(11) by (simp add: max_def)
  have sorts: "sorts_by info ?fq col dir" using assms(2) by (simp add: sorts_by_def)
  have "find_rows info ?fq w table = Inr (drop (i - Suc (nat n)) (take i S))"
    unfolding S_def n [symmetric]
    by (rule find_before_page [OF sorts assms(3-6) assms(7) [unfolded S_def]])
      (use assms(8,9) in \<open>simp_all add: S_def\<close>)
  then show ?thesis
    using assms(4,7-13)
    by (simp add: find_documents_def wrap_limit result_simps trim_map trim_backward shown_fun Let_def comp_def)
qed

lemma cursor_result_flags:
  "pr_has_next_page (cursor_result env codec docs tot limit ob flags) =
     (if cf_had_before_cursor flags then True
      else if cf_had_any_cursor flags
           then unwrap_or (limit \<le> int (length docs) \<and> docs \<noteq> []) (cf_cursor_has_more flags)
           else 1 < total_pages 1 tot limit)"
  "pr_has_prev_page (cursor_result env codec docs tot limit ob flags) =
     (if cf_had_before_cursor flags
      then unwrap_or (limit \<le> int (length docs) \<and> docs \<noteq> []) (cf_cursor_has_more flags)
      else cf_had_any_cursor flags)"
  "resolve_order ob (cf_has_timestamps flags) = (col, dir) \<Longrightarrow>
   pr_end_cursor (cursor_result env codec docs tot limit ob flags) =
     (if docs = [] then None
      else encode_doc env codec (last docs) col dir (cursor_status_active (cf_has_drafts flags) col))"
  by (simp_all add: cursor_result_def build_cursors_def Let_def split: prod.split)

lemma page_flags:
  assumes "fi_cursor_enabled inp" "fq_limit fq = Some n"
  shows "pr_has_next_page (build_pagination inp info fq docs tot had extra) =
      (if fq_before fq \<noteq> None then True
       else if had then unwrap_or (n \<le> int (length docs) \<and> docs \<noteq> []) extra else 1 < total_pages 1 tot n)"
    "pr_has_prev_page (build_pagination inp info fq docs tot had extra) =
      (if fq_before fq \<noteq> None then unwrap_or (n \<le> int (length docs) \<and> docs \<noteq> []) extra else had)"
    "resolve_order (fq_order_by fq) (ci_timestamps info) = (col, dir) \<Longrightarrow>
     pr_end_cursor (build_pagination inp info fq docs tot had extra) =
      (if docs = [] then None
       else encode_doc (fi_env inp) (fi_codec inp) (last docs) col dir
              (cursor_status_active (ci_has_drafts info) col))"
  using assms by (simp_all add: build_pagination_def cursor_result_flags)

text \<open>The library's cursor text and the post-processing give the cursor of the row back.\<close>

definition cursors_intact ::
  "find_input \<Rightarrow> find_query \<Rightarrow> bool \<Rightarrow> string \<Rightarrow> sort_direction \<Rightarrow> find_row list \<Rightarrow> bool" where
  "cursors_intact inp fq st col dir rows \<longleftrightarrow>
     (\<forall>r\<in>set rows.
        cursor_from_doc (fi_env inp) (shown inp fq r) col dir st =
          row_cursor (fi_env inp) (fi_base64 inp) col dir st r \<and>
        (case cc_encode (fi_codec inp) (row_cursor (fi_env inp) (fi_base64 inp) col dir st r) of
           None \<Rightarrow> False
         | Some s \<Rightarrow> decode (fi_codec inp) s =
             Inr (row_cursor (fi_env inp) (fi_base64 inp) col dir st r)))"

lemma cursors_intactE:
  assumes "cursors_intact inp fq st col dir rows" "r \<in> set rows"
  obtains s where "encode_doc (fi_env inp) (fi_codec inp) (shown inp fq r) col dir st = Some s"
    "decode (fi_codec inp) s = Inr (row_cursor (fi_env inp) (fi_base64 inp) col dir st r)"
  using assms by (auto simp: cursors_intact_def encode_doc_def split: option.splits)

lemma walk_after:
  fixes rows st col dir defines "S \<equiv> in_order st col dir rows"
  assumes "sorts_by info fq col dir" "st = cursor_status_active (ci_has_drafts info) col" "rows = filter w table"
    and "walkable st col rows" "dir = Asc \<or> no_nulls col rows" "fq_before fq = None"
    and "fq_limit fq = Some n" "0 < n" "n < i64_max" "fi_cursor_enabled inp" "cursors_intact inp fq st col dir rows"
  shows "i < length S \<Longrightarrow> length S - i \<le> m \<Longrightarrow>
    walk m inp info (fq\<lparr>fq_after := Some (row_cursor (fi_env inp) (fi_base64 inp) col dir st (S ! i))\<rparr>) w table =
      Some (map (shown inp fq) (drop (Suc i) S))"
proof (induction m arbitrary: i)
  case 0
  then show ?case by simp
next
  case (Suc m)
  let ?cur = "\<lambda>r. row_cursor (fi_env inp) (fi_base64 inp) col dir st r"
  let ?q = "fq\<lparr>fq_after := Some (?cur (S ! i))\<rparr>"
  let ?docs = "map (shown inp fq) (take (nat n) (drop (Suc i) S))"
  have sorts: "sorts_by info ?q col dir" using assms(2) by (simp add: sorts_by_def)
  have res: "resolve_order (fq_order_by fq) (ci_timestamps info) = (col, dir)" using assms(2) by (simp add: sorts_by_def)
  have run: "find_documents inp info ?q w table =
      Inr (?docs, build_pagination inp info ?q ?docs (int (length rows)) True (Some (Suc i + nat n < length S)))"
    using find_documents_after [OF sorts assms(3-6) Suc.prems(1) [unfolded S_def], of "fi_env inp" "fi_base64 inp" n inp]
      assms(7-11) by (simp add: S_def Let_def)
  show ?case
  proof (cases "Suc i + nat n < length S")
    case False
    then have "take (nat n) (drop (Suc i) S) = drop (Suc i) S" by simp
    with False run show ?thesis
      by (simp add: page_flags(1) [where n = n] assms(7,8,11))
  next
    case True
    let ?j = "i + nat n"
    have j: "?j < length S" "length S - ?j \<le> m" using True Suc.prems(2) assms(9) by auto
    have l: "last (take (nat n) (drop (Suc i) S)) = S ! ?j" "take (nat n) (drop (Suc i) S) \<noteq> []"
      using True assms(9) by (auto simp: last_conv_nth)
    have "S ! ?j \<in> set rows" using nth_mem [OF j(1)] by (simp add: S_def in_order_def)
    from cursors_intactE [OF assms(12) this] obtain s where
      s: "encode_doc (fi_env inp) (fi_codec inp) (shown inp fq (S ! ?j)) col dir st = Some s"
        "decode (fi_codec inp) s = Inr (?cur (S ! ?j))" by blast
    have "pr_end_cursor (build_pagination inp info ?q ?docs (int (length rows)) True (Some True)) = Some s"
      by (subst page_flags(3) [where n = n and col = col and dir = dir])
        (use assms(3,8,11) res l s in \<open>auto simp: last_map\<close>)
    moreover have "take (nat n) (drop (Suc i) S) @ drop (Suc ?j) S = drop (Suc i) S"
      using append_take_drop_id [of "nat n" "drop (Suc i) S"] by (simp add: add.commute)
    ultimately show ?thesis
      using True run s(2) Suc.IH [OF j]
      by (simp add: page_flags(1) [where n = n] assms(7,8,11) flip: map_append)
  qed
qed

section \<open>Properties\<close>


text \<open>
  A page fetched before a cursor is the slice of the sorted rows that ends just before the
  cursor's row, in the same forward order, with \<open>has_prev_page\<close> exactly when rows remain in front
  of it and \<open>has_next_page\<close> set.
\<close>
theorem page_before_cursor_exact:
  assumes "sorts_by info fq col dir" "st = cursor_status_active (ci_has_drafts info) col" "rows = filter w table"
    and "walkable st col rows" "dir = Desc \<or> no_nulls col rows" "i < length rows"
    and "fq_before fq = Some (row_cursor env base64 col dir st (in_order st col dir rows ! i))" "fq_after fq = None"
    and "fq_limit fq = Some n" "0 < n" "n < i64_max" "fi_cursor_enabled inp"
  shows "\<exists>pr. find_documents inp info fq w table =
      Inr (map (shown inp fq) (drop (i - nat n) (take i (in_order st col dir rows))), pr) \<and>
    (pr_has_prev_page pr \<longleftrightarrow> nat n < i) \<and> pr_has_next_page pr"
  using find_documents_before [OF assms(1-5) _ assms(7-12)] assms(6,7,9,12)
  by (simp add: in_order_def Let_def page_flags [where n = n])

lemma find_documents_first:
  assumes "sorts_by info fq col dir" "st = cursor_status_active (ci_has_drafts info) col" "rows = filter w table"
    and "fq_after fq = None" "fq_before fq = None" "fq_limit fq = Some n" "0 < n"
  shows "find_documents inp info fq w table =
    (let docs = map (shown inp fq) (take (nat n) (in_order st col dir rows))
     in Inr (docs, build_pagination inp info fq docs (int (length rows)) False None))"
  using find_first_page [OF assms(1,2,4-6), of w table] assms(3-7)
  by (simp add: find_documents_def result_simps trim_overfetch_def shown_fun Let_def comp_def)

lemma more_than_one_page:
  assumes "0 < n" "n + int k < 2 ^ 63"
  shows "1 < total_pages 1 (int k) n \<longleftrightarrow> nat n < k"
proof -
  have "total_pages 1 (int k) n = (n * 1 + (int k - 1)) div n"
    using assms by (subst total_pages_ceil) (auto simp: algebra_simps)
  also have "\<dots> = 1 + (int k - 1) div n" using assms(1) by (subst div_mult_self4) auto
  finally show ?thesis using assms(1) by (auto simp: pos_imp_zdiv_pos_iff)
qed


text \<open>
  In descending order a cursor with a value excludes every row whose sort column is NULL,
  although the ORDER BY puts those rows after the cursor's row: no page after the cursor shows them.
\<close>
theorem descending_walk_skips_nulls:
  assumes "sorts_by info fq col Desc" "st = cursor_status_active (ci_has_drafts info) col" "st = False"
    and "column r0 col \<noteq> DNull" "sortable col (column r0 col)" "column r col = DNull"
    and "fq_after fq = Some (row_cursor env base64 col Desc st r0)" "fq_before fq = None"
    and "find_rows info fq w table = Inr page"
  shows "order_key st col Desc False r0 < order_key st col Desc False r \<and> r \<notin> set page"
proof -
  let ?c = "row_cursor env base64 col Desc st r0"
  have v: "db_value_of_sort (cd_sort_val ?c) = column r0 col" by (rule row_cursor_value [OF assms(5)])
  have "cd_status_val ?c = None" using assms(3) by (subst row_cursor_status) simp_all
  then have not: "\<not> keyset_clause ?c col Desc False r"
    using assms(4,6) v by (simp add: keyset_clause_def inner_keyset_clause_def inner_op_def sql_eq_def)
  have "set page \<subseteq> {r. keyset_clause ?c col Desc False r}"
    using assms(1,7-9) set_take_subset set_drop_subset
    by (fastforce simp: find_rows_def resolve_sort_def sorts_by_def apply_cursor_keyset_def apply_limit_offset_def
        result_simps dest: in_set_takeD split: option.splits)
  moreover have "order_key st col Desc False r0 < order_key st col Desc False r"
    using assms(3,4,6) by (simp add: order_key_less key_after_def)
  ultimately show ?thesis using not by auto
qed

lemma unselected_cursor:
  assumes "fq_select fq = Some sel" "sel \<noteq> []" "\<not> column_selected (Some sel) col"
  shows "cd_sort_val (cursor_from_doc env (row_to_document base64 (fq_select fq) r0) col dir st) = SNull"
proof -
  have not_system: "col \<notin> {''id'', ''created_at'', ''updated_at''}"
    using assms(3) by (auto simp: column_selected_def always_selected_def)
  have "map_of (doc_fields (row_to_document base64 (fq_select fq) r0)) col = None"
    using assms(1,3) by (auto simp: row_to_document_def map_of_eq_None_iff image_iff)
  with not_system show ?thesis by (simp add: cursor_from_doc_def)
qed

text \<open>
  When the query selects columns without the one it sorts by, the cursor of a returned document
  has lost its sort value: in ascending order the next page is then drawn again from all the rows
  that have a value, the rows already shown among them, so a client that follows the cursors does
  not advance.
\<close>
theorem unselected_sort_column_repeats_rows:
  assumes "resolve_order (fq_order_by fq) (ci_timestamps info) = (col, Asc)" "is_valid_sort_column col info"
    and "fq_select fq = Some sel" "sel \<noteq> []" "\<not> column_selected (Some sel) col"
    and "fq_after fq = Some (cursor_from_doc env (row_to_document base64 (fq_select fq) r0) col Asc False)"
    and "fq_before fq = None" "fq_offset fq = None" "fq_limit fq = None"
    and "r \<in> set table" "w r" "column r col \<noteq> DNull"
  shows "\<exists>page. find_rows info fq w table = Inr page \<and> r \<in> set page"
proof -
  let ?c = "cursor_from_doc env (row_to_document base64 (fq_select fq) r0) col Asc False"
  have "cd_status_val ?c = None" "cd_sort_col ?c = col" by (simp_all add: cursor_from_doc_def)
  moreover have "cd_sort_val ?c = SNull" by (rule unselected_cursor [OF assms(3-5)])
  ultimately have "keyset_clause ?c col Asc False r"
    using assms(12) by (simp add: keyset_clause_def inner_keyset_clause_def inner_op_def)
  with \<open>cd_sort_col ?c = col\<close> assms show ?thesis
    by (simp add: find_rows_def resolve_sort_def apply_cursor_keyset_def apply_limit_offset_def result_simps)
qed

section \<open>Witnesses\<close>

text \<open>Posts sorted by their title; the codec keeps the cursor in a table keyed by its id.\<close>

definition sample_post :: "string \<Rightarrow> db_value \<Rightarrow> find_row" where
  "sample_post i v = \<lparr>fr_id = i, fr_cols = [(''title'', v)]\<rparr>"

definition posts_info :: collection_info where
  "posts_info = \<lparr>ci_timestamps = False, ci_has_drafts = False,
     ci_fields = []\<rparr>"

definition by_id_query :: find_query where
  "by_id_query = \<lparr>fq_order_by = Some ''id'', fq_limit = Some 1, fq_offset = None, fq_select = None,
     fq_after = None, fq_before = None\<rparr>"

definition posts_env :: json_env where
  "posts_env = \<lparr>nearest_f64 = (\<lambda>i. of_int i), json_text = (\<lambda>v. [])\<rparr>"

definition id_codec :: cursor_codec where
  "id_codec = \<lparr>cc_encode = (\<lambda>d. Some (cd_id d)),
     cc_decode = (\<lambda>s. Some \<lparr>cd_sort_col = ''id'', cd_sort_dir = Asc, cd_sort_val = SText s, cd_id = s,
                             cd_status_val = None\<rparr>)\<rparr>"

definition posts_input :: find_input where
  "posts_input = \<lparr>fi_env = posts_env, fi_codec = id_codec, fi_base64 = (\<lambda>b. b), fi_post = (\<lambda>d. d),
     fi_cursor_enabled = True\<rparr>"

definition posts :: "find_row list" where
  "posts = [sample_post ''c'' (DText ''z''), sample_post ''a'' (DText ''y''), sample_post ''b'' (DText ''x'')]"

lemma posts_setup:
  "sorts_by posts_info by_id_query ''id'' Asc"
  "cursor_status_active (ci_has_drafts posts_info) ''id'' = False"
  "walkable False ''id'' posts" "no_nulls ''id'' posts" "length posts = 3"
  "in_order False ''id'' Asc posts =
     [sample_post ''a'' (DText ''y''), sample_post ''b'' (DText ''x''), sample_post ''c'' (DText ''z'')]"
  by (simp_all add: sorts_by_def resolve_order_def posts_info_def by_id_query_def is_valid_sort_column_def
      cursor_status_active_def walkable_def no_nulls_def posts_def sample_post_def sortable_def column_def)
    (simp add: in_order_def order_key_def Let_def column_def less_eq_directed_def less_eq_sql_key_def
      less_eq_prod_def)

lemma posts_cursor:
  "row_cursor posts_env b ''id'' Asc False r = \<lparr>cd_sort_col = ''id'', cd_sort_dir = Asc, cd_sort_val = SText (fr_id r),
     cd_id = fr_id r, cd_status_val = None\<rparr>"
  by (simp add: row_cursor_def cursor_from_doc_def row_to_document_def)

lemma posts_intact: "cursors_intact posts_input by_id_query False ''id'' Asc posts"
  by (simp add: cursors_intact_def posts_input_def posts_cursor shown_def id_codec_def decode_def posts_def
      sample_post_def cursor_from_doc_def row_to_document_def by_id_query_def)


definition query_after :: "nat \<Rightarrow> find_query" where
  "query_after i = by_id_query\<lparr>fq_after :=
     Some (row_cursor posts_env (\<lambda>b. b) ''id'' Asc False (in_order False ''id'' Asc posts ! i))\<rparr>"

definition query_before :: "nat \<Rightarrow> find_query" where
  "query_before i = by_id_query\<lparr>fq_before :=
     Some (row_cursor posts_env (\<lambda>b. b) ''id'' Asc False (in_order False ''id'' Asc posts ! i))\<rparr>"


theorem page_before_cursor_exact_witness:
  "\<exists>pr. find_documents posts_input posts_info (query_before 2) (\<lambda>_. True) posts =
      Inr ([row_to_document (\<lambda>b. b) None (sample_post ''b'' (DText ''x''))], pr) \<and> pr_has_prev_page pr"
proof -
  have "\<exists>pr. find_documents posts_input posts_info (query_before 2) (\<lambda>_. True) posts =
      Inr (map (shown posts_input (query_before 2)) (drop (2 - nat 1) (take 2 (in_order False ''id'' Asc posts))), pr) \<and>
    (pr_has_prev_page pr \<longleftrightarrow> nat 1 < 2) \<and> pr_has_next_page pr"
    by (rule page_before_cursor_exact [where env = posts_env and ?base64.0 = "\<lambda>b. b"])
      (use posts_setup in \<open>simp_all add: query_before_def by_id_query_def sorts_by_def posts_input_def i64_max_def\<close>)
  then show ?thesis by (auto simp: posts_setup shown_def query_before_def posts_input_def by_id_query_def)
qed

definition trash_row :: "string \<Rightarrow> db_value \<Rightarrow> find_row" where
  "trash_row i v = \<lparr>fr_id = i, fr_cols = [(''_deleted_at'', v)]\<rparr>"

definition trash_query :: find_query where
  "trash_query = \<lparr>fq_order_by = Some ''-_deleted_at'', fq_limit = Some 10, fq_offset = None, fq_select = None,
     fq_after = Some (row_cursor posts_env (\<lambda>b. b) ''_deleted_at'' Desc False (trash_row ''a'' (DText ''2025''))),
     fq_before = None\<rparr>"

theorem descending_walk_skips_nulls_witness:
  "find_rows posts_info trash_query (\<lambda>_. True) [trash_row ''a'' (DText ''2025''), trash_row ''b'' DNull] = Inr [] \<and>
   order_key False ''_deleted_at'' Desc False (trash_row ''a'' (DText ''2025'')) <
     order_key False ''_deleted_at'' Desc False (trash_row ''b'' DNull)"
proof -
  let ?a = "trash_row ''a'' (DText ''2025'')" and ?b = "trash_row ''b'' DNull"
  have cols: "column ?a ''_deleted_at'' = DText ''2025''" "column ?b ''_deleted_at'' = DNull"
    by (simp_all add: column_def trash_row_def)
  have cur: "row_cursor posts_env (\<lambda>b. b) ''_deleted_at'' Desc False ?a =
      \<lparr>cd_sort_col = ''_deleted_at'', cd_sort_dir = Desc, cd_sort_val = SText ''2025'', cd_id = ''a'', cd_status_val = None\<rparr>"
    by (simp add: row_cursor_def cursor_from_doc_def row_to_document_def column_selected_def trash_row_def)
  have run: "find_rows posts_info trash_query (\<lambda>_. True) [?a, ?b] = Inr []"
    by (simp add: find_rows_def resolve_sort_def trash_query_def resolve_order_def posts_info_def
        is_valid_sort_column_def apply_cursor_keyset_def cur apply_limit_offset_def keyset_clause_def
        inner_keyset_clause_def inner_op_def sql_eq_def cols result_simps)
      (simp add: column_def trash_row_def)
  have "order_key False ''_deleted_at'' Desc False ?a < order_key False ''_deleted_at'' Desc False ?b \<and> ?b \<notin> set []"
    by (rule descending_walk_skips_nulls [OF _ _ _ _ _ _ _ _ run, where env = posts_env and ?base64.0 = "\<lambda>b. b"])
      (simp_all add: sorts_by_def trash_query_def resolve_order_def posts_info_def is_valid_sort_column_def
        cursor_status_active_def cols sortable_def)
  with run show ?thesis by blast
qed

definition drafts_query :: find_query where
  "drafts_query = \<lparr>fq_order_by = Some ''_ref_count'', fq_limit = None, fq_offset = None,
     fq_select = Some [''title''],
     fq_after = Some (cursor_from_doc posts_env (row_to_document (\<lambda>b. b) (Some [''title''])
       \<lparr>fr_id = ''a'', fr_cols = [(''_ref_count'', DInteger 0)]\<rparr>) ''_ref_count'' Asc False),
     fq_before = None\<rparr>"

theorem unselected_sort_column_repeats_rows_witness:
  "\<exists>page. find_rows posts_info drafts_query (\<lambda>_. True) [\<lparr>fr_id = ''a'', fr_cols = [(''_ref_count'', DInteger 0)]\<rparr>] =
      Inr page \<and> \<lparr>fr_id = ''a'', fr_cols = [(''_ref_count'', DInteger 0)]\<rparr> \<in> set page"
  by (rule unselected_sort_column_repeats_rows [where sel = "[''title'']" and col = "''_ref_count''"
      and env = posts_env and ?base64.0 = "\<lambda>b. b"
      and ?r0.0 = "\<lparr>fr_id = ''a'', fr_cols = [(''_ref_count'', DInteger 0)]\<rparr>"])
    (simp_all add: drafts_query_def resolve_order_def posts_info_def is_valid_sort_column_def column_selected_def
      always_selected_def column_def)

end
