(* ===== verification/AuthStore.thy ===== *)
theory AuthStore
  imports Keyset
begin

text \<open>
  The columns an auth collection adds to its table and the statements over them
  (src/src/db/query/auth/): the password hash and the session version, the account flags, the
  reset and verification tokens and the MFA code; and what the queries that load a user select
  (src/src/db/query/columns.rs, src/src/db/query/read/find_by_id.rs).  A table is the list of its
  rows.  \<open>_session_version\<close> is an \<open>i64\<close> that only ever grows by one, so its range is not modelled.
\<close>

section \<open>Collections with authentication\<close>

datatype surface = Admin | Grpc

datatype mfa_mode = MfaOff | MfaEmail

datatype activation = Always | OnHeader string

datatype auth_method =
    PasswordLogin mfa_mode bool bool
  | Bearer "surface list"
  | SessionCookie "surface list"
  | Strategy string string activation "surface list"

record auth_config =
  au_enabled :: bool
  au_token_expiry :: u64
  au_methods :: "auth_method list"

record auth_collection = collection_info +
  ac_slug :: string
  ac_soft_delete :: bool
  ac_auth :: "auth_config option"

text \<open>\<open>Auth::password_login\<close>: the first such method's MFA mode, \<open>verify_email\<close> and \<open>forgot_password\<close>.\<close>

fun password_login :: "auth_method list \<Rightarrow> (mfa_mode \<times> bool \<times> bool) option" where
  "password_login [] = None"
| "password_login (PasswordLogin m v f # ms) = Some (m, v, f)"
| "password_login (_ # ms) = password_login ms"

definition accepts_bearer :: "auth_config \<Rightarrow> surface \<Rightarrow> bool" where
  "accepts_bearer a s = list_ex (\<lambda>m. case m of Bearer ss \<Rightarrow> s \<in> set ss | _ \<Rightarrow> False) (au_methods a)"

definition accepts_session_cookie :: "auth_config \<Rightarrow> surface \<Rightarrow> bool" where
  "accepts_session_cookie a s =
     list_ex (\<lambda>m. case m of SessionCookie ss \<Rightarrow> s \<in> set ss | _ \<Rightarrow> False) (au_methods a)"

definition requires_verify_email :: "auth_config \<Rightarrow> bool" where
  "requires_verify_email a = (case password_login (au_methods a) of Some (m, v, f) \<Rightarrow> v | None \<Rightarrow> False)"

definition forgot_password_enabled :: "auth_config \<Rightarrow> bool" where
  "forgot_password_enabled a = (case password_login (au_methods a) of Some (m, v, f) \<Rightarrow> f | None \<Rightarrow> False)"

definition password_login_enabled :: "auth_config \<Rightarrow> bool" where
  "password_login_enabled a \<longleftrightarrow> password_login (au_methods a) \<noteq> None"

definition mfa :: "auth_config \<Rightarrow> mfa_mode" where
  "mfa a = (case password_login (au_methods a) of Some (m, v, f) \<Rightarrow> m | None \<Rightarrow> MfaOff)"

fun strategies :: "auth_method list \<Rightarrow> (string \<times> string \<times> activation \<times> surface list) list" where
  "strategies [] = []"
| "strategies (Strategy n h act ss # ms) = (n, h, act, ss) # strategies ms"
| "strategies (_ # ms) = strategies ms"

definition has_strategies :: "auth_config \<Rightarrow> bool" where
  "has_strategies a \<longleftrightarrow> strategies (au_methods a) \<noteq> []"

definition default_methods :: "auth_method list" where
  "default_methods = [PasswordLogin MfaOff False True, Bearer [Admin, Grpc], SessionCookie [Admin]]"

section \<open>The columns a query selects\<close>

definition tz_column :: "string \<Rightarrow> string" where
  "tz_column name = name @ ''_tz''"

definition leaf_columns :: "field_attrs \<Rightarrow> string \<Rightarrow> string list" where
  "leaf_columns a prefix =
     (if attrs_has_parent_column a
      then (let col = prefixed_name prefix (fa_name a)
            in col # (if fa_type a = Date \<and> fa_timezone a then [tz_column col] else []))
      else [])"

fun collect_column_names :: "field_definition list \<Rightarrow> string \<Rightarrow> string list"
  and collect_tab_names :: "field_tab list \<Rightarrow> string \<Rightarrow> string list"
where
  "collect_column_names [] prefix = []"
| "collect_column_names (FieldDefinition a sub tabs blocks # fs) prefix =
     (case fa_type a of
        Group \<Rightarrow> collect_column_names sub (prefixed_name prefix (fa_name a))
      | Row \<Rightarrow> collect_column_names sub prefix
      | Collapsible \<Rightarrow> collect_column_names sub prefix
      | Tabs \<Rightarrow> collect_tab_names tabs prefix
      | _ \<Rightarrow> leaf_columns a prefix) @ collect_column_names fs prefix"
| "collect_tab_names [] prefix = []"
| "collect_tab_names (FieldTab l sub # ts) prefix = collect_column_names sub prefix @ collect_tab_names ts prefix"

definition get_column_names :: "auth_collection \<Rightarrow> string list" where
  "get_column_names def =
     [''id''] @ collect_column_names (ci_fields def) []
       @ (if ci_has_drafts def then [''_status''] else [])
       @ (if ac_soft_delete def then [''_deleted_at''] else [])
       @ (if ci_timestamps def then [''created_at'', ''updated_at''] else [])"

section \<open>User rows\<close>

text \<open>The row of a user: the schema's columns (\<open>fr_cols\<close>) and the ones the migration adds.\<close>

record user_row = find_row +
  ur_password_hash :: "string option"
  ur_locked :: "int option"
  ur_verified :: "int option"
  ur_session_version :: "int option"
  ur_reset_token :: "string option"
  ur_reset_token_exp :: "int option"
  ur_verification_token :: "string option"
  ur_verification_token_exp :: "int option"
  ur_mfa_code :: "string option"
  ur_mfa_code_exp :: "int option"

type_synonym user_table = "user_row list"

abbreviation ucolumn :: "user_row \<Rightarrow> string \<Rightarrow> db_value" where
  "ucolumn r c \<equiv> column (find_row.truncate r) c"

abbreviation has_id :: "string \<Rightarrow> user_row \<Rightarrow> bool" where
  "has_id i r \<equiv> fr_id r = i"

definition find_user :: "string \<Rightarrow> user_table \<Rightarrow> user_row option" where
  "find_user i t = find (has_id i) t"

definition select_row :: "string list \<Rightarrow> user_row \<Rightarrow> find_row" where
  "select_row names r =
     \<lparr>fr_id = fr_id r, fr_cols = map (\<lambda>n. (n, ucolumn r n)) (filter (\<lambda>n. n \<noteq> ''id'') names)\<rparr>"

definition user_document :: "(string \<Rightarrow> string) \<Rightarrow> auth_collection \<Rightarrow> user_row \<Rightarrow> document" where
  "user_document base64 def r = row_to_document base64 None (select_row (get_column_names def) r)"

definition find_by_email :: "(string \<Rightarrow> string) \<Rightarrow> auth_collection \<Rightarrow> string \<Rightarrow> user_table \<Rightarrow> document option" where
  "find_by_email base64 def email t =
     map_option (user_document base64 def) (find (\<lambda>r. ucolumn r ''email'' = DText email) t)"

text \<open>
  \<open>find_by_id\<close> skips soft-deleted rows; \<open>hydrate\<close> stands for the join tables' content it adds.
\<close>

definition find_by_id ::
  "(string \<Rightarrow> string) \<Rightarrow> (document \<Rightarrow> document) \<Rightarrow> auth_collection \<Rightarrow> string \<Rightarrow> user_table \<Rightarrow> document option" where
  "find_by_id base64 hydrate def i t =
     map_option (\<lambda>r. hydrate (user_document base64 def r))
       (find (\<lambda>r. fr_id r = i \<and> (ac_soft_delete def \<longrightarrow> ucolumn r ''_deleted_at'' = DNull)) t)"

section \<open>Passwords and session versions\<close>

definition get_password_hash :: "string \<Rightarrow> user_table \<Rightarrow> string option" where
  "get_password_hash i t = (case find_user i t of None \<Rightarrow> None | Some r \<Rightarrow> ur_password_hash r)"

definition has_password :: "string \<Rightarrow> user_table \<Rightarrow> bool" where
  "has_password i t = (case find_user i t of None \<Rightarrow> False | Some r \<Rightarrow> ur_password_hash r \<noteq> None)"

definition next_version :: "int option \<Rightarrow> int option" where
  "next_version v = Some (unwrap_or 0 v + 1)"

definition update_password :: "string \<Rightarrow> string \<Rightarrow> user_table \<Rightarrow> user_table" where
  "update_password i hash t =
     update_where (has_id i)
       (\<lambda>r. r\<lparr>ur_password_hash := Some hash, ur_session_version := next_version (ur_session_version r)\<rparr>) t"

text \<open>\<open>NULL\<close>, a missing row and a negative value all read as version 0.\<close>

definition get_session_version :: "string \<Rightarrow> user_table \<Rightarrow> nat" where
  "get_session_version i t =
     (case find_user i t of None \<Rightarrow> 0 | Some r \<Rightarrow> nat (unwrap_or 0 (ur_session_version r)))"

definition bump_session_version :: "string \<Rightarrow> user_table \<Rightarrow> user_table \<times> nat" where
  "bump_session_version i t =
     (let t' = update_where (has_id i) (\<lambda>r. r\<lparr>ur_session_version := next_version (ur_session_version r)\<rparr>) t
      in (t', get_session_version i t'))"

definition user_exists :: "string \<Rightarrow> user_table \<Rightarrow> bool" where
  "user_exists i t \<longleftrightarrow> find_user i t \<noteq> None"

section \<open>Account flags\<close>

definition get_bool_column :: "(user_row \<Rightarrow> int option) \<Rightarrow> string \<Rightarrow> user_table \<Rightarrow> bool" where
  "get_bool_column col i t =
     (case find_user i t of None \<Rightarrow> False | Some r \<Rightarrow> (case col r of None \<Rightarrow> False | Some v \<Rightarrow> v \<noteq> 0))"

definition is_locked :: "string \<Rightarrow> user_table \<Rightarrow> bool" where
  "is_locked = get_bool_column ur_locked"

definition is_verified :: "string \<Rightarrow> user_table \<Rightarrow> bool" where
  "is_verified = get_bool_column ur_verified"

definition set_locked :: "bool \<Rightarrow> string \<Rightarrow> user_table \<Rightarrow> user_table" where
  "set_locked v i t = update_where (has_id i) (\<lambda>r. r\<lparr>ur_locked := Some (of_bool v)\<rparr>) t"

abbreviation lock_user_column :: "string \<Rightarrow> user_table \<Rightarrow> user_table" where
  "lock_user_column \<equiv> set_locked True"

abbreviation unlock_user :: "string \<Rightarrow> user_table \<Rightarrow> user_table" where
  "unlock_user \<equiv> set_locked False"

section \<open>Reset and verification tokens\<close>

datatype token_kind = ResetToken | VerificationToken

fun token_of :: "token_kind \<Rightarrow> user_row \<Rightarrow> string option \<times> int option" where
  "token_of ResetToken r = (ur_reset_token r, ur_reset_token_exp r)"
| "token_of VerificationToken r = (ur_verification_token r, ur_verification_token_exp r)"

fun put_token :: "token_kind \<Rightarrow> string option \<Rightarrow> int option \<Rightarrow> user_row \<Rightarrow> user_row" where
  "put_token ResetToken tok e r = r\<lparr>ur_reset_token := tok, ur_reset_token_exp := e\<rparr>"
| "put_token VerificationToken tok e r = r\<lparr>ur_verification_token := tok, ur_verification_token_exp := e\<rparr>"

definition set_token :: "token_kind \<Rightarrow> string \<Rightarrow> string \<Rightarrow> int \<Rightarrow> user_table \<Rightarrow> user_table" where
  "set_token k i tok e t = update_where (has_id i) (put_token k (Some tok) (Some e)) t"

definition clear_token :: "token_kind \<Rightarrow> string \<Rightarrow> user_table \<Rightarrow> user_table" where
  "clear_token k i t = update_where (has_id i) (put_token k None None) t"

text \<open>The errors of the service; \<open>Backend\<close> is what a failing statement or column read gives.\<close>

datatype auth_error =
    InvalidCredentials
  | AccountLocked
  | EmailNotVerified
  | InvalidToken string
  | Backend string

definition find_by_token ::
  "(string \<Rightarrow> string) \<Rightarrow> auth_collection \<Rightarrow> token_kind \<Rightarrow> string \<Rightarrow> user_table
    \<Rightarrow> auth_error + (document \<times> int) option" where
  "find_by_token base64 def k tok t =
     (case find (\<lambda>r. fst (token_of k r) = Some tok) t of
        None \<Rightarrow> Inr None
      | Some r \<Rightarrow>
          (case snd (token_of k r) of
             None \<Rightarrow> Inl (Backend ''Failed to read the token expiry'')
           | Some e \<Rightarrow> Inr (Some (user_document base64 def r, e))))"

definition mark_verified :: "string \<Rightarrow> user_table \<Rightarrow> user_table" where
  "mark_verified i t =
     update_where (has_id i)
       (\<lambda>r. r\<lparr>ur_verified := Some 1, ur_verification_token := None, ur_verification_token_exp := None\<rparr>) t"

definition mark_unverified :: "string \<Rightarrow> user_table \<Rightarrow> user_table" where
  "mark_unverified i t = update_where (has_id i) (\<lambda>r. r\<lparr>ur_verified := Some 0\<rparr>) t"

section \<open>MFA codes\<close>

definition set_mfa_code :: "string \<Rightarrow> string \<Rightarrow> int \<Rightarrow> user_table \<Rightarrow> user_table" where
  "set_mfa_code i code e t =
     update_where (has_id i) (\<lambda>r. r\<lparr>ur_mfa_code := Some code, ur_mfa_code_exp := Some e\<rparr>) t"

definition clear_mfa_code :: "string \<Rightarrow> user_table \<Rightarrow> user_table" where
  "clear_mfa_code i t = update_where (has_id i) (\<lambda>r. r\<lparr>ur_mfa_code := None, ur_mfa_code_exp := None\<rparr>) t"

text \<open>
  The SELECT and the comparison of \<open>verify_mfa_code\<close>: \<open>None\<close> when there is nothing to compare
  with, and then nothing is cleared.
\<close>

definition read_mfa_code :: "string \<Rightarrow> string \<Rightarrow> int \<Rightarrow> user_table \<Rightarrow> bool option" where
  "read_mfa_code i code now t =
     (case find_user i t of
        None \<Rightarrow> None
      | Some r \<Rightarrow>
          (case (ur_mfa_code r, ur_mfa_code_exp r) of
             (Some c, Some e) \<Rightarrow> Some (now \<le> e \<and> c = code)
           | _ \<Rightarrow> None))"

definition verify_mfa_code :: "string \<Rightarrow> string \<Rightarrow> int \<Rightarrow> user_table \<Rightarrow> user_table \<times> bool" where
  "verify_mfa_code i code now t =
     (case read_mfa_code i code now t of
        None \<Rightarrow> (t, False)
      | Some ok \<Rightarrow> (clear_mfa_code i t, ok))"

section \<open>What the statements change\<close>

text \<open>
  An update by id is seen by the reads of that id only; everything below is this fact for the
  statements above.
\<close>

named_theorems user_simps \<open>what the reads of a user give after a statement\<close>

lemma find_user_update:
  assumes "\<And>r. fr_id (f r) = fr_id r"
  shows "find_user j (update_where (has_id i) f t) =
    (if j = i then map_option f (find_user j t) else find_user j t)"
  using assms by (induction t) (auto simp: find_user_def)

lemma find_user_Some: "find_user i t = Some r \<Longrightarrow> r \<in> set t \<and> fr_id r = i"
  by (induction t) (auto simp: find_user_def split: if_splits)

lemma fr_id_put_token [simp]: "fr_id (put_token k a b r) = fr_id r"
  by (cases k) simp_all

lemma put_token_keeps [simp]:
  "ur_password_hash (put_token k a b r) = ur_password_hash r"
  "ur_session_version (put_token k a b r) = ur_session_version r"
  "ur_locked (put_token k a b r) = ur_locked r"
  "ur_verified (put_token k a b r) = ur_verified r"
  "find_row.truncate (put_token k a b r) = find_row.truncate r"
  by (cases k; simp add: find_row.truncate_def)+

lemma token_of_put_token [simp]:
  "token_of k (put_token k a b r) = (a, b)"
  "k \<noteq> k' \<Longrightarrow> token_of k' (put_token k a b r) = token_of k' r"
  by (cases k; cases k'; simp)+

lemma find_user_ops [user_simps]:
  "find_user j (update_password i h t) =
     (if j = i then map_option (\<lambda>r. r\<lparr>ur_password_hash := Some h,
        ur_session_version := next_version (ur_session_version r)\<rparr>) (find_user j t) else find_user j t)"
  "find_user j (fst (bump_session_version i t)) =
     (if j = i then map_option (\<lambda>r. r\<lparr>ur_session_version := next_version (ur_session_version r)\<rparr>) (find_user j t)
      else find_user j t)"
  "find_user j (set_locked b i t) =
     (if j = i then map_option (\<lambda>r. r\<lparr>ur_locked := Some (of_bool b)\<rparr>) (find_user j t) else find_user j t)"
  "find_user j (set_token k i tok e t) =
     (if j = i then map_option (put_token k (Some tok) (Some e)) (find_user j t) else find_user j t)"
  "find_user j (clear_token k i t) =
     (if j = i then map_option (put_token k None None) (find_user j t) else find_user j t)"
  "find_user j (mark_unverified i t) =
     (if j = i then map_option (\<lambda>r. r\<lparr>ur_verified := Some 0\<rparr>) (find_user j t) else find_user j t)"
  "find_user j (mark_verified i t) =
     (if j = i then map_option (\<lambda>r. r\<lparr>ur_verified := Some 1, ur_verification_token := None,
        ur_verification_token_exp := None\<rparr>) (find_user j t) else find_user j t)"
  "find_user j (set_mfa_code i c e t) =
     (if j = i then map_option (\<lambda>r. r\<lparr>ur_mfa_code := Some c, ur_mfa_code_exp := Some e\<rparr>) (find_user j t)
      else find_user j t)"
  "find_user j (clear_mfa_code i t) =
     (if j = i then map_option (\<lambda>r. r\<lparr>ur_mfa_code := None, ur_mfa_code_exp := None\<rparr>) (find_user j t)
      else find_user j t)"
  by (simp_all add: update_password_def bump_session_version_def Let_def set_locked_def set_token_def
    clear_token_def mark_unverified_def mark_verified_def set_mfa_code_def clear_mfa_code_def
    find_user_update)

lemma verify_mfa_table: "fst (verify_mfa_code i c now t) = t \<or> fst (verify_mfa_code i c now t) = clear_mfa_code i t"
  by (simp add: verify_mfa_code_def split: option.split)

text \<open>A version is read as \<open>nat\<close> of the stored value, and every bump raises it.\<close>

lemma next_version_greater: "0 \<le> unwrap_or 0 v \<Longrightarrow> nat (unwrap_or 0 v) < nat (unwrap_or 0 (next_version v))"
  by (simp add: next_version_def)

lemma next_version_mono: "nat (unwrap_or 0 v) \<le> nat (unwrap_or 0 (next_version v))"
  by (simp add: next_version_def)

definition versions_ok :: "user_table \<Rightarrow> bool" where
  "versions_ok t \<longleftrightarrow> (\<forall>r \<in> set t. 0 \<le> unwrap_or 0 (ur_session_version r))"

lemma get_session_version_bump:
  "versions_ok t \<Longrightarrow> user_exists i t \<Longrightarrow>
    get_session_version i (fst (bump_session_version i t)) = Suc (get_session_version i t)"
proof (cases "find_user i t")
  case (Some r)
  moreover assume "versions_ok t"
  ultimately have "0 \<le> unwrap_or 0 (ur_session_version r)"
    using find_user_Some by (auto simp: versions_ok_def)
  with Some show ?thesis
    by (simp add: get_session_version_def user_simps next_version_def nat_add_distrib)
qed (simp add: user_exists_def)

lemma get_session_version_update_password:
  "versions_ok t \<Longrightarrow> user_exists i t \<Longrightarrow>
    get_session_version i (update_password i h t) = Suc (get_session_version i t)"
proof (cases "find_user i t")
  case (Some r)
  moreover assume "versions_ok t"
  ultimately have "0 \<le> unwrap_or 0 (ur_session_version r)"
    using find_user_Some by (auto simp: versions_ok_def)
  with Some show ?thesis
    by (simp add: get_session_version_def user_simps next_version_def nat_add_distrib)
qed (simp add: user_exists_def)

lemma user_document_id [simp]: "doc_id (user_document b def r) = fr_id r"
  by (simp add: user_document_def row_to_document_def select_row_def)

text \<open>
  The account flags are not among the selected columns: no document of a query shows them, unless
  the schema itself has a field of that name (whose column would clash with the added one).
\<close>

lemma user_document_fields:
  "fst ` set (doc_fields (user_document b def r)) \<subseteq> set (get_column_names def)"
  by (auto simp: user_document_def row_to_document_def select_row_def)

lemma user_document_hides:
  "k \<notin> set (get_column_names def) \<Longrightarrow> map_of (doc_fields (user_document b def r)) k = None"
  using user_document_fields [of b def r] by (auto simp: map_of_eq_None_iff)

end
