(* ===== verification/AuthService.thy ===== *)
theory AuthService
  imports AuthStore
begin

text \<open>
  The authentication service (src/src/service/auth/): the password login, the reset and
  verification tokens, locking; and the handlers that wrap the token flows in a transaction
  (src/src/api/handlers/auth/, src/src/admin/handlers/auth/).  What a handler does with the
  transaction on an error is part of its result: the tables it leaves.
\<close>

section \<open>Libraries and claims\<close>

record claims =
  cl_sub :: string
  cl_collection :: string
  cl_email :: string
  cl_exp :: u64
  cl_iat :: "u64 option"
  cl_auth_time :: "u64 option"
  cl_session_version :: nat

type_synonym headers = "(string \<times> string) list"

type_synonym auth_db = "string \<Rightarrow> user_table"

text \<open>
  What is not under src/: the column encoder and the join tables' content of a document, Argon2
  (\<open>pw_hash salt password\<close>, \<open>pw_verify password hash\<close>, \<open>None\<close> an error), the JWT library
  (\<open>validate\<close> at a time) and the Lua hooks of the strategies (\<open>Inl\<close> a failing hook).
\<close>

record auth_env =
  ae_base64 :: "string \<Rightarrow> string"
  ae_hydrate :: "string \<Rightarrow> document \<Rightarrow> document"
  ae_pw_hash :: "string \<Rightarrow> string \<Rightarrow> string option"
  ae_pw_verify :: "string \<Rightarrow> string \<Rightarrow> bool option"
  ae_create_token :: "claims \<Rightarrow> string option"
  ae_validate_token :: "int \<Rightarrow> string \<Rightarrow> claims option"
  ae_strategy :: "string \<Rightarrow> string \<Rightarrow> headers \<Rightarrow> auth_db \<Rightarrow> unit + document option"

section \<open>Password login\<close>

definition authenticate_local ::
  "auth_env \<Rightarrow> auth_collection \<Rightarrow> string \<Rightarrow> string \<Rightarrow> bool \<Rightarrow> user_table \<Rightarrow> auth_error + document \<times> nat" where
  "authenticate_local env def email password require_verified t =
     (case find_by_email (ae_base64 env) def email t of
        None \<Rightarrow> Inl InvalidCredentials
      | Some user \<Rightarrow>
          bindE (case get_password_hash (doc_id user) t of
                   Some hash \<Rightarrow> ok_or (Backend ''Invalid password hash'') (ae_pw_verify env password hash)
                 | None \<Rightarrow> Inr False)
            (\<lambda>verified.
              if \<not> verified then Inl InvalidCredentials
              else if is_locked (doc_id user) t then Inl AccountLocked
              else if require_verified \<and> \<not> is_verified (doc_id user) t then Inl EmailNotVerified
              else Inr (user, get_session_version (doc_id user) t)))"

section \<open>Reset and verification tokens\<close>

text \<open>The token itself (\<open>nanoid!()\<close>) and the clock are arguments.\<close>

definition generate_reset_token ::
  "auth_env \<Rightarrow> auth_collection \<Rightarrow> string \<Rightarrow> u64 \<Rightarrow> string \<Rightarrow> int \<Rightarrow> user_table
    \<Rightarrow> user_table \<times> (auth_error + (string \<times> string) option)" where
  "generate_reset_token env def email expiry_secs token now t =
     (case find_by_email (ae_base64 env) def email t of
        None \<Rightarrow> (t, Inr None)
      | Some user \<Rightarrow>
          (case i64_try_from (uint expiry_secs) of
             None \<Rightarrow> (t, Inl (Backend ''expiry_secs exceeds i64::MAX''))
           | Some e \<Rightarrow>
               (set_token ResetToken (doc_id user) token (wrap_i64 (now + e)) t,
                Inr (Some (doc_id user, token)))))"

definition consume_reset_token ::
  "auth_env \<Rightarrow> auth_collection \<Rightarrow> string \<Rightarrow> string \<Rightarrow> string \<Rightarrow> int \<Rightarrow> user_table
    \<Rightarrow> user_table \<times> (auth_error + unit)" where
  "consume_reset_token env def token new_password salt now t =
     (case find_by_token (ae_base64 env) def ResetToken token t of
        Inl e \<Rightarrow> (t, Inl e)
      | Inr None \<Rightarrow> (t, Inl (InvalidToken ''not found''))
      | Inr (Some (user, expiry)) \<Rightarrow>
          (let i = doc_id user
           in if is_locked i t then (clear_token ResetToken i t, Inl (InvalidToken ''not found''))
              else if expiry \<le> now then (clear_token ResetToken i t, Inl (InvalidToken ''expired''))
              else (case ae_pw_hash env salt new_password of
                      None \<Rightarrow> (t, Inl (Backend ''Password hashing failed''))
                    | Some hash \<Rightarrow> (clear_token ResetToken i (update_password i hash t), Inr ()))))"

definition consume_verification_token ::
  "auth_env \<Rightarrow> auth_collection \<Rightarrow> string \<Rightarrow> int \<Rightarrow> user_table \<Rightarrow> user_table \<times> (auth_error + bool)" where
  "consume_verification_token env def token now t =
     (case find_by_token (ae_base64 env) def VerificationToken token t of
        Inl e \<Rightarrow> (t, Inl e)
      | Inr None \<Rightarrow> (t, Inr False)
      | Inr (Some (user, expiry)) \<Rightarrow>
          (let i = doc_id user
           in if expiry \<le> now then (clear_token VerificationToken i t, Inr False)
              else if is_locked i t then (clear_token VerificationToken i t, Inr False)
              else (mark_verified i t, Inr True)))"

definition service_lock_user :: "string \<Rightarrow> user_table \<Rightarrow> user_table" where
  "service_lock_user i t = fst (bump_session_version i (lock_user_column i t))"

section \<open>The handlers around them\<close>

text \<open>gRPC \<open>ResetPassword\<close>: an error drops the transaction, and what the service did in it.\<close>

definition reset_password_blocking ::
  "auth_env \<Rightarrow> auth_collection \<Rightarrow> string \<Rightarrow> string \<Rightarrow> string \<Rightarrow> int \<Rightarrow> user_table
    \<Rightarrow> user_table \<times> (auth_error + unit)" where
  "reset_password_blocking env def token password salt now t =
     (case consume_reset_token env def token password salt now t of
        (_, Inl e) \<Rightarrow> (t, Inl e)
      | (t', Inr u) \<Rightarrow> (t', Inr u))"

definition verify_email_blocking ::
  "auth_env \<Rightarrow> auth_collection \<Rightarrow> string \<Rightarrow> int \<Rightarrow> user_table \<Rightarrow> user_table \<times> (auth_error + bool)" where
  "verify_email_blocking env def token now t =
     (case consume_verification_token env def token now t of
        (_, Inl e) \<Rightarrow> (t, Inl e)
      | (t', Inr b) \<Rightarrow> (t', Inr b))"

definition is_auth_collection :: "auth_collection \<Rightarrow> bool" where
  "is_auth_collection def = (case ac_auth def of None \<Rightarrow> False | Some a \<Rightarrow> au_enabled a)"

text \<open>\<open>def.auth.as_ref().is_some_and(p)\<close>.\<close>

definition auth_and :: "(auth_config \<Rightarrow> bool) \<Rightarrow> auth_collection \<Rightarrow> bool" where
  "auth_and p def = (case ac_auth def of None \<Rightarrow> False | Some a \<Rightarrow> p a)"

text \<open>
  The admin handlers search every collection, in the registry's order.  \<open>ResetTokenError\<close> is what
  the page's message is chosen by; every other error has become text by then (\<open>into_anyhow\<close>).
\<close>

datatype reset_error = TokenNotFound | TokenExpired | OtherText auth_error

fun admin_reset_loop ::
  "auth_env \<Rightarrow> auth_collection list \<Rightarrow> string \<Rightarrow> string \<Rightarrow> string \<Rightarrow> int \<Rightarrow> auth_db
    \<Rightarrow> auth_db \<Rightarrow> auth_db \<times> (reset_error + unit)" where
  "admin_reset_loop env [] token password salt now db tx = (db, Inl TokenNotFound)"
| "admin_reset_loop env (def # defs) token password salt now db tx =
     (if \<not> is_auth_collection def \<or> \<not> auth_and password_login_enabled def
      then admin_reset_loop env defs token password salt now db tx
      else (case consume_reset_token env def token password salt now (tx (ac_slug def)) of
              (t, Inr u) \<Rightarrow> (tx(ac_slug def := t), Inr u)
            | (t, Inl e) \<Rightarrow>
                if e = InvalidToken ''not found''
                then admin_reset_loop env defs token password salt now db (tx(ac_slug def := t))
                else (tx(ac_slug def := t), Inl (OtherText e))))"

definition admin_consume_reset_token ::
  "auth_env \<Rightarrow> auth_collection list \<Rightarrow> string \<Rightarrow> string \<Rightarrow> string \<Rightarrow> int \<Rightarrow> auth_db \<Rightarrow> auth_db \<times> (reset_error + unit)" where
  "admin_consume_reset_token env defs token password salt now db =
     admin_reset_loop env defs token password salt now db db"

definition reset_error_message :: "reset_error \<Rightarrow> string" where
  "reset_error_message e =
     (case e of TokenExpired \<Rightarrow> ''error_reset_link_expired'' | _ \<Rightarrow> ''error_reset_link_invalid'')"

fun admin_verify_loop ::
  "auth_env \<Rightarrow> auth_collection list \<Rightarrow> string \<Rightarrow> int \<Rightarrow> auth_db \<Rightarrow> auth_db \<Rightarrow> auth_db \<times> (auth_error + bool)" where
  "admin_verify_loop env [] token now db tx = (db, Inr False)"
| "admin_verify_loop env (def # defs) token now db tx =
     (if \<not> is_auth_collection def \<or> \<not> auth_and requires_verify_email def
      then admin_verify_loop env defs token now db tx
      else (case consume_verification_token env def token now (tx (ac_slug def)) of
              (t, Inl e) \<Rightarrow> (db, Inl e)
            | (t, Inr True) \<Rightarrow> (tx(ac_slug def := t), Inr True)
            | (t, Inr False) \<Rightarrow> admin_verify_loop env defs token now db (tx(ac_slug def := t))))"

definition admin_consume_verification_token ::
  "auth_env \<Rightarrow> auth_collection list \<Rightarrow> string \<Rightarrow> int \<Rightarrow> auth_db \<Rightarrow> auth_db \<times> (auth_error + bool)" where
  "admin_consume_verification_token env defs token now db = admin_verify_loop env defs token now db db"

end
