(* ===== verification/AuthSession.thy ===== *)
theory AuthSession
  imports AuthService
begin

text \<open>
  Sessions: the tokens the login handlers issue (src/src/admin/handlers/auth/,
  src/src/api/handlers/auth/login.rs), their refresh, and the evaluator that turns a request's
  credentials into a principal (src/src/service/auth/evaluator.rs) with the registry's index of
  strategies (src/src/core/registry.rs).
\<close>

section \<open>Claims\<close>

definition unix_now :: "int \<Rightarrow> u64" where
  "unix_now now = word_of_int (max 0 now)"

record claims_builder =
  cb_sub :: string
  cb_collection :: string
  cb_email :: "string option"
  cb_exp :: "u64 option"
  cb_auth_time :: "u64 option"
  cb_session_version :: nat

definition claims_builder_new :: "string \<Rightarrow> string \<Rightarrow> claims_builder" where
  "claims_builder_new sub coll =
     \<lparr>cb_sub = sub, cb_collection = coll, cb_email = None, cb_exp = None, cb_auth_time = None,
      cb_session_version = 0\<rparr>"

definition claims_build :: "int \<Rightarrow> claims_builder \<Rightarrow> claims option" where
  "claims_build now b =
     (case cb_email b of None \<Rightarrow> None
      | Some email \<Rightarrow> (case cb_exp b of None \<Rightarrow> None
         | Some e \<Rightarrow> Some
             \<lparr>cl_sub = cb_sub b, cl_collection = cb_collection b, cl_email = email, cl_exp = e,
              cl_iat = Some (unix_now now), cl_auth_time = cb_auth_time b,
              cl_session_version = cb_session_version b\<rparr>))"

section \<open>The registry\<close>

record strategy_entry =
  se_slug :: string
  se_name :: string
  se_authenticate :: string

record registry =
  rg_collections :: "auth_collection list"
  rg_always :: "(surface \<times> strategy_entry list) list"
  rg_header :: "((string \<times> surface) \<times> strategy_entry list) list"

definition get_collection :: "registry \<Rightarrow> string \<Rightarrow> auth_collection option" where
  "get_collection reg slug = find (\<lambda>d. ac_slug d = slug) (rg_collections reg)"

text \<open>\<open>map.entry(k).or_default().push(v)\<close>.\<close>

fun push_entry :: "'k \<Rightarrow> 'v \<Rightarrow> ('k \<times> 'v list) list \<Rightarrow> ('k \<times> 'v list) list" where
  "push_entry k v [] = [(k, [v])]"
| "push_entry k v ((k', vs) # m) = (if k' = k then (k', vs @ [v]) # m else (k', vs) # push_entry k v m)"

type_synonym strategy_index =
  "(surface \<times> strategy_entry list) list \<times> ((string \<times> surface) \<times> strategy_entry list) list"

definition index_surface :: "activation \<Rightarrow> strategy_entry \<Rightarrow> surface \<Rightarrow> strategy_index \<Rightarrow> strategy_index" where
  "index_surface act e s idx =
     (case act of
        Always \<Rightarrow> (push_entry s e (fst idx), snd idx)
      | OnHeader h \<Rightarrow> (fst idx, push_entry (ascii_lowercase h, s) e (snd idx)))"

definition index_method :: "string \<Rightarrow> auth_method \<Rightarrow> strategy_index \<Rightarrow> strategy_index" where
  "index_method slug m idx =
     (case m of
        Strategy n h act ss \<Rightarrow>
          fold (index_surface act \<lparr>se_slug = slug, se_name = n, se_authenticate = h\<rparr>) ss idx
      | _ \<Rightarrow> idx)"

definition index_collection :: "auth_collection \<Rightarrow> strategy_index \<Rightarrow> strategy_index" where
  "index_collection def idx =
     (case ac_auth def of
        None \<Rightarrow> idx
      | Some a \<Rightarrow> if \<not> au_enabled a then idx else fold (index_method (ac_slug def)) (au_methods a) idx)"

definition rebuild_strategy_index :: "auth_collection list \<Rightarrow> registry" where
  "rebuild_strategy_index defs =
     (let idx = fold index_collection defs ([], [])
      in \<lparr>rg_collections = defs, rg_always = fst idx, rg_header = snd idx\<rparr>)"

definition has_any_strategy :: "registry \<Rightarrow> bool" where
  "has_any_strategy reg =
     list_ex (\<lambda>d. case ac_auth d of None \<Rightarrow> False
        | Some a \<Rightarrow> au_enabled a \<and> list_ex (\<lambda>m. case m of Strategy _ _ _ _ \<Rightarrow> True | _ \<Rightarrow> False) (au_methods a))
       (rg_collections reg)"

section \<open>The evaluator\<close>

datatype auth_failure =
  BadToken | UnknownCollection | UserMissing | Lookup | Locked | StaleSession | Unaccepted

record auth_user =
  us_claims :: claims
  us_user_doc :: document
  us_ui_locale :: string

definition new_auth_user :: "claims \<Rightarrow> document \<Rightarrow> auth_user" where
  "new_auth_user c d = \<lparr>us_claims = c, us_user_doc = d, us_ui_locale = ''en''\<rparr>"

datatype token_outcome =
    TokenAuthenticated auth_user string
  | TokenInvalid auth_failure
  | TokenNotAccepted

datatype resolved_method = ViaBearer string | ViaSessionCookie string | ViaStrategy string string

datatype resolution =
    Authenticated auth_user resolved_method
  | Anonymous
  | Invalid auth_failure

text \<open>\<open>value.as_i64()\<close> of a JSON number, and the flag readers over a document.\<close>

fun as_i64 :: "json_value \<Rightarrow> int option" where
  "as_i64 (JNumber (JInt i)) = i64_try_from i"
| "as_i64 v = None"

definition truthy :: "string list" where
  "truthy = [''1'', ''true'', ''TRUE'', ''True'', ''yes'']"

definition bool_flag :: "document \<Rightarrow> string \<Rightarrow> bool" where
  "bool_flag doc key =
     (case map_of (doc_fields doc) key of
        None \<Rightarrow> False
      | Some v \<Rightarrow>
          (case as_i64 v of
             Some i \<Rightarrow> i \<noteq> 0
           | None \<Rightarrow> (case v of
                JBool b \<Rightarrow> b
              | JString s \<Rightarrow> trim s \<in> set truthy
              | _ \<Rightarrow> False)))"

abbreviation doc_locked :: "document \<Rightarrow> bool" where
  "doc_locked d \<equiv> bool_flag d ''_locked''"

abbreviation doc_verified :: "document \<Rightarrow> bool" where
  "doc_verified d \<equiv> bool_flag d ''_verified''"

text \<open>A lookup that fails with a database error (\<open>Lookup\<close>) is not modelled.\<close>

definition resolve_token ::
  "auth_env \<Rightarrow> registry \<Rightarrow> (auth_config \<Rightarrow> surface \<Rightarrow> bool) \<Rightarrow> surface \<Rightarrow> string \<Rightarrow> int \<Rightarrow> auth_db \<Rightarrow> token_outcome" where
  "resolve_token env reg accepts surf token now db =
     (case ae_validate_token env now token of
        None \<Rightarrow> TokenInvalid BadToken
      | Some c \<Rightarrow>
          (case get_collection reg (cl_collection c) of
             None \<Rightarrow> TokenInvalid UnknownCollection
           | Some def \<Rightarrow>
               (case ac_auth def of
                  None \<Rightarrow> TokenNotAccepted
                | Some a \<Rightarrow>
                    if \<not> au_enabled a \<or> \<not> accepts a surf then TokenNotAccepted
                    else
                      (case find_by_id (ae_base64 env) (ae_hydrate env (cl_collection c)) def (cl_sub c)
                              (db (cl_collection c)) of
                         None \<Rightarrow> TokenInvalid UserMissing
                       | Some doc \<Rightarrow>
                           if doc_locked doc then TokenInvalid Locked
                           else if cl_session_version c \<noteq> get_session_version (cl_sub c) (db (cl_collection c))
                           then TokenInvalid StaleSession
                           else TokenAuthenticated (new_auth_user c doc) (ac_slug def)))))"

definition json_email :: "document \<Rightarrow> string option" where
  "json_email d = Option.bind (map_of (doc_fields d) ''email'') as_json_str"

definition build_strategy_authuser :: "document \<Rightarrow> string \<Rightarrow> u64 \<Rightarrow> int \<Rightarrow> auth_user option" where
  "build_strategy_authuser doc slug token_expiry now =
     (if doc_id doc = [] then None
      else map_option (\<lambda>c. new_auth_user c doc)
        (claims_build now
          ((claims_builder_new (doc_id doc) slug)
             \<lparr>cb_email := Some (unwrap_or [] (json_email doc)),
              cb_exp := Some (sat_add (unix_now now) token_expiry),
              cb_auth_time := Some (unix_now now)\<rparr>)))"

definition try_strategy ::
  "auth_env \<Rightarrow> registry \<Rightarrow> headers \<Rightarrow> int \<Rightarrow> auth_db \<Rightarrow> strategy_entry \<Rightarrow> resolution option" where
  "try_strategy env reg hs now db e =
     (case get_collection reg (se_slug e) of
        None \<Rightarrow> None
      | Some def \<Rightarrow>
          (case ac_auth def of
             None \<Rightarrow> None
           | Some a \<Rightarrow>
               (case ae_strategy env (se_authenticate e) (se_slug e) hs db of
                  Inr (Some doc) \<Rightarrow>
                    if doc_locked doc then None
                    else if requires_verify_email a \<and> \<not> doc_verified doc then None
                    else map_option (\<lambda>u. Authenticated u (ViaStrategy (se_slug e) (se_name e)))
                           (build_strategy_authuser doc (se_slug e) (au_token_expiry a) now)
                | _ \<Rightarrow> None)))"

fun first_some :: "('a \<Rightarrow> 'b option) \<Rightarrow> 'a list \<Rightarrow> 'b option" where
  "first_some f [] = None"
| "first_some f (x # xs) = (case f x of Some y \<Rightarrow> Some y | None \<Rightarrow> first_some f xs)"

definition header_entries :: "registry \<Rightarrow> surface \<Rightarrow> headers \<Rightarrow> strategy_entry list" where
  "header_entries reg surf hs =
     concat (map (\<lambda>(h, _). unwrap_or [] (map_of (rg_header reg) (ascii_lowercase h, surf))) hs)"

record auth_request =
  rq_surface :: surface
  rq_bearer :: "string option"
  rq_cookie :: "string option"
  rq_headers :: headers

definition evaluate_strategies :: "auth_env \<Rightarrow> registry \<Rightarrow> auth_request \<Rightarrow> int \<Rightarrow> auth_db \<Rightarrow> resolution option" where
  "evaluate_strategies env reg rq now db =
     (if \<not> has_any_strategy reg then None
      else first_some (try_strategy env reg (rq_headers rq) now db)
        (unwrap_or [] (map_of (rg_always reg) (rq_surface rq))
          @ header_entries reg (rq_surface rq) (rq_headers rq)))"

text \<open>The first two steps: a token that is presented decides, unless its issuer does not take it.\<close>

definition with_token ::
  "string option \<Rightarrow> (string \<Rightarrow> token_outcome) \<Rightarrow> (string \<Rightarrow> resolved_method) \<Rightarrow> resolution \<Rightarrow> resolution" where
  "with_token tok res via rest =
     (case tok of
        None \<Rightarrow> rest
      | Some t \<Rightarrow>
          (case res t of
             TokenAuthenticated u slug \<Rightarrow> Authenticated u (via slug)
           | TokenInvalid f \<Rightarrow> Invalid f
           | TokenNotAccepted \<Rightarrow> rest))"

definition evaluate :: "auth_env \<Rightarrow> registry \<Rightarrow> auth_request \<Rightarrow> int \<Rightarrow> auth_db \<Rightarrow> resolution" where
  "evaluate env reg rq now db =
     with_token (rq_bearer rq)
       (\<lambda>t. resolve_token env reg accepts_bearer (rq_surface rq) t now db) ViaBearer
     (with_token (rq_cookie rq)
       (\<lambda>t. resolve_token env reg accepts_session_cookie (rq_surface rq) t now db) ViaSessionCookie
     (case evaluate_strategies env reg rq now db of
        Some r \<Rightarrow> r
      | None \<Rightarrow>
          if rq_bearer rq \<noteq> None \<or> rq_cookie rq \<noteq> None then Invalid Unaccepted else Anonymous))"

end
