(* ===== verification/AuthLogin.thy ===== *)
theory AuthLogin
  imports AuthSession
begin

text \<open>
  The handlers that open, extend and close sessions (src/src/admin/handlers/auth/,
  src/src/api/handlers/auth/login.rs and me.rs).  Rate limiting is modelled in its own theory and
  left out here; rendering and cookies are left out.
\<close>

section \<open>Session tokens\<close>

record auth_settings =
  as_token_expiry :: u64
  as_session_absolute_max_age :: u64

record session_token =
  st_token :: string
  st_expiry :: u64
  st_exp :: u64
  st_claims :: claims

definition create_session_token ::
  "auth_env \<Rightarrow> auth_settings \<Rightarrow> registry \<Rightarrow> string \<Rightarrow> string \<Rightarrow> string \<Rightarrow> nat \<Rightarrow> u64 \<Rightarrow> int \<Rightarrow> session_token option" where
  "create_session_token env cfg reg user_id coll email version auth_time now =
     (let expiry = unwrap_or (as_token_expiry cfg)
        (Option.bind (get_collection reg coll) (\<lambda>d. map_option au_token_expiry (ac_auth d)))
      in Option.bind (claims_build now
           ((claims_builder_new user_id coll)
              \<lparr>cb_email := Some email, cb_exp := Some (sat_add (unix_now now) expiry),
               cb_auth_time := Some auth_time, cb_session_version := version\<rparr>))
           (\<lambda>c. map_option (\<lambda>tok. \<lparr>st_token = tok, st_expiry = expiry, st_exp = cl_exp c, st_claims = c\<rparr>)
             (ae_create_token env c)))"

section \<open>Refresh\<close>

datatype refresh_decision = Extend u64 | Refuse

definition resolve_original_auth_time :: "claims \<Rightarrow> u64 \<Rightarrow> u64 \<Rightarrow> refresh_decision" where
  "resolve_original_auth_time c max_age now =
     (case (case cl_auth_time c of Some a \<Rightarrow> Some a | None \<Rightarrow> cl_iat c) of
        None \<Rightarrow> Refuse
      | Some original \<Rightarrow>
          if 0 < max_age \<and> max_age < sat_sub now original then Refuse else Extend original)"

definition check_session_status :: "string \<Rightarrow> string \<Rightarrow> auth_db \<Rightarrow> (bool \<times> nat) option" where
  "check_session_status slug user_id db =
     (if \<not> is_valid_identifier slug then None
      else if \<not> user_exists user_id (db slug) then None
      else Some (is_locked user_id (db slug), get_session_version user_id (db slug)))"

datatype refresh_result = Unauthorized | RefreshError | Refreshed session_token

definition session_refresh ::
  "auth_env \<Rightarrow> auth_settings \<Rightarrow> registry \<Rightarrow> claims \<Rightarrow> int \<Rightarrow> auth_db \<Rightarrow> refresh_result" where
  "session_refresh env cfg reg c now db =
     (case check_session_status (cl_collection c) (cl_sub c) db of
        None \<Rightarrow> RefreshError
      | Some (locked, version) \<Rightarrow>
          if locked then Unauthorized
          else if cl_session_version c \<noteq> version then Unauthorized
          else
            (case resolve_original_auth_time c (as_session_absolute_max_age cfg) (unix_now now) of
               Refuse \<Rightarrow> Unauthorized
             | Extend original \<Rightarrow>
                 (case create_session_token env cfg reg (cl_sub c) (cl_collection c) (cl_email c)
                         version original now of
                    None \<Rightarrow> RefreshError
                  | Some s \<Rightarrow> Refreshed s)))"

section \<open>Login\<close>

record login_form =
  lf_collection :: string
  lf_email :: string
  lf_password :: string
  lf_headers :: headers

fun try_strategy_auth ::
  "auth_env \<Rightarrow> string \<Rightarrow> (string \<times> string \<times> activation \<times> surface list) list \<Rightarrow> headers \<Rightarrow> auth_db \<Rightarrow> document option" where
  "try_strategy_auth env slug [] hs db = None"
| "try_strategy_auth env slug ((n, h, act, ss) # rest) hs db =
     (case ae_strategy env h slug hs db of
        Inr (Some doc) \<Rightarrow> Some doc
      | _ \<Rightarrow> try_strategy_auth env slug rest hs db)"

text \<open>The checks a strategy's user still goes through.\<close>

definition admit_strategy_user :: "bool \<Rightarrow> document \<Rightarrow> user_table \<Rightarrow> (document \<times> nat) option" where
  "admit_strategy_user verify doc t =
     (if is_locked (doc_id doc) t then None
      else if verify \<and> \<not> is_verified (doc_id doc) t then None
      else Some (doc, get_session_version (doc_id doc) t))"

definition verify_credentials_blocking ::
  "auth_env \<Rightarrow> auth_collection \<Rightarrow> login_form \<Rightarrow> auth_db \<Rightarrow> auth_error + (document \<times> nat) option" where
  "verify_credentials_blocking env def form db =
     (let slug = lf_collection form; t = db slug;
          verify = auth_and requires_verify_email def;
          fallback = Inr (Option.bind
            (Option.bind (ac_auth def)
               (\<lambda>a. try_strategy_auth env slug (strategies (au_methods a)) (lf_headers form) db))
            (\<lambda>doc. admit_strategy_user verify doc t))
      in if auth_and password_login_enabled def
         then (case authenticate_local env def (lf_email form) (lf_password form) verify t of
                 Inr r \<Rightarrow> Inr (Some r)
               | Inl AccountLocked \<Rightarrow> Inr None
               | Inl EmailNotVerified \<Rightarrow> Inr None
               | Inl InvalidCredentials \<Rightarrow> fallback
               | Inl e \<Rightarrow> Inl e)
         else fallback)"

text \<open>The gRPC login falls through to the strategies whatever the password login refused.\<close>

definition login_blocking ::
  "auth_env \<Rightarrow> auth_collection \<Rightarrow> login_form \<Rightarrow> auth_db \<Rightarrow> auth_error + (document \<times> nat) option" where
  "login_blocking env def form db =
     (let slug = lf_collection form; t = db slug;
          verify = auth_and requires_verify_email def;
          fallback = Inr (Option.bind
            (Option.bind (ac_auth def)
               (\<lambda>a. try_strategy_auth env slug (strategies (au_methods a)) [] db))
            (\<lambda>doc. admit_strategy_user verify doc t))
      in if auth_and password_login_enabled def
         then (case authenticate_local env def (lf_email form) (lf_password form) verify t of
                 Inr r \<Rightarrow> Inr (Some r)
               | Inl InvalidCredentials \<Rightarrow> fallback
               | Inl AccountLocked \<Rightarrow> fallback
               | Inl EmailNotVerified \<Rightarrow> fallback
               | Inl e \<Rightarrow> Inl e)
         else fallback)"

definition MFA_PENDING_EXPIRY :: u64 where
  "MFA_PENDING_EXPIRY = 300"

text \<open>The pending token and the statement of the background task that stores the code.\<close>

definition mfa_pending_claims :: "document \<Rightarrow> login_form \<Rightarrow> nat \<Rightarrow> int \<Rightarrow> claims option" where
  "mfa_pending_claims user form version now =
     claims_build now
       ((claims_builder_new (doc_id user) (lf_collection form))
          \<lparr>cb_email := Some (unwrap_or (lf_email form) (json_email user)),
           cb_exp := Some (sat_add (unix_now now) MFA_PENDING_EXPIRY),
           cb_session_version := version\<rparr>)"

definition send_mfa_code :: "string \<Rightarrow> string \<Rightarrow> string \<Rightarrow> int \<Rightarrow> auth_db \<Rightarrow> auth_db" where
  "send_mfa_code slug user_id code now db =
     db(slug := set_mfa_code user_id code (wrap_i64 (now + uint MFA_PENDING_EXPIRY)) (db slug))"

datatype login_outcome =
    LoginError string
  | GateDenied
  | MfaChallenge string claims
  | LoggedIn session_token

definition finish_login ::
  "auth_env \<Rightarrow> auth_settings \<Rightarrow> registry \<Rightarrow> auth_collection \<Rightarrow> login_form \<Rightarrow> document \<Rightarrow> nat \<Rightarrow> int \<Rightarrow> login_outcome" where
  "finish_login env cfg reg def form user version now =
     (if auth_and (\<lambda>a. mfa a = MfaEmail) def
      then (case mfa_pending_claims user form version now of
              None \<Rightarrow> LoginError ''error_internal''
            | Some c \<Rightarrow> (case ae_create_token env c of
                           None \<Rightarrow> LoginError ''error_internal''
                         | Some tok \<Rightarrow> MfaChallenge tok c))
      else (case create_session_token env cfg reg (doc_id user) (lf_collection form)
                   (unwrap_or (lf_email form) (json_email user)) version (unix_now now) now of
              None \<Rightarrow> LoginError ''error_internal''
            | Some s \<Rightarrow> LoggedIn s))"

text \<open>\<open>gate\<close> is the access function of \<open>admin.access\<close> on the user's document.\<close>

definition login_action ::
  "auth_env \<Rightarrow> auth_settings \<Rightarrow> registry \<Rightarrow> (document \<Rightarrow> bool) \<Rightarrow> login_form \<Rightarrow> int \<Rightarrow> auth_db \<Rightarrow> login_outcome" where
  "login_action env cfg reg gate form now db =
     (case get_collection reg (lf_collection form) of
        None \<Rightarrow> LoginError ''error_invalid_collection''
      | Some def \<Rightarrow>
          if \<not> is_auth_collection def then LoginError ''error_invalid_collection''
          else if \<not> auth_and password_login_enabled def \<and> \<not> auth_and has_strategies def
          then LoginError ''error_invalid_collection''
          else
            (case verify_credentials_blocking env def form db of
               Inl e \<Rightarrow> LoginError ''error_internal''
             | Inr None \<Rightarrow> LoginError ''error_invalid_credentials''
             | Inr (Some (user, version)) \<Rightarrow>
                 if \<not> gate user then GateDenied
                 else finish_login env cfg reg def form user version now))"

text \<open>The gRPC \<open>Login\<close>: no MFA, and the collection's own expiry.\<close>

definition grpc_login ::
  "auth_env \<Rightarrow> registry \<Rightarrow> login_form \<Rightarrow> int \<Rightarrow> auth_db \<Rightarrow> login_outcome" where
  "grpc_login env reg form now db =
     (case get_collection reg (lf_collection form) of
        None \<Rightarrow> LoginError ''not found''
      | Some def \<Rightarrow>
          if \<not> is_auth_collection def then LoginError ''not an auth collection''
          else if \<not> auth_and password_login_enabled def \<and> \<not> auth_and has_strategies def
          then LoginError ''Local login is disabled''
          else
            (case login_blocking env def form db of
               Inl e \<Rightarrow> LoginError ''Internal error''
             | Inr None \<Rightarrow> LoginError ''Invalid email or password''
             | Inr (Some (user, version)) \<Rightarrow>
                 (let expiry = (case ac_auth def of None \<Rightarrow> 7200 | Some a \<Rightarrow> au_token_expiry a)
                  in case claims_build now
                       ((claims_builder_new (doc_id user) (lf_collection form))
                          \<lparr>cb_email := Some (unwrap_or (lf_email form) (json_email user)),
                           cb_exp := Some (sat_add (unix_now now) expiry),
                           cb_auth_time := Some (unix_now now), cb_session_version := version\<rparr>) of
                       None \<Rightarrow> LoginError ''Internal error''
                     | Some c \<Rightarrow>
                         (case ae_create_token env c of
                            None \<Rightarrow> LoginError ''Internal error''
                          | Some tok \<Rightarrow>
                              LoggedIn \<lparr>st_token = tok, st_expiry = expiry, st_exp = cl_exp c, st_claims = c\<rparr>))))"

section \<open>The second factor\<close>

definition build_mfa_session ::
  "auth_env \<Rightarrow> auth_settings \<Rightarrow> registry \<Rightarrow> claims \<Rightarrow> int \<Rightarrow> login_outcome" where
  "build_mfa_session env cfg reg pending now =
     (case create_session_token env cfg reg (cl_sub pending) (cl_collection pending) (cl_email pending)
             (cl_session_version pending) (unix_now now) now of
        None \<Rightarrow> LoginError ''error_internal''
      | Some s \<Rightarrow> LoggedIn s)"

definition verify_mfa_action ::
  "auth_env \<Rightarrow> auth_settings \<Rightarrow> registry \<Rightarrow> string option \<Rightarrow> string \<Rightarrow> int \<Rightarrow> auth_db \<Rightarrow> auth_db \<times> login_outcome" where
  "verify_mfa_action env cfg reg cookie code now db =
     (case Option.bind cookie (ae_validate_token env now) of
        None \<Rightarrow> (db, LoginError ''login'')
      | Some pending \<Rightarrow>
          (case verify_mfa_code (cl_sub pending) code now (db (cl_collection pending)) of
             (t, ok) \<Rightarrow>
               (db(cl_collection pending := t),
                if ok then build_mfa_session env cfg reg pending now
                else LoginError ''error_mfa_invalid_code'')))"

section \<open>External login, logout and Me\<close>

definition find_auth_collection :: "registry \<Rightarrow> string option" where
  "find_auth_collection reg = map_option ac_slug (find is_auth_collection (rg_collections reg))"

text \<open>The callback trusts the document its hook returns.\<close>

definition auth_callback ::
  "auth_env \<Rightarrow> auth_settings \<Rightarrow> registry \<Rightarrow> string \<Rightarrow> headers \<Rightarrow> int \<Rightarrow> auth_db \<Rightarrow> login_outcome" where
  "auth_callback env cfg reg name hs now db =
     (case find_auth_collection reg of
        None \<Rightarrow> LoginError ''login''
      | Some coll \<Rightarrow>
          (case ae_strategy env (''auth_callback.'' @ name) coll hs db of
             Inr (Some user) \<Rightarrow>
               (case create_session_token env cfg reg (doc_id user) coll (unwrap_or [] (json_email user))
                       (get_session_version (doc_id user) (db coll)) (unix_now now) now of
                  None \<Rightarrow> LoginError ''login''
                | Some s \<Rightarrow> LoggedIn s)
           | _ \<Rightarrow> LoginError ''login''))"

definition logout_action :: "auth_user option \<Rightarrow> auth_db \<Rightarrow> auth_db" where
  "logout_action u db =
     (case u of
        None \<Rightarrow> db
      | Some user \<Rightarrow>
          (let c = us_claims user
           in db(cl_collection c := fst (bump_session_version (cl_sub c) (db (cl_collection c))))))"

datatype me_result = MeUser document | MeError string

definition me_impl :: "auth_env \<Rightarrow> registry \<Rightarrow> string \<Rightarrow> int \<Rightarrow> auth_db \<Rightarrow> me_result" where
  "me_impl env reg token now db =
     (case ae_validate_token env now token of
        None \<Rightarrow> MeError ''Invalid or expired token''
      | Some c \<Rightarrow>
          (case get_collection reg (cl_collection c) of
             None \<Rightarrow> MeError ''not found''
           | Some def \<Rightarrow>
               (case find_by_id (ae_base64 env) (ae_hydrate env (cl_collection c)) def (cl_sub c)
                       (db (cl_collection c)) of
                  None \<Rightarrow> MeError ''User not found''
                | Some doc \<Rightarrow>
                    if cl_session_version c \<noteq> get_session_version (cl_sub c) (db (cl_collection c))
                    then MeError ''Session invalidated''
                    else if is_locked (cl_sub c) (db (cl_collection c)) then MeError ''Account is locked''
                    else MeUser doc)))"

section \<open>An installation\<close>

text \<open>
  One collection \<open>users\<close> with password login and email MFA, one user, and stand-ins for the
  libraries: a hash that prefixes the password and a token library that knows one token, issued
  for \<open>known\<close>.
\<close>

definition ex_auth :: auth_config where
  "ex_auth = \<lparr>au_enabled = True, au_token_expiry = 7200,
     au_methods = [PasswordLogin MfaEmail False True, Bearer [Admin, Grpc], SessionCookie [Admin],
       Strategy ''key'' ''hooks.key'' (OnHeader ''X-Key'') [Grpc]]\<rparr>"

definition ex_users :: auth_collection where
  "ex_users = \<lparr>ci_timestamps = True, ci_has_drafts = False,
     ci_fields = [FieldDefinition (new_attrs ''email'' Email) [] [] []],
     ac_slug = ''users'', ac_soft_delete = False, ac_auth = Some ex_auth\<rparr>"

definition ex_row :: user_row where
  "ex_row = \<lparr>fr_id = ''u1'', fr_cols = [(''email'', DText ''a@b'')], ur_password_hash = Some ''$pw'',
     ur_locked = None, ur_verified = None, ur_session_version = None, ur_reset_token = None,
     ur_reset_token_exp = None, ur_verification_token = None, ur_verification_token_exp = None,
     ur_mfa_code = None, ur_mfa_code_exp = None\<rparr>"

definition ex_db :: auth_db where
  "ex_db = (\<lambda>slug. if slug = ''users'' then [ex_row] else [])"

definition ex_env :: "claims \<Rightarrow> auth_env" where
  "ex_env known = \<lparr>ae_base64 = id, ae_hydrate = (\<lambda>slug d. d),
     ae_pw_hash = (\<lambda>salt pw. Some (''$'' @ pw)), ae_pw_verify = (\<lambda>pw hash. Some (hash = ''$'' @ pw)),
     ae_create_token = (\<lambda>c. Some ''tok''),
     ae_validate_token = (\<lambda>now t. if t = ''tok'' then Some known else None),
     ae_strategy = (\<lambda>hook slug hs db. Inr (map_option (user_document id ex_users) (find_user ''u1'' (db ''users''))))\<rparr>"

definition ex_reg :: registry where
  "ex_reg = rebuild_strategy_index [ex_users]"

definition ex_cfg :: auth_settings where
  "ex_cfg = \<lparr>as_token_expiry = 7200, as_session_absolute_max_age = 86400\<rparr>"

definition ex_form :: login_form where
  "ex_form = \<lparr>lf_collection = ''users'', lf_email = ''a@b'', lf_password = ''pw'', lf_headers = []\<rparr>"

definition ex_claims :: claims where
  "ex_claims = \<lparr>cl_sub = ''u1'', cl_collection = ''users'', cl_email = ''a@b'', cl_exp = 7300,
     cl_iat = Some 100, cl_auth_time = Some 100, cl_session_version = 0\<rparr>"

definition ex_pending :: claims where
  "ex_pending = \<lparr>cl_sub = ''u1'', cl_collection = ''users'', cl_email = ''a@b'', cl_exp = 400,
     cl_iat = Some 100, cl_auth_time = None, cl_session_version = 0\<rparr>"

lemma ex_column_names: "get_column_names ex_users = [''id'', ''email'', ''created_at'', ''updated_at'']"
  by code_simp

lemma ex_collection [simp]: "get_collection ex_reg ''users'' = Some ex_users"
  by code_simp

lemma ex_grpc_login:
  "grpc_login (ex_env ex_claims) ex_reg ex_form 100 ex_db =
     LoggedIn \<lparr>st_token = ''tok'', st_expiry = 7200, st_exp = 7300, st_claims = ex_claims\<rparr>"
  by code_simp

lemma ex_login_challenge:
  "login_action (ex_env ex_pending) ex_cfg ex_reg (\<lambda>d. True) ex_form 100 ex_db = MfaChallenge ''tok'' ex_pending"
  by code_simp

end
