(* ===== verification/AuthRevocation.thy ===== *)
theory AuthRevocation
  imports AuthLogin "HOL-Library.Extended_Nat"
begin

text \<open>
  Sessions over time: the system whose steps are the handlers' operations on the user tables and
  the tokens they issue, and what a raised session version means for the tokens issued before.
\<close>

section \<open>Credentials with a version\<close>

text \<open>
  A system that issues credentials carrying the version their key has at the time.  Versions
  never fall, so a credential older than the version is older for ever.
\<close>

locale versioned_credentials =
  fixes step :: "'s \<Rightarrow> 's \<Rightarrow> bool"
    and issued :: "'s \<Rightarrow> 'c set"
    and version :: "'s \<Rightarrow> 'k \<Rightarrow> 'v::linorder"
    and key :: "'c \<Rightarrow> 'k"
    and stamp :: "'c \<Rightarrow> 'v"
  assumes version_mono: "step s s' \<Longrightarrow> version s k \<le> version s' k"
    and issue_law: "step s s' \<Longrightarrow> c \<in> issued s' \<Longrightarrow>
      c \<in> issued s \<or> stamp c \<le> version s (key c) \<or> (\<exists>d \<in> issued s. key d = key c \<and> stamp d = stamp c)"
begin

definition none_ahead :: "'s \<Rightarrow> bool" where
  "none_ahead s \<longleftrightarrow> (\<forall>c \<in> issued s. stamp c \<le> version s (key c))"

lemma none_ahead_step:
  assumes "none_ahead s" "step s s'" shows "none_ahead s'"
  unfolding none_ahead_def
proof
  fix c assume "c \<in> issued s'"
  with issue_law [OF assms(2)] assms(1) have "stamp c \<le> version s (key c)"
    unfolding none_ahead_def by metis
  also have "\<dots> \<le> version s' (key c)" by (rule version_mono [OF assms(2)])
  finally show "stamp c \<le> version s' (key c)" .
qed

lemma none_ahead_steps: "step\<^sup>*\<^sup>* s s' \<Longrightarrow> none_ahead s \<Longrightarrow> none_ahead s'"
  by (induction rule: rtranclp_induct) (auto intro: none_ahead_step)

lemma version_mono_steps: "step\<^sup>*\<^sup>* s s' \<Longrightarrow> version s k \<le> version s' k"
  by (induction rule: rtranclp_induct) (auto intro: order_trans version_mono)

text \<open>Once the version has moved past the issued credentials of a key, they stay behind.\<close>

lemma stale_for_ever:
  assumes "none_ahead s" "c \<in> issued s" "version s (key c) < version s1 (key c)" "step\<^sup>*\<^sup>* s1 s2"
  shows "stamp c < version s2 (key c)"
proof -
  have "stamp c \<le> version s (key c)" using assms(1,2) by (simp add: none_ahead_def)
  also have "\<dots> < version s1 (key c)" by (rule assms(3))
  also have "\<dots> \<le> version s2 (key c)" by (rule version_mono_steps [OF assms(4)])
  finally show ?thesis .
qed

end

section \<open>How a table evolves\<close>

text \<open>An operation that keeps the users and never lowers a version.\<close>

definition evolves :: "user_table \<Rightarrow> user_table \<Rightarrow> bool" where
  "evolves t t' \<longleftrightarrow>
     (\<forall>i. user_exists i t' = user_exists i t \<and> get_session_version i t \<le> get_session_version i t') \<and>
     (versions_ok t \<longrightarrow> versions_ok t')"

named_theorems evolve_intros \<open>the operations that keep the users and never lower a version\<close>

lemma evolves_refl [evolve_intros, simp]: "evolves t t"
  by (simp add: evolves_def)

lemma evolves_trans: "evolves t u \<Longrightarrow> evolves u v \<Longrightarrow> evolves t v"
  unfolding evolves_def by (meson order_trans)

lemma evolves_update:
  assumes "\<And>r. fr_id (f r) = fr_id r"
    and "\<And>r. ur_session_version (f r) = ur_session_version r \<or>
      ur_session_version (f r) = next_version (ur_session_version r)"
  shows "evolves t (update_where (has_id i) f t)"
proof -
  have "nat (unwrap_or 0 (ur_session_version r)) \<le> nat (unwrap_or 0 (ur_session_version (f r)))" for r
    using assms(2) [of r] next_version_mono [of "ur_session_version r"] by auto
  then have "get_session_version j t \<le> get_session_version j (update_where (has_id i) f t)" for j
    by (auto simp: get_session_version_def find_user_update [OF assms(1)] split: option.split)
  moreover have "user_exists j (update_where (has_id i) f t) = user_exists j t" for j
    by (simp add: user_exists_def find_user_update [OF assms(1)])
  moreover have "versions_ok t \<Longrightarrow> versions_ok (update_where (has_id i) f t)"
    unfolding versions_ok_def
  proof
    fix r' assume ok: "\<forall>r \<in> set t. 0 \<le> unwrap_or 0 (ur_session_version r)"
      and "r' \<in> set (update_where (has_id i) f t)"
    then obtain r where "r \<in> set t" "r' = f r \<or> r' = r" by (auto simp: set_update_where split: if_splits)
    with ok assms(2) [of r] show "0 \<le> unwrap_or 0 (ur_session_version r')"
      by (auto simp: next_version_def)
  qed
  ultimately show ?thesis by (simp add: evolves_def)
qed

lemma evolves_ops [evolve_intros]:
  "evolves t (update_password i h t)"
  "evolves t (fst (bump_session_version i t))"
  "evolves t (set_locked b i t)"
  "evolves t (set_token k i tok e t)"
  "evolves t (clear_token k i t)"
  "evolves t (mark_verified i t)"
  "evolves t (mark_unverified i t)"
  "evolves t (set_mfa_code i code e t)"
  "evolves t (clear_mfa_code i t)"
  unfolding update_password_def bump_session_version_def Let_def fst_conv set_locked_def set_token_def
    clear_token_def mark_verified_def mark_unverified_def set_mfa_code_def clear_mfa_code_def
  by (rule evolves_update; simp)+

lemma evolves_verify_mfa [evolve_intros]: "evolves t (fst (verify_mfa_code i code now t))"
  using verify_mfa_table [of i code now t] evolves_ops(9) by auto

lemma evolves_lock [evolve_intros]: "evolves t (service_lock_user i t)"
  unfolding service_lock_user_def by (rule evolves_trans [OF evolves_ops(3) evolves_ops(2)])

lemma evolves_generate [evolve_intros]: "evolves t (fst (generate_reset_token env def email e tok now t))"
  by (simp add: generate_reset_token_def evolve_intros split: option.split)

lemma evolves_consume_reset [evolve_intros]: "evolves t (fst (consume_reset_token env def tok pw salt now t))"
  by (auto simp: consume_reset_token_def Let_def evolve_intros split: option.split sum.split
    intro: evolves_trans evolve_intros)

lemma evolves_consume_verification [evolve_intros]:
  "evolves t (fst (consume_verification_token env def tok now t))"
  by (auto simp: consume_verification_token_def Let_def evolve_intros split: option.split sum.split)

lemma evolves_reset_blocking [evolve_intros]: "evolves t (fst (reset_password_blocking env def tok pw salt now t))"
  using evolves_consume_reset [of t env def tok pw salt now]
  by (auto simp: reset_password_blocking_def split: prod.split sum.split)

lemma evolves_verify_blocking [evolve_intros]: "evolves t (fst (verify_email_blocking env def tok now t))"
  using evolves_consume_verification [of t env def tok now]
  by (auto simp: verify_email_blocking_def split: prod.split sum.split)

lemma admin_reset_evolves:
  "(\<And>s. evolves (db s) (tx s)) \<Longrightarrow> evolves (db s) (fst (admin_reset_loop env defs tok pw salt now db tx) s)"
proof (induction env defs tok pw salt now db tx rule: admin_reset_loop.induct)
  case (2 env def defs tok pw salt now db tx)
  define t where "t = fst (consume_reset_token env def tok pw salt now (tx (ac_slug def)))"
  have "evolves (tx (ac_slug def)) t" unfolding t_def by (rule evolve_intros)
  then have upd: "evolves (db s) ((tx(ac_slug def := t)) s)" for s
    using 2(3) evolves_trans by fastforce
  obtain res where res: "consume_reset_token env def tok pw salt now (tx (ac_slug def)) = (t, res)"
    unfolding t_def by (metis prod.exhaust_sel)
  show ?case
  proof (cases "\<not> is_auth_collection def \<or> \<not> auth_and password_login_enabled def")
    case True
    with 2(1) [OF True 2(3)] show ?thesis by simp
  next
    case False
    show ?thesis
    proof (cases "res = Inl (InvalidToken ''not found'')")
      case True
      from 2(2) [OF False res [symmetric] True refl upd] False res True show ?thesis by (simp add: fun_upd_def)
    next
      case other: False
      with False res upd [of s] show ?thesis by (cases res) auto
    qed
  qed
qed simp

lemma admin_verify_evolves:
  "(\<And>s. evolves (db s) (tx s)) \<Longrightarrow> evolves (db s) (fst (admin_verify_loop env defs tok now db tx) s)"
proof (induction env defs tok now db tx rule: admin_verify_loop.induct)
  case (2 env def defs tok now db tx)
  define t where "t = fst (consume_verification_token env def tok now (tx (ac_slug def)))"
  have "evolves (tx (ac_slug def)) t" unfolding t_def by (rule evolve_intros)
  then have upd: "evolves (db s) ((tx(ac_slug def := t)) s)" for s
    using 2(3) evolves_trans by fastforce
  obtain res where res: "consume_verification_token env def tok now (tx (ac_slug def)) = (t, res)"
    unfolding t_def by (metis prod.exhaust_sel)
  show ?case
  proof (cases "\<not> is_auth_collection def \<or> \<not> auth_and requires_verify_email def")
    case True
    with 2(1) [OF True 2(3)] show ?thesis by simp
  next
    case False
    show ?thesis
    proof (cases "res = Inr False")
      case True
      from 2(2) [OF False res [symmetric] True _ upd] False res True show ?thesis by (simp add: fun_upd_def)
    next
      case other: False
      with False res upd [of s] show ?thesis by (cases res) auto
    qed
  qed
qed simp

section \<open>The steps\<close>

text \<open>
  \<open>sy_deleted\<close> are the users that were removed: an id is a fresh random string, so a removed one
  does not come back.
\<close>

record auth_system =
  sy_db :: auth_db
  sy_issued :: "claims list"
  sy_deleted :: "(string \<times> string) list"

abbreviation on_table :: "string \<Rightarrow> (user_table \<Rightarrow> user_table) \<Rightarrow> auth_system \<Rightarrow> auth_system" where
  "on_table slug f s \<equiv> s\<lparr>sy_db := (sy_db s)(slug := f (sy_db s slug))\<rparr>"

abbreviation issue :: "session_token \<Rightarrow> auth_system \<Rightarrow> auth_system" where
  "issue tok s \<equiv> s\<lparr>sy_issued := st_claims tok # sy_issued s\<rparr>"

inductive auth_step :: "auth_env \<Rightarrow> auth_settings \<Rightarrow> registry \<Rightarrow> auth_system \<Rightarrow> auth_system \<Rightarrow> bool"
  for env cfg reg
where
  Login: "login_action env cfg reg gate form now (sy_db s) = LoggedIn tok \<Longrightarrow>
    auth_step env cfg reg s (issue tok s)"
| LoginMfa: "login_action env cfg reg gate form now (sy_db s) = MfaChallenge tok c \<Longrightarrow>
    auth_step env cfg reg s (s\<lparr>sy_issued := c # sy_issued s\<rparr>)"
| SendCode: "auth_step env cfg reg s (s\<lparr>sy_db := send_mfa_code slug i code now (sy_db s)\<rparr>)"
| MfaOk: "verify_mfa_action env cfg reg (Some tok) code now (sy_db s) = (db, LoggedIn new) \<Longrightarrow>
    ae_validate_token env now tok = Some c \<Longrightarrow> c \<in> set (sy_issued s) \<Longrightarrow>
    auth_step env cfg reg s (issue new (s\<lparr>sy_db := db\<rparr>))"
| MfaFail: "verify_mfa_action env cfg reg cookie code now (sy_db s) = (db, LoginError e) \<Longrightarrow>
    auth_step env cfg reg s (s\<lparr>sy_db := db\<rparr>)"
| GrpcLogin: "grpc_login env reg form now (sy_db s) = LoggedIn tok \<Longrightarrow>
    auth_step env cfg reg s (issue tok s)"
| Callback: "auth_callback env cfg reg name hs now (sy_db s) = LoggedIn tok \<Longrightarrow>
    auth_step env cfg reg s (issue tok s)"
| Refresh: "c \<in> set (sy_issued s) \<Longrightarrow> session_refresh env cfg reg c now (sy_db s) = Refreshed tok \<Longrightarrow>
    auth_step env cfg reg s (issue tok s)"
| Logout: "auth_step env cfg reg s (s\<lparr>sy_db := logout_action u (sy_db s)\<rparr>)"
| SetPassword: "auth_step env cfg reg s (on_table slug (update_password i hash) s)"
| Lock: "auth_step env cfg reg s (on_table slug (service_lock_user i) s)"
| Unlock: "auth_step env cfg reg s (on_table slug (unlock_user i) s)"
| MarkVerified: "auth_step env cfg reg s (on_table slug (mark_verified i) s)"
| MarkUnverified: "auth_step env cfg reg s (on_table slug (mark_unverified i) s)"
| SetVerification: "auth_step env cfg reg s (on_table slug (set_token VerificationToken i tok e) s)"
| ForgotPassword:
    "auth_step env cfg reg s (on_table slug (\<lambda>t. fst (generate_reset_token env def email e tok now t)) s)"
| GrpcReset:
    "auth_step env cfg reg s (on_table slug (\<lambda>t. fst (reset_password_blocking env def tok pw salt now t)) s)"
| AdminReset:
    "auth_step env cfg reg s (s\<lparr>sy_db := fst (admin_consume_reset_token env defs tok pw salt now (sy_db s))\<rparr>)"
| GrpcVerify:
    "auth_step env cfg reg s (on_table slug (\<lambda>t. fst (verify_email_blocking env def tok now t)) s)"
| AdminVerify:
    "auth_step env cfg reg s (s\<lparr>sy_db := fst (admin_consume_verification_token env defs tok now (sy_db s))\<rparr>)"
| EditUser: "auth_step env cfg reg s (on_table slug (update_where (has_id i) (\<lambda>r. r\<lparr>fr_cols := cs\<rparr>)) s)"
| CreateUser: "\<not> user_exists (fr_id r) (sy_db s slug) \<Longrightarrow> (slug, fr_id r) \<notin> set (sy_deleted s) \<Longrightarrow>
    ur_session_version r \<in> {None, Some 0} \<Longrightarrow>
    auth_step env cfg reg s (on_table slug (\<lambda>t. t @ [r]) s)"
| DeleteUser: "auth_step env cfg reg s
    (on_table slug (delete_where (has_id i)) (s\<lparr>sy_deleted := (slug, i) # sy_deleted s\<rparr>))"

text \<open>A removed user is past every version.\<close>

definition system_version :: "auth_system \<Rightarrow> string \<times> string \<Rightarrow> enat" where
  "system_version s k =
     (if k \<in> set (sy_deleted s) then \<infinity> else enat (get_session_version (snd k) (sy_db s (fst k))))"

definition claims_key :: "claims \<Rightarrow> string \<times> string" where
  "claims_key c = (cl_collection c, cl_sub c)"

definition claims_stamp :: "claims \<Rightarrow> enat" where
  "claims_stamp c = enat (cl_session_version c)"

subsection \<open>What a login stamps\<close>

text \<open>Every session a login opens carries the version its user has then.\<close>

lemma create_session_token_claims:
  assumes "create_session_token env cfg reg i coll email v a now = Some s"
  shows "cl_sub (st_claims s) = i" "cl_collection (st_claims s) = coll"
    "cl_session_version (st_claims s) = v" "cl_auth_time (st_claims s) = Some a"
    "cl_exp (st_claims s) = sat_add (unix_now now) (st_expiry s)"
    "st_expiry s = unwrap_or (as_token_expiry cfg)
       (Option.bind (get_collection reg coll) (\<lambda>d. map_option au_token_expiry (ac_auth d)))"
    "ae_create_token env (st_claims s) = Some (st_token s)" "st_exp s = cl_exp (st_claims s)"
  using assms
  by (auto simp: create_session_token_def Let_def claims_build_def claims_builder_new_def split: bind_splits)

lemma create_session_token_key:
  "create_session_token env cfg reg i coll email v a now = Some s \<Longrightarrow>
     cl_sub (st_claims s) = i \<and> cl_collection (st_claims s) = coll \<and> cl_session_version (st_claims s) = v"
  by (simp add: create_session_token_claims)

lemma authenticate_local_version:
  "authenticate_local env def email pw v t = Inr (d, n) \<Longrightarrow> n = get_session_version (doc_id d) t"
  by (auto simp: authenticate_local_def result_simps split: option.splits if_splits)

lemma admit_strategy_version:
  "admit_strategy_user v doc t = Some (d, n) \<Longrightarrow> n = get_session_version (doc_id d) t"
  by (auto simp: admit_strategy_user_def split: if_splits)

lemma verify_credentials_version:
  "verify_credentials_blocking env def form db = Inr (Some (d, n)) \<Longrightarrow>
    n = get_session_version (doc_id d) (db (lf_collection form))"
  by (auto simp: verify_credentials_blocking_def Let_def
    split: if_splits sum.splits auth_error.splits bind_splits
    dest: authenticate_local_version admit_strategy_version)

lemma login_blocking_version:
  "login_blocking env def form db = Inr (Some (d, n)) \<Longrightarrow>
    n = get_session_version (doc_id d) (db (lf_collection form))"
  by (auto simp: login_blocking_def Let_def
    split: if_splits sum.splits auth_error.splits bind_splits
    dest: authenticate_local_version admit_strategy_version)

definition stamped_now :: "claims \<Rightarrow> auth_db \<Rightarrow> bool" where
  "stamped_now c db \<longleftrightarrow> cl_session_version c = get_session_version (cl_sub c) (db (cl_collection c))"

lemma mfa_pending_claims_simps:
  "mfa_pending_claims user form n now = Some c \<Longrightarrow>
     cl_sub c = doc_id user \<and> cl_collection c = lf_collection form \<and> cl_session_version c = n \<and>
     cl_auth_time c = None \<and> cl_iat c = Some (unix_now now) \<and>
     cl_exp c = sat_add (unix_now now) MFA_PENDING_EXPIRY"
  by (auto simp: mfa_pending_claims_def claims_build_def claims_builder_new_def)

lemma login_action_credentials:
  assumes "login_action env cfg reg gate form now db = LoggedIn tok \<or>
    login_action env cfg reg gate form now db = MfaChallenge tk c"
  obtains def user v where "get_collection reg (lf_collection form) = Some def" "is_auth_collection def"
    "verify_credentials_blocking env def form db = Inr (Some (user, v))" "gate user"
    "finish_login env cfg reg def form user v now = login_action env cfg reg gate form now db"
  using assms
  by (auto simp: login_action_def split: option.splits if_splits sum.splits)

lemma login_action_stamps:
  assumes "login_action env cfg reg gate form now db = LoggedIn tok"
  shows "stamped_now (st_claims tok) db"
proof -
  from assms obtain def user v where v: "verify_credentials_blocking env def form db = Inr (Some (user, v))"
    and fin: "finish_login env cfg reg def form user v now = LoggedIn tok"
    by (metis login_action_credentials)
  from fin have "create_session_token env cfg reg (doc_id user) (lf_collection form)
      (unwrap_or (lf_email form) (json_email user)) v (unix_now now) now = Some tok"
    by (auto simp: finish_login_def split: if_splits option.splits)
  from create_session_token_claims(1-3) [OF this] verify_credentials_version [OF v]
  show ?thesis by (simp add: stamped_now_def)
qed

lemma login_challenge_stamps:
  assumes "login_action env cfg reg gate form now db = MfaChallenge tok c"
  shows "stamped_now c db"
proof -
  from assms obtain def user v where v: "verify_credentials_blocking env def form db = Inr (Some (user, v))"
    and fin: "finish_login env cfg reg def form user v now = MfaChallenge tok c"
    by (metis login_action_credentials)
  from fin have "mfa_pending_claims user form v now = Some c"
    by (auto simp: finish_login_def split: if_splits option.splits)
  from mfa_pending_claims_simps [OF this] verify_credentials_version [OF v]
  show ?thesis by (simp add: stamped_now_def)
qed

lemma grpc_login_stamps:
  "grpc_login env reg form now db = LoggedIn tok \<Longrightarrow> stamped_now (st_claims tok) db"
  by (auto simp: grpc_login_def Let_def claims_build_def claims_builder_new_def stamped_now_def
    split: option.splits if_splits sum.splits dest!: login_blocking_version)

lemma auth_callback_stamps:
  "auth_callback env cfg reg name hs now db = LoggedIn tok \<Longrightarrow> stamped_now (st_claims tok) db"
  by (auto simp: auth_callback_def stamped_now_def split: option.splits sum.splits
    dest!: create_session_token_key)

lemma session_refresh_claims:
  assumes "session_refresh env cfg reg c now db = Refreshed tok"
  obtains original where
    "create_session_token env cfg reg (cl_sub c) (cl_collection c) (cl_email c)
       (get_session_version (cl_sub c) (db (cl_collection c))) original now = Some tok"
    "resolve_original_auth_time c (as_session_absolute_max_age cfg) (unix_now now) = Extend original"
    "user_exists (cl_sub c) (db (cl_collection c))" "\<not> is_locked (cl_sub c) (db (cl_collection c))"
    "stamped_now c db"
  using assms
  by (auto simp: session_refresh_def check_session_status_def stamped_now_def
    split: option.splits if_splits refresh_decision.splits)

lemma session_refresh_stamps:
  assumes "session_refresh env cfg reg c now db = Refreshed tok"
  shows "stamped_now (st_claims tok) db"
  using assms by (rule session_refresh_claims) (auto simp: stamped_now_def dest!: create_session_token_key)

lemma verify_mfa_session:
  assumes "verify_mfa_action env cfg reg (Some tok) code now db = (db', LoggedIn new)"
    and "ae_validate_token env now tok = Some c"
  shows "claims_key (st_claims new) = claims_key c \<and> claims_stamp (st_claims new) = claims_stamp c"
  using assms
  by (auto simp: verify_mfa_action_def build_mfa_session_def claims_key_def claims_stamp_def
    split: prod.splits if_splits option.splits dest!: create_session_token_key)

subsection \<open>The system has versioned credentials\<close>

lemma find_user_snoc:
  "find_user j (t @ [r]) = (case find_user j t of Some x \<Rightarrow> Some x | None \<Rightarrow> if fr_id r = j then Some r else None)"
  by (induction t) (simp_all add: find_user_def)

lemma verify_mfa_evolves:
  assumes "verify_mfa_action env cfg reg cookie code now db = (db', out)"
  shows "evolves (db slug) (db' slug)"
proof (cases "Option.bind cookie (ae_validate_token env now)")
  case (Some c)
  obtain t ok where t: "verify_mfa_code (cl_sub c) code now (db (cl_collection c)) = (t, ok)" by fastforce
  then have "evolves (db (cl_collection c)) t" using evolves_verify_mfa by (metis fst_conv)
  with assms Some t show ?thesis by (auto simp: verify_mfa_action_def)
qed (use assms in \<open>auto simp: verify_mfa_action_def\<close>)

lemma auth_step_evolves:
  assumes "auth_step env cfg reg s s'"
  shows "(sy_deleted s' = sy_deleted s \<and> (\<forall>slug. evolves (sy_db s slug) (sy_db s' slug))) \<or>
    (\<exists>slug r. \<not> user_exists (fr_id r) (sy_db s slug) \<and> (slug, fr_id r) \<notin> set (sy_deleted s) \<and>
       ur_session_version r \<in> {None, Some 0} \<and> s' = on_table slug (\<lambda>t. t @ [r]) s) \<or>
    (\<exists>slug i. s' = on_table slug (delete_where (has_id i)) (s\<lparr>sy_deleted := (slug, i) # sy_deleted s\<rparr>))"
  using assms
proof (cases rule: auth_step.cases)
  case (MfaOk tok code now db new c)
  then show ?thesis by (auto intro: verify_mfa_evolves)
next
  case (MfaFail cookie code now db e)
  then show ?thesis by (auto intro: verify_mfa_evolves)
next
  case (SendCode slug i code now)
  then show ?thesis by (auto simp: evolve_intros send_mfa_code_def)
next
  case (Logout u)
  then show ?thesis by (auto simp: evolve_intros logout_action_def Let_def split: option.splits)
next
  case (AdminReset defs tok pw salt now)
  then show ?thesis by (auto intro!: admin_reset_evolves simp: admin_consume_reset_token_def)
next
  case (AdminVerify defs tok now)
  then show ?thesis by (auto intro!: admin_verify_evolves simp: admin_consume_verification_token_def)
next
  case (EditUser slug i cs)
  then show ?thesis by (auto intro!: evolves_update)
next
  case (CreateUser r slug)
  then show ?thesis by blast
next
  case (DeleteUser slug i)
  then show ?thesis by blast
qed (auto simp: evolve_intros)

lemma auth_step_cases [consumes 1, case_names evolve create delete]:
  assumes "auth_step env cfg reg s s'"
  obtains "sy_deleted s' = sy_deleted s" "\<And>slug. evolves (sy_db s slug) (sy_db s' slug)"
  | slug r where "\<not> user_exists (fr_id r) (sy_db s slug)" "(slug, fr_id r) \<notin> set (sy_deleted s)"
      "ur_session_version r \<in> {None, Some 0}" "s' = on_table slug (\<lambda>t. t @ [r]) s"
  | slug i where "s' = on_table slug (delete_where (has_id i)) (s\<lparr>sy_deleted := (slug, i) # sy_deleted s\<rparr>)"
  using auth_step_evolves [OF assms] by blast

lemma find_user_delete: "find_user j (delete_where (has_id i) t) = (if j = i then None else find_user j t)"
  by (induction t) (auto simp: find_user_def delete_where_def)

lemma get_session_version_snoc: "get_session_version j t \<le> get_session_version j (t @ [r])"
  by (simp add: get_session_version_def find_user_snoc split: option.split)

lemma system_version_mono:
  assumes "auth_step env cfg reg s s'"
  shows "system_version s k \<le> system_version s' k"
  using assms
proof (cases rule: auth_step_cases)
  case evolve
  then show ?thesis by (simp add: system_version_def evolves_def)
next
  case (create slug r)
  then show ?thesis by (simp add: system_version_def get_session_version_snoc)
next
  case (delete slug i)
  then show ?thesis
    by (cases k) (simp add: system_version_def get_session_version_def find_user_delete)
qed

text \<open>Versions are not negative, and a removed user is not in its table.\<close>

definition system_ok :: "auth_system \<Rightarrow> bool" where
  "system_ok s \<longleftrightarrow> (\<forall>slug. versions_ok (sy_db s slug)) \<and>
     (\<forall>slug i. (slug, i) \<in> set (sy_deleted s) \<longrightarrow> \<not> user_exists i (sy_db s slug))"

lemma system_ok_step:
  assumes "auth_step env cfg reg s s'" "system_ok s" shows "system_ok s'"
  using assms(1)
proof (cases rule: auth_step_cases)
  case evolve
  with assms(2) show ?thesis by (auto simp: system_ok_def evolves_def)
next
  case (create slug r)
  with assms(2) show ?thesis
    by (auto simp: system_ok_def versions_ok_def user_exists_def find_user_snoc split: option.splits)
next
  case (delete slug i)
  with assms(2) show ?thesis
    by (auto simp: system_ok_def versions_ok_def user_exists_def find_user_delete)
qed

lemma system_ok_steps: "(auth_step env cfg reg)\<^sup>*\<^sup>* s s' \<Longrightarrow> system_ok s \<Longrightarrow> system_ok s'"
  by (induction rule: rtranclp_induct) (auto intro: system_ok_step)

lemma stamped_version: "stamped_now c (sy_db s) \<Longrightarrow> claims_stamp c \<le> system_version s (claims_key c)"
  by (simp add: stamped_now_def claims_stamp_def system_version_def claims_key_def)

lemma system_issue_law:
  assumes "auth_step env cfg reg s s'" "c \<in> set (sy_issued s')"
  shows "c \<in> set (sy_issued s) \<or> claims_stamp c \<le> system_version s (claims_key c) \<or>
    (\<exists>d \<in> set (sy_issued s). claims_key d = claims_key c \<and> claims_stamp d = claims_stamp c)"
  using assms
proof (cases rule: auth_step.cases)
  case (Login gate form now tok)
  with assms(2) login_action_stamps stamped_version show ?thesis by auto
next
  case (LoginMfa gate form now tok d)
  with assms(2) login_challenge_stamps stamped_version show ?thesis by auto
next
  case (MfaOk tok code now db new d)
  with assms(2) verify_mfa_session [OF MfaOk(2,3)] show ?thesis by auto
next
  case (GrpcLogin form now tok)
  with assms(2) grpc_login_stamps stamped_version show ?thesis by auto
next
  case (Callback name hs now tok)
  with assms(2) auth_callback_stamps stamped_version show ?thesis by auto
next
  case (Refresh d now tok)
  with assms(2) session_refresh_stamps stamped_version show ?thesis by auto
qed (use assms(2) in auto)

interpretation sessions: versioned_credentials "auth_step env cfg reg" "\<lambda>s. set (sy_issued s)" system_version
  claims_key claims_stamp for env cfg reg
  by unfold_locales (auto dest: system_version_mono system_issue_law)

section \<open>Revocation\<close>

text \<open>The operations that raise a user's version.\<close>

inductive revokes :: "string \<Rightarrow> string \<Rightarrow> user_table \<Rightarrow> user_table \<Rightarrow> bool" where
  "revokes slug i t (service_lock_user i t)"
| "revokes slug i t (update_password i hash t)"
| "revokes slug i t (fst (bump_session_version i t))"

lemma revokes_raises:
  assumes "revokes slug i t t'" "versions_ok t" "user_exists i t"
  shows "get_session_version i t < get_session_version i t'"
  using assms(1)
proof (cases rule: revokes.cases)
  case 1
  have "evolves t (lock_user_column i t)" by (rule evolve_intros)
  with assms(2,3) have "versions_ok (lock_user_column i t)" "user_exists i (lock_user_column i t)"
    "get_session_version i t \<le> get_session_version i (lock_user_column i t)"
    by (simp_all add: evolves_def)
  with 1 get_session_version_bump [of "lock_user_column i t" i] show ?thesis
    by (simp add: service_lock_user_def)
qed (use assms(2,3) in \<open>simp_all add: get_session_version_bump get_session_version_update_password\<close>)

text \<open>What a reader of the tables does with claims older than the version, or of nobody.\<close>

definition claims_dead :: "claims \<Rightarrow> auth_db \<Rightarrow> bool" where
  "claims_dead c db \<longleftrightarrow> \<not> user_exists (cl_sub c) (db (cl_collection c)) \<or> \<not> stamped_now c db"

lemma find_by_id_exists: "find_by_id b h def i t = Some d \<Longrightarrow> user_exists i t"
  by (induction t) (auto simp: find_by_id_def user_exists_def find_user_def split: if_splits)

lemma dead_claims_refused:
  assumes "claims_dead c db" "ae_validate_token env now tok = Some c"
  shows "resolve_token env reg acc surf tok now db \<noteq> TokenAuthenticated u slug"
    "session_refresh env cfg reg c now db \<noteq> Refreshed st"
    "me_impl env reg tok now db \<noteq> MeUser d"
proof -
  show "resolve_token env reg acc surf tok now db \<noteq> TokenAuthenticated u slug"
    using assms by (auto simp: resolve_token_def claims_dead_def stamped_now_def
      dest!: find_by_id_exists split: option.splits)
  show "session_refresh env cfg reg c now db \<noteq> Refreshed st"
    using assms(1) by (auto simp: claims_dead_def elim!: session_refresh_claims)
  show "me_impl env reg tok now db \<noteq> MeUser d"
    using assms by (auto simp: me_impl_def claims_dead_def stamped_now_def
      dest!: find_by_id_exists split: option.splits)
qed

lemma behind_is_dead:
  assumes "system_ok s" "claims_stamp c < system_version s (claims_key c)"
  shows "claims_dead c (sy_db s)"
  using assms by (auto simp: claims_dead_def stamped_now_def system_ok_def system_version_def
    claims_key_def claims_stamp_def split: if_splits)

definition system_init :: "auth_db \<Rightarrow> auth_system" where
  "system_init db = \<lparr>sy_db = db, sy_issued = [], sy_deleted = []\<rparr>"

lemma sy_simps [simp]:
  "sy_db (system_init db) = db" "sy_issued (system_init db) = []" "sy_deleted (system_init db) = []"
  by (simp_all add: system_init_def)

text \<open>
  C2: Locking an account, setting its password or logging out ends every session issued to that user
  before: whatever logins, refreshes, resets, edits or deletions follow, a token with such claims
  is never accepted as a session or bearer token, is never refreshed and never answers \<open>Me\<close>.
\<close>
theorem revoked_sessions_stay_dead:
  assumes "\<forall>slug. versions_ok (db slug)"
    and "(auth_step env cfg reg)\<^sup>*\<^sup>* (system_init db) s"
    and "c \<in> set (sy_issued s)" "user_exists (cl_sub c) (sy_db s (cl_collection c))"
    and "revokes (cl_collection c) (cl_sub c) (sy_db s (cl_collection c)) t"
    and "(auth_step env cfg reg)\<^sup>*\<^sup>* (s\<lparr>sy_db := (sy_db s)(cl_collection c := t)\<rparr>) s'"
    and "ae_validate_token env now tok = Some c"
  shows "resolve_token env reg acc surf tok now (sy_db s') \<noteq> TokenAuthenticated u slug \<and>
    session_refresh env cfg reg c now (sy_db s') \<noteq> Refreshed st \<and>
    me_impl env reg tok now (sy_db s') \<noteq> MeUser d"
proof -
  let ?s1 = "s\<lparr>sy_db := (sy_db s)(cl_collection c := t)\<rparr>"
  have ok: "system_ok s"
    using assms(1) system_ok_steps [OF assms(2)] by (simp add: system_ok_def)
  then have alive: "claims_key c \<notin> set (sy_deleted s)"
    using assms(4) by (auto simp: system_ok_def claims_key_def)
  have vers: "versions_ok (sy_db s (cl_collection c))" using ok by (simp add: system_ok_def)
  have "sessions.none_ahead s"
    using sessions.none_ahead_steps [OF assms(2)] by (simp add: sessions.none_ahead_def)
  moreover have "system_version s (claims_key c) < system_version ?s1 (claims_key c)"
    using revokes_raises [OF assms(5) vers assms(4)] alive by (simp add: system_version_def claims_key_def)
  ultimately have "claims_stamp c < system_version s' (claims_key c)"
    using sessions.stale_for_ever [OF _ assms(3) _ assms(6)] by blast
  moreover have "evolves (sy_db s (cl_collection c)) t"
    using assms(5) by (cases rule: revokes.cases) (simp_all add: evolve_intros)
  then have "system_ok ?s1" using ok by (auto simp: system_ok_def evolves_def)
  then have "system_ok s'" by (rule system_ok_steps [OF assms(6)])
  ultimately have "claims_dead c (sy_db s')" by (intro behind_is_dead)
  from dead_claims_refused [OF this assms(7)] show ?thesis by blast
qed

theorem revoked_sessions_stay_dead_witness:
  "resolve_token (ex_env ex_claims) ex_reg accepts_bearer Grpc ''tok'' 200
     (ex_db(''users'' := service_lock_user ''u1'' (ex_db ''users''))) \<noteq>
   TokenAuthenticated (new_auth_user ex_claims (user_document id ex_users ex_row)) ''users''"
proof -
  let ?env = "ex_env ex_claims"
  let ?s = "issue \<lparr>st_token = ''tok'', st_expiry = 7200, st_exp = 7300, st_claims = ex_claims\<rparr> (system_init ex_db)"
  have c: "cl_sub ex_claims = ''u1''" "cl_collection ex_claims = ''users''" by (simp_all add: ex_claims_def)
  have db: "sy_db ?s = ex_db" by simp
  have "auth_step ?env ex_cfg ex_reg (system_init ex_db) ?s"
    by (rule auth_step.GrpcLogin [where form = ex_form and now = 100]) (simp add: ex_grpc_login)
  then have reach: "(auth_step ?env ex_cfg ex_reg)\<^sup>*\<^sup>* (system_init ex_db) ?s" by blast
  have ok: "\<forall>slug. versions_ok (ex_db slug)" by (simp add: versions_ok_def ex_db_def ex_row_def)
  have ex: "user_exists ''u1'' (ex_db ''users'')" by (simp add: user_exists_def find_user_def ex_db_def ex_row_def)
  have "ae_validate_token ?env 200 ''tok'' = Some ex_claims" by (simp add: ex_env_def)
  from revoked_sessions_stay_dead [OF ok reach _ _ revokes.intros(1) rtranclp.rtrancl_refl this]
  show ?thesis by (simp add: c ex)
qed

end
