(* ===== verification/AuthProperties.thy ===== *)
theory AuthProperties
  imports AuthRevocation
begin

text \<open>
  What the flows of the authentication components guarantee, and where they do not: who may log
  in, what a reset token and an MFA code are good for, how long a session can be extended, which
  strategies a request reaches, and the two ways into a session around a check.
\<close>

section \<open>Reads of a row by another column\<close>

lemma find_update_where:
  assumes "\<And>r. P (f r) = P r"
  shows "find P (update_where q f t) = map_option (\<lambda>r. if q r then f r else r) (find P t)"
  using assms by (induction t) auto

lemma find_SomeD: "find P t = Some r \<Longrightarrow> r \<in> set t \<and> P r"
  by (induction t) (auto split: if_splits)

lemma find_user_unique: "distinct (map fr_id t) \<Longrightarrow> r \<in> set t \<Longrightarrow> find_user (fr_id r) t = Some r"
  unfolding find_user_def by (rule find_distinct_key)

lemma truncate_updates [simp]:
  "find_row.truncate (r\<lparr>ur_password_hash := h, ur_session_version := v\<rparr>) = find_row.truncate r"
  "find_row.truncate (r\<lparr>ur_session_version := v\<rparr>) = find_row.truncate r"
  "find_row.truncate (r\<lparr>ur_reset_token := h', ur_reset_token_exp := e\<rparr>) = find_row.truncate r"
  by (simp_all add: find_row.truncate_def)

lemma user_document_cong: "find_row.truncate r = find_row.truncate r' \<Longrightarrow> fr_id r = fr_id r' \<Longrightarrow>
  user_document b def r = user_document b def r'"
  by (simp add: user_document_def select_row_def)

section \<open>Who may log in\<close>

definition row_locked :: "user_row \<Rightarrow> bool" where
  "row_locked r = (case ur_locked r of None \<Rightarrow> False | Some v \<Rightarrow> v \<noteq> 0)"

definition row_verified :: "user_row \<Rightarrow> bool" where
  "row_verified r = (case ur_verified r of None \<Rightarrow> False | Some v \<Rightarrow> v \<noteq> 0)"

definition row_version :: "user_row \<Rightarrow> nat" where
  "row_version r = nat (unwrap_or 0 (ur_session_version r))"

definition row_accepts :: "auth_env \<Rightarrow> string \<Rightarrow> user_row \<Rightarrow> bool" where
  "row_accepts env password r \<longleftrightarrow>
     (case ur_password_hash r of None \<Rightarrow> False | Some h \<Rightarrow> ae_pw_verify env password h = Some True)"

lemma reads_of_row:
  assumes "find_user i t = Some r"
  shows "is_locked i t = row_locked r" "is_verified i t = row_verified r"
    "get_session_version i t = row_version r" "get_password_hash i t = ur_password_hash r"
  using assms by (simp_all add: is_locked_def is_verified_def get_bool_column_def row_locked_def
    row_verified_def get_session_version_def row_version_def get_password_hash_def)

definition email_row :: "string \<Rightarrow> user_table \<Rightarrow> user_row option" where
  "email_row email t = find (\<lambda>r. ucolumn r ''email'' = DText email) t"

lemma authenticate_row:
  assumes "distinct (map fr_id t)" "email_row email t = Some r"
  shows "authenticate_local env def email password rv t =
    bindE (case ur_password_hash r of
             Some hash \<Rightarrow> ok_or (Backend ''Invalid password hash'') (ae_pw_verify env password hash)
           | None \<Rightarrow> Inr False)
      (\<lambda>verified.
        if \<not> verified then Inl InvalidCredentials
        else if row_locked r then Inl AccountLocked
        else if rv \<and> \<not> row_verified r then Inl EmailNotVerified
        else Inr (user_document (ae_base64 env) def r, row_version r))"
proof -
  from assms(2) find_SomeD have "r \<in> set t" unfolding email_row_def by metis
  from reads_of_row [OF find_user_unique [OF assms(1) this]] assms(2) show ?thesis
    by (simp add: authenticate_local_def find_by_email_def email_row_def cong: if_cong)
qed

text \<open>
  C25: A password login succeeds exactly for the first row with the given email when that row's
  hash accepts the password, the account is not locked and, where the collection asks for it, the
  email is verified; it returns that user's document and current session version.  A refusal
  that names the account's state is given only to someone who knows the password.
\<close>
theorem authenticate_local_exact:
  assumes "distinct (map fr_id t)"
  shows "(authenticate_local env def email password rv t = Inr (d, v) \<longleftrightarrow>
      (\<exists>r. email_row email t = Some r \<and> row_accepts env password r \<and> \<not> row_locked r \<and>
        (rv \<longrightarrow> row_verified r) \<and> d = user_document (ae_base64 env) def r \<and> v = row_version r)) \<and>
    (authenticate_local env def email password rv t \<in> {Inl AccountLocked, Inl EmailNotVerified} \<longrightarrow>
      (\<exists>r. email_row email t = Some r \<and> row_accepts env password r))"
proof (cases "email_row email t")
  case None
  then show ?thesis by (simp add: authenticate_local_def find_by_email_def email_row_def)
next
  case (Some r)
  then show ?thesis
    unfolding authenticate_row [OF assms Some]
    by (cases "ur_password_hash r"; cases "ae_pw_verify env password (the (ur_password_hash r))")
      (auto simp: row_accepts_def)
qed

theorem authenticate_local_exact_witness:
  "authenticate_local (ex_env ex_claims) ex_users ''a@b'' ''pw'' False [ex_row] =
     Inr (user_document id ex_users ex_row, 0)"
proof -
  have "distinct (map fr_id [ex_row])" by simp
  from authenticate_local_exact [OF this, of "ex_env ex_claims" ex_users "''a@b''" "''pw''" False
      "user_document id ex_users ex_row" 0]
  show ?thesis
    by (simp add: email_row_def ex_row_def row_accepts_def row_locked_def row_version_def ex_env_def
      find_row.truncate_def column_def)
qed

section \<open>Password reset\<close>

definition reset_row :: "string \<Rightarrow> user_table \<Rightarrow> user_row option" where
  "reset_row tok t = find (\<lambda>r. ur_reset_token r = Some tok) t"

lemma find_reset_token:
  "find_by_token b def ResetToken tok t =
     (case reset_row tok t of
        None \<Rightarrow> Inr None
      | Some r \<Rightarrow> (case ur_reset_token_exp r of
                     None \<Rightarrow> Inl (Backend ''Failed to read the token expiry'')
                   | Some e \<Rightarrow> Inr (Some (user_document b def r, e))))"
  by (simp add: find_by_token_def reset_row_def cong: option.case_cong)

definition with_password :: "string \<Rightarrow> user_row \<Rightarrow> user_row" where
  "with_password h r = r\<lparr>ur_password_hash := Some h, ur_session_version := next_version (ur_session_version r),
     ur_reset_token := None, ur_reset_token_exp := None\<rparr>"

lemma reset_effect:
  "clear_token ResetToken i (update_password i h t) = update_where (has_id i) (with_password h) t"
  by (induction t) (simp_all add: clear_token_def update_password_def with_password_def)

lemma consume_reset_Inr:
  assumes "distinct (map fr_id t)"
  shows "consume_reset_token env def tok pw salt now t = (t', Inr u) \<longleftrightarrow>
    (\<exists>r e h. reset_row tok t = Some r \<and> ur_reset_token_exp r = Some e \<and> now < e \<and> \<not> row_locked r \<and>
       ae_pw_hash env salt pw = Some h \<and> t' = update_where (has_id (fr_id r)) (with_password h) t)"
proof (cases "reset_row tok t")
  case None
  then show ?thesis by (simp add: consume_reset_token_def find_reset_token)
next
  case (Some r)
  then have "r \<in> set t" using find_SomeD unfolding reset_row_def by metis
  then have "is_locked (fr_id r) t = row_locked r"
    by (rule reads_of_row(1) [OF find_user_unique [OF assms]])
  with Some show ?thesis
    by (cases "ur_reset_token_exp r"; cases "ae_pw_hash env salt pw")
      (auto simp: consume_reset_token_def find_reset_token Let_def reset_effect)
qed

lemma with_password_token [simp]: "ur_reset_token (with_password h r) = None" "fr_id (with_password h r) = fr_id r"
  by (simp_all add: with_password_def)

text \<open>
  C29: A reset changes the password only for the holder of a token that is stored, not expired and
  of an account that is not locked; it then sets that one user's hash, raises the session version
  and removes the token, so that the same token is refused from then on, with no further effect.
\<close>
theorem reset_token_single_use:
  assumes "distinct (map fr_id t)" "count_where (\<lambda>r. ur_reset_token r = Some tok) t \<le> 1"
    and "consume_reset_token env def tok pw salt now t = (t', Inr ())"
  shows "(\<exists>r e h. r \<in> set t \<and> ur_reset_token r = Some tok \<and> ur_reset_token_exp r = Some e \<and> now < e \<and>
      \<not> row_locked r \<and> ae_pw_hash env salt pw = Some h \<and>
      t' = update_where (has_id (fr_id r)) (with_password h) t) \<and>
    consume_reset_token env def tok pw' salt' later t' = (t', Inl (InvalidToken ''not found''))"
proof -
  from assms(3) obtain r e h where r: "reset_row tok t = Some r" "ur_reset_token_exp r = Some e" "now < e"
      "\<not> row_locked r" "ae_pw_hash env salt pw = Some h"
      and t': "t' = update_where (has_id (fr_id r)) (with_password h) t"
    unfolding consume_reset_Inr [OF assms(1)] by blast
  from r(1) have mem: "r \<in> set t" "ur_reset_token r = Some tok"
    unfolding reset_row_def by (auto dest: find_SomeD)
  have "ur_reset_token x \<noteq> Some tok" if "x \<in> set t'" for x
  proof
    assume x: "ur_reset_token x = Some tok"
    from that t' have "x \<in> set t" "fr_id x \<noteq> fr_id r"
      using x by (auto simp: set_update_where split: if_splits)
    then have "x \<noteq> r" by blast
    with \<open>x \<in> set t\<close> mem x have "{x, r} \<subseteq> {y \<in> set t. ur_reset_token y = Some tok}" by blast
    then have "card {x, r} \<le> card {y \<in> set t. ur_reset_token y = Some tok}"
      by (intro card_mono) auto
    also have "\<dots> \<le> count_where (\<lambda>r. ur_reset_token r = Some tok) t"
      unfolding count_where_def set_filter [symmetric] by (rule card_length)
    finally show False using assms(2) \<open>x \<noteq> r\<close> by simp
  qed
  then have "reset_row tok t' = None" unfolding reset_row_def by (simp add: find_None_iff)
  with r t' mem show ?thesis
    by (auto simp: consume_reset_token_def find_reset_token)
qed

theorem reset_token_single_use_witness:
  "consume_reset_token (ex_env ex_claims) ex_users ''r'' ''new'' ''s'' 60
     (fst (consume_reset_token (ex_env ex_claims) ex_users ''r'' ''new'' ''s'' 50
             [ex_row\<lparr>ur_reset_token := Some ''r'', ur_reset_token_exp := Some 70\<rparr>])) =
   ([with_password ''$new'' ex_row], Inl (InvalidToken ''not found''))"
proof -
  let ?t = "[ex_row\<lparr>ur_reset_token := Some ''r'', ur_reset_token_exp := Some 70\<rparr>]"
  have "consume_reset_token (ex_env ex_claims) ex_users ''r'' ''new'' ''s'' 50 ?t =
      ([with_password ''$new'' ex_row], Inr ())" by code_simp
  moreover from reset_token_single_use [OF _ _ this] have
    "consume_reset_token (ex_env ex_claims) ex_users ''r'' ''new'' ''s'' 60 [with_password ''$new'' ex_row] =
      ([with_password ''$new'' ex_row], Inl (InvalidToken ''not found''))" by simp
  ultimately show ?thesis by simp
qed

text \<open>
  C30: The whole flow returns an account to its owner: a reset token requested for an address, used
  before it expires, makes a login with the new password succeed with a raised session version.
\<close>
theorem reset_then_login:
  assumes "distinct (map fr_id t)" "email_row email t = Some r" "\<not> row_locked r"
    and "0 \<le> unwrap_or 0 (ur_session_version r)"
    and "\<forall>x \<in> set t. ur_reset_token x \<noteq> Some tok"
    and "uint expiry < 2 ^ 63" "- (2 ^ 63) \<le> now" "now + uint expiry < 2 ^ 63"
    and "now2 < now + uint expiry"
    and "ae_pw_hash env salt pw = Some h" "ae_pw_verify env pw h = Some True"
  shows "\<exists>t1 t2. generate_reset_token env def email expiry tok now t = (t1, Inr (Some (fr_id r, tok))) \<and>
    consume_reset_token env def tok pw salt now2 t1 = (t2, Inr ()) \<and>
    authenticate_local env def email pw False t2 =
      Inr (user_document (ae_base64 env) def r, Suc (row_version r))"
proof -
  let ?e = "now + uint expiry"
  let ?put = "put_token ResetToken (Some tok) (Some ?e)"
  define t1 where "t1 = update_where (has_id (fr_id r)) ?put t"
  define t2 where "t2 = update_where (has_id (fr_id r)) (with_password h) t1"
  from assms(2) have r: "r \<in> set t" unfolding email_row_def by (auto dest: find_SomeD)
  have "wrap_i64 ?e = ?e" using assms(7,8) uint_ge_0 [of expiry] by (intro wrap_i64_id) linarith+
  moreover have "i64_try_from (uint expiry) = Some (uint expiry)"
    using assms(6) order_trans [OF _ uint_ge_0 [of expiry], of "- (2 ^ 63)"] by (simp add: i64_try_from_def)
  ultimately have gen: "generate_reset_token env def email expiry tok now t = (t1, Inr (Some (fr_id r, tok)))"
    using assms(2) by (simp add: generate_reset_token_def find_by_email_def email_row_def t1_def set_token_def)
  have ids: "map fr_id t1 = map fr_id t" unfolding t1_def by (rule map_update_where) simp
  then have d1: "distinct (map fr_id t1)" using assms(1) by simp
  have mem: "?put r \<in> set t1" using r unfolding t1_def set_update_where by force
  have "reset_row tok t1 = Some (?put r)"
  proof -
    have "\<exists>x \<in> set t1. ur_reset_token x = Some tok" using mem by force
    then obtain x where x: "reset_row tok t1 = Some x"
      unfolding reset_row_def by (metis (mono_tags, lifting) find_None_iff not_None_eq)
    then have "x \<in> set t1" "ur_reset_token x = Some tok" unfolding reset_row_def by (auto dest: find_SomeD)
    with assms(5) have "fr_id x = fr_id r" unfolding t1_def set_update_where by (auto split: if_splits)
    with d1 \<open>x \<in> set t1\<close> mem have "x = ?put r"
      using distinct_key_unique [of fr_id t1 x "?put r"] by simp
    with x show ?thesis by simp
  qed
  moreover have "\<not> row_locked (?put r)" using assms(3) by (simp add: row_locked_def)
  ultimately have use: "consume_reset_token env def tok pw salt now2 t1 = (t2, Inr ())"
    unfolding consume_reset_Inr [OF d1] t2_def using assms(9,10) by (intro exI [of _ "?put r"]) simp
  let ?r2 = "with_password h (?put r)"
  have keeps: "find_row.truncate (with_password h x) = find_row.truncate x" for x
    by (simp add: with_password_def find_row.truncate_def)
  have "email_row email t2 = Some ?r2"
    using assms(2) unfolding email_row_def t2_def t1_def by (simp add: find_update_where keeps)
  moreover have "map fr_id t2 = map fr_id t1" unfolding t2_def by (rule map_update_where) simp
  then have "distinct (map fr_id t2)" using d1 by simp
  moreover have "row_accepts env pw ?r2" using assms(11) by (simp add: row_accepts_def with_password_def)
  moreover have "\<not> row_locked ?r2" using assms(3) by (simp add: row_locked_def with_password_def)
  moreover have "user_document (ae_base64 env) def ?r2 = user_document (ae_base64 env) def r"
    by (rule user_document_cong) (simp_all add: keeps)
  moreover have "row_version ?r2 = Suc (row_version r)"
    using assms(4) by (simp add: row_version_def with_password_def next_version_def nat_add_distrib)
  ultimately have "authenticate_local env def email pw False t2 =
      Inr (user_document (ae_base64 env) def r, Suc (row_version r))"
    by (simp add: authenticate_row row_accepts_def split: option.splits)
  with gen use show ?thesis by blast
qed

theorem reset_then_login_witness:
  "\<exists>t1 t2. generate_reset_token (ex_env ex_claims) ex_users ''a@b'' 3600 ''r'' 100 [ex_row] = (t1, Inr (Some (''u1'', ''r''))) \<and>
    consume_reset_token (ex_env ex_claims) ex_users ''r'' ''new'' ''s'' 200 t1 = (t2, Inr ()) \<and>
    authenticate_local (ex_env ex_claims) ex_users ''a@b'' ''new'' False t2 =
      Inr (user_document id ex_users ex_row, 1)"
  using reset_then_login [of "[ex_row]" "''a@b''" ex_row "''r''" 3600 100 200 "ex_env ex_claims" "''s''" "''new''" "''$new''" ex_users]
  by (simp add: email_row_def ex_row_def row_locked_def row_version_def ex_env_def find_row.truncate_def column_def)

text \<open>
  The admin page never tells a user that a link has expired: the error the service gives for an
  expired token is turned into text before the page looks for it, so the message is always the
  one for an invalid link.
\<close>
theorem admin_reset_never_reports_expiry:
  "snd (admin_consume_reset_token env defs tok pw salt now db) = Inl e \<Longrightarrow>
    reset_error_message e = ''error_reset_link_invalid''"
proof -
  have "snd (admin_reset_loop env defs tok pw salt now db tx) \<noteq> Inl TokenExpired" for tx
    by (induction env defs tok pw salt now db tx rule: admin_reset_loop.induct)
      (auto simp: fun_upd_def split: prod.splits sum.splits)
  then show "snd (admin_consume_reset_token env defs tok pw salt now db) = Inl e \<Longrightarrow>
    reset_error_message e = ''error_reset_link_invalid''"
    by (cases e) (auto simp: admin_consume_reset_token_def reset_error_message_def)
qed

theorem admin_reset_never_reports_expiry_witness:
  "reset_error_message (OtherText (InvalidToken ''expired'')) = ''error_reset_link_invalid''"
proof -
  have "snd (admin_consume_reset_token (ex_env ex_claims) [ex_users] ''r'' ''new'' ''s'' 90
      (\<lambda>s. [ex_row\<lparr>ur_reset_token := Some ''r'', ur_reset_token_exp := Some 70\<rparr>])) =
    Inl (OtherText (InvalidToken ''expired''))" by code_simp
  then show ?thesis by (rule admin_reset_never_reports_expiry)
qed

section \<open>The second factor\<close>

text \<open>A list of attempts, each with its code and time.\<close>

fun mfa_attempts :: "string \<Rightarrow> (string \<times> int) list \<Rightarrow> user_table \<Rightarrow> user_table \<times> bool list" where
  "mfa_attempts i [] t = (t, [])"
| "mfa_attempts i ((code, now) # xs) t =
     (case verify_mfa_code i code now t of
        (t', ok) \<Rightarrow> (case mfa_attempts i xs t' of (t'', oks) \<Rightarrow> (t'', ok # oks)))"

lemma verify_after_clear:
  "read_mfa_code i code now t = None \<Longrightarrow> mfa_attempts i xs t = (t, replicate (length xs) False)"
proof (induction xs)
  case (Cons x xs)
  then have "read_mfa_code i (fst x) (snd x) t = None"
    by (auto simp: read_mfa_code_def split: option.splits)
  with Cons show ?case by (cases x) (simp add: verify_mfa_code_def)
qed simp

lemma read_after_clear: "read_mfa_code i code now (clear_mfa_code i t) = None"
  by (cases "find_user i t") (simp_all add: read_mfa_code_def user_simps)

text \<open>
  A stored code is good for one attempt: of a sequence of attempts only the first can succeed,
  and it does exactly when it gives the stored code before the expiry; nothing is cleared only
  where there was no code to try.
\<close>
theorem mfa_code_single_use:
  "mfa_attempts i ((code, now) # xs) t =
     (case find_user i t of
        None \<Rightarrow> (t, replicate (Suc (length xs)) False)
      | Some r \<Rightarrow>
          (case (ur_mfa_code r, ur_mfa_code_exp r) of
             (Some stored, Some e) \<Rightarrow>
               (clear_mfa_code i t, (now \<le> e \<and> stored = code) # replicate (length xs) False)
           | _ \<Rightarrow> (t, replicate (Suc (length xs)) False)))"
proof (cases "read_mfa_code i code now t")
  case None
  then have "mfa_attempts i ((code, now) # xs) t = (t, replicate (Suc (length xs)) False)"
    using verify_after_clear [of i code now t "(code, now) # xs"] by simp
  with None show ?thesis by (auto simp: read_mfa_code_def split: option.splits)
next
  case (Some ok)
  have "mfa_attempts i xs (clear_mfa_code i t) = (clear_mfa_code i t, replicate (length xs) False)"
    by (rule verify_after_clear [OF read_after_clear])
  with Some show ?thesis
    by (auto simp: read_mfa_code_def verify_mfa_code_def split: option.splits)
qed

text \<open>
  The select and the clearing update are two statements outside a transaction: requests that all
  read before the first one clears are all compared with the same code.
\<close>

datatype mfa_event = MfaRead string | MfaClear

fun mfa_events :: "string \<Rightarrow> int \<Rightarrow> mfa_event list \<Rightarrow> user_table \<Rightarrow> bool list" where
  "mfa_events i now [] t = []"
| "mfa_events i now (MfaRead code # es) t = (read_mfa_code i code now t = Some True) # mfa_events i now es t"
| "mfa_events i now (MfaClear # es) t = mfa_events i now es (clear_mfa_code i t)"

lemma racing_guesses:
  assumes "find_user i t = Some r" "ur_mfa_code r = Some stored" "ur_mfa_code_exp r = Some e" "now \<le> e"
  shows "mfa_events i now (map MfaRead codes @ replicate (length codes) MfaClear) t = map (\<lambda>c. c = stored) codes"
proof -
  have none: "mfa_events i now (replicate n MfaClear) t = []" for n t
    by (induction n arbitrary: t) simp_all
  have "mfa_events i now (map MfaRead cs @ replicate n MfaClear) t = map (\<lambda>c. c = stored) cs" for cs n
    using assms by (induction cs) (auto simp: none read_mfa_code_def)
  then show ?thesis .
qed

text \<open>
  The second factor can be left out.  The token that the password step hands out to wait for the
  code is an ordinary session token: presented as the session cookie it authenticates the user,
  and the refresh handler turns it into a full session, in both cases without a code.
\<close>
theorem mfa_pending_token_is_a_session:
  assumes "login_action env cfg reg gate form now db = MfaChallenge tok c"
    and "ae_validate_token env later tok = Some c"
    and "get_collection reg (lf_collection form) = Some def" "ac_auth def = Some a"
    and "au_enabled a" "accepts_session_cookie a Admin"
    and "find_by_id (ae_base64 env) (ae_hydrate env (lf_collection form)) def (cl_sub c) (db (lf_collection form)) = Some doc"
    and "\<not> doc_locked doc" "\<not> is_locked (cl_sub c) (db (lf_collection form))"
    and "is_valid_identifier (lf_collection form)"
    and "as_session_absolute_max_age cfg = 0 \<or> sat_sub (unix_now later) (unix_now now) \<le> as_session_absolute_max_age cfg"
    and "\<forall>d. ae_create_token env d \<noteq> None"
  shows "mfa a = MfaEmail \<and>
    evaluate env reg \<lparr>rq_surface = Admin, rq_bearer = None, rq_cookie = Some tok, rq_headers = hs\<rparr> later db =
      Authenticated (new_auth_user c doc) (ViaSessionCookie (ac_slug def)) \<and>
    (\<exists>s. session_refresh env cfg reg c later db = Refreshed s \<and> cl_sub (st_claims s) = cl_sub c \<and>
       cl_exp (st_claims s) = sat_add (unix_now later) (au_token_expiry a))"
proof -
  from assms(1,3) obtain user v where "verify_credentials_blocking env def form db = Inr (Some (user, v))"
    and fin: "finish_login env cfg reg def form user v now = MfaChallenge tok c"
    by (metis login_action_credentials option.inject)
  from fin assms(4) have mfa: "mfa a = MfaEmail" and pend: "mfa_pending_claims user form v now = Some c"
    by (auto simp: finish_login_def auth_and_def split: if_splits option.splits)
  from mfa_pending_claims_simps [OF pend] have c: "cl_collection c = lf_collection form"
    "cl_auth_time c = None" "cl_iat c = Some (unix_now now)" by simp_all
  have sv: "cl_session_version c = get_session_version (cl_sub c) (db (lf_collection form))"
    using login_challenge_stamps [OF assms(1)] c by (simp add: stamped_now_def)
  have "resolve_token env reg accepts_session_cookie Admin tok later db =
      TokenAuthenticated (new_auth_user c doc) (ac_slug def)"
    using assms(2-8) c sv by (simp add: resolve_token_def)
  then have ev: "evaluate env reg \<lparr>rq_surface = Admin, rq_bearer = None, rq_cookie = Some tok, rq_headers = hs\<rparr> later db =
      Authenticated (new_auth_user c doc) (ViaSessionCookie (ac_slug def))"
    by (simp add: evaluate_def with_token_def)
  have ext: "resolve_original_auth_time c (as_session_absolute_max_age cfg) (unix_now later) = Extend (unix_now now)"
    using assms(11) c by (auto simp: resolve_original_auth_time_def not_less)
  have "user_exists (cl_sub c) (db (lf_collection form))" by (rule find_by_id_exists [OF assms(7)])
  moreover obtain s where s: "create_session_token env cfg reg (cl_sub c) (cl_collection c) (cl_email c)
      (cl_session_version c) (unix_now now) later = Some s"
    using assms(12) by (fastforce simp: create_session_token_def Let_def claims_build_def)
  ultimately have "session_refresh env cfg reg c later db = Refreshed s"
    using c sv ext assms(9,10) by (simp add: session_refresh_def check_session_status_def)
  moreover have "cl_sub (st_claims s) = cl_sub c"
    "cl_exp (st_claims s) = sat_add (unix_now later) (au_token_expiry a)"
    using create_session_token_claims [OF s] c assms(3,4) by simp_all
  ultimately show ?thesis using mfa ev by blast
qed

theorem mfa_pending_token_is_a_session_witness:
  "evaluate (ex_env ex_pending) ex_reg
     \<lparr>rq_surface = Admin, rq_bearer = None, rq_cookie = Some ''tok'', rq_headers = []\<rparr> 200 ex_db =
   Authenticated (new_auth_user ex_pending (user_document id ex_users ex_row)) (ViaSessionCookie ''users'')"
proof -
  let ?doc = "user_document id ex_users ex_row"
  have 1: "ae_validate_token (ex_env ex_pending) 200 ''tok'' = Some ex_pending" by (simp add: ex_env_def)
  have form: "lf_collection ex_form = ''users''" by (simp add: ex_form_def)
  have 2: "get_collection ex_reg (lf_collection ex_form) = Some ex_users" by (simp add: form)
  have 3: "ac_auth ex_users = Some ex_auth" "au_enabled ex_auth" "accepts_session_cookie ex_auth Admin"
    by (simp_all add: ex_users_def ex_auth_def accepts_session_cookie_def)
  have 4: "find_by_id (ae_base64 (ex_env ex_pending)) (ae_hydrate (ex_env ex_pending) (lf_collection ex_form))
      ex_users (cl_sub ex_pending) (ex_db (lf_collection ex_form)) = Some ?doc"
    by (simp add: form ex_env_def find_by_id_def ex_db_def ex_pending_def ex_row_def ex_users_def)
  have "map_of (doc_fields ?doc) ''_locked'' = None"
    by (rule user_document_hides) (simp add: ex_column_names)
  then have 5: "\<not> doc_locked ?doc" by (simp add: bool_flag_def)
  have 6: "\<not> is_locked (cl_sub ex_pending) (ex_db (lf_collection ex_form))"
    by (simp add: form is_locked_def get_bool_column_def find_user_def ex_db_def ex_row_def ex_pending_def)
  have 7: "is_valid_identifier (lf_collection ex_form)" by (simp add: form) code_simp
  have 8: "as_session_absolute_max_age ex_cfg = 0 \<or>
      sat_sub (unix_now 200) (unix_now 100) \<le> as_session_absolute_max_age ex_cfg" by code_simp
  have 9: "\<forall>d. ae_create_token (ex_env ex_pending) d \<noteq> None" by (simp add: ex_env_def)
  from mfa_pending_token_is_a_session [OF ex_login_challenge 1 2 3 4 5 6 7 8 9, of "[]"]
  show ?thesis by (simp add: ex_users_def)
qed

section \<open>Locked accounts\<close>

text \<open>
  A locked user still opens sessions through an external login: the callback handler does not
  ask for the lock, and the evaluator's own check reads a column that no query selects, so the
  session it opens is accepted, while the password login refuses the same account.
\<close>
theorem locked_user_signs_in_by_callback:
  assumes "find_auth_collection reg = Some slug" "get_collection reg slug = Some def"
    and "ac_auth def = Some a" "au_enabled a" "accepts_session_cookie a Admin"
    and "find_by_id (ae_base64 env) (ae_hydrate env slug) def i (db slug) = Some doc"
    and "ae_hydrate env slug = (\<lambda>d. d)" "''_locked'' \<notin> set (get_column_names def)"
    and "ae_strategy env (''auth_callback.'' @ name) slug hs db = Inr (Some doc)"
    and "is_locked i (db slug)"
    and "auth_callback env cfg reg name hs now db = LoggedIn tok"
    and "ae_validate_token env now (st_token tok) = Some (st_claims tok)"
  shows "evaluate env reg \<lparr>rq_surface = Admin, rq_bearer = None, rq_cookie = Some (st_token tok), rq_headers = hs'\<rparr>
      now db = Authenticated (new_auth_user (st_claims tok) doc) (ViaSessionCookie (ac_slug def)) \<and>
    cl_sub (st_claims tok) = i \<and>
    authenticate_local env def email password rv (db slug) \<noteq> Inr (doc, v)"
proof -
  from assms(6,7) obtain r where r: "doc = user_document (ae_base64 env) def r" "fr_id r = i"
    unfolding find_by_id_def by (auto dest: find_SomeD)
  from assms(1,9,11) have create: "create_session_token env cfg reg (doc_id doc) slug (unwrap_or [] (json_email doc))
      (get_session_version (doc_id doc) (db slug)) (unix_now now) now = Some tok"
    by (auto simp: auth_callback_def split: option.splits)
  from create_session_token_key [OF create] r have c: "cl_sub (st_claims tok) = i"
    "cl_collection (st_claims tok) = slug"
    "cl_session_version (st_claims tok) = get_session_version i (db slug)" by simp_all
  have "\<not> doc_locked doc"
    using user_document_hides [OF assms(8)] r by (simp add: bool_flag_def)
  then have "resolve_token env reg accepts_session_cookie Admin (st_token tok) now db =
      TokenAuthenticated (new_auth_user (st_claims tok) doc) (ac_slug def)"
    using assms(2-6,12) c by (simp add: resolve_token_def)
  moreover have "authenticate_local env def email password rv (db slug) \<noteq> Inr (doc, v)"
  proof
    assume "authenticate_local env def email password rv (db slug) = Inr (doc, v)"
    then have "\<not> is_locked (doc_id doc) (db slug)"
      by (auto simp: authenticate_local_def result_simps split: option.splits if_splits)
    with assms(10) r show False by simp
  qed
  ultimately show ?thesis using c by (simp add: evaluate_def with_token_def)
qed

definition ex_locked_db :: auth_db where
  "ex_locked_db = (\<lambda>slug. if slug = ''users'' then service_lock_user ''u1'' [ex_row] else [])"

definition ex_callback_claims :: claims where
  "ex_callback_claims = ex_claims\<lparr>cl_session_version := 1\<rparr>"

theorem locked_user_signs_in_by_callback_witness:
  "evaluate (ex_env ex_callback_claims) ex_reg
     \<lparr>rq_surface = Admin, rq_bearer = None, rq_cookie = Some ''tok'', rq_headers = []\<rparr> 100 ex_locked_db =
   Authenticated (new_auth_user ex_callback_claims (user_document id ex_users ex_row)) (ViaSessionCookie ''users'')"
proof -
  let ?env = "ex_env ex_callback_claims"
  let ?tok = "\<lparr>st_token = ''tok'', st_expiry = 7200, st_exp = 7300, st_claims = ex_callback_claims\<rparr>"
  have 1: "find_auth_collection ex_reg = Some ''users''" by code_simp
  have 3: "ac_auth ex_users = Some ex_auth" "au_enabled ex_auth" "accepts_session_cookie ex_auth Admin"
    by (simp_all add: ex_users_def ex_auth_def accepts_session_cookie_def)
  have 4: "find_by_id (ae_base64 ?env) (ae_hydrate ?env ''users'') ex_users ''u1'' (ex_locked_db ''users'') =
      Some (user_document id ex_users ex_row)" by code_simp
  have 5: "ae_hydrate ?env ''users'' = (\<lambda>d. d)" by (simp add: ex_env_def)
  have 6: "''_locked'' \<notin> set (get_column_names ex_users)" by (simp add: ex_column_names)
  have 7: "ae_strategy ?env (''auth_callback.'' @ ''sso'') ''users'' [] ex_locked_db =
      Inr (Some (user_document id ex_users ex_row))" by code_simp
  have 8: "is_locked ''u1'' (ex_locked_db ''users'')" by code_simp
  have 9: "auth_callback ?env ex_cfg ex_reg ''sso'' [] 100 ex_locked_db = LoggedIn ?tok" by code_simp
  have 10: "ae_validate_token ?env 100 (st_token ?tok) = Some (st_claims ?tok)" by (simp add: ex_env_def)
  from locked_user_signs_in_by_callback [OF 1 ex_collection 3 4 5 6 7 8 9 10, of "[]"]
  show ?thesis by (simp add: ex_users_def)
qed

section \<open>How long a session lasts\<close>

text \<open>The claims reached from a session by refreshing it, at any times and whatever the tables.\<close>

inductive refresh_chain :: "auth_env \<Rightarrow> auth_settings \<Rightarrow> registry \<Rightarrow> claims \<Rightarrow> claims \<Rightarrow> bool"
  for env cfg reg c
where
  Same: "refresh_chain env cfg reg c c"
| Again: "refresh_chain env cfg reg c d \<Longrightarrow> session_refresh env cfg reg d now db = Refreshed s \<Longrightarrow>
    refresh_chain env cfg reg c (st_claims s)"

inductive_cases refresh_chainE: "refresh_chain env cfg reg c d"

definition collection_expiry :: "auth_settings \<Rightarrow> registry \<Rightarrow> string \<Rightarrow> u64" where
  "collection_expiry cfg reg slug = unwrap_or (as_token_expiry cfg)
     (Option.bind (get_collection reg slug) (\<lambda>d. map_option au_token_expiry (ac_auth d)))"

lemma extend_original:
  assumes "resolve_original_auth_time c max_age now = Extend a'" "cl_auth_time c = Some a"
  shows "a' = a \<and> (0 < max_age \<longrightarrow> unat now - unat a \<le> unat max_age)"
  using assms
  by (auto simp: resolve_original_auth_time_def unat_sat_sub word_less_nat_alt not_less split: if_splits)

text \<open>
  C26: With an absolute maximum age configured, no sequence of refreshes keeps a session alive past
  its login time plus that age plus one token lifetime; the time of the login is carried along
  unchanged, and so are the user and the collection.
\<close>
theorem session_lifetime_bounded:
  assumes "refresh_chain env cfg reg c d" "cl_auth_time c = Some a"
    and "0 < as_session_absolute_max_age cfg"
    and "unat (cl_exp c) \<le> unat a + unat (collection_expiry cfg reg (cl_collection c))"
  shows "cl_auth_time d = Some a \<and> cl_sub d = cl_sub c \<and> cl_collection d = cl_collection c \<and>
    unat (cl_exp d) \<le> unat a + unat (as_session_absolute_max_age cfg)
      + unat (collection_expiry cfg reg (cl_collection c))"
  using assms(1)
proof induction
  case Same
  with assms(2,4) show ?case by simp
next
  case (Again d now db s)
  from Again(2) obtain original where
    s: "create_session_token env cfg reg (cl_sub d) (cl_collection d) (cl_email d)
          (get_session_version (cl_sub d) (db (cl_collection d))) original now = Some s"
    and ext: "resolve_original_auth_time d (as_session_absolute_max_age cfg) (unix_now now) = Extend original"
    by (rule session_refresh_claims)
  from extend_original [OF ext] Again(3) assms(3) have orig: "original = a"
    "unat (unix_now now) \<le> unat a + unat (as_session_absolute_max_age cfg)" by auto
  note tok = create_session_token_claims [OF s]
  have "unat (cl_exp (st_claims s)) \<le> unat (unix_now now) + unat (collection_expiry cfg reg (cl_collection c))"
    using tok(5,6) Again(3) by (simp add: unat_sat_add collection_expiry_def)
  with tok(1,2,4) Again(3) orig show ?case by simp
qed

theorem session_lifetime_bounded_witness:
  "unat (cl_exp (ex_claims\<lparr>cl_iat := Some 50000, cl_exp := 57200\<rparr>)) \<le> 100 + 86400 + 7200"
proof -
  let ?c = "ex_claims\<lparr>cl_iat := Some 50000, cl_exp := 57200\<rparr>"
  have "session_refresh (ex_env ex_claims) ex_cfg ex_reg ex_claims 50000 ex_db =
      Refreshed \<lparr>st_token = ''tok'', st_expiry = 7200, st_exp = 57200, st_claims = ?c\<rparr>" by code_simp
  from refresh_chain.Again [OF refresh_chain.Same this]
  have chain: "refresh_chain (ex_env ex_claims) ex_cfg ex_reg ex_claims ?c" by simp
  have e: "collection_expiry ex_cfg ex_reg (cl_collection ex_claims) = 7200" by code_simp
  have "cl_auth_time ex_claims = Some 100" by (simp add: ex_claims_def)
  moreover have "0 < as_session_absolute_max_age ex_cfg" by (simp add: ex_cfg_def)
  moreover have
    "unat (cl_exp ex_claims) \<le> unat (100 :: u64) + unat (collection_expiry ex_cfg ex_reg (cl_collection ex_claims))"
    unfolding e by (simp add: ex_claims_def)
  ultimately show ?thesis
    using session_lifetime_bounded [OF chain, of 100] unfolding e by (simp add: ex_cfg_def)
qed

section \<open>Which strategies a request reaches\<close>

text \<open>
  The strategies of the enabled auth collections whose surfaces cover the request's and whose
  activation satisfies \<open>p\<close>, once for each time a surface is listed: what a walk over the
  collections and their methods would find.
\<close>

definition method_entries :: "(activation \<Rightarrow> bool) \<Rightarrow> surface \<Rightarrow> string \<Rightarrow> auth_method \<Rightarrow> strategy_entry list" where
  "method_entries p surf slug m =
     (case m of
        Strategy n h act ss \<Rightarrow>
          if p act then replicate (count_list ss surf) \<lparr>se_slug = slug, se_name = n, se_authenticate = h\<rparr> else []
      | _ \<Rightarrow> [])"

definition matching_strategies :: "(activation \<Rightarrow> bool) \<Rightarrow> surface \<Rightarrow> auth_collection list \<Rightarrow> strategy_entry list" where
  "matching_strategies p surf defs =
     concat (map (\<lambda>def. case ac_auth def of
          None \<Rightarrow> []
        | Some a \<Rightarrow> if au_enabled a then concat (map (method_entries p surf (ac_slug def)) (au_methods a)) else [])
       defs)"

fun header_activation :: "string \<Rightarrow> activation \<Rightarrow> bool" where
  "header_activation h Always = False"
| "header_activation h (OnHeader name) = (ascii_lowercase name = h)"

lemma lookup_push:
  "unwrap_or [] (map_of (push_entry k v m) k') = unwrap_or [] (map_of m k') @ (if k' = k then [v] else [])"
  by (induction k v m rule: push_entry.induct) auto

abbreviation always_at :: "surface \<Rightarrow> strategy_index \<Rightarrow> strategy_entry list" where
  "always_at surf idx \<equiv> unwrap_or [] (map_of (fst idx) surf)"

abbreviation header_at :: "string \<Rightarrow> surface \<Rightarrow> strategy_index \<Rightarrow> strategy_entry list" where
  "header_at h surf idx \<equiv> unwrap_or [] (map_of (snd idx) (h, surf))"

lemma index_surface_lookup:
  "always_at surf (index_surface act e s idx) = always_at surf idx @ (if act = Always \<and> s = surf then [e] else [])"
  "header_at h surf (index_surface act e s idx) =
     header_at h surf idx @ (if header_activation h act \<and> s = surf then [e] else [])"
  by (cases act; auto simp: index_surface_def lookup_push)+

lemma fold_lookup:
  assumes "\<And>x idx. look (f x idx) = look idx @ g x"
  shows "look (fold f xs idx) = look idx @ concat (map g xs)"
  using assms by (induction xs arbitrary: idx) simp_all

lemma concat_replicate_if:
  "concat (map (\<lambda>s. if p \<and> s = surf then [e] else []) ss) = (if p then replicate (count_list ss surf) e else [])"
  by (induction ss) auto

lemma index_method_lookup:
  "always_at surf (index_method slug m idx) = always_at surf idx @ method_entries (\<lambda>a. a = Always) surf slug m"
  "header_at h surf (index_method slug m idx) = header_at h surf idx @ method_entries (header_activation h) surf slug m"
proof -
  have al: "always_at surf (fold (index_surface act e) ss idx) =
      always_at surf idx @ (if act = Always then replicate (count_list ss surf) e else [])" for act e ss
    using fold_lookup [of "always_at surf" "index_surface act e" "\<lambda>s. if act = Always \<and> s = surf then [e] else []"]
    by (simp add: index_surface_lookup concat_replicate_if)
  have hd: "header_at h surf (fold (index_surface act e) ss idx) =
      header_at h surf idx @ (if header_activation h act then replicate (count_list ss surf) e else [])" for act e ss
    using fold_lookup [of "header_at h surf" "index_surface act e" "\<lambda>s. if header_activation h act \<and> s = surf then [e] else []"]
    by (simp add: index_surface_lookup concat_replicate_if)
  show "always_at surf (index_method slug m idx) = always_at surf idx @ method_entries (\<lambda>a. a = Always) surf slug m"
    by (cases m) (simp_all add: index_method_def method_entries_def al)
  show "header_at h surf (index_method slug m idx) = header_at h surf idx @ method_entries (header_activation h) surf slug m"
    by (cases m) (simp_all add: index_method_def method_entries_def hd)
qed

text \<open>
  The precomputed index answers what the walk over all collections would: for every surface it
  holds exactly the always-active strategies, and for every lower-cased header name exactly the
  strategies activated by a header of that name in any case, in declaration order.
\<close>
theorem strategy_index_exact:
  "unwrap_or [] (map_of (rg_always (rebuild_strategy_index defs)) surf) =
     matching_strategies (\<lambda>a. a = Always) surf defs \<and>
   unwrap_or [] (map_of (rg_header (rebuild_strategy_index defs)) (h, surf)) =
     matching_strategies (header_activation h) surf defs"
proof -
  have al: "always_at surf (index_collection def idx) = always_at surf idx @
      (case ac_auth def of None \<Rightarrow> [] | Some a \<Rightarrow>
        if au_enabled a then concat (map (method_entries (\<lambda>a. a = Always) surf (ac_slug def)) (au_methods a)) else [])"
    for def idx
    using fold_lookup [of "always_at surf" "index_method (ac_slug def)"
        "method_entries (\<lambda>a. a = Always) surf (ac_slug def)", OF index_method_lookup(1)]
    by (simp add: index_collection_def split: option.split)
  have hd: "header_at h surf (index_collection def idx) = header_at h surf idx @
      (case ac_auth def of None \<Rightarrow> [] | Some a \<Rightarrow>
        if au_enabled a then concat (map (method_entries (header_activation h) surf (ac_slug def)) (au_methods a)) else [])"
    for def idx
    using fold_lookup [of "header_at h surf" "index_method (ac_slug def)"
        "method_entries (header_activation h) surf (ac_slug def)", OF index_method_lookup(2)]
    by (simp add: index_collection_def split: option.split)
  have "always_at surf (fold index_collection defs ([], [])) = matching_strategies (\<lambda>a. a = Always) surf defs"
    by (subst fold_lookup [where look = "always_at surf", OF al]) (simp add: matching_strategies_def)
  moreover have "header_at h surf (fold index_collection defs ([], [])) = matching_strategies (header_activation h) surf defs"
    by (subst fold_lookup [where look = "header_at h surf", OF hd]) (simp add: matching_strategies_def)
  ultimately show ?thesis by (simp add: rebuild_strategy_index_def Let_def)
qed

end
