(* ===== verification/FilterQuery.thy ===== *)
theory FilterQuery
  imports Keyset
begin

text \<open>
  The filters of a query (src/src/db/query/filter/): the condition an operator becomes, the columns
  and join tables a filter path names, the WHERE clause, and what SQLite makes of it.  A condition
  is kept as a term instead of SQL text; its value is three-valued, and a row is selected when the
  value is true.
\<close>

section \<open>Filters\<close>

datatype filter_op =
    Equals string | NotEquals string | Like string | Contains string
  | GreaterThan string | LessThan string | GreaterThanOrEqual string | LessThanOrEqual string
  | In "string list" | NotIn "string list" | Exists | NotExists

record field_filter =
  ff_field :: string
  ff_op :: filter_op

datatype filter_clause = SingleFilter field_filter | OrFilters "field_filter list list"

section \<open>Operands\<close>

text \<open>The date formats chrono reads, each giving the UTC timestamp it prints.\<close>

record date_library =
  dl_rfc3339 :: "string \<Rightarrow> string option"
  dl_date_noon :: "string \<Rightarrow> string option"
  dl_minutes :: "string \<Rightarrow> string option"
  dl_seconds :: "string \<Rightarrow> string option"

definition normalize_date_value :: "date_library \<Rightarrow> string \<Rightarrow> string" where
  "normalize_date_value lib v =
     (let has_t = CHR ''T'' \<in> set v
      in if length v \<le> 8 \<and> CHR '':'' \<in> set v \<and> \<not> has_t then v
         else if length v = 7 \<and> v ! 4 = CHR ''-'' \<and> \<not> has_t then v
         else (case dl_rfc3339 lib v of Some s \<Rightarrow> s | None \<Rightarrow>
              (case if length v = 10 then dl_date_noon lib v else None of Some s \<Rightarrow> s | None \<Rightarrow>
              (case if length v = 16 \<and> has_t then dl_minutes lib v else None of Some s \<Rightarrow> s | None \<Rightarrow>
              (case if length v = 19 \<and> has_t then dl_seconds lib v else None of Some s \<Rightarrow> s | None \<Rightarrow> v)))))"

fun is_text_only_op :: "filter_op \<Rightarrow> bool" where
  "is_text_only_op (Like p) = True"
| "is_text_only_op (Contains p) = True"
| "is_text_only_op _ = False"

definition coerce_filter_value :: "date_library \<Rightarrow> field_type option \<Rightarrow> filter_op \<Rightarrow> string \<Rightarrow> db_value" where
  "coerce_filter_value lib ft op v =
     (if is_text_only_op op then DText v
      else (case ft of
              None \<Rightarrow> DText v
            | Some Number \<Rightarrow> (case parse_f64 v of Some (Finite q) \<Rightarrow> DReal q | _ \<Rightarrow> DText v)
            | Some Checkbox \<Rightarrow>
                (if v \<in> {''1'', ''true'', ''yes'', ''on''} then DInteger 1
                 else if v \<in> {''0'', ''false'', ''no'', ''off''} then DInteger 0
                 else DText v)
            | Some Date \<Rightarrow> DText (normalize_date_value lib v)
            | _ \<Rightarrow> DText v))"

section \<open>Conditions\<close>

datatype cmp_sql = Eq | Ne | Gt | Lt | Ge | Le

datatype op_condition =
    CompareTo cmp_sql db_value
  | LikePattern string "char option"
  | OneOf "db_value list"
  | NoneOf "db_value list"
  | IsNotNull
  | IsNull
  | Constant bool

text \<open>\<open>replace('%', "\\%").replace('_', "\\_")\<close>.\<close>

definition escape_like :: "string \<Rightarrow> string" where
  "escape_like v = concat (map (\<lambda>c. if c = CHR ''%'' \<or> c = CHR ''_'' then [CHR 0x5C, c] else [c]) v)"

definition build_op_condition :: "date_library \<Rightarrow> filter_op \<Rightarrow> field_type option \<Rightarrow> op_condition" where
  "build_op_condition lib op ft =
     (let co = coerce_filter_value lib ft op
      in case op of
           Equals v \<Rightarrow> CompareTo Eq (co v)
         | NotEquals v \<Rightarrow> CompareTo Ne (co v)
         | Like v \<Rightarrow> LikePattern v None
         | Contains v \<Rightarrow> LikePattern (''%'' @ escape_like v @ ''%'') (Some (CHR 0x5C))
         | GreaterThan v \<Rightarrow> CompareTo Gt (co v)
         | LessThan v \<Rightarrow> CompareTo Lt (co v)
         | GreaterThanOrEqual v \<Rightarrow> CompareTo Ge (co v)
         | LessThanOrEqual v \<Rightarrow> CompareTo Le (co v)
         | In vs \<Rightarrow> (if vs = [] then Constant False else OneOf (map co vs))
         | NotIn vs \<Rightarrow> (if vs = [] then Constant True else NoneOf (map co vs))
         | Exists \<Rightarrow> IsNotNull
         | NotExists \<Rightarrow> IsNull)"

subsection \<open>Their value in SQLite\<close>

text \<open>
  A column of a numeric type applies its affinity to a text operand that reads as a number; a text
  column is only compared with text operands here.
\<close>

definition column_type_numeric :: "field_type \<Rightarrow> bool" where
  "column_type_numeric ft \<longleftrightarrow> ft = Number \<or> ft = Checkbox"

definition apply_affinity :: "bool \<Rightarrow> db_value \<Rightarrow> db_value" where
  "apply_affinity numeric v =
     (if numeric
      then (case v of
              DText s \<Rightarrow> (case parse_f64 (trim s) of Some (Finite q) \<Rightarrow> DReal q | _ \<Rightarrow> v)
            | _ \<Rightarrow> v)
      else v)"

fun cmp_key :: "cmp_sql \<Rightarrow> sql_key \<Rightarrow> sql_key \<Rightarrow> bool" where
  "cmp_key Eq a b = (a = b)"
| "cmp_key Ne a b = (a \<noteq> b)"
| "cmp_key Gt a b = (b < a)"
| "cmp_key Lt a b = (a < b)"
| "cmp_key Ge a b = (b \<le> a)"
| "cmp_key Le a b = (a \<le> b)"

definition cmp3 :: "cmp_sql \<Rightarrow> db_value \<Rightarrow> db_value \<Rightarrow> bool option" where
  "cmp3 c a b = (if a = DNull \<or> b = DNull then None else Some (cmp_key c (value_key a) (value_key b)))"

text \<open>
  \<open>LIKE\<close>: ASCII letters match in either case, \<open>%\<close> any string, \<open>_\<close> one character, and the character
  after the escape character itself.
\<close>

function (sequential) sql_like :: "char option \<Rightarrow> string \<Rightarrow> string \<Rightarrow> bool" where
  "sql_like esc [] s = (s = [])"
| "sql_like esc (p # ps) s =
     (if esc = Some p
      then (case (ps, s) of
              (q # qs, c # cs) \<Rightarrow> ascii_lower c = ascii_lower q \<and> sql_like esc qs cs
            | _ \<Rightarrow> False)
      else if p = CHR ''%''
      then sql_like esc ps s \<or> (case s of [] \<Rightarrow> False | c # cs \<Rightarrow> sql_like esc (p # ps) cs)
      else if p = CHR ''_''
      then (case s of [] \<Rightarrow> False | c # cs \<Rightarrow> sql_like esc ps cs)
      else (case s of [] \<Rightarrow> False | c # cs \<Rightarrow> ascii_lower c = ascii_lower p \<and> sql_like esc ps cs))"
  by pat_completeness auto
termination by (relation "measure (\<lambda>(e, p, s). length p + length s)") auto

text \<open>The text of a number is SQLite's.\<close>

fun like_text :: "(db_value \<Rightarrow> string) \<Rightarrow> db_value \<Rightarrow> string option" where
  "like_text num_text DNull = None"
| "like_text num_text (DText s) = Some s"
| "like_text num_text (DBlob b) = Some b"
| "like_text num_text v = Some (num_text v)"

definition not3 :: "bool option \<Rightarrow> bool option" where
  "not3 = map_option Not"

fun or3 :: "bool option \<Rightarrow> bool option \<Rightarrow> bool option" where
  "or3 (Some True) b = Some True"
| "or3 a (Some True) = Some True"
| "or3 (Some False) (Some False) = Some False"
| "or3 a b = None"

fun and3 :: "bool option \<Rightarrow> bool option \<Rightarrow> bool option" where
  "and3 (Some False) b = Some False"
| "and3 a (Some False) = Some False"
| "and3 (Some True) (Some True) = Some True"
| "and3 a b = None"

definition any3 :: "bool option list \<Rightarrow> bool option" where
  "any3 bs = foldr or3 bs (Some False)"

definition all3 :: "bool option list \<Rightarrow> bool option" where
  "all3 bs = foldr and3 bs (Some True)"

definition op_holds :: "(db_value \<Rightarrow> string) \<Rightarrow> bool \<Rightarrow> db_value \<Rightarrow> op_condition \<Rightarrow> bool option" where
  "op_holds num_text numeric v c =
     (case c of
        CompareTo cmp p \<Rightarrow> cmp3 cmp v (apply_affinity numeric p)
      | LikePattern pat esc \<Rightarrow> map_option (sql_like esc pat) (like_text num_text v)
      | OneOf ps \<Rightarrow> any3 (map (\<lambda>p. cmp3 Eq v (apply_affinity numeric p)) ps)
      | NoneOf ps \<Rightarrow> not3 (any3 (map (\<lambda>p. cmp3 Eq v (apply_affinity numeric p)) ps))
      | IsNotNull \<Rightarrow> Some (v \<noteq> DNull)
      | IsNull \<Rightarrow> Some (v = DNull)
      | Constant b \<Rightarrow> Some b)"

lemma or3_iff:
  "or3 a b = Some True \<longleftrightarrow> a = Some True \<or> b = Some True"
  "or3 a b = Some False \<longleftrightarrow> a = Some False \<and> b = Some False"
  by (induction a b rule: or3.induct) auto

lemma and3_iff:
  "and3 a b = Some True \<longleftrightarrow> a = Some True \<and> b = Some True"
  "and3 a b = Some False \<longleftrightarrow> a = Some False \<or> b = Some False"
  by (induction a b rule: and3.induct) auto

lemma any3_True: "any3 bs = Some True \<longleftrightarrow> Some True \<in> set bs"
  by (induction bs) (auto simp: any3_def or3_iff)

lemma all3_True: "all3 bs = Some True \<longleftrightarrow> set bs \<subseteq> {Some True}"
  by (induction bs) (auto simp: all3_def and3_iff)

lemma any3_False: "any3 bs = Some False \<longleftrightarrow> set bs \<subseteq> {Some False}"
  by (induction bs) (auto simp: any3_def or3_iff)

text \<open>
  Matching a literal pattern: without wildcards in it, or with all of them escaped, \<open>LIKE\<close> asks for
  the text itself, up to case.
\<close>

lemma sql_like_escaped:
  assumes "CHR 0x5C \<notin> set v"
  shows "sql_like (Some (CHR 0x5C)) (escape_like v @ ps) s \<longleftrightarrow>
    (\<exists>a b. s = a @ b \<and> ascii_lowercase a = ascii_lowercase v \<and> sql_like (Some (CHR 0x5C)) ps b)"
  using assms
proof (induction v arbitrary: s)
  case Nil
  then show ?case by (simp add: escape_like_def ascii_lowercase_def)
next
  case (Cons x v)
  have e: "escape_like (x # v) =
      (if x = CHR ''%'' \<or> x = CHR ''_'' then [CHR 0x5C, x] else [x]) @ escape_like v"
    by (simp add: escape_like_def)
  have x: "x \<noteq> CHR 0x5C" "CHR 0x5C \<notin> set v" using Cons.prems by auto
  have step: "sql_like (Some (CHR 0x5C)) (escape_like (x # v) @ ps) s \<longleftrightarrow>
      (\<exists>c cs. s = c # cs \<and> ascii_lower c = ascii_lower x \<and>
        sql_like (Some (CHR 0x5C)) (escape_like v @ ps) cs)"
    unfolding e using x(1) by (cases s) auto
  show ?case
  proof
    assume "sql_like (Some (CHR 0x5C)) (escape_like (x # v) @ ps) s"
    then obtain c a b where "s = c # a @ b" "ascii_lower c = ascii_lower x"
      "ascii_lowercase a = ascii_lowercase v" "sql_like (Some (CHR 0x5C)) ps b"
      unfolding step Cons.IH [OF x(2)] by blast
    then show "\<exists>a b. s = a @ b \<and> ascii_lowercase a = ascii_lowercase (x # v) \<and>
        sql_like (Some (CHR 0x5C)) ps b"
      by (intro exI [of _ "c # a"] exI [of _ b]) (simp add: ascii_lowercase_def)
  next
    assume "\<exists>a b. s = a @ b \<and> ascii_lowercase a = ascii_lowercase (x # v) \<and>
        sql_like (Some (CHR 0x5C)) ps b"
    then obtain c a b where "s = c # a @ b" "ascii_lower c = ascii_lower x"
      "ascii_lowercase a = ascii_lowercase v" "sql_like (Some (CHR 0x5C)) ps b"
      by (auto simp: ascii_lowercase_def map_eq_Cons_conv)
    then show "sql_like (Some (CHR 0x5C)) (escape_like (x # v) @ ps) s"
      unfolding step Cons.IH [OF x(2)] by blast
  qed
qed

lemma sql_like_percent:
  assumes "esc \<noteq> Some (CHR ''%'')"
  shows "sql_like esc (CHR ''%'' # ps) s \<longleftrightarrow> (\<exists>a b. s = a @ b \<and> sql_like esc ps b)"
proof (induction s)
  case Nil
  then show ?case using assms by simp
next
  case (Cons c cs)
  have "sql_like esc (CHR ''%'' # ps) (c # cs) \<longleftrightarrow> sql_like esc ps (c # cs) \<or> sql_like esc (CHR ''%'' # ps) cs"
    using assms by simp
  with Cons show ?case by (auto simp: Cons_eq_append_conv)
qed

text \<open>
  The \<open>contains\<close> operator finds exactly the texts that contain the operand, up to ASCII case,
  and treats \<open>%\<close> and \<open>_\<close> in it as themselves, provided the operand has no backslash.
\<close>
theorem contains_finds_exactly:
  assumes "CHR 0x5C \<notin> set v"
  shows "op_holds num_text numeric (DText s) (build_op_condition lib (Contains v) ft) = Some True \<longleftrightarrow>
    (\<exists>a b c. s = a @ b @ c \<and> ascii_lowercase b = ascii_lowercase v)"
proof -
  let ?e = "Some (CHR 0x5C)"
  have "op_holds num_text numeric (DText s) (build_op_condition lib (Contains v) ft) = Some True \<longleftrightarrow>
      sql_like ?e (CHR ''%'' # escape_like v @ ''%'') s"
    by (simp add: build_op_condition_def op_holds_def Let_def)
  also have "\<dots> \<longleftrightarrow> (\<exists>a r. s = a @ r \<and> sql_like ?e (escape_like v @ ''%'') r)"
    by (simp add: sql_like_percent del: sql_like.simps)
  also have "\<dots> \<longleftrightarrow> (\<exists>a b c. s = a @ b @ c \<and> ascii_lowercase b = ascii_lowercase v)"
    unfolding sql_like_escaped [OF assms] by (auto simp: sql_like_percent simp del: sql_like.simps(2))
  finally show ?thesis .
qed

definition no_dates :: date_library where
  "no_dates = \<lparr>dl_rfc3339 = (\<lambda>s. None), dl_date_noon = (\<lambda>s. None), dl_minutes = (\<lambda>s. None), dl_seconds = (\<lambda>s. None)\<rparr>"

theorem contains_finds_exactly_witness:
  "op_holds (\<lambda>v. []) False (DText ''x 50% OFF'') (build_op_condition no_dates (Contains ''50% off'') (Some Text)) = Some True"
proof -
  have "ascii_lowercase ''50% OFF'' = ascii_lowercase ''50% off''" by code_simp
  moreover have "''x 50% OFF'' = ''x '' @ ''50% OFF'' @ []" by simp
  ultimately have "\<exists>a b c. ''x 50% OFF'' = a @ b @ c \<and> ascii_lowercase b = ascii_lowercase ''50% off''" by blast
  then show ?thesis by (subst contains_finds_exactly) simp_all
qed

text \<open>
  A backslash in the operand escapes what follows it in the pattern: the text it is in is missed
  and another one found.
\<close>

lemma contains_backslash_wrong:
  "op_holds num_text False (DText [CHR ''a'', CHR 0x5C]) (build_op_condition lib (Contains [CHR ''a'', CHR 0x5C]) ft)
     = Some False"
  "op_holds num_text False (DText ''ab'') (build_op_condition lib (Contains [CHR 0x5C, CHR ''b'']) ft) = Some True"
  by (simp_all add: build_op_condition_def op_holds_def Let_def escape_like_def ascii_lower_def is_ascii_uppercase_def)

end
