(* ===== verification/FilterPath.thy ===== *)
theory FilterPath
  imports FilterQuery
begin

text \<open>
  What a filter's field names (src/src/db/query/filter/resolve/, where_clause.rs): a column of the
  table, with its locale, or rows of a join table; and the WHERE clause over them.  The errors are
  the messages without their arguments.
\<close>

section \<open>Looking a name up in the field tree\<close>

fun find_field_recursive :: "string \<Rightarrow> field_definition list \<Rightarrow> field_definition option"
  and find_in_tabs :: "string \<Rightarrow> field_tab list \<Rightarrow> field_definition option"
where
  "find_field_recursive name [] = None"
| "find_field_recursive name (FieldDefinition a sub tabs blocks # fs) =
     (if fa_name a = name then Some (FieldDefinition a sub tabs blocks)
      else (case (case fa_type a of
                    Row \<Rightarrow> find_field_recursive name sub
                  | Collapsible \<Rightarrow> find_field_recursive name sub
                  | Tabs \<Rightarrow> find_in_tabs name tabs
                  | _ \<Rightarrow> None) of
              Some f \<Rightarrow> Some f
            | None \<Rightarrow> find_field_recursive name fs))"
| "find_in_tabs name [] = None"
| "find_in_tabs name (FieldTab l sub # ts) =
     (case find_field_recursive name sub of Some f \<Rightarrow> Some f | None \<Rightarrow> find_in_tabs name ts)"

text \<open>\<open>split("__")\<close>: the pieces between the leftmost, not overlapping, double underscores.\<close>

fun split_dunder_acc :: "string \<Rightarrow> string \<Rightarrow> string list" where
  "split_dunder_acc acc (a # b # cs) =
     (if a = CHR ''_'' \<and> b = CHR ''_'' then rev acc # split_dunder_acc [] cs
      else split_dunder_acc (a # acc) (b # cs))"
| "split_dunder_acc acc s = [rev acc @ s]"

definition split_dunder :: "string \<Rightarrow> string list" where
  "split_dunder s = split_dunder_acc [] s"

fun walk_group_path :: "string list \<Rightarrow> field_definition list \<Rightarrow> field_type option" where
  "walk_group_path [] fds = None"
| "walk_group_path [seg] fds = map_option (\<lambda>f. fa_type (fd_attrs f)) (find_field_recursive seg fds)"
| "walk_group_path (seg # segs) fds =
     (case find_field_recursive seg fds of
        None \<Rightarrow> None
      | Some f \<Rightarrow> if fa_type (fd_attrs f) = Group then walk_group_path segs (fd_fields f) else None)"

definition lookup_column_field_type :: "string \<Rightarrow> field_definition list \<Rightarrow> field_type option" where
  "lookup_column_field_type col fds =
     (case (case find_field_recursive col fds of
              None \<Rightarrow> None
            | Some f \<Rightarrow>
                if fa_type (fd_attrs f) \<in> {Group, Array, Blocks, Relationship} then None
                else Some (fa_type (fd_attrs f))) of
        Some ft \<Rightarrow> Some ft
      | None \<Rightarrow>
          (let parts = split_dunder col
           in if length parts < 2 then None
              else (case walk_group_path parts fds of
                      Some ft \<Rightarrow> Some ft
                    | None \<Rightarrow> walk_group_path (butlast parts) fds)))"

section \<open>Group paths\<close>

fun is_group_field :: "string \<Rightarrow> field_definition list \<Rightarrow> bool"
  and is_group_in_tabs :: "string \<Rightarrow> field_tab list \<Rightarrow> bool"
where
  "is_group_field name [] = False"
| "is_group_field name (FieldDefinition a sub tabs blocks # fs) =
     (fa_name a = name \<and> fa_type a = Group \<or>
      (case fa_type a of
         Row \<Rightarrow> is_group_field name sub
       | Collapsible \<Rightarrow> is_group_field name sub
       | Tabs \<Rightarrow> is_group_in_tabs name tabs
       | _ \<Rightarrow> False) \<or>
      is_group_field name fs)"
| "is_group_in_tabs name [] = False"
| "is_group_in_tabs name (FieldTab l sub # ts) = (is_group_field name sub \<or> is_group_in_tabs name ts)"

definition dots_to_dunder :: "string \<Rightarrow> string" where
  "dots_to_dunder s = concat (map (\<lambda>c. if c = CHR ''.'' then ''__'' else [c]) s)"

definition normalize_field_name :: "field_definition list \<Rightarrow> string \<Rightarrow> string" where
  "normalize_field_name fds field =
     (if CHR ''.'' \<notin> set field then field
      else if is_group_field (hd (split_on (CHR ''.'') field)) fds then dots_to_dunder field
      else field)"

fun map_clause :: "(field_filter \<Rightarrow> field_filter) \<Rightarrow> filter_clause \<Rightarrow> filter_clause" where
  "map_clause g (SingleFilter f) = SingleFilter (g f)"
| "map_clause g (OrFilters groups) = OrFilters (map (map g) groups)"

definition normalize_filter_fields :: "field_definition list \<Rightarrow> filter_clause list \<Rightarrow> filter_clause list" where
  "normalize_filter_fields fds cs =
     map (map_clause (\<lambda>f. f\<lparr>ff_field := normalize_field_name fds (ff_field f)\<rparr>)) cs"

section \<open>Locales\<close>

definition get_locale :: "locale_context \<Rightarrow> string" where
  "get_locale ctx = (case lx_mode ctx of Single l \<Rightarrow> l | _ \<Rightarrow> lc_default_locale (lx_config ctx))"

definition check_flat_sub_fields :: "field_definition list \<Rightarrow> string \<Rightarrow> locale_context \<Rightarrow> string option" where
  "check_flat_sub_fields sub name ctx =
     (if list_ex (\<lambda>f. fa_name (fd_attrs f) = name \<and> fa_localized (fd_attrs f)) sub
      then Some (get_locale ctx) else None)"

definition check_group_locale :: "field_definition \<Rightarrow> string \<Rightarrow> locale_context \<Rightarrow> string option" where
  "check_group_locale field name ctx =
     (case strip_prefix (fa_name (fd_attrs field) @ ''__'') name of
        None \<Rightarrow> None
      | Some sub_name \<Rightarrow>
          if list_ex (\<lambda>f. fa_name (fd_attrs f) = sub_name \<and>
               (fa_localized (fd_attrs field) \<or> fa_localized (fd_attrs f))) (fd_fields field)
          then Some (get_locale ctx) else None)"

fun first_some_of :: "('a \<Rightarrow> 'b option) \<Rightarrow> 'a list \<Rightarrow> 'b option" where
  "first_some_of f [] = None"
| "first_some_of f (x # xs) = (case f x of Some y \<Rightarrow> Some y | None \<Rightarrow> first_some_of f xs)"

definition check_field_locale :: "field_definition \<Rightarrow> string \<Rightarrow> locale_context \<Rightarrow> string option" where
  "check_field_locale field name ctx =
     (case fa_type (fd_attrs field) of
        Group \<Rightarrow> check_group_locale field name ctx
      | Row \<Rightarrow> check_flat_sub_fields (fd_fields field) name ctx
      | Collapsible \<Rightarrow> check_flat_sub_fields (fd_fields field) name ctx
      | Tabs \<Rightarrow> first_some_of (\<lambda>t. check_flat_sub_fields (tab_fields t) name ctx) (fd_tabs field)
      | _ \<Rightarrow> if fa_name (fd_attrs field) = name \<and> fa_localized (fd_attrs field) then Some (get_locale ctx) else None)"

definition resolve_filter_column ::
  "string \<Rightarrow> field_definition list \<Rightarrow> locale_context option \<Rightarrow> string option" where
  "resolve_filter_column name fds locale_ctx =
     (case locale_ctx of
        None \<Rightarrow> Some name
      | Some ctx \<Rightarrow>
          if \<not> is_enabled (lx_config ctx) then Some name
          else (case first_some_of (\<lambda>f. check_field_locale f name ctx) fds of
                  Some l \<Rightarrow> locale_column name l
                | None \<Rightarrow> Some name))"

text \<open>\<open>collect::<Result<_, _>>()\<close>.\<close>

fun all_some :: "'a option list \<Rightarrow> 'a list option" where
  "all_some [] = Some []"
| "all_some (None # xs) = None"
| "all_some (Some x # xs) = map_option (Cons x) (all_some xs)"

definition resolve_one :: "field_definition list \<Rightarrow> locale_context option \<Rightarrow> field_filter \<Rightarrow> field_filter option" where
  "resolve_one fds ctx f = map_option (\<lambda>c. f\<lparr>ff_field := c\<rparr>) (resolve_filter_column (ff_field f) fds ctx)"

definition resolve_filters ::
  "field_definition list \<Rightarrow> locale_context option \<Rightarrow> filter_clause list \<Rightarrow> filter_clause list option" where
  "resolve_filters fds ctx cs =
     all_some (map (\<lambda>c. case c of
         SingleFilter f \<Rightarrow> map_option SingleFilter (resolve_one fds ctx f)
       | OrFilters gs \<Rightarrow> map_option OrFilters (all_some (map (\<lambda>g. all_some (map (resolve_one fds ctx) g)) gs))) cs)"

text \<open>A filter on a top level field reads the column that a write in the same locale goes to.\<close>

lemma filter_reads_written_column:
  assumes "f \<in> set fds" "distinct (map (\<lambda>f. fa_name (fd_attrs f)) fds)"
    and "\<forall>g \<in> set fds. \<not> is_wrapper g \<and> fa_type (fd_attrs g) \<noteq> Group"
    and "get_locale ctx \<in> set (lc_locales (lx_config ctx))"
  shows "resolve_filter_column (fa_name (fd_attrs f)) fds (Some ctx) =
    locale_write_column (fa_name (fd_attrs f)) (fd_attrs f) (Some ctx) False"
proof -
  let ?n = "fa_name (fd_attrs f)"
  have leaf: "check_field_locale g ?n ctx =
      (if fa_name (fd_attrs g) = ?n \<and> fa_localized (fd_attrs g) then Some (get_locale ctx) else None)"
    if "g \<in> set fds" for g
    using assms(3) that by (auto simp: check_field_locale_def is_wrapper_def split: field_type.splits)
  have "first_some_of (\<lambda>g. check_field_locale g ?n ctx) gs =
      (if f \<in> set gs \<and> fa_localized (fd_attrs f) then Some (get_locale ctx) else None)"
    if "set gs \<subseteq> set fds" for gs
    using that
  proof (induction gs)
    case (Cons g gs)
    have "fa_name (fd_attrs g) = ?n \<longleftrightarrow> g = f"
      using Cons.prems assms(1,2) by (auto simp: distinct_map inj_on_def)
    with Cons leaf [of g] show ?case by auto
  qed simp
  from this [of fds] assms(1) have first: "first_some_of (\<lambda>g. check_field_locale g ?n ctx) fds =
      (if fa_localized (fd_attrs f) then Some (get_locale ctx) else None)" by simp
  have req: "(case lx_mode ctx of Single l \<Rightarrow> l | _ \<Rightarrow> lc_default_locale (lx_config ctx)) = get_locale ctx"
    by (simp add: get_locale_def)
  show ?thesis
    using assms(4)
    by (simp add: resolve_filter_column_def locale_write_column_def first req Let_def split: option.splits)
qed

text \<open>
  The look-up of locales goes one level deep: a localized field of a group inside a row is filtered by
  the name without its locale, which no column has.
\<close>

definition row_of_group :: "field_definition list" where
  "row_of_group = [FieldDefinition (new_attrs ''r'' Row)
     [FieldDefinition (new_attrs ''seo'' Group)
        [FieldDefinition ((new_attrs ''title'' Text)\<lparr>fa_localized := True\<rparr>) [] [] []] [] []] [] []]"

definition english :: locale_context where
  "english = \<lparr>lx_mode = Single ''en'', lx_config = \<lparr>lc_default_locale = ''en'', lc_locales = [''en'', ''de''], lc_fallback = True\<rparr>\<rparr>"

lemma nested_localized_filter_unresolved:
  "resolve_filter_column ''seo__title'' row_of_group (Some english) = Some ''seo__title''"
  "locale_write_column ''seo__title'' ((new_attrs ''title'' Text)\<lparr>fa_localized := True\<rparr>) (Some english) False
     = Some ''seo__title__en''"
  by code_simp+

section \<open>Paths into join tables\<close>

datatype subquery_condition =
    SubColumn string "field_type option"
  | SubBlockType
  | SubJson "(string \<times> string) list" string "field_type option"

datatype resolved_filter =
    ResolvedColumn string "field_type option"
  | ResolvedSubquery string string subquery_condition "string option"

definition join_table :: "string \<Rightarrow> string \<Rightarrow> string" where
  "join_table collection field = collection @ ''_'' @ field"

definition subquery_locale :: "locale_context \<Rightarrow> string option" where
  "subquery_locale ctx =
     (case lx_mode ctx of Single l \<Rightarrow> Some l | Default \<Rightarrow> Some (lc_default_locale (lx_config ctx)) | All \<Rightarrow> None)"

definition json_extract_expr :: "string \<Rightarrow> string \<Rightarrow> string" where
  "json_extract_expr col name = ''json_extract('' @ col @ '', '' @ [CHR 0x27] @ ''$.'' @ name @ [CHR 0x27] @ '')''"

definition find_sub :: "string \<Rightarrow> field_definition list \<Rightarrow> field_definition option" where
  "find_sub name fds = find (\<lambda>f. fa_name (fd_attrs f) = name) fds"

definition resolve_array_filter ::
  "field_definition \<Rightarrow> string \<Rightarrow> string + subquery_condition" where
  "resolve_array_filter field_def rest =
     (if \<not> list_all is_valid_identifier (split_on (CHR ''.'') rest) then Inl ''Invalid segment in filter path''
      else (case split_once (CHR ''.'') rest of
              Some (first_seg, remaining) \<Rightarrow>
                (case find_sub first_seg (fd_fields field_def) of
                   Some g \<Rightarrow>
                     if fa_type (fd_attrs g) = Group
                     then Inr (SubJson [] (json_extract_expr first_seg remaining)
                            (map_option (\<lambda>f. fa_type (fd_attrs f)) (find_field_recursive remaining (fd_fields g))))
                     else Inl ''only Group sub-fields support nested filtering''
                 | None \<Rightarrow> Inl ''only Group sub-fields support nested filtering'')
            | None \<Rightarrow>
                Inr (SubColumn rest (map_option (\<lambda>f. fa_type (fd_attrs f)) (find_sub rest (fd_fields field_def))))))"

text \<open>
  The walk through block definitions: the \<open>json_each\<close> joins so far, the path since the last of them
  and the fields at this level.
\<close>

definition each_source :: "(string \<times> string) list \<Rightarrow> string list \<Rightarrow> string \<Rightarrow> string \<Rightarrow> string" where
  "each_source joins path seg table =
     (let json_path = join_with ''.'' (path @ [seg])
      in if joins = [] then json_extract_expr (table @ ''.data'') json_path
         else json_extract_expr (snd (last joins) @ ''.value'') json_path)"

definition leaf_expr :: "(string \<times> string) list \<Rightarrow> string list \<Rightarrow> string" where
  "leaf_expr joins path =
     (if joins = [] then json_extract_expr ''data'' (join_with ''.'' path)
      else json_extract_expr (snd (last joins) @ ''.value'') (join_with ''.'' path))"

fun walk_block_fields ::
  "string \<Rightarrow> (string \<times> string) list \<Rightarrow> string list \<Rightarrow> field_definition list \<Rightarrow> string list \<Rightarrow> string + subquery_condition" where
  "walk_block_fields table joins path fds [] =
     Inl ''Filter path must end on a scalar field or _block_type, not a container''"
| "walk_block_fields table joins path fds (seg # segs) =
     (if seg = ''_block_type''
      then (if segs \<noteq> [] then Inl ''_block_type must be the last segment in a filter path''
            else Inr (SubJson joins (leaf_expr joins (path @ [seg])) (Some Text)))
      else (case find_sub seg fds of
              None \<Rightarrow> Inl ''Unknown field in block filter path''
            | Some f \<Rightarrow>
                (case fa_type (fd_attrs f) of
                   Blocks \<Rightarrow> walk_block_fields table
                     (joins @ [(each_source joins path seg table, ''j'' @ show_nat (length joins))]) []
                     (concat (map block_fields (fd_blocks f))) segs
                 | Array \<Rightarrow> walk_block_fields table
                     (joins @ [(each_source joins path seg table, ''j'' @ show_nat (length joins))]) []
                     (fd_fields f) segs
                 | Group \<Rightarrow> walk_block_fields table joins (path @ [seg]) (fd_fields f) segs
                 | Row \<Rightarrow> walk_block_fields table joins (path @ [seg]) (fd_fields f) segs
                 | Collapsible \<Rightarrow> walk_block_fields table joins (path @ [seg]) (fd_fields f) segs
                 | Tabs \<Rightarrow> walk_block_fields table joins (path @ [seg]) (concat (map tab_fields (fd_tabs f))) segs
                 | ft \<Rightarrow> if segs \<noteq> [] then Inl ''Scalar field cannot have sub-paths''
                         else Inr (SubJson joins (leaf_expr joins (path @ [seg])) (Some ft)))))"

definition resolve_blocks_filter ::
  "field_definition \<Rightarrow> string \<Rightarrow> string \<Rightarrow> string + subquery_condition" where
  "resolve_blocks_filter field_def rest table =
     (if rest = ''_block_type'' then Inr SubBlockType
      else (let parts = split_on (CHR ''.'') rest
            in if \<not> list_all (\<lambda>s. is_valid_identifier s \<or> s = ''_block_type'') parts
               then Inl ''Invalid segment in filter path''
               else walk_block_fields table [] [] (concat (map block_fields (fd_blocks field_def))) parts))"

definition resolve_relationship_filter :: "field_definition \<Rightarrow> string \<Rightarrow> string + subquery_condition" where
  "resolve_relationship_filter field_def rest =
     (case fa_relationship (fd_attrs field_def) of
        None \<Rightarrow> Inl ''Relationship field missing relationship config''
      | Some rc \<Rightarrow>
          if \<not> rc_has_many rc then Inl ''Has-one relationship does not use dot notation for filtering''
          else if rest \<noteq> ''id'' then Inl ''Has-many relationship can only be filtered by .id''
          else Inr (SubColumn ''related_id'' (Some Text)))"

definition resolve_filter ::
  "string \<Rightarrow> string \<Rightarrow> field_definition list \<Rightarrow> locale_context option \<Rightarrow> string + resolved_filter" where
  "resolve_filter field slug fds locale_ctx =
     (case split_once (CHR ''.'') field of
        None \<Rightarrow> Inr (ResolvedColumn field (lookup_column_field_type field fds))
      | Some (base, rest) \<Rightarrow>
          (case find_field_recursive base fds of
             None \<Rightarrow> Inl ''Unknown field in filter path''
           | Some field_def \<Rightarrow>
               (let has_locale_col = fa_localized (fd_attrs field_def) \<and>
                      (case locale_ctx of None \<Rightarrow> False | Some c \<Rightarrow> is_enabled (lx_config c));
                    loc_constraint = (if has_locale_col then Option.bind locale_ctx subquery_locale else None);
                    table = join_table slug base
                in map_sum id (\<lambda>c. ResolvedSubquery table slug c loc_constraint)
                     (case fa_type (fd_attrs field_def) of
                        Array \<Rightarrow> resolve_array_filter field_def rest
                      | Blocks \<Rightarrow> resolve_blocks_filter field_def rest table
                      | Relationship \<Rightarrow> resolve_relationship_filter field_def rest
                      | _ \<Rightarrow> Inl ''Field does not support sub-field filtering''))))"

section \<open>The WHERE clause\<close>

text \<open>The clause as a term: a column condition, an EXISTS over a join table, conjunctions and disjunctions.\<close>

datatype where_term =
    ColumnTerm string bool op_condition
  | ExistsTerm string subquery_condition "string option" op_condition
  | AndTerm "where_term list"
  | OrTerm "where_term list"

definition numeric_column :: "field_type option \<Rightarrow> bool" where
  "numeric_column ft = (case ft of None \<Rightarrow> False | Some t \<Rightarrow> column_type_numeric t)"

fun condition_type :: "subquery_condition \<Rightarrow> field_type option" where
  "condition_type (SubColumn col ft) = ft"
| "condition_type SubBlockType = Some Text"
| "condition_type (SubJson joins expr ft) = ft"

definition build_subquery_sql ::
  "date_library \<Rightarrow> string \<Rightarrow> subquery_condition \<Rightarrow> string option \<Rightarrow> filter_op \<Rightarrow> string + where_term" where
  "build_subquery_sql lib table c loc_constraint op =
     (case c of
        SubColumn col ft \<Rightarrow>
          if \<not> is_valid_identifier col then Inl ''Invalid column name in subquery''
          else Inr (ExistsTerm table c loc_constraint (build_op_condition lib op ft))
      | _ \<Rightarrow> Inr (ExistsTerm table c loc_constraint (build_op_condition lib op (condition_type c))))"

definition build_filter_sql ::
  "date_library \<Rightarrow> string \<Rightarrow> field_definition list \<Rightarrow> locale_context option \<Rightarrow> field_filter \<Rightarrow> string + where_term" where
  "build_filter_sql lib slug fds locale_ctx f =
     bindE (resolve_filter (ff_field f) slug fds locale_ctx)
       (\<lambda>r. case r of
          ResolvedColumn col ft \<Rightarrow>
            if \<not> is_valid_identifier col then Inl ''Invalid field name''
            else Inr (ColumnTerm col (numeric_column ft) (build_op_condition lib (ff_op f) ft))
        | ResolvedSubquery table parent c loc_constraint \<Rightarrow>
            build_subquery_sql lib table c loc_constraint (ff_op f))"

fun all_ok :: "('e + 'a) list \<Rightarrow> 'e + 'a list" where
  "all_ok [] = Inr []"
| "all_ok (Inl e # xs) = Inl e"
| "all_ok (Inr x # xs) = (case all_ok xs of Inl e \<Rightarrow> Inl e | Inr ys \<Rightarrow> Inr (x # ys))"

definition build_group :: "(field_filter \<Rightarrow> 'e + where_term) \<Rightarrow> field_filter list \<Rightarrow> 'e + where_term" where
  "build_group b g =
     (case g of [f] \<Rightarrow> b f | _ \<Rightarrow> bindE (all_ok (map b g)) (\<lambda>ts. Inr (AndTerm ts)))"

definition build_clause :: "(field_filter \<Rightarrow> 'e + where_term) \<Rightarrow> filter_clause \<Rightarrow> 'e + where_term" where
  "build_clause b c =
     (case c of
        SingleFilter f \<Rightarrow> b f
      | OrFilters [[f]] \<Rightarrow> b f
      | OrFilters gs \<Rightarrow> bindE (all_ok (map (build_group b) gs)) (\<lambda>ts. Inr (OrTerm ts)))"

text \<open>No clause, and so no condition, for an empty list of filters.\<close>

definition build_where_clause ::
  "date_library \<Rightarrow> filter_clause list \<Rightarrow> string \<Rightarrow> field_definition list \<Rightarrow> locale_context option
    \<Rightarrow> string + where_term option" where
  "build_where_clause lib filters slug fds locale_ctx =
     (if filters = [] then Inr None
      else bindE (all_ok (map (build_clause (build_filter_sql lib slug fds locale_ctx)) filters))
             (\<lambda>ts. Inr (Some (AndTerm ts))))"

text \<open>
  Its value on a row.  \<open>js\<close> gives the values a JSON expression takes over the elements its joins
  produce for a row of the join table.
\<close>

record join_row =
  jr_parent_id :: string
  jr_locale :: "string option"
  jr_cols :: "(string \<times> db_value) list"

record where_env =
  we_num_text :: "db_value \<Rightarrow> string"
  we_join_rows :: "string \<Rightarrow> join_row list"
  we_json_values :: "(string \<times> string) list \<Rightarrow> string \<Rightarrow> join_row \<Rightarrow> db_value list"

definition condition_values :: "where_env \<Rightarrow> subquery_condition \<Rightarrow> join_row \<Rightarrow> db_value list" where
  "condition_values env c jr =
     (case c of
        SubColumn col ft \<Rightarrow> [unwrap_or DNull (map_of (jr_cols jr) col)]
      | SubBlockType \<Rightarrow> [unwrap_or DNull (map_of (jr_cols jr) ''_block_type'')]
      | SubJson joins expr ft \<Rightarrow> we_json_values env joins expr jr)"

fun where_value :: "where_env \<Rightarrow> find_row \<Rightarrow> where_term \<Rightarrow> bool option" where
  "where_value env r (ColumnTerm col numeric c) = op_holds (we_num_text env) numeric (column r col) c"
| "where_value env r (ExistsTerm table c loc_constraint opc) =
     Some (list_ex (\<lambda>jr. jr_parent_id jr = fr_id r \<and>
          (loc_constraint = None \<or> jr_locale jr = loc_constraint) \<and>
          list_ex (\<lambda>v. op_holds (we_num_text env) (numeric_column (condition_type c)) v opc = Some True)
            (condition_values env c jr))
        (we_join_rows env table))"
| "where_value env r (AndTerm ts) = all3 (map (where_value env r) ts)"
| "where_value env r (OrTerm ts) = any3 (map (where_value env r) ts)"

definition selects :: "where_env \<Rightarrow> find_row \<Rightarrow> where_term option \<Rightarrow> bool" where
  "selects env r w = (case w of None \<Rightarrow> True | Some t \<Rightarrow> where_value env r t = Some True)"

text \<open>The clause means what the filters say: all clauses, each some group, each group all its filters.\<close>

lemma all_ok_Inr: "all_ok xs = Inr ys \<longleftrightarrow> xs = map Inr ys"
proof (induction xs arbitrary: ys)
  case Nil
  then show ?case by auto
next
  case (Cons x xs)
  show ?case
  proof (cases x)
    case (Inl e)
    then show ?thesis by (cases ys) auto
  next
    case (Inr a)
    show ?thesis
    proof (cases "all_ok xs")
      case e: (Inl e)
      then have "xs \<noteq> map Inr zs" for zs using Cons.IH [of zs] by simp
      with Inr e show ?thesis by (cases ys) simp_all
    next
      case zs: (Inr zs)
      then have "xs = map Inr zs" using Cons.IH by blast
      with Inr zs show ?thesis by (cases ys) (auto simp: inj_map_eq_map)
    qed
  qed
qed

text \<open>What a list of built parts says, part by part.\<close>

lemma all_ok_parts:
  assumes "all_ok (map b xs) = Inr ts"
  shows "set ts = {t. \<exists>x \<in> set xs. b x = Inr t}" "\<forall>x \<in> set xs. \<exists>t. b x = Inr t"
proof -
  have m: "map b xs = map Inr ts" using assms by (simp only: all_ok_Inr)
  then show "\<forall>x \<in> set xs. \<exists>t. b x = Inr t"
    by (metis image_eqI image_set imageE)
  have "b ` set xs = Inr ` set ts" using m by (metis image_set)
  then show "set ts = {t. \<exists>x \<in> set xs. b x = Inr t}" by (force simp: image_def)
qed

definition filter_holds :: "(field_filter \<Rightarrow> 'e + where_term) \<Rightarrow> where_env \<Rightarrow> find_row \<Rightarrow> field_filter \<Rightarrow> bool" where
  "filter_holds b env r f \<longleftrightarrow> (\<exists>t. b f = Inr t \<and> where_value env r t = Some True)"

fun clause_holds :: "(field_filter \<Rightarrow> bool) \<Rightarrow> filter_clause \<Rightarrow> bool" where
  "clause_holds h (SingleFilter f) = h f"
| "clause_holds h (OrFilters gs) = list_ex (list_all h) gs"

lemma build_group_holds:
  assumes "build_group b g = Inr t"
  shows "where_value env r t = Some True \<longleftrightarrow> list_all (filter_holds b env r) g"
proof (cases "\<exists>f. g = [f]")
  case True
  with assms show ?thesis by (auto simp: build_group_def filter_holds_def)
next
  case False
  with assms have "bindE (all_ok (map b g)) (\<lambda>ts. Inr (AndTerm ts)) = Inr t"
    by (auto simp: build_group_def split: list.splits)
  then obtain ts where ts: "all_ok (map b g) = Inr ts" "t = AndTerm ts"
    by (auto simp: result_simps simp del: all_ok.simps)
  show ?thesis
    using all_ok_parts [OF ts(1)] ts(2)
    by (fastforce simp: all3_True list_all_iff filter_holds_def)
qed

lemma build_clause_holds:
  assumes "build_clause b c = Inr t"
  shows "where_value env r t = Some True \<longleftrightarrow> clause_holds (filter_holds b env r) c"
proof (cases c)
  case (SingleFilter f)
  with assms show ?thesis by (simp add: build_clause_def filter_holds_def)
next
  case (OrFilters gs)
  show ?thesis
  proof (cases "\<exists>f. gs = [[f]]")
    case True
    with assms OrFilters show ?thesis by (auto simp: build_clause_def filter_holds_def)
  next
    case False
    with assms OrFilters have "bindE (all_ok (map (build_group b) gs)) (\<lambda>ts. Inr (OrTerm ts)) = Inr t"
      by (auto simp: build_clause_def split: list.splits)
    then obtain ts where ts: "all_ok (map (build_group b) gs) = Inr ts" "t = OrTerm ts"
      by (auto simp: result_simps simp del: all_ok.simps)
    have "where_value env r t = Some True \<longleftrightarrow> (\<exists>u \<in> set ts. where_value env r u = Some True)"
      using ts(2) by (simp add: any3_True image_iff) metis
    also have "\<dots> \<longleftrightarrow> (\<exists>g \<in> set gs. \<exists>u. build_group b g = Inr u \<and> where_value env r u = Some True)"
      using all_ok_parts(1) [OF ts(1)] by auto
    also have "\<dots> \<longleftrightarrow> list_ex (list_all (filter_holds b env r)) gs"
      using all_ok_parts(2) [OF ts(1)] build_group_holds [of b _ _ env r] by (fastforce simp: list_ex_iff)
    finally show ?thesis using OrFilters by simp
  qed
qed

lemma where_clause_holds:
  assumes "build_where_clause lib filters slug fds ctx = Inr w"
  shows "selects env r w \<longleftrightarrow>
    list_all (clause_holds (filter_holds (build_filter_sql lib slug fds ctx) env r)) filters"
proof (cases "filters = []")
  case True
  with assms show ?thesis by (simp add: build_where_clause_def selects_def)
next
  case False
  let ?b = "build_filter_sql lib slug fds ctx"
  from False assms obtain ts where ts: "all_ok (map (build_clause ?b) filters) = Inr ts" "w = Some (AndTerm ts)"
    by (auto simp: build_where_clause_def result_simps simp del: all_ok.simps)
  have "selects env r w \<longleftrightarrow> (\<forall>t \<in> set ts. where_value env r t = Some True)"
    using ts(2) by (auto simp: selects_def all3_True)
  also have "\<dots> \<longleftrightarrow> (\<forall>c \<in> set filters. \<exists>t. build_clause ?b c = Inr t \<and> where_value env r t = Some True)"
    using all_ok_parts [OF ts(1)] by fastforce
  also have "\<dots> \<longleftrightarrow> list_all (clause_holds (filter_holds ?b env r)) filters"
    using all_ok_parts(2) [OF ts(1)] build_clause_holds [of ?b _ _ env r] by (fastforce simp: list_all_iff)
  finally show ?thesis .
qed

end
