(* ===== verification/FilterMemory.thy ===== *)
theory FilterMemory
  imports FilterPath "HOL-Library.Sublist"
begin

text \<open>
  The same filters evaluated without a database (src/src/db/query/filter/memory.rs), the way event
  subscribers are held to their row level constraints, and how far they agree with the WHERE clause.
\<close>

section \<open>Evaluation against the fields of a document\<close>

text \<open>
  serde_json prints floats, arrays and objects, and the regex crate compiles and runs a pattern.
\<close>

record memory_env =
  me_display :: "json_value \<Rightarrow> string"
  me_regex :: "string \<Rightarrow> (string \<Rightarrow> bool) option"

fun value_to_string :: "memory_env \<Rightarrow> json_value \<Rightarrow> string" where
  "value_to_string env (JString s) = s"
| "value_to_string env (JNumber (JInt i)) = show_int i"
| "value_to_string env (JNumber (JFloat q)) = me_display env (JNumber (JFloat q))"
| "value_to_string env (JBool b) = (if b then ''1'' else ''0'')"
| "value_to_string env JNull = []"
| "value_to_string env v = me_display env v"

datatype ordering = OrdLess | OrdEqual | OrdGreater

definition total_cmp :: "'a::linorder \<Rightarrow> 'a \<Rightarrow> ordering" where
  "total_cmp a b = (if a < b then OrdLess else if a = b then OrdEqual else OrdGreater)"

fun f64_partial_cmp :: "f64 \<Rightarrow> f64 \<Rightarrow> ordering option" where
  "f64_partial_cmp NaN b = None"
| "f64_partial_cmp a NaN = None"
| "f64_partial_cmp (Finite p) (Finite q) = Some (total_cmp p q)"
| "f64_partial_cmp (Infinite n) (Finite q) = Some (if n then OrdLess else OrdGreater)"
| "f64_partial_cmp (Finite p) (Infinite n) = Some (if n then OrdGreater else OrdLess)"
| "f64_partial_cmp (Infinite m) (Infinite n) =
     Some (if m = n then OrdEqual else if m then OrdLess else OrdGreater)"

definition compare_values :: "string \<Rightarrow> string \<Rightarrow> ordering option" where
  "compare_values a b =
     (case (parse_f64 a, parse_f64 b) of
        (Some x, Some y) \<Rightarrow> f64_partial_cmp x y
      | _ \<Rightarrow> Some (total_cmp a b))"

definition str_contains :: "string \<Rightarrow> string \<Rightarrow> bool" where
  "str_contains s needle = list_ex (starts_with needle) (suffixes s)"

definition like_regex :: "string \<Rightarrow> string" where
  "like_regex p =
     ''^'' @ concat (map (\<lambda>c. if c = CHR ''%'' then ''.*'' else if c = CHR ''_'' then ''.'' else [c]) p) @ ''$''"

definition matches_like :: "memory_env \<Rightarrow> string \<Rightarrow> string \<Rightarrow> bool" where
  "matches_like env s p = (case me_regex env (like_regex p) of None \<Rightarrow> False | Some matches \<Rightarrow> matches s)"

definition matches_missing_field :: "filter_op \<Rightarrow> bool" where
  "matches_missing_field op \<longleftrightarrow> op = NotExists"

definition matches_filter :: "memory_env \<Rightarrow> document_fields \<Rightarrow> field_filter \<Rightarrow> bool" where
  "matches_filter env data f =
     (case map_of data (ff_field f) of
        None \<Rightarrow> matches_missing_field (ff_op f)
      | Some v \<Rightarrow>
          (let s = value_to_string env v
           in case ff_op f of
                Equals e \<Rightarrow> s = e
              | NotEquals e \<Rightarrow> s \<noteq> e
              | Contains e \<Rightarrow> str_contains s e
              | Like p \<Rightarrow> matches_like env s p
              | GreaterThan e \<Rightarrow> compare_values s e = Some OrdGreater
              | LessThan e \<Rightarrow> compare_values s e = Some OrdLess
              | GreaterThanOrEqual e \<Rightarrow> compare_values s e \<in> {Some OrdGreater, Some OrdEqual}
              | LessThanOrEqual e \<Rightarrow> compare_values s e \<in> {Some OrdLess, Some OrdEqual}
              | In vs \<Rightarrow> s \<in> set vs
              | NotIn vs \<Rightarrow> s \<notin> set vs
              | Exists \<Rightarrow> True
              | NotExists \<Rightarrow> False))"

definition matches_constraints :: "memory_env \<Rightarrow> document_fields \<Rightarrow> filter_clause list \<Rightarrow> bool" where
  "matches_constraints env data constraints \<longleftrightarrow>
     constraints = [] \<or>
     list_all (\<lambda>c. case c of
         SingleFilter f \<Rightarrow> matches_filter env data f
       | OrFilters groups \<Rightarrow> list_ex (list_all (matches_filter env data)) groups) constraints"

lemma matches_constraints_clauses:
  "matches_constraints env data cs = list_all (clause_holds (matches_filter env data)) cs"
proof -
  have "(case c of SingleFilter f \<Rightarrow> matches_filter env data f
       | OrFilters groups \<Rightarrow> list_ex (list_all (matches_filter env data)) groups)
      = clause_holds (matches_filter env data) c" for c
    by (cases c) simp_all
  then show ?thesis by (simp add: matches_constraints_def) fastforce
qed

lemma total_cmp_iff:
  "total_cmp a b = OrdLess \<longleftrightarrow> a < b"
  "total_cmp a b = OrdEqual \<longleftrightarrow> a = b"
  "total_cmp a b = OrdGreater \<longleftrightarrow> b < a"
  by (auto simp: total_cmp_def)

section \<open>Agreement with the WHERE clause\<close>

text \<open>The filters of a clause.\<close>

fun clause_filters :: "filter_clause \<Rightarrow> field_filter list" where
  "clause_filters (SingleFilter f) = [f]"
| "clause_filters (OrFilters gs) = concat gs"

lemma clause_holds_cong:
  "(\<And>f. f \<in> set (clause_filters c) \<Longrightarrow> h f = k f) \<Longrightarrow> clause_holds h c = clause_holds k c"
  by (cases c) (auto simp: list_ex_iff list_all_iff)

text \<open>
  A condition on a plain column that both evaluations read alike: a text compared for equality, or
  for order with an operand that is not a number, or a number compared for order with a number.
\<close>

fun text_safe_op :: "filter_op \<Rightarrow> bool" where
  "text_safe_op (Equals v) = True"
| "text_safe_op (NotEquals v) = True"
| "text_safe_op (In vs) = True"
| "text_safe_op (NotIn vs) = True"
| "text_safe_op (GreaterThan v) = (parse_f64 v = None)"
| "text_safe_op (LessThan v) = (parse_f64 v = None)"
| "text_safe_op (GreaterThanOrEqual v) = (parse_f64 v = None)"
| "text_safe_op (LessThanOrEqual v) = (parse_f64 v = None)"
| "text_safe_op Exists = True"
| "text_safe_op NotExists = True"
| "text_safe_op _ = False"

fun finite_operand :: "string \<Rightarrow> bool" where
  "finite_operand v = (case parse_f64 v of Some (Finite q) \<Rightarrow> True | _ \<Rightarrow> False)"

fun number_safe_op :: "filter_op \<Rightarrow> bool" where
  "number_safe_op (GreaterThan v) = finite_operand v"
| "number_safe_op (LessThan v) = finite_operand v"
| "number_safe_op (GreaterThanOrEqual v) = finite_operand v"
| "number_safe_op (LessThanOrEqual v) = finite_operand v"
| "number_safe_op Exists = True"
| "number_safe_op NotExists = True"
| "number_safe_op _ = False"

definition text_field :: "field_type option \<Rightarrow> bool" where
  "text_field ft \<longleftrightarrow> ft \<notin> {Some Number, Some Checkbox, Some Date}"

definition memory_safe ::
  "memory_env \<Rightarrow> field_definition list \<Rightarrow> find_row \<Rightarrow> field_filter \<Rightarrow> bool" where
  "memory_safe env fds r f \<longleftrightarrow>
     is_valid_identifier (ff_field f) \<and>
     ff_field f \<notin> {''id'', ''created_at'', ''updated_at''} \<and>
     (let ft = lookup_column_field_type (ff_field f) fds
      in case column r (ff_field f) of
           DText s \<Rightarrow> text_field ft \<and> text_safe_op (ff_op f)
         | DReal q \<Rightarrow> ft = Some Number \<and> number_safe_op (ff_op f) \<and>
             parse_f64 (me_display env (JNumber (JFloat q))) = Some (Finite q)
         | _ \<Rightarrow> False)"

lemma split_once_None: "split_once d s = None \<longleftrightarrow> d \<notin> set s"
  by (induction s) auto

lemma identifier_no_dot: "is_valid_identifier s \<Longrightarrow> CHR ''.'' \<notin> set s"
  by (auto simp: is_valid_identifier_def list_all_iff is_ascii_alphanumeric_def is_ascii_digit_def
      is_ascii_lowercase_def is_ascii_uppercase_def)

text \<open>A filter on a plain column is a condition on it.\<close>

lemma build_filter_column:
  assumes "is_valid_identifier (ff_field f)"
  shows "build_filter_sql lib slug fds ctx f =
    Inr (ColumnTerm (ff_field f) (numeric_column (lookup_column_field_type (ff_field f) fds))
      (build_op_condition lib (ff_op f) (lookup_column_field_type (ff_field f) fds)))"
proof -
  have "split_once (CHR ''.'') (ff_field f) = None"
    using identifier_no_dot [OF assms] by (simp add: split_once_None)
  with assms show ?thesis by (simp add: build_filter_sql_def resolve_filter_def)
qed

lemma filter_holds_column:
  assumes "is_valid_identifier (ff_field f)"
  shows "filter_holds (build_filter_sql lib slug fds ctx) wenv r f \<longleftrightarrow>
    op_holds (we_num_text wenv) (numeric_column (lookup_column_field_type (ff_field f) fds))
      (column r (ff_field f))
      (build_op_condition lib (ff_op f) (lookup_column_field_type (ff_field f) fds)) = Some True"
  using build_filter_column [OF assms] by (simp add: filter_holds_def)

text \<open>The document read from a row has its columns.\<close>

lemma document_column:
  assumes "c \<notin> {''id'', ''created_at'', ''updated_at''}"
  shows "map_of (doc_fields (row_to_document base64 None r)) c =
    map_option (db_to_json base64) (map_of (fr_cols r) c)"
proof -
  have "map_of (map (\<lambda>(n, v). (n, db_to_json base64 v))
      (filter (\<lambda>(n, v). n \<notin> {''id'', ''created_at'', ''updated_at''}) cs)) c =
      map_option (db_to_json base64) (map_of cs c)" for cs
    using assms by (induction cs) auto
  then show ?thesis by (simp add: row_to_document_def column_selected_def)
qed

lemma document_column_some:
  assumes "c \<notin> {''id'', ''created_at'', ''updated_at''}" "map_of (fr_cols r) c = Some v"
  shows "map_of (doc_fields (row_to_document base64 None r)) c = Some (db_to_json base64 v)"
  by (simp add: document_column [OF assms(1)] assms(2))

lemma column_present:
  assumes "column r c = v" "v \<noteq> DNull" "c \<noteq> ''id''"
  shows "map_of (fr_cols r) c = Some v"
  using assms by (cases "map_of (fr_cols r) c") (auto simp: column_def)


lemma text_coerce: "text_field ft \<Longrightarrow> coerce_filter_value lib ft op v = DText v"
  by (cases ft) (auto simp: text_field_def coerce_filter_value_def split: field_type.splits)

lemma text_numeric: "text_field ft \<Longrightarrow> \<not> numeric_column ft"
  by (cases ft) (auto simp: text_field_def numeric_column_def column_type_numeric_def)

lemma cmp3_text: "cmp3 c (DText s) (DText v) = Some (cmp_key c (KText s) (KText v))"
  by (simp add: cmp3_def)

lemma KText_le [simp]: "KText s \<le> KText u \<longleftrightarrow> s \<le> u"
  by (simp add: less_eq_sql_key_def less_eq_prod_def)

lemma KNum_cmp [simp]: "KNum p < KNum q \<longleftrightarrow> p < q" "KNum p \<le> KNum q \<longleftrightarrow> p \<le> q"
  by (auto simp: less_eq_sql_key_def less_sql_key_def less_eq_prod_def less_prod_def)

lemma compare_texts: "parse_f64 v = None \<Longrightarrow> compare_values s v = Some (total_cmp s v)"
  by (cases "parse_f64 s") (simp_all add: compare_values_def)

lemma or3_Some: "or3 (Some a) (Some b) = Some (a \<or> b)"
  by (cases a; cases b) simp_all

lemma any3_eqs: "any3 (map (\<lambda>v. Some (k v)) vs) = Some (list_ex k vs)"
  by (induction vs) (simp_all add: any3_def or3_Some)

text \<open>An operator on the text of a value.\<close>

definition text_matches :: "memory_env \<Rightarrow> string \<Rightarrow> filter_op \<Rightarrow> bool" where
  "text_matches env s op =
     matches_filter env [([], JString s)] \<lparr>ff_field = [], ff_op = op\<rparr>"

lemma matches_filter_text:
  assumes "map_of data (ff_field f) = Some v"
  shows "matches_filter env data f = text_matches env (value_to_string env v) (ff_op f)"
  by (simp add: text_matches_def matches_filter_def assms)

lemmas text_matches_simps = text_matches_def matches_filter_def Let_def

lemma text_matches_absence:
  "text_matches env s (NotEquals v) \<longleftrightarrow> s \<noteq> v"
  "text_matches env s (NotIn vs) \<longleftrightarrow> s \<notin> set vs"
  "text_matches env s Exists" "\<not> text_matches env s NotExists"
  by (simp_all add: text_matches_simps)

lemma text_op_agrees:
  assumes "text_field ft" "text_safe_op op"
  shows "op_holds num_text (numeric_column ft) (DText s) (build_op_condition lib op ft) = Some True
    \<longleftrightarrow> text_matches env s op"
proof (cases op)
  case (In vs)
  then show ?thesis
    using text_numeric [OF assms(1)]
    by (auto simp: build_op_condition_def op_holds_def text_coerce [OF assms(1)] apply_affinity_def cmp3_text
        comp_def any3_eqs list_ex_iff text_matches_simps)
next
  case (NotIn vs)
  then show ?thesis
    using text_numeric [OF assms(1)]
    by (auto simp: build_op_condition_def op_holds_def text_coerce [OF assms(1)] apply_affinity_def cmp3_text
        comp_def any3_eqs not3_def list_ex_iff text_matches_simps)
qed (use assms text_numeric [OF assms(1)] in \<open>simp_all add: build_op_condition_def op_holds_def
      text_coerce [OF assms(1)] apply_affinity_def cmp3_text compare_texts total_cmp_iff
      text_matches_simps, auto simp: le_less\<close>)

lemma number_coerce:
  assumes "parse_f64 v = Some (Finite p)" "\<not> is_text_only_op op"
  shows "coerce_filter_value lib (Some Number) op v = DReal p"
  using assms by (simp add: coerce_filter_value_def)

lemma number_op_agrees:
  assumes "number_safe_op op" "parse_f64 s = Some (Finite q)"
  shows "op_holds num_text (numeric_column (Some Number)) (DReal q) (build_op_condition lib op (Some Number)) = Some True
    \<longleftrightarrow> text_matches env s op"
  using assms
  by (cases op)
     (auto simp: build_op_condition_def op_holds_def number_coerce apply_affinity_def cmp3_def compare_values_def
       total_cmp_iff le_less text_matches_simps split: option.splits f64.splits)

lemma safe_filter_agrees:
  assumes "memory_safe env fds r f"
  shows "matches_filter env (doc_fields (row_to_document base64 None r)) f \<longleftrightarrow>
    filter_holds (build_filter_sql lib slug fds ctx) wenv r f"
proof -
  let ?n = "ff_field f" and ?ft = "lookup_column_field_type (ff_field f) fds"
  from assms have n: "is_valid_identifier ?n" "?n \<notin> {''id'', ''created_at'', ''updated_at''}"
    by (simp_all add: memory_safe_def)
  consider (str) s where "column r ?n = DText s" "text_field ?ft" "text_safe_op (ff_op f)"
    | (number) q where "column r ?n = DReal q" "?ft = Some Number" "number_safe_op (ff_op f)"
        "parse_f64 (me_display env (JNumber (JFloat q))) = Some (Finite q)"
    using assms by (auto simp: memory_safe_def Let_def split: db_value.splits)
  then show ?thesis
  proof cases
    case str
    then have "map_of (fr_cols r) ?n = Some (DText s)" using n by (intro column_present) auto
    then show ?thesis
      unfolding filter_holds_column [OF n(1)]
      using str by (simp add: matches_filter_text [OF document_column_some [OF n(2)]] text_op_agrees [where env = env])
  next
    case number
    then have "map_of (fr_cols r) ?n = Some (DReal q)" using n by (intro column_present) auto
    then show ?thesis
      unfolding filter_holds_column [OF n(1)]
      using number
      by (simp add: matches_filter_text [OF document_column_some [OF n(2)]] number_op_agrees [where env = env])
  qed
qed

text \<open>
  C23: Row level constraints mean the same to event subscribers as to a query where they can be
  read alike: for filters on columns that hold a text, compared for equality or set membership or for
  order with an operand that is not a number, or a number compared for order with a number, the
  evaluation in memory of a document accepts it exactly when the WHERE clause selects its row.
\<close>
theorem memory_agrees_with_where:
  assumes "list_all (\<lambda>c. list_all (memory_safe env fds r) (clause_filters c)) cs"
    and "build_where_clause lib cs slug fds ctx = Inr w"
  shows "matches_constraints env (doc_fields (row_to_document base64 None r)) cs \<longleftrightarrow> selects wenv r w"
proof -
  have "clause_holds (matches_filter env (doc_fields (row_to_document base64 None r))) c =
      clause_holds (filter_holds (build_filter_sql lib slug fds ctx) wenv r) c" if "c \<in> set cs" for c
    using that assms(1) by (intro clause_holds_cong) (simp add: list_all_iff safe_filter_agrees)
  then show ?thesis
    unfolding where_clause_holds [OF assms(2)] matches_constraints_clauses by (simp add: list_all_iff)
qed

section \<open>Where they differ\<close>

text \<open>
  An absent value: on a NULL column, which the document carries as a JSON null, the evaluation in
  memory accepts \<open>not_equals\<close> and \<open>not_in\<close> with operands that are not empty, and \<open>exists\<close>, and
  refuses \<open>not_exists\<close>; the WHERE clause does the opposite of each, so that a subscriber is sent events
  of documents that its read access does not let it query.
\<close>
theorem null_columns_leak_to_memory:
  assumes "is_valid_identifier n" "n \<notin> {''id'', ''created_at'', ''updated_at''}"
    and "map_of (fr_cols r) n = Some DNull"
    and "op \<in> {NotEquals v, NotIn vs, Exists}" "v \<noteq> []" "vs \<noteq> []" "[] \<notin> set vs"
    and "build_where_clause lib [SingleFilter \<lparr>ff_field = n, ff_op = op\<rparr>] slug fds ctx = Inr w"
    and "build_where_clause lib [SingleFilter \<lparr>ff_field = n, ff_op = NotExists\<rparr>] slug fds ctx = Inr w'"
  shows "matches_constraints env (doc_fields (row_to_document base64 None r)) [SingleFilter \<lparr>ff_field = n, ff_op = op\<rparr>] \<and>
    \<not> selects wenv r w \<and>
    \<not> matches_constraints env (doc_fields (row_to_document base64 None r)) [SingleFilter \<lparr>ff_field = n, ff_op = NotExists\<rparr>] \<and>
    selects wenv r w'"
proof -
  let ?ft = "lookup_column_field_type n fds"
  have c: "column r n = DNull" using assms(2,3) by (simp add: column_def)
  have m: "matches_filter env (doc_fields (row_to_document base64 None r)) \<lparr>ff_field = n, ff_op = p\<rparr> =
      text_matches env [] p" for p
    by (subst matches_filter_text [where v = JNull]) (simp_all add: document_column_some [OF assms(2,3)])
  have q: "filter_holds (build_filter_sql lib slug fds ctx) wenv r \<lparr>ff_field = n, ff_op = p\<rparr> \<longleftrightarrow>
      op_holds (we_num_text wenv) (numeric_column ?ft) DNull (build_op_condition lib p ?ft) = Some True" for p
    using filter_holds_column [of "\<lparr>ff_field = n, ff_op = p\<rparr>"] assms(1) c by simp
  have null: "any3 (map (\<lambda>p. cmp3 Eq DNull (f p)) ps) \<noteq> Some False" if "ps \<noteq> []" for ps :: "string list" and f
    using that by (cases ps) (auto simp: any3_False cmp3_def)
  have "op_holds (we_num_text wenv) (numeric_column ?ft) DNull (build_op_condition lib (NotIn vs) ?ft) \<noteq> Some True"
    using null [OF assms(6), of "\<lambda>p. apply_affinity (numeric_column ?ft) (coerce_filter_value lib ?ft (NotIn vs) p)"] assms(6)
    by (auto simp: build_op_condition_def op_holds_def not3_def comp_def)
  moreover have "op_holds (we_num_text wenv) (numeric_column ?ft) DNull (build_op_condition lib p ?ft) \<noteq> Some True"
    if "p = NotEquals v \<or> p = Exists" for p
    using that by (auto simp: build_op_condition_def op_holds_def cmp3_def)
  ultimately have "\<not> selects wenv r w"
    unfolding where_clause_holds [OF assms(8)] using assms(4) by (auto simp: q)
  moreover have "selects wenv r w'"
    unfolding where_clause_holds [OF assms(9)] by (simp add: q build_op_condition_def op_holds_def)
  moreover have "matches_constraints env (doc_fields (row_to_document base64 None r)) [SingleFilter \<lparr>ff_field = n, ff_op = op\<rparr>]"
    using assms(4-7) by (auto simp: matches_constraints_clauses m text_matches_absence)
  moreover have "\<not> matches_constraints env (doc_fields (row_to_document base64 None r)) [SingleFilter \<lparr>ff_field = n, ff_op = NotExists\<rparr>]"
    by (simp add: matches_constraints_clauses m text_matches_absence)
  ultimately show ?thesis by blast
qed

text \<open>
  A number column: the operand \<open>5\<close> is the number 5 to SQL, but the text of the JSON number is \<open>5.0\<close>,
  so that \<open>not_equals 5\<close> holds in memory of a row it excludes, and \<open>equals 5\<close> fails.
\<close>

lemma number_equality_differs:
  assumes "me_display env (JNumber (JFloat 5)) = ''5.0''" "ft = Some Number"
  shows "text_matches env (me_display env (JNumber (JFloat 5))) (NotEquals ''5'')"
    and "op_holds num_text (numeric_column ft) (DReal 5) (build_op_condition lib (NotEquals ''5'') ft) = Some False"
proof -
  have "parse_f64 ''5'' = Some (Finite 5)" by code_simp
  then show "op_holds num_text (numeric_column ft) (DReal 5) (build_op_condition lib (NotEquals ''5'') ft) = Some False"
    using assms(2) by (simp add: build_op_condition_def op_holds_def number_coerce apply_affinity_def cmp3_def)
qed (use assms in \<open>simp add: text_matches_simps\<close>)

text \<open>A text that reads as a number is compared as one in memory and as a text in SQL.\<close>

lemma numeric_text_order_differs:
  shows "text_matches env ''10'' (GreaterThan ''9'')"
    and "op_holds num_text False (DText ''10'') (build_op_condition lib (GreaterThan ''9'') None) = Some False"
proof -
  have p: "parse_f64 ''10'' = Some (Finite 10)" "parse_f64 ''9'' = Some (Finite 9)" by code_simp+
  then show "text_matches env ''10'' (GreaterThan ''9'')"
    by (simp add: text_matches_simps compare_values_def total_cmp_def)
  show "op_holds num_text False (DText ''10'') (build_op_condition lib (GreaterThan ''9'') None) = Some False"
    by (simp add: build_op_condition_def op_holds_def coerce_filter_value_def apply_affinity_def cmp3_def)
qed

section \<open>Examples\<close>

definition items_fields :: "field_definition list" where
  "items_fields = [FieldDefinition (new_attrs ''owner'' Text) [] [] [],
     FieldDefinition (new_attrs ''price'' Number) [] [] []]"

definition items_row :: find_row where
  "items_row = \<lparr>fr_id = ''i'', fr_cols = [(''owner'', DText ''u1''), (''price'', DReal 5), (''note'', DNull)]\<rparr>"

definition items_env :: memory_env where
  "items_env = \<lparr>me_display = (\<lambda>v. ''5.0''), me_regex = (\<lambda>p. None)\<rparr>"

definition items_where :: where_env where
  "items_where = \<lparr>we_num_text = (\<lambda>v. []), we_join_rows = (\<lambda>t. []), we_json_values = (\<lambda>js e r. [])\<rparr>"

definition items_filters :: "filter_clause list" where
  "items_filters = [SingleFilter \<lparr>ff_field = ''owner'', ff_op = Equals ''u1''\<rparr>,
     OrFilters [[\<lparr>ff_field = ''price'', ff_op = GreaterThan ''4.5''\<rparr>], [\<lparr>ff_field = ''owner'', ff_op = NotExists\<rparr>]]]"

theorem memory_agrees_with_where_witness:
  "matches_constraints items_env (doc_fields (row_to_document (\<lambda>b. b) None items_row)) items_filters =
   selects items_where items_row
     (case build_where_clause no_dates items_filters ''items'' items_fields None of Inr w \<Rightarrow> w | Inl e \<Rightarrow> None)"
proof -
  have "list_all (\<lambda>c. list_all (memory_safe items_env items_fields items_row) (clause_filters c)) items_filters"
    by code_simp
  moreover have "\<not> isl (build_where_clause no_dates items_filters ''items'' items_fields None)" by code_simp
  then have "build_where_clause no_dates items_filters ''items'' items_fields None =
      Inr (case build_where_clause no_dates items_filters ''items'' items_fields None of Inr w \<Rightarrow> w | Inl e \<Rightarrow> None)"
    by (cases "build_where_clause no_dates items_filters ''items'' items_fields None") auto
  ultimately show ?thesis by (rule memory_agrees_with_where)
qed

theorem null_columns_leak_to_memory_witness:
  "matches_constraints items_env (doc_fields (row_to_document (\<lambda>b. b) None items_row))
     [SingleFilter \<lparr>ff_field = ''note'', ff_op = NotEquals ''x''\<rparr>] \<and>
   \<not> selects items_where items_row
     (Some (AndTerm [ColumnTerm ''note'' False (CompareTo Ne (DText ''x''))]))"
proof -
  have "build_where_clause no_dates [SingleFilter \<lparr>ff_field = ''note'', ff_op = NotEquals ''x''\<rparr>] ''items'' items_fields None
      = Inr (Some (AndTerm [ColumnTerm ''note'' False (CompareTo Ne (DText ''x''))]))"
    "build_where_clause no_dates [SingleFilter \<lparr>ff_field = ''note'', ff_op = NotExists\<rparr>] ''items'' items_fields None
      = Inr (Some (AndTerm [ColumnTerm ''note'' False IsNull]))"
    "is_valid_identifier ''note''" "map_of (fr_cols items_row) ''note'' = Some DNull"
    by code_simp+
  from null_columns_leak_to_memory [OF this(3) _ this(4) _ _ _ _ this(1,2), of "''x''" "[''x'']"]
  show ?thesis by simp
qed

end
