(* ===== verification/EventStream.thy ===== *)
theory EventStream
  imports FilterMemory
begin

text \<open>
  Mutation events from the service that writes a document to the bus (src/src/service/context.rs,
  src/src/service/types/pending_event.rs, src/src/hooks/lifecycle/runner/broadcast.rs,
  src/src/core/event/): the queue of a transaction, the checks before an event is broadcast and the
  sequence number the bus gives it.
\<close>

section \<open>Events\<close>

datatype event_target = Collection | Global

datatype event_operation = Create | Update | Delete

datatype live_setting = Disabled | Function string

datatype live_mode = Metadata | Full

record event_user =
  eu_id :: string
  eu_email :: string

record pending_event =
  pe_target :: event_target
  pe_operation :: event_operation
  pe_collection :: string
  pe_document_id :: string
  pe_data :: document_fields
  pe_edited_by :: "event_user option"
  pe_hooks :: "string list"
  pe_live :: "live_setting option"

record mutation_event =
  ev_sequence :: "64 word"
  ev_timestamp :: string
  ev_target :: event_target
  ev_operation :: event_operation
  ev_collection :: string
  ev_document_id :: string
  ev_data :: document_fields
  ev_edited_by :: "event_user option"

text \<open>The bus: the next sequence number, and the events sent to its subscribers so far.\<close>

record event_bus =
  eb_next :: "64 word"
  eb_sent :: "mutation_event list"

definition new_bus :: event_bus where
  "new_bus = \<lparr>eb_next = 1, eb_sent = []\<rparr>"

definition stamp_event :: "string \<Rightarrow> pending_event \<Rightarrow> 64 word \<Rightarrow> mutation_event" where
  "stamp_event now pe s =
     \<lparr>ev_sequence = s, ev_timestamp = now, ev_target = pe_target pe, ev_operation = pe_operation pe,
      ev_collection = pe_collection pe, ev_document_id = pe_document_id pe, ev_data = pe_data pe,
      ev_edited_by = pe_edited_by pe\<rparr>"

definition publish :: "string \<Rightarrow> pending_event \<Rightarrow> event_bus \<Rightarrow> event_bus" where
  "publish now pe bus =
     \<lparr>eb_next = eb_next bus + 1, eb_sent = eb_sent bus @ [stamp_event now pe (eb_next bus)]\<rparr>"

section \<open>Whether and with what data an event is broadcast\<close>

text \<open>
  The Lua hooks: what a live function returns, and what a hook leaves of the data of its context.
  \<open>bh_vm\<close> tells whether a VM can be acquired.
\<close>

datatype lua_answer = LuaBoolean bool | LuaNil | LuaOther

datatype broadcast_reply = ReplyFalse | ReplyNil | ReplyTable document_fields | ReplyOther

type_synonym broadcast_function = "string \<Rightarrow> event_operation \<Rightarrow> document_fields \<Rightarrow> string + broadcast_reply"

record broadcast_hooks =
  bh_vm :: bool
  bh_live :: "string \<Rightarrow> string \<Rightarrow> event_operation \<Rightarrow> document_fields \<Rightarrow> string + lua_answer"
  bh_function :: "string \<Rightarrow> broadcast_function option"
  bh_registered :: "broadcast_function list"

definition check_live_setting ::
  "broadcast_hooks \<Rightarrow> live_setting option \<Rightarrow> string \<Rightarrow> event_operation \<Rightarrow> document_fields \<Rightarrow> string + bool" where
  "check_live_setting bh live collection op data =
     (case live of
        None \<Rightarrow> Inr True
      | Some Disabled \<Rightarrow> Inr False
      | Some (Function name) \<Rightarrow>
          if \<not> bh_vm bh then Inl ''VM acquisition failed''
          else bindE (bh_live bh name collection op data)
            (\<lambda>a. case a of LuaBoolean b \<Rightarrow> Inr b | LuaNil \<Rightarrow> Inr False | LuaOther \<Rightarrow> Inr True))"

definition apply_broadcast_reply ::
  "document_fields \<Rightarrow> string + broadcast_reply \<Rightarrow> string + document_fields option" where
  "apply_broadcast_reply data reply =
     bindE reply (\<lambda>r. case r of
         ReplyFalse \<Rightarrow> Inr None
       | ReplyNil \<Rightarrow> Inr None
       | ReplyTable d \<Rightarrow> Inr (Some d)
       | ReplyOther \<Rightarrow> Inr (Some data))"

text \<open>The chain of hooks, each on what the one before it left.\<close>

fun call_before_broadcast_hooks ::
  "broadcast_function option list \<Rightarrow> string \<Rightarrow> event_operation \<Rightarrow> document_fields \<Rightarrow> string + document_fields option" where
  "call_before_broadcast_hooks [] collection op data = Inr (Some data)"
| "call_before_broadcast_hooks (None # fs) collection op data = Inl ''hook function not found''"
| "call_before_broadcast_hooks (Some f # fs) collection op data =
     bindE (apply_broadcast_reply data (f collection op data))
       (\<lambda>r. case r of None \<Rightarrow> Inr None | Some d \<Rightarrow> call_before_broadcast_hooks fs collection op d)"

definition run_before_broadcast ::
  "broadcast_hooks \<Rightarrow> string list \<Rightarrow> string \<Rightarrow> event_operation \<Rightarrow> document_fields \<Rightarrow> string + document_fields option" where
  "run_before_broadcast bh hooks collection op data =
     (if hooks = [] \<and> bh_registered bh = [] then Inr (Some data)
      else if \<not> bh_vm bh then Inl ''VM acquisition failed''
      else call_before_broadcast_hooks (map (bh_function bh) hooks @ map Some (bh_registered bh)) collection op data)"

text \<open>An error of a check or of a hook is logged and the event is dropped.\<close>

definition broadcast_input :: "broadcast_hooks \<Rightarrow> pending_event \<Rightarrow> pending_event option" where
  "broadcast_input bh pe =
     (case check_live_setting bh (pe_live pe) (pe_collection pe) (pe_operation pe) (pe_data pe) of
        Inr True \<Rightarrow>
          (case run_before_broadcast bh (pe_hooks pe) (pe_collection pe) (pe_operation pe) (pe_data pe) of
             Inr (Some d) \<Rightarrow> Some (pe\<lparr>pe_data := d\<rparr>)
           | _ \<Rightarrow> None)
      | _ \<Rightarrow> None)"

definition publish_event_blocking :: "broadcast_hooks \<Rightarrow> string \<Rightarrow> pending_event \<Rightarrow> event_bus \<Rightarrow> event_bus" where
  "publish_event_blocking bh now pe bus =
     (case broadcast_input bh pe of None \<Rightarrow> bus | Some input \<Rightarrow> publish now input bus)"

definition publish_event ::
  "bool \<Rightarrow> broadcast_hooks \<Rightarrow> string \<Rightarrow> pending_event \<Rightarrow> event_bus \<Rightarrow> event_bus" where
  "publish_event has_transport bh now pe bus =
     (if has_transport then publish_event_blocking bh now pe bus else bus)"

section \<open>Publishing from a write\<close>

text \<open>What the service context knows of its collection or global; the queue of its transaction.\<close>

record event_def =
  ed_target :: event_target
  ed_hooks :: "string list"
  ed_live :: "live_setting option"
  ed_live_mode :: live_mode

record event_context =
  ec_transport :: bool
  ec_def :: "event_def option"
  ec_slug :: string
  ec_user :: "event_user option"
  ec_runner :: "broadcast_hooks option"
  ec_queue :: "pending_event list option"

definition pending_of ::
  "event_context \<Rightarrow> event_def \<Rightarrow> event_operation \<Rightarrow> string \<Rightarrow> document_fields \<Rightarrow> pending_event" where
  "pending_of ctx d op did data =
     \<lparr>pe_target = ed_target d, pe_operation = op, pe_collection = ec_slug ctx, pe_document_id = did,
      pe_data = (if ed_live_mode d = Full then data else []), pe_edited_by = ec_user ctx,
      pe_hooks = ed_hooks d, pe_live = ed_live d\<rparr>"

definition publish_mutation_event ::
  "string \<Rightarrow> event_operation \<Rightarrow> string \<Rightarrow> document_fields \<Rightarrow> event_context \<Rightarrow> event_bus
    \<Rightarrow> event_context \<times> event_bus" where
  "publish_mutation_event now op did data ctx bus =
     (if \<not> ec_transport ctx then (ctx, bus)
      else (case ec_def ctx of
              None \<Rightarrow> (ctx, bus)
            | Some d \<Rightarrow>
                (let pe = pending_of ctx d op did data
                 in case ec_queue ctx of
                      Some q \<Rightarrow> (ctx\<lparr>ec_queue := Some (q @ [pe])\<rparr>, bus)
                    | None \<Rightarrow>
                        (case ec_runner ctx of
                           None \<Rightarrow> (ctx, bus)
                         | Some bh \<Rightarrow> (ctx, publish_event (ec_transport ctx) bh now pe bus)))))"

text \<open>\<open>flush_queue(ctx, queue)\<close>: the queue stays as it is without a runner.\<close>

definition flush_queue ::
  "string \<Rightarrow> event_context \<Rightarrow> pending_event list \<Rightarrow> event_bus \<Rightarrow> pending_event list \<times> event_bus" where
  "flush_queue now ctx queue bus =
     (case ec_runner ctx of
        None \<Rightarrow> (queue, bus)
      | Some bh \<Rightarrow> ([], fold (publish_event (ec_transport ctx) bh now) queue bus))"

text \<open>The events of a sequence of writes: operation, document and fields.\<close>

type_synonym mutation = "event_operation \<times> string \<times> document_fields"

fun publish_mutations ::
  "string \<Rightarrow> mutation list \<Rightarrow> event_context \<Rightarrow> event_bus \<Rightarrow> event_context \<times> event_bus" where
  "publish_mutations now [] ctx bus = (ctx, bus)"
| "publish_mutations now ((op, did, data) # ms) ctx bus =
     (case publish_mutation_event now op did data ctx bus of (ctx', bus') \<Rightarrow> publish_mutations now ms ctx' bus')"

section \<open>What reaches the bus\<close>

text \<open>The events of a list of inputs, numbered from \<open>n\<close>.\<close>

fun numbered :: "string \<Rightarrow> 64 word \<Rightarrow> pending_event list \<Rightarrow> mutation_event list" where
  "numbered now n [] = []"
| "numbered now n (pe # pes) = stamp_event now pe n # numbered now (n + 1) pes"

lemma numbered_append:
  "numbered now n (xs @ ys) = numbered now n xs @ numbered now (n + of_nat (length xs)) ys"
  by (induction xs arbitrary: n) (simp_all add: algebra_simps)

lemma publish_event_step:
  "publish_event True bh now pe bus =
     (case broadcast_input bh pe of None \<Rightarrow> bus | Some input \<Rightarrow> publish now input bus)"
  by (simp add: publish_event_def publish_event_blocking_def)

lemma fold_publish_event:
  "fold (publish_event True bh now) pes bus =
     \<lparr>eb_next = eb_next bus + of_nat (length (List.map_filter (broadcast_input bh) pes)),
      eb_sent = eb_sent bus @ numbered now (eb_next bus) (List.map_filter (broadcast_input bh) pes)\<rparr>"
proof (induction pes arbitrary: bus)
  case Nil
  then show ?case by (simp add: List.map_filter_simps)
next
  case (Cons pe pes)
  have "fold (publish_event True bh now) (pe # pes) bus =
      fold (publish_event True bh now) pes (publish_event True bh now pe bus)" by simp
  then show ?case
    unfolding Cons.IH publish_event_step
    by (cases "broadcast_input bh pe") (simp_all add: List.map_filter_simps publish_def algebra_simps)
qed

lemma queued_mutations:
  assumes "ec_transport ctx" "ec_def ctx = Some d" "ec_queue ctx = Some q"
  shows "publish_mutations now ms ctx bus =
    (ctx\<lparr>ec_queue := Some (q @ map (\<lambda>(op, i, data). pending_of ctx d op i data) ms)\<rparr>, bus)"
  using assms
proof (induction ms arbitrary: ctx q)
  case (Cons m ms)
  obtain op i data where m: "m = (op, i, data)" by (cases m)
  let ?q = "q @ [pending_of ctx d op i data]"
  have "pending_of (ctx\<lparr>ec_queue := Some ?q\<rparr>) d = pending_of ctx d"
    by (intro ext) (simp add: pending_of_def)
  then show ?case
    using Cons.IH [of "ctx\<lparr>ec_queue := Some ?q\<rparr>" ?q] Cons.prems
    by (simp add: m publish_mutation_event_def Let_def)
qed simp


definition silent_hooks :: broadcast_hooks where
  "silent_hooks = \<lparr>bh_vm = True, bh_live = (\<lambda>n c op d. Inr (LuaBoolean (op \<noteq> Delete))),
     bh_function = (\<lambda>n. None), bh_registered = []\<rparr>"

definition posts_def :: event_def where
  "posts_def = \<lparr>ed_target = Collection, ed_hooks = [], ed_live = Some (Function ''no_deletes''), ed_live_mode = Full\<rparr>"

definition posts_context :: event_context where
  "posts_context = \<lparr>ec_transport = True,
     ec_def = Some posts_def,
     ec_slug = ''posts'', ec_user = None, ec_runner = Some silent_hooks, ec_queue = Some []\<rparr>"

definition posts_mutations :: "mutation list" where
  "posts_mutations = [(Create, ''a'', [(''t'', JNull)]), (Delete, ''b'', []), (Update, ''a'', [])]"


section \<open>Concurrent publishers\<close>

text \<open>
  A publisher takes its number and sends the event in two steps; others run between them.
  \<open>rb_taken\<close> holds the stamped events not sent yet.  A run counts the numbers taken.
\<close>

record racing_bus =
  rb_next :: "64 word"
  rb_taken :: "mutation_event list"
  rb_sent :: "mutation_event list"

inductive bus_run :: "nat \<Rightarrow> racing_bus \<Rightarrow> bool" where
  start: "bus_run 0 \<lparr>rb_next = 1, rb_taken = [], rb_sent = []\<rparr>"
| take_number: "bus_run n s \<Longrightarrow>
    bus_run (Suc n) (s\<lparr>rb_next := rb_next s + 1, rb_taken := rb_taken s @ [stamp_event now pe (rb_next s)]\<rparr>)"
| send: "bus_run n s \<Longrightarrow> rb_taken s = us @ e # vs \<Longrightarrow>
    bus_run n (s\<lparr>rb_taken := us @ vs, rb_sent := rb_sent s @ [e]\<rparr>)"

lemma bus_run_invariant:
  assumes "bus_run n s" "n < 2 ^ 64 - 1"
  shows "rb_next s = of_nat (Suc n) \<and>
    distinct (map ev_sequence (rb_sent s @ rb_taken s)) \<and>
    (\<forall>e \<in> set (rb_sent s @ rb_taken s). 0 < unat (ev_sequence e) \<and> unat (ev_sequence e) \<le> n)"
  using assms
proof (induction rule: bus_run.induct)
  case start
  then show ?case by simp
next
  case (take_number n s now pe)
  then have n: "rb_next s = of_nat (Suc n)" by simp
  have u: "unat (rb_next s) = Suc n"
    unfolding n using take_number.prems by (simp add: unsigned_of_nat take_bit_nat_eq_self del: of_nat_Suc)
  have le: "\<forall>e \<in> set (rb_sent s @ rb_taken s). 0 < unat (ev_sequence e) \<and> unat (ev_sequence e) \<le> n"
    and dist: "distinct (map ev_sequence (rb_sent s @ rb_taken s))"
    using take_number by simp_all
  have fresh: "rb_next s \<notin> ev_sequence ` set (rb_sent s @ rb_taken s)"
  proof
    assume "rb_next s \<in> ev_sequence ` set (rb_sent s @ rb_taken s)"
    then obtain e where "e \<in> set (rb_sent s @ rb_taken s)" "rb_next s = ev_sequence e"
      by (rule imageE)
    with le u show False by fastforce
  qed
  let ?s = "s\<lparr>rb_next := rb_next s + 1, rb_taken := rb_taken s @ [stamp_event now pe (rb_next s)]\<rparr>"
  have all: "rb_sent ?s @ rb_taken ?s = (rb_sent s @ rb_taken s) @ [stamp_event now pe (rb_next s)]" by simp
  have "distinct (map ev_sequence ((rb_sent s @ rb_taken s) @ [stamp_event now pe (rb_next s)]))"
    using dist fresh by (simp add: stamp_event_def image_Un)
  moreover have "0 < unat (ev_sequence e) \<and> unat (ev_sequence e) \<le> Suc n"
    if "e \<in> set ((rb_sent s @ rb_taken s) @ [stamp_event now pe (rb_next s)])" for e
  proof (cases "e = stamp_event now pe (rb_next s)")
    case True
    then show ?thesis using u by (simp add: stamp_event_def)
  next
    case False
    with that have "e \<in> set (rb_sent s @ rb_taken s)" by auto
    with le show ?thesis by fastforce
  qed
  moreover have "rb_next ?s = of_nat (Suc (Suc n))" by (simp add: n)
  ultimately show ?case unfolding all by blast
next
  case (send n s us e vs)
  then show ?case by auto
qed

text \<open>
  Sequence numbers identify events: however publishers interleave, the events sent and about to be
  sent have different numbers, all positive, until the counter has been taken \<open>2 ^ 64 - 1\<close> times.
\<close>
theorem sequence_numbers_unique:
  assumes "bus_run n s" "n < 2 ^ 64 - 1"
  shows "distinct (map ev_sequence (rb_sent s @ rb_taken s)) \<and> (\<forall>e \<in> set (rb_sent s). 0 < ev_sequence e)"
proof -
  have "0 < ev_sequence e" if "0 < unat (ev_sequence e)" for e :: mutation_event
    using that by (simp add: word_less_nat_alt)
  then show ?thesis using bus_run_invariant [OF assms] by auto
qed

theorem sequence_numbers_unique_witness:
  "distinct (map ev_sequence [stamp_event ''t1'' (pending_of posts_context posts_def Create ''a'' []) 1,
     stamp_event ''t2'' (pending_of posts_context posts_def Create ''b'' []) 2])"
proof -
  let ?e = "\<lambda>t i. stamp_event t (pending_of posts_context posts_def Create i [])"
  have "bus_run 1 \<lparr>rb_next = 2, rb_taken = [?e ''t1'' ''a'' 1], rb_sent = []\<rparr>"
    using bus_run.take_number [OF bus_run.start, of "''t1''"] by simp
  from bus_run.take_number [OF this, of "''t2''"]
  have "bus_run 2 \<lparr>rb_next = 3, rb_taken = [?e ''t1'' ''a'' 1, ?e ''t2'' ''b'' 2], rb_sent = []\<rparr>"
    by (simp add: numeral_2_eq_2)
  from sequence_numbers_unique [OF this] show ?thesis by simp
qed

text \<open>
  The order of the stream is not the order of the numbers: with two publishers a subscriber can
  receive number 2 before number 1, whatever events they publish.
\<close>
theorem sequence_order_can_invert:
  "\<exists>s. bus_run 2 s \<and> rb_sent s = [stamp_event now' pe' 2, stamp_event now pe 1]"
proof -
  have "bus_run 1 \<lparr>rb_next = 2, rb_taken = [stamp_event now pe 1], rb_sent = []\<rparr>"
    using bus_run.take_number [OF bus_run.start, of now pe] by simp
  from bus_run.take_number [OF this, of now' pe']
  have "bus_run 2 \<lparr>rb_next = 3, rb_taken = [stamp_event now pe 1, stamp_event now' pe' 2], rb_sent = []\<rparr>"
    by (simp add: numeral_2_eq_2)
  from bus_run.send [OF this, of "[stamp_event now pe 1]" "stamp_event now' pe' 2" "[]"]
  have "bus_run 2 \<lparr>rb_next = 3, rb_taken = [stamp_event now pe 1], rb_sent = [stamp_event now' pe' 2]\<rparr>"
    by simp
  from bus_run.send [OF this, of "[]" "stamp_event now pe 1" "[]"]
  have "bus_run 2 \<lparr>rb_next = 3, rb_taken = [], rb_sent = [stamp_event now' pe' 2, stamp_event now pe 1]\<rparr>"
    by simp
  then show ?thesis by (metis racing_bus.select_convs(3))
qed

end
