(* ===== verification/EventDelivery.thy ===== *)
theory EventDelivery
  imports EventStream
begin

text \<open>
  Live event streams (src/src/admin/handlers/events/sse.rs, src/src/api/handlers/subscribe.rs): what a
  subscriber may see is fixed when it connects, every event is checked against it, and the pump of
  the stream ends it on lag, on a slow client or when its user is invalidated.  Connection slots are
  counted with a compare-and-swap.
\<close>

section \<open>Access of a subscriber\<close>

datatype access_result = Allowed | Denied | Constrained "filter_clause list"

text \<open>
  A collection or global as far as its events go: its fields' read access and its \<open>access.read\<close> hook are
  evaluated by the hook runner.
\<close>

record live_def =
  ld_fields :: "field_definition list"
  ld_after_read :: "string list"
  ld_live_mode :: live_mode
  ld_access_read :: "string option"

record read_hooks =
  rh_check_access :: "string option \<Rightarrow> string + access_result"
  rh_denied_fields :: "field_definition list \<Rightarrow> string list"
  rh_after_read :: "string \<Rightarrow> string list \<Rightarrow> field_definition list \<Rightarrow> string \<Rightarrow> document_fields \<Rightarrow> document_fields"

record live_registry =
  lr_collections :: "(string \<times> live_def) list"
  lr_globals :: "(string \<times> live_def) list"

record sse_access =
  sa_collections :: "string set"
  sa_globals :: "string set"
  sa_denied_fields :: "string \<rightharpoonup> string list"
  sa_constraints :: "string \<rightharpoonup> filter_clause list"
  sa_modes :: "string \<rightharpoonup> live_mode"

definition no_access :: sse_access where
  "no_access = \<lparr>sa_collections = {}, sa_globals = {}, sa_denied_fields = Map.empty,
     sa_constraints = Map.empty, sa_modes = Map.empty\<rparr>"

text \<open>One slug, shared by the loops over collections and over globals but for the set of slugs.\<close>

definition note_slug :: "read_hooks \<Rightarrow> string \<Rightarrow> live_def \<Rightarrow> sse_access \<Rightarrow> sse_access" where
  "note_slug rh slug d a =
     (let denied = rh_denied_fields rh (ld_fields d)
      in a\<lparr>sa_denied_fields := (if denied \<noteq> [] then (sa_denied_fields a)(slug \<mapsto> denied) else sa_denied_fields a),
           sa_modes := (sa_modes a)(slug \<mapsto> ld_live_mode d)\<rparr>)"

definition allow_collection :: "read_hooks \<Rightarrow> string \<times> live_def \<Rightarrow> sse_access \<Rightarrow> sse_access" where
  "allow_collection rh sd a =
     (case sd of (slug, d) \<Rightarrow>
       (case rh_check_access rh (ld_access_read d) of
          Inr Allowed \<Rightarrow> note_slug rh slug d (a\<lparr>sa_collections := insert slug (sa_collections a)\<rparr>)
        | Inr (Constrained fs) \<Rightarrow> note_slug rh slug d
            (a\<lparr>sa_collections := insert slug (sa_collections a), sa_constraints := (sa_constraints a)(slug \<mapsto> fs)\<rparr>)
        | _ \<Rightarrow> a))"

definition allow_global :: "read_hooks \<Rightarrow> string \<times> live_def \<Rightarrow> sse_access \<Rightarrow> sse_access" where
  "allow_global rh sd a =
     (case sd of (slug, d) \<Rightarrow>
       (case rh_check_access rh (ld_access_read d) of
          Inr Allowed \<Rightarrow> note_slug rh slug d (a\<lparr>sa_globals := insert slug (sa_globals a)\<rparr>)
        | Inr (Constrained fs) \<Rightarrow> note_slug rh slug d
            (a\<lparr>sa_globals := insert slug (sa_globals a), sa_constraints := (sa_constraints a)(slug \<mapsto> fs)\<rparr>)
        | _ \<Rightarrow> a))"

text \<open>\<open>conn\<close> tells whether a connection and a transaction could be had.\<close>

definition build_allowed_slugs :: "bool \<Rightarrow> read_hooks \<Rightarrow> live_registry \<Rightarrow> sse_access" where
  "build_allowed_slugs conn rh reg =
     (if \<not> conn then no_access
      else fold (allow_global rh) (lr_globals reg) (fold (allow_collection rh) (lr_collections reg) no_access))"

section \<open>The payload of an event\<close>

record event_payload =
  ep_sequence :: "64 word"
  ep_timestamp :: string
  ep_target :: event_target
  ep_operation :: event_operation
  ep_collection :: string
  ep_document_id :: string
  ep_edited_by :: "event_user option"
  ep_data :: document_fields

definition event_def_of :: "live_registry \<Rightarrow> event_target \<Rightarrow> string \<Rightarrow> live_def option" where
  "event_def_of reg t slug = map_of (case t of Collection \<Rightarrow> lr_collections reg | Global \<Rightarrow> lr_globals reg) slug"

definition read_event_data :: "read_hooks \<Rightarrow> live_registry \<Rightarrow> mutation_event \<Rightarrow> document_fields" where
  "read_event_data rh reg e =
     (let (hooks, fds) = (case event_def_of reg (ev_target e) (ev_collection e) of
             Some d \<Rightarrow> (ld_after_read d, ld_fields d) | None \<Rightarrow> ([], []))
      in rh_after_read rh (ev_collection e) hooks fds (ev_document_id e) (ev_data e))"

definition strip_denied :: "string list option \<Rightarrow> document_fields \<Rightarrow> document_fields" where
  "strip_denied denied data = filter (\<lambda>(k, v). case denied of None \<Rightarrow> True | Some d \<Rightarrow> k \<notin> set d) data"

definition build_event_payload ::
  "memory_env \<Rightarrow> read_hooks \<Rightarrow> live_registry \<Rightarrow> sse_access \<Rightarrow> mutation_event \<Rightarrow> event_payload option" where
  "build_event_payload env rh reg access e =
     (let slug = ev_collection e;
          allowed = (case ev_target e of Collection \<Rightarrow> slug \<in> sa_collections access | Global \<Rightarrow> slug \<in> sa_globals access)
      in if \<not> allowed then None
         else if (case sa_constraints access slug of
                    None \<Rightarrow> False | Some fs \<Rightarrow> \<not> matches_constraints env (ev_data e) fs)
         then None
         else Some \<lparr>ep_sequence = ev_sequence e, ep_timestamp = ev_timestamp e, ep_target = ev_target e,
                ep_operation = ev_operation e, ep_collection = slug, ep_document_id = ev_document_id e,
                ep_edited_by = ev_edited_by e,
                ep_data = (if unwrap_or Metadata (sa_modes access slug) = Full
                           then strip_denied (sa_denied_fields access slug) (read_event_data rh reg e)
                           else [])\<rparr>)"

text \<open>The gRPC stream also keeps to the operations asked for, and does not tell who made the change.\<close>

definition process_event ::
  "memory_env \<Rightarrow> read_hooks \<Rightarrow> live_registry \<Rightarrow> sse_access \<Rightarrow> event_operation set \<Rightarrow> mutation_event
    \<Rightarrow> event_payload option" where
  "process_event env rh reg access requested_ops e =
     (let slug = ev_collection e;
          allowed = (case ev_target e of Collection \<Rightarrow> slug \<in> sa_collections access | Global \<Rightarrow> slug \<in> sa_globals access)
      in if \<not> allowed then None
         else if ev_operation e \<notin> requested_ops then None
         else if (case sa_constraints access slug of
                    None \<Rightarrow> False | Some fs \<Rightarrow> \<not> matches_constraints env (ev_data e) fs)
         then None
         else Some \<lparr>ep_sequence = ev_sequence e, ep_timestamp = ev_timestamp e, ep_target = ev_target e,
                ep_operation = ev_operation e, ep_collection = slug, ep_document_id = ev_document_id e,
                ep_edited_by = None,
                ep_data = (if unwrap_or Metadata (sa_modes access slug) = Full
                           then strip_denied (sa_denied_fields access slug) (read_event_data rh reg e)
                           else [])\<rparr>)"

section \<open>The pump\<close>

datatype recv_error = Lagged nat | Closed

text \<open>
  What the two receivers deliver, in the order the \<open>select!\<close> takes it: an event, with whether the
  client takes it in time, or an invalidation signal.
\<close>

datatype pump_input =
    EventRecv "recv_error + mutation_event" bool
  | InvalidationRecv "recv_error + string"

record pump_ctx =
  px_build :: "mutation_event \<Rightarrow> event_payload option"
  px_user_id :: "string option"

text \<open>What is forwarded, and whether the subscriber is kept.\<close>

definition handle_broadcast_recv ::
  "pump_ctx \<Rightarrow> recv_error + mutation_event \<Rightarrow> bool \<Rightarrow> event_payload option \<times> bool" where
  "handle_broadcast_recv ctx recv sent =
     (case recv of
        Inr e \<Rightarrow> (case px_build ctx e of None \<Rightarrow> (None, True) | Some p \<Rightarrow> if sent then (Some p, True) else (None, False))
      | Inl _ \<Rightarrow> (None, False))"

definition handle_invalidation :: "pump_ctx \<Rightarrow> recv_error + string \<Rightarrow> bool" where
  "handle_invalidation ctx recv =
     (case recv of
        Inr user_id \<Rightarrow> (case px_user_id ctx of None \<Rightarrow> True | Some my_id \<Rightarrow> user_id \<noteq> my_id)
      | Inl _ \<Rightarrow> True)"

text \<open>The loop of the task, with the payloads it forwards.\<close>

fun spawn_pump :: "pump_ctx \<Rightarrow> pump_input list \<Rightarrow> event_payload list" where
  "spawn_pump ctx [] = []"
| "spawn_pump ctx (EventRecv recv sent # inputs) =
     (case handle_broadcast_recv ctx recv sent of (out, keep) \<Rightarrow>
        (case out of None \<Rightarrow> [] | Some p \<Rightarrow> [p]) @ (if keep then spawn_pump ctx inputs else []))"
| "spawn_pump ctx (InvalidationRecv recv # inputs) =
     (if handle_invalidation ctx recv then spawn_pump ctx inputs else [])"

section \<open>What a subscriber is given\<close>

text \<open>An input that does not end the stream, and what it makes the pump forward.\<close>

fun keeps :: "pump_ctx \<Rightarrow> pump_input \<Rightarrow> bool" where
  "keeps ctx (EventRecv recv sent) = snd (handle_broadcast_recv ctx recv sent)"
| "keeps ctx (InvalidationRecv recv) = handle_invalidation ctx recv"

fun forwards :: "pump_ctx \<Rightarrow> pump_input \<Rightarrow> event_payload option" where
  "forwards ctx (EventRecv recv sent) = fst (handle_broadcast_recv ctx recv sent)"
| "forwards ctx (InvalidationRecv recv) = None"

lemma pump_prefix: "spawn_pump ctx inputs = List.map_filter (forwards ctx) (takeWhile (keeps ctx) inputs)"
proof (induction inputs)
  case (Cons i inputs)
  show ?case
  proof (cases i)
    case (EventRecv recv sent)
    then show ?thesis
      using Cons by (cases recv)
        (auto simp: handle_broadcast_recv_def List.map_filter_simps split: option.splits)
  next
    case (InvalidationRecv recv)
    then show ?thesis using Cons by (simp add: List.map_filter_simps)
  qed
qed (simp add: List.map_filter_simps)

lemma forwards_Some:
  "forwards ctx i = Some p \<Longrightarrow> \<exists>e sent. i = EventRecv (Inr e) sent \<and> px_build ctx e = Some p"
  by (cases i) (auto simp: handle_broadcast_recv_def split: sum.splits option.splits if_splits)

lemma map_filter_append:
  "List.map_filter f (xs @ ys) = List.map_filter f xs @ List.map_filter f ys"
  by (simp add: List.map_filter_def)

lemma set_map_filter: "y \<in> set (List.map_filter f xs) \<longleftrightarrow> (\<exists>x \<in> set xs. f x = Some y)"
  by (auto simp: List.map_filter_def) force

lemma payload_authorised:
  assumes "build_event_payload env rh reg access e = Some p"
  shows "ep_collection p = ev_collection e"
    and "(case ep_target p of Collection \<Rightarrow> ep_collection p \<in> sa_collections access
          | Global \<Rightarrow> ep_collection p \<in> sa_globals access)"
    and "sa_constraints access (ep_collection p) = None \<or>
         matches_constraints env (ev_data e) (the (sa_constraints access (ep_collection p)))"
    and "fst ` set (ep_data p) \<inter> set (unwrap_or [] (sa_denied_fields access (ep_collection p))) = {}"
    and "sa_modes access (ep_collection p) = Some Full \<or> ep_data p = []"
  using assms
  by (auto simp: build_event_payload_def Let_def strip_denied_def unwrap_or_def
      split: if_splits option.splits event_target.splits)


text \<open>
  An invalidation of the subscriber's user ends its stream, whatever is still queued behind it; but
  a signal lost to lag is skipped like any other input, so that the stream goes on as if the user had
  not been invalidated.
\<close>
theorem invalidation_ends_stream:
  assumes "px_user_id ctx = Some u"
  shows "spawn_pump ctx (xs @ InvalidationRecv (Inr u) # ys) = spawn_pump ctx xs \<and>
    spawn_pump ctx (xs @ InvalidationRecv (Inl (Lagged n)) # ys) = spawn_pump ctx (xs @ ys)"
proof -
  have tw: "takeWhile P (as @ bs) = (if list_all P as then as @ takeWhile P bs else takeWhile P as)"
    for P and as bs :: "pump_input list"
    by (induction as) auto
  show ?thesis
  proof (cases "list_all (keeps ctx) xs")
    case True
    then have "takeWhile (keeps ctx) xs = xs" by (simp add: list_all_iff)
    with True assms show ?thesis
      by (simp add: pump_prefix tw handle_invalidation_def map_filter_append List.map_filter_simps
          del: takeWhile_eq_all_conv)
  next
    case False
    then show ?thesis by (simp add: pump_prefix tw)
  qed
qed

section \<open>Row level constraints and events without data\<close>

lemma no_data_matches:
  "matches_constraints env [] fs \<longleftrightarrow> list_all (clause_holds (\<lambda>f. ff_op f = NotExists)) fs"
  by (simp add: matches_constraints_clauses matches_filter_def [abs_def] matches_missing_field_def)

text \<open>
  In metadata mode, the default, the constraints of a subscriber are evaluated against no data: no
  event of a collection whose read access is constrained by anything but absence reaches it,
  whoever the document belongs to; this holds of create and update events as of deletions.
\<close>
theorem constrained_subscriber_blind:
  assumes "ec_def ctx = Some d" "ed_live_mode d = Metadata" "ed_hooks d = []"
    and "ec_runner ctx = Some bh" "bh_registered bh = []" "ec_queue ctx = None"
    and "snd (publish_mutation_event now op did data ctx bus) = bus'" "eb_sent bus' = eb_sent bus @ [e]"
    and "sa_constraints access (ec_slug ctx) = Some fs"
    and "\<not> list_all (clause_holds (\<lambda>f. ff_op f = NotExists)) fs"
  shows "build_event_payload env rh reg access e = None"
proof -
  let ?pe = "pending_of ctx d op did data"
  have "bus' = (case broadcast_input bh ?pe of None \<Rightarrow> bus | Some input \<Rightarrow> publish now input bus)"
  proof (cases "ec_transport ctx")
    case True
    with assms(1,4,6,7) show ?thesis
      by (auto simp: publish_mutation_event_def Let_def publish_event_step)
  next
    case False
    with assms(7,8) show ?thesis by (auto simp: publish_mutation_event_def)
  qed
  with assms(8) obtain input where input: "broadcast_input bh ?pe = Some input"
    "e = stamp_event now input (eb_next bus)"
    by (auto simp: publish_def split: option.splits)
  have "pe_data ?pe = []" "pe_hooks ?pe = []" using assms(2,3) by (simp_all add: pending_of_def)
  with input(1) assms(5) have "pe_data input = []" "pe_collection input = ec_slug ctx"
    by (auto simp: broadcast_input_def run_before_broadcast_def pending_of_def split: sum.splits bool.splits if_splits)
  then have "ev_data e = []" "ev_collection e = ec_slug ctx"
    by (simp_all add: input(2) stamp_event_def)
  then show ?thesis
    using assms(9,10) by (simp add: build_event_payload_def Let_def no_data_matches)
qed

section \<open>The access of a subscriber\<close>

definition granted :: "read_hooks \<Rightarrow> live_def \<Rightarrow> bool" where
  "granted rh d \<longleftrightarrow> (case rh_check_access rh (ld_access_read d) of Inr Denied \<Rightarrow> False | Inr _ \<Rightarrow> True | Inl _ \<Rightarrow> False)"

definition constraints_of :: "read_hooks \<Rightarrow> live_def \<Rightarrow> filter_clause list option" where
  "constraints_of rh d = (case rh_check_access rh (ld_access_read d) of Inr (Constrained fs) \<Rightarrow> Some fs | _ \<Rightarrow> None)"

text \<open>The last of a list of definitions to say something of a slug.\<close>

definition last_said :: "('d \<Rightarrow> 'v option) \<Rightarrow> (string \<times> 'd) list \<Rightarrow> (string \<rightharpoonup> 'v) \<Rightarrow> (string \<rightharpoonup> 'v)" where
  "last_said f ds m = foldl (\<lambda>m (s, d). case f d of None \<Rightarrow> m | Some v \<Rightarrow> m(s \<mapsto> v)) m ds"

lemma last_said_absent: "s \<notin> fst ` set ds \<Longrightarrow> last_said f ds m s = m s"
  by (induction ds arbitrary: m) (auto simp: last_said_def split: option.splits)

lemma last_said_distinct:
  assumes "distinct (map fst ds)" "(s, d) \<in> set ds"
  shows "last_said f ds m s = (case f d of None \<Rightarrow> m s | v \<Rightarrow> v)"
  using assms
proof (induction ds arbitrary: m)
  case (Cons x ds)
  obtain s' d' where x: "x = (s', d')" by (cases x)
  let ?m = "case f d' of None \<Rightarrow> m | Some v \<Rightarrow> m(s' \<mapsto> v)"
  have step: "last_said f (x # ds) m = last_said f ds ?m" by (simp add: last_said_def x)
  show ?case
  proof (cases "s' = s")
    case True
    with Cons.prems x have "s \<notin> fst ` set ds" "d = d'" by (auto simp: image_iff)
    with True show ?thesis by (simp add: step last_said_absent split: option.split)
  next
    case False
    with Cons.prems x have "(s, d) \<in> set ds" "distinct (map fst ds)" by auto
    from Cons.IH [OF this(2,1)] False show ?thesis by (simp add: step split: option.split)
  qed
qed simp

lemma last_said_simps [simp]:
  "last_said f [] m = m"
  "last_said f ((s, d) # ds) m = last_said f ds (case f d of None \<Rightarrow> m | Some v \<Rightarrow> m(s \<mapsto> v))"
  by (simp_all add: last_said_def)

lemma note_slug_simps [simp]:
  "sa_collections (note_slug rh s d a) = sa_collections a"
  "sa_globals (note_slug rh s d a) = sa_globals a"
  "sa_constraints (note_slug rh s d a) = sa_constraints a"
  by (simp_all add: note_slug_def Let_def)

lemmas access_step_defs = allow_collection_def allow_global_def granted_def constraints_of_def

lemma allow_collection_step:
  "sa_collections (allow_collection rh (s, d) a) = (if granted rh d then insert s (sa_collections a) else sa_collections a)"
  "sa_globals (allow_collection rh (s, d) a) = sa_globals a"
  "sa_constraints (allow_collection rh (s, d) a) =
     (case constraints_of rh d of None \<Rightarrow> sa_constraints a | Some fs \<Rightarrow> (sa_constraints a)(s \<mapsto> fs))"
  by (simp_all add: access_step_defs split: sum.split access_result.split)

lemma allow_global_step:
  "sa_globals (allow_global rh (s, d) a) = (if granted rh d then insert s (sa_globals a) else sa_globals a)"
  "sa_collections (allow_global rh (s, d) a) = sa_collections a"
  "sa_constraints (allow_global rh (s, d) a) =
     (case constraints_of rh d of None \<Rightarrow> sa_constraints a | Some fs \<Rightarrow> (sa_constraints a)(s \<mapsto> fs))"
  by (simp_all add: access_step_defs split: sum.split access_result.split)

definition granted_slugs :: "read_hooks \<Rightarrow> (string \<times> live_def) list \<Rightarrow> string set" where
  "granted_slugs rh ds = set (map fst (filter (\<lambda>sd. granted rh (snd sd)) ds))"

lemma granted_slugs_simps [simp]:
  "granted_slugs rh [] = {}"
  "granted_slugs rh ((s, d) # ds) = (if granted rh d then insert s (granted_slugs rh ds) else granted_slugs rh ds)"
  by (simp_all add: granted_slugs_def)

lemma allow_collections:
  "sa_collections (fold (allow_collection rh) ds a) = sa_collections a \<union> granted_slugs rh ds"
  "sa_globals (fold (allow_collection rh) ds a) = sa_globals a"
  "sa_constraints (fold (allow_collection rh) ds a) = last_said (constraints_of rh) ds (sa_constraints a)"
  by (induction ds arbitrary: a) (simp_all add: split_paired_all allow_collection_step)

lemma allow_globals:
  "sa_globals (fold (allow_global rh) ds a) = sa_globals a \<union> granted_slugs rh ds"
  "sa_collections (fold (allow_global rh) ds a) = sa_collections a"
  "sa_constraints (fold (allow_global rh) ds a) = last_said (constraints_of rh) ds (sa_constraints a)"
  by (induction ds arbitrary: a) (simp_all add: split_paired_all allow_global_step)

lemma granted_slugs_distinct:
  assumes "distinct (map fst ds)" "(s, d) \<in> set ds"
  shows "s \<in> granted_slugs rh ds \<longleftrightarrow> granted rh d"
proof
  assume "s \<in> granted_slugs rh ds"
  then obtain d' where "(s, d') \<in> set ds" "granted rh d'" by (auto simp: granted_slugs_def)
  with eq_key_imp_eq_value [OF assms(1,2)] show "granted rh d" by blast
next
  assume "granted rh d"
  with assms(2) show "s \<in> granted_slugs rh ds" by (force simp: granted_slugs_def)
qed

text \<open>
  A subscriber's access is what the \<open>access.read\<close> hooks say: a collection is streamed exactly when its
  hook does not deny it, and under the constraints the hook gives, unless a global has the same slug:
  then the constraints of the global, when it has some, replace those of the collection.
\<close>
theorem stream_access_exact:
  assumes "distinct (map fst (lr_collections reg))" "distinct (map fst (lr_globals reg))"
    and "(slug, d) \<in> set (lr_collections reg)"
  shows "(slug \<in> sa_collections (build_allowed_slugs True rh reg) \<longleftrightarrow> granted rh d) \<and>
    sa_constraints (build_allowed_slugs True rh reg) slug =
      (case Option.bind (map_of (lr_globals reg) slug) (constraints_of rh) of
         Some gs \<Rightarrow> Some gs
       | None \<Rightarrow> constraints_of rh d)"
proof -
  let ?a = "fold (allow_collection rh) (lr_collections reg) no_access"
  have c: "sa_constraints ?a slug = constraints_of rh d"
    by (simp add: allow_collections last_said_distinct [OF assms(1,3)] no_access_def split: option.split)
  have "slug \<in> sa_collections (build_allowed_slugs True rh reg) \<longleftrightarrow> granted rh d"
    by (simp add: build_allowed_slugs_def allow_globals allow_collections no_access_def
        granted_slugs_distinct [OF assms(1,3)])
  moreover have "sa_constraints (build_allowed_slugs True rh reg) slug =
      (case Option.bind (map_of (lr_globals reg) slug) (constraints_of rh) of
         Some gs \<Rightarrow> Some gs
       | None \<Rightarrow> constraints_of rh d)"
  proof (cases "map_of (lr_globals reg) slug")
    case None
    then have "slug \<notin> fst ` set (lr_globals reg)" by (simp add: map_of_eq_None_iff)
    with None show ?thesis
      by (simp add: build_allowed_slugs_def allow_globals last_said_absent c)
  next
    case (Some g)
    then show ?thesis
      by (simp add: build_allowed_slugs_def allow_globals last_said_distinct [OF assms(2) map_of_SomeD] c
          split: option.split)
  qed
  ultimately show ?thesis by blast
qed

section \<open>Connection slots\<close>

text \<open>
  A connection attempt loads the counter and then tries to swap it for the next value; other attempts
  and disconnects run in between, and the weak swap may also fail for no reason.  A guard drops the
  slot when the stream ends.
\<close>

datatype slot_phase = Idle | Loaded "64 word" | Holding

record slot_state =
  sl_counter :: "64 word"
  sl_phase :: "nat \<Rightarrow> slot_phase"

definition slots_full :: "64 word \<Rightarrow> 64 word \<Rightarrow> bool" where
  "slots_full mx current \<longleftrightarrow> 0 < mx \<and> mx \<le> current"

definition compare_exchange :: "64 word \<Rightarrow> nat \<Rightarrow> slot_state \<Rightarrow> slot_state" where
  "compare_exchange current i s =
     (if sl_counter s = current
      then s\<lparr>sl_counter := current + 1, sl_phase := (sl_phase s)(i := Holding)\<rparr>
      else s\<lparr>sl_phase := (sl_phase s)(i := Idle)\<rparr>)"

definition drop_guard :: "nat \<Rightarrow> slot_state \<Rightarrow> slot_state" where
  "drop_guard i s = s\<lparr>sl_counter := sl_counter s - 1, sl_phase := (sl_phase s)(i := Idle)\<rparr>"

inductive slots :: "64 word \<Rightarrow> slot_state \<Rightarrow> bool" for mx where
  init: "slots mx \<lparr>sl_counter = 0, sl_phase = (\<lambda>i. Idle)\<rparr>"
| load: "slots mx s \<Longrightarrow> sl_phase s i = Idle \<Longrightarrow>
    slots mx (s\<lparr>sl_phase := (sl_phase s)(i := Loaded (sl_counter s))\<rparr>)"
| refuse: "slots mx s \<Longrightarrow> sl_phase s i = Loaded n \<Longrightarrow> slots_full mx n \<Longrightarrow>
    slots mx (s\<lparr>sl_phase := (sl_phase s)(i := Idle)\<rparr>)"
| swap: "slots mx s \<Longrightarrow> sl_phase s i = Loaded n \<Longrightarrow> \<not> slots_full mx n \<Longrightarrow>
    slots mx (compare_exchange n i s)"
| spurious: "slots mx s \<Longrightarrow> sl_phase s i = Loaded n \<Longrightarrow> slots mx (s\<lparr>sl_phase := (sl_phase s)(i := Idle)\<rparr>)"
| disconnect: "slots mx s \<Longrightarrow> sl_phase s i = Holding \<Longrightarrow> slots mx (drop_guard i s)"

definition holders :: "slot_state \<Rightarrow> nat set" where
  "holders s = {i. sl_phase s i = Holding}"

lemma holders_not_holding:
  assumes "sl_phase s i \<noteq> Holding" "p \<noteq> Holding"
  shows "holders (s\<lparr>sl_phase := (sl_phase s)(i := p)\<rparr>) = holders s"
  using assms by (auto simp: holders_def)

lemma holders_insert:
  "holders (s\<lparr>sl_counter := c, sl_phase := (sl_phase s)(i := Holding)\<rparr>) = insert i (holders s)"
  by (auto simp: holders_def)

lemma holders_remove:
  "holders (s\<lparr>sl_counter := c, sl_phase := (sl_phase s)(i := Idle)\<rparr>) = holders s - {i}"
  by (auto simp: holders_def)

lemma slots_counter:
  assumes "slots mx s"
  shows "finite (holders s) \<and> sl_counter s = of_nat (card (holders s))"
  using assms
proof induction
  case init
  then show ?case by (simp add: holders_def)
next
  case (swap s i n)
  then have "i \<notin> holders s" by (simp add: holders_def)
  with swap.IH swap.hyps(2) show ?case
    by (simp add: compare_exchange_def holders_insert holders_not_holding)
next
  case (disconnect s i)
  then have i: "i \<in> holders s" "finite (holders s)" by (simp_all add: holders_def)
  then have "card (holders s) = Suc (card (holders s - {i}))" by (rule card.remove [rotated])
  with disconnect.IH i(2) show ?case by (simp add: drop_guard_def holders_remove)
qed (simp_all add: holders_not_holding)

text \<open>
  C33: Connection slots: however attempts and disconnects interleave, the counter is the number of open
  streams, and with a limit there are never more open streams than it allows.
\<close>
theorem connection_limit:
  assumes "slots mx s" "0 < mx"
  shows "card (holders s) \<le> unat mx \<and> sl_counter s = of_nat (card (holders s))"
proof -
  have "card (holders s) \<le> unat mx"
    using assms
  proof induction
    case init
    then show ?case by (simp add: holders_def)
  next
    case (swap s i n)
    have inv: "finite (holders s)" "sl_counter s = of_nat (card (holders s))"
      using slots_counter [OF swap.hyps(1)] by simp_all
    have i: "i \<notin> holders s" using swap.hyps(2) by (simp add: holders_def)
    show ?case
    proof (cases "sl_counter s = n")
      case True
      have "card (holders s) < 2 ^ 64"
        using swap.IH swap.prems unsigned_less [of mx, where ?'a = nat] by simp
      then have "unat (of_nat (card (holders s)) :: 64 word) = card (holders s)"
        by (simp add: unsigned_of_nat take_bit_nat_eq_self)
      then have "unat n = card (holders s)" using True inv(2) by simp
      moreover have "n < mx" using swap.hyps(3) swap.prems by (simp add: slots_full_def)
      ultimately have "Suc (card (holders s)) \<le> unat mx" by (simp add: word_less_nat_alt)
      with True i inv(1) show ?thesis by (simp add: compare_exchange_def holders_insert)
    next
      case False
      with swap show ?thesis by (simp add: compare_exchange_def holders_not_holding)
    qed
  next
    case (disconnect s i)
    have "card (holders s - {i}) \<le> card (holders s)"
      using slots_counter [OF disconnect.hyps(1)] by (simp add: card_Diff1_le)
    with disconnect show ?case by (simp add: drop_guard_def holders_remove)
  qed (simp_all add: holders_not_holding)
  with slots_counter [OF assms(1)] show ?thesis by simp
qed

theorem connection_limit_witness:
  "card (holders \<lparr>sl_counter = 1, sl_phase = (\<lambda>i. Idle)(3 := Holding)\<rparr>) \<le> unat (1 :: 64 word)"
proof -
  let ?s0 = "\<lparr>sl_counter = 0, sl_phase = (\<lambda>i::nat. Idle)\<rparr>"
  have "slots 1 (?s0\<lparr>sl_phase := (sl_phase ?s0)(3 := Loaded (sl_counter ?s0))\<rparr>)"
    by (rule slots.load [OF slots.init]) simp
  from slots.swap [OF this, of 3 0]
  have "slots 1 \<lparr>sl_counter = 1, sl_phase = (\<lambda>i. Idle)(3 := Holding)\<rparr>"
    by (simp add: slots_full_def compare_exchange_def)
  from connection_limit [OF this] show ?thesis by simp
qed

section \<open>Examples\<close>

definition owner_filter :: filter_clause where
  "owner_filter = SingleFilter \<lparr>ff_field = ''owner'', ff_op = Equals ''u1''\<rparr>"

definition plain_env :: memory_env where
  "plain_env = \<lparr>me_display = (\<lambda>v. ''5.0''), me_regex = (\<lambda>p. None)\<rparr>"

definition owner_hooks :: read_hooks where
  "owner_hooks = \<lparr>rh_check_access = (\<lambda>h. if h = None then Inr Allowed else Inr (Constrained [owner_filter])),
     rh_denied_fields = (\<lambda>fs. [''secret'']), rh_after_read = (\<lambda>c hs fs i data. data)\<rparr>"

definition posts_live :: live_def where
  "posts_live = \<lparr>ld_fields = [], ld_after_read = [], ld_live_mode = Full, ld_access_read = Some ''owner''\<rparr>"

definition site_live :: live_def where
  "site_live = \<lparr>ld_fields = [], ld_after_read = [], ld_live_mode = Metadata, ld_access_read = None\<rparr>"

definition live_reg :: live_registry where
  "live_reg = \<lparr>lr_collections = [(''posts'', posts_live)], lr_globals = [(''site'', site_live)]\<rparr>"

definition post_event :: mutation_event where
  "post_event = \<lparr>ev_sequence = 7, ev_timestamp = ''t'', ev_target = Collection, ev_operation = Update,
     ev_collection = ''posts'', ev_document_id = ''p'',
     ev_data = [(''owner'', JString ''u1''), (''secret'', JString ''x'')], ev_edited_by = None\<rparr>"

definition posts_pump :: pump_ctx where
  "posts_pump = \<lparr>px_build = build_event_payload plain_env owner_hooks live_reg
       (build_allowed_slugs True owner_hooks live_reg), px_user_id = Some ''u1''\<rparr>"

theorem stream_access_exact_witness:
  "''posts'' \<in> sa_collections (build_allowed_slugs True owner_hooks live_reg) \<and>
   sa_constraints (build_allowed_slugs True owner_hooks live_reg) ''posts'' = Some [owner_filter]"
proof -
  have "distinct (map fst (lr_collections live_reg))" "distinct (map fst (lr_globals live_reg))"
    "(''posts'', posts_live) \<in> set (lr_collections live_reg)"
    by (simp_all add: live_reg_def)
  from stream_access_exact [OF this, of owner_hooks] show ?thesis
    by (simp add: live_reg_def granted_def constraints_of_def owner_hooks_def posts_live_def)
qed

lemma posts_pump_forwards:
  "map ep_data (spawn_pump posts_pump [EventRecv (Inr post_event) True]) = [[(''owner'', JString ''u1'')]]"
  by code_simp


theorem invalidation_ends_stream_witness:
  "spawn_pump posts_pump ([] @ InvalidationRecv (Inr ''u1'') # [EventRecv (Inr post_event) True]) = spawn_pump posts_pump []"
  using invalidation_ends_stream [of posts_pump "''u1''" "[]" "[EventRecv (Inr post_event) True]"]
  by (simp add: posts_pump_def del: spawn_pump.simps)

definition metadata_context :: event_context where
  "metadata_context = posts_context\<lparr>ec_def := Some (posts_def\<lparr>ed_live_mode := Metadata, ed_live := None\<rparr>),
     ec_queue := None\<rparr>"

theorem constrained_subscriber_blind_witness:
  "map (build_event_payload plain_env owner_hooks live_reg (build_allowed_slugs True owner_hooks live_reg))
     (eb_sent (snd (publish_mutation_event ''t'' Update ''p'' [(''owner'', JString ''u1'')] metadata_context new_bus)))
   = [None]"
proof -
  let ?bus = "snd (publish_mutation_event ''t'' Update ''p'' [(''owner'', JString ''u1'')] metadata_context new_bus)"
  obtain e where e: "eb_sent ?bus = eb_sent new_bus @ [e]"
    by (simp add: metadata_context_def posts_context_def publish_mutation_event_def Let_def publish_event_step
        publish_def broadcast_input_def check_live_setting_def run_before_broadcast_def silent_hooks_def
        pending_of_def posts_def_def)
  have "build_event_payload plain_env owner_hooks live_reg (build_allowed_slugs True owner_hooks live_reg) e = None"
  proof (rule constrained_subscriber_blind [OF _ _ _ _ _ _ refl e])
    show "ec_def metadata_context = Some (posts_def\<lparr>ed_live_mode := Metadata, ed_live := None\<rparr>)"
      "ec_queue metadata_context = None" "ec_runner metadata_context = Some silent_hooks"
      by (simp_all add: metadata_context_def posts_context_def)
    show "ed_live_mode (posts_def\<lparr>ed_live_mode := Metadata, ed_live := None\<rparr>) = Metadata"
      "ed_hooks (posts_def\<lparr>ed_live_mode := Metadata, ed_live := None\<rparr>) = []"
      by (simp_all add: posts_def_def)
    show "bh_registered silent_hooks = []" by (simp add: silent_hooks_def)
    show "sa_constraints (build_allowed_slugs True owner_hooks live_reg) (ec_slug metadata_context) = Some [owner_filter]"
      by code_simp
    show "\<not> list_all (clause_holds (\<lambda>f. ff_op f = NotExists)) [owner_filter]"
      by (simp add: owner_filter_def)
  qed
  with e show ?thesis by (simp add: new_bus_def)
qed

end
