(* ===== verification/ValidationChecks.thy ===== *)
theory ValidationChecks
  imports FilterMemory
begin

text \<open>
  The single checks of a field before a write (src/src/hooks/lifecycle/validation/checks/).  A check
  returns the errors it pushes; an error keeps the field it is reported for and its translation key,
  the interpolation parameters repeat values of the field and are left out.
\<close>

section \<open>Errors and context\<close>

datatype error_text = Key string | Message string

record field_error =
  fe_field :: string
  fe_text :: error_text

definition with_key :: "string \<Rightarrow> string \<Rightarrow> field_error" where
  "with_key field key = \<lparr>fe_field = field, fe_text = Key key\<rparr>"

text \<open>
  The libraries the checks use: serde_json, chrono and the Lua function of a custom validator, which
  gets the value, the surrounding data, the collection and the field name.
\<close>

record validation_env =
  ve_parse_json :: "string \<Rightarrow> json_value option"
  ve_display :: "json_value \<Rightarrow> string"
  ve_dates :: date_library
  ve_validate :: "string \<Rightarrow> json_value \<Rightarrow> document_fields \<Rightarrow> string \<Rightarrow> string \<Rightarrow> string + string option"

record richtext_node_def =
  rn_name :: string
  rn_attrs :: "field_definition list"

text \<open>The context of a validation; the table is its rows.\<close>

record validation_ctx =
  vx_table :: string
  vx_rows :: "find_row list"
  vx_exclude_id :: "string option"
  vx_is_draft :: bool
  vx_locale_ctx :: "locale_context option"
  vx_nodes :: "richtext_node_def list option"
  vx_soft_delete :: bool

definition is_empty_value :: "json_value option \<Rightarrow> bool" where
  "is_empty_value v = (case v of None \<Rightarrow> True | Some JNull \<Rightarrow> True | Some (JString s) \<Rightarrow> s = [] | _ \<Rightarrow> False)"

text \<open>\<open>chars().count()\<close> of a UTF-8 string: its bytes that do not continue a character.\<close>

definition chars_count :: "string \<Rightarrow> nat" where
  "chars_count s = length (filter (\<lambda>c. \<not> (128 \<le> char_code c \<and> char_code c < 192)) s)"

text \<open>\<open>serde_json::from_str\<close> into vectors of values and of strings.\<close>

definition parse_values :: "validation_env \<Rightarrow> string \<Rightarrow> json_value list option" where
  "parse_values env s = (case ve_parse_json env s of Some (JArray vs) \<Rightarrow> Some vs | _ \<Rightarrow> None)"

definition parse_strings :: "validation_env \<Rightarrow> string \<Rightarrow> string list option" where
  "parse_strings env s = Option.bind (parse_values env s) (\<lambda>vs. all_some (map as_json_str vs))"

section \<open>Presence and counts\<close>

definition is_value_present :: "validation_env \<Rightarrow> field_attrs \<Rightarrow> json_value option \<Rightarrow> bool \<Rightarrow> bool" where
  "is_value_present env a v is_empty =
     (if \<not> attrs_has_parent_column a
      then (case v of Some (JArray xs) \<Rightarrow> xs \<noteq> [] | Some (JString s) \<Rightarrow> s \<noteq> [] | _ \<Rightarrow> False)
      else if fa_has_many a
      then (case v of
              Some (JString s) \<Rightarrow> (case parse_values env s of None \<Rightarrow> s \<noteq> [] | Some vs \<Rightarrow> vs \<noteq> [])
            | _ \<Rightarrow> False)
      else \<not> is_empty)"

definition check_required ::
  "validation_env \<Rightarrow> field_attrs \<Rightarrow> string \<Rightarrow> json_value option \<Rightarrow> bool \<Rightarrow> bool \<Rightarrow> bool \<Rightarrow> field_error list" where
  "check_required env a key v is_empty is_draft is_update =
     (if \<not> fa_required a \<or> is_draft \<or> fa_type a = Checkbox \<or> is_update \<and> v = None then []
      else if is_value_present env a v is_empty then []
      else [with_key key ''validation.required''])"

definition below :: "nat option \<Rightarrow> nat \<Rightarrow> bool" where
  "below bound n = (case bound of None \<Rightarrow> False | Some m \<Rightarrow> n < m)"

definition above :: "nat option \<Rightarrow> nat \<Rightarrow> bool" where
  "above bound n = (case bound of None \<Rightarrow> False | Some m \<Rightarrow> m < n)"

definition bound_errors :: "string \<Rightarrow> bool \<Rightarrow> string \<Rightarrow> bool \<Rightarrow> string \<Rightarrow> field_error list" where
  "bound_errors key low low_key high high_key =
     (if low then [with_key key low_key] else []) @ (if high then [with_key key high_key] else [])"

definition check_row_bounds :: "field_attrs \<Rightarrow> string \<Rightarrow> json_value option \<Rightarrow> bool \<Rightarrow> field_error list" where
  "check_row_bounds a key v is_draft =
     (if is_draft \<or> fa_min_rows a = None \<and> fa_max_rows a = None then []
      else (let n = (case v of Some (JArray xs) \<Rightarrow> length xs | _ \<Rightarrow> 0)
            in bound_errors key (below (fa_min_rows a) n) ''validation.min_rows''
                 (above (fa_max_rows a) n) ''validation.max_rows''))"

section \<open>Polymorphic targets\<close>

definition check_one :: "field_attrs \<Rightarrow> string \<Rightarrow> json_value \<Rightarrow> field_error list" where
  "check_one a key v =
     (case fa_relationship a of
        None \<Rightarrow> []
      | Some rc \<Rightarrow>
          (case (case v of
                   JString s \<Rightarrow> if s = [] then None else map_option fst (split_once (CHR ''/'') s)
                 | JObject ms \<Rightarrow> Option.bind (map_of ms ''collection'') as_json_str
                 | _ \<Rightarrow> None) of
             None \<Rightarrow> []
           | Some collection \<Rightarrow>
               if collection \<in> set (rc_polymorphic rc) then []
               else [with_key key ''validation.polymorphic_collection_not_allowed'']))"

definition check_polymorphic_allowlist :: "field_attrs \<Rightarrow> string \<Rightarrow> json_value option \<Rightarrow> field_error list" where
  "check_polymorphic_allowlist a key v =
     (if fa_type a \<notin> {Relationship, Upload} then []
      else (case (fa_relationship a, v) of
              (Some rc, Some w) \<Rightarrow>
                if \<not> is_polymorphic rc then []
                else if rc_has_many rc
                then (case w of
                        JArray xs \<Rightarrow> concat (map (check_one a key) xs)
                      | JString s \<Rightarrow>
                          if s = [] then []
                          else concat (map (\<lambda>p. check_one a key (JString (trim p))) (split_on (CHR '','') s))
                      | _ \<Rightarrow> [])
                else check_one a key w
            | _ \<Rightarrow> []))"

section \<open>Uniqueness\<close>

text \<open>The rows with the same value in a column; the value is bound as a text.\<close>

definition count_where_field_eq ::
  "bool \<Rightarrow> find_row list \<Rightarrow> string \<Rightarrow> string \<Rightarrow> string option \<Rightarrow> bool \<Rightarrow> string + nat" where
  "count_where_field_eq numeric rows col v exclude_id soft_delete =
     (if \<not> is_valid_identifier col then Inl ''Invalid field name''
      else Inr (count_where (\<lambda>r. cmp3 Eq (column r col) (apply_affinity numeric (DText v)) = Some True \<and>
             (case exclude_id of None \<Rightarrow> True | Some i \<Rightarrow> fr_id r \<noteq> i) \<and>
             (soft_delete \<longrightarrow> column r ''_deleted_at'' = DNull)) rows))"

definition check_unique ::
  "validation_env \<Rightarrow> validation_ctx \<Rightarrow> field_attrs \<Rightarrow> string \<Rightarrow> string \<Rightarrow> json_value option \<Rightarrow> bool \<Rightarrow> field_error list" where
  "check_unique env ctx a key col v is_empty =
     (if \<not> fa_unique a \<or> is_empty \<or> \<not> attrs_has_parent_column a then []
      else (let s = (case v of Some (JString s) \<Rightarrow> s | Some w \<Rightarrow> ve_display env w | None \<Rightarrow> [])
            in case count_where_field_eq (column_type_numeric (fa_type a)) (vx_rows ctx) col s
                      (vx_exclude_id ctx) (vx_soft_delete ctx) of
                 Inr n \<Rightarrow> if 0 < n then [with_key key ''validation.unique''] else []
               | Inl e \<Rightarrow> [with_key key ''validation.unique_check_failed'']))"

section \<open>Lengths and numbers\<close>

definition check_length_bounds :: "field_attrs \<Rightarrow> string \<Rightarrow> json_value option \<Rightarrow> bool \<Rightarrow> field_error list" where
  "check_length_bounds a key v is_empty =
     (if is_empty \<or> fa_has_many a \<or> fa_min_length a = None \<and> fa_max_length a = None then []
      else (case v of
              Some (JString s) \<Rightarrow>
                bound_errors key (below (fa_min_length a) (chars_count s)) ''validation.min_length''
                  (above (fa_max_length a) (chars_count s)) ''validation.max_length''
            | _ \<Rightarrow> []))"

fun as_f64 :: "json_number \<Rightarrow> f64" where
  "as_f64 (JInt i) = Finite (of_int i)"
| "as_f64 (JFloat q) = Finite q"

text \<open>Comparison of a parsed number with a bound of the field; a NaN compares false.\<close>

fun f64_less :: "f64 \<Rightarrow> rat \<Rightarrow> bool" where
  "f64_less (Finite p) q = (p < q)"
| "f64_less (Infinite neg) q = neg"
| "f64_less NaN q = False"

fun f64_greater :: "f64 \<Rightarrow> rat \<Rightarrow> bool" where
  "f64_greater (Finite p) q = (q < p)"
| "f64_greater (Infinite neg) q = (\<not> neg)"
| "f64_greater NaN q = False"

definition less_bound :: "f64 \<Rightarrow> rat option \<Rightarrow> bool" where
  "less_bound x b = (case b of None \<Rightarrow> False | Some q \<Rightarrow> f64_less x q)"

definition greater_bound :: "f64 \<Rightarrow> rat option \<Rightarrow> bool" where
  "greater_bound x b = (case b of None \<Rightarrow> False | Some q \<Rightarrow> f64_greater x q)"

definition check_numeric_bounds :: "field_attrs \<Rightarrow> string \<Rightarrow> json_value option \<Rightarrow> bool \<Rightarrow> field_error list" where
  "check_numeric_bounds a key v is_empty =
     (if is_empty \<or> fa_has_many a \<or> fa_min a = None \<and> fa_max a = None then []
      else (case (case v of Some (JNumber n) \<Rightarrow> Some (as_f64 n) | Some (JString s) \<Rightarrow> parse_f64 s | _ \<Rightarrow> None) of
              None \<Rightarrow> []
            | Some x \<Rightarrow>
                (case x of
                   Finite q \<Rightarrow> bound_errors key (less_bound x (fa_min a)) ''validation.min_value''
                                 (greater_bound x (fa_max a)) ''validation.max_value''
                 | _ \<Rightarrow> [with_key key ''validation.finite_number''])))"

section \<open>Formats\<close>

text \<open>The white space is ASCII's.\<close>

definition is_valid_email_format :: "string \<Rightarrow> bool" where
  "is_valid_email_format v =
     (case split_once (CHR ''@'') v of
        None \<Rightarrow> False
      | Some (local, domain) \<Rightarrow>
          local \<noteq> [] \<and> domain \<noteq> [] \<and> CHR ''.'' \<in> set domain \<and>
          \<not> list_ex is_whitespace local \<and> \<not> list_ex is_whitespace domain \<and>
          hd local \<noteq> CHR ''.'' \<and> last local \<noteq> CHR ''.'' \<and> \<not> str_contains local ''..'' \<and>
          hd domain \<noteq> CHR ''.'' \<and> last domain \<noteq> CHR ''.'' \<and> \<not> str_contains domain ''..'')"

definition check_email_format :: "field_attrs \<Rightarrow> string \<Rightarrow> json_value option \<Rightarrow> bool \<Rightarrow> field_error list" where
  "check_email_format a key v is_empty =
     (if fa_type a \<noteq> Email \<or> is_empty then []
      else (case v of
              Some (JString s) \<Rightarrow> if is_valid_email_format s then [] else [with_key key ''validation.email'']
            | _ \<Rightarrow> []))"

definition all_digits :: "string \<Rightarrow> bool" where
  "all_digits s = list_all is_ascii_digit s"

definition is_valid_date_format :: "date_library \<Rightarrow> string \<Rightarrow> bool" where
  "is_valid_date_format lib v =
     (let has_t = CHR ''T'' \<in> set v; dashed = split_on (CHR ''-'') v
      in if length v \<le> 8 \<and> CHR '':'' \<in> set v \<and> \<not> has_t then list_all all_digits (split_on (CHR '':'') v)
         else if length v = 7 \<and> v ! 4 = CHR ''-'' \<and> \<not> has_t \<and> length dashed = 2
         then length (dashed ! 0) = 4 \<and> all_digits (dashed ! 0) \<and> length (dashed ! 1) = 2 \<and> all_digits (dashed ! 1)
         else if dl_rfc3339 lib v \<noteq> None then True
         else if length v = 10 then dl_date_noon lib v \<noteq> None
         else if length v = 16 \<and> has_t then dl_minutes lib v \<noteq> None
         else if length v = 19 \<and> has_t then dl_seconds lib v \<noteq> None
         else False)"

definition date_part :: "string \<Rightarrow> string" where
  "date_part s = (if 10 \<le> length s \<and> is_char_boundary s 10 then take 10 s else s)"

definition check_date_field ::
  "validation_env \<Rightarrow> field_attrs \<Rightarrow> string \<Rightarrow> json_value option \<Rightarrow> bool \<Rightarrow> field_error list" where
  "check_date_field env a key v is_empty =
     (if fa_type a \<noteq> Date \<or> is_empty then []
      else (case v of
              Some (JString s) \<Rightarrow>
                (if is_valid_date_format (ve_dates env) s then [] else [with_key key ''validation.invalid_date'']) @
                bound_errors key
                  (case fa_min_date a of None \<Rightarrow> False | Some d \<Rightarrow> date_part s < d) ''validation.date_min''
                  (case fa_max_date a of None \<Rightarrow> False | Some d \<Rightarrow> d < date_part s) ''validation.date_max''
            | _ \<Rightarrow> []))"

section \<open>Options and elements\<close>

definition is_option :: "field_attrs \<Rightarrow> string \<Rightarrow> bool" where
  "is_option a s = list_ex (\<lambda>opt. so_value opt = s) (fa_options a)"

definition check_has_many_options :: "validation_env \<Rightarrow> field_attrs \<Rightarrow> string \<Rightarrow> string \<Rightarrow> field_error list" where
  "check_has_many_options env a key s =
     (case parse_strings env s of
        None \<Rightarrow> [with_key key ''validation.invalid_multi_select_json'']
      | Some vs \<Rightarrow> concat (map (\<lambda>v. if is_option a v then [] else [with_key key ''validation.invalid_option_value'']) vs))"

definition check_option_valid ::
  "validation_env \<Rightarrow> field_attrs \<Rightarrow> string \<Rightarrow> json_value option \<Rightarrow> bool \<Rightarrow> field_error list" where
  "check_option_valid env a key v is_empty =
     (if fa_type a \<notin> {Select, Radio} \<or> is_empty \<or> fa_options a = [] then []
      else (case v of
              Some (JString s) \<Rightarrow>
                if fa_has_many a then check_has_many_options env a key s
                else if is_option a s then [] else [with_key key ''validation.invalid_option'']
            | _ \<Rightarrow> []))"

definition check_text_value_length :: "field_attrs \<Rightarrow> string \<Rightarrow> string \<Rightarrow> field_error list" where
  "check_text_value_length a key v =
     bound_errors key (below (fa_min_length a) (chars_count v)) ''validation.has_many_min_length''
       (above (fa_max_length a) (chars_count v)) ''validation.has_many_max_length''"

definition check_number_value_bounds :: "field_attrs \<Rightarrow> string \<Rightarrow> string \<Rightarrow> field_error list" where
  "check_number_value_bounds a key v =
     (case parse_f64 v of
        None \<Rightarrow> []
      | Some x \<Rightarrow> bound_errors key (less_bound x (fa_min a)) ''validation.has_many_min_value''
                   (greater_bound x (fa_max a)) ''validation.has_many_max_value'')"

definition check_count_bounds :: "field_attrs \<Rightarrow> string \<Rightarrow> nat \<Rightarrow> field_error list" where
  "check_count_bounds a key n =
     bound_errors key (below (fa_min_rows a) n) ''validation.has_many_min_rows''
       (above (fa_max_rows a) n) ''validation.has_many_max_rows''"

definition check_has_many_elements ::
  "validation_env \<Rightarrow> field_attrs \<Rightarrow> string \<Rightarrow> json_value option \<Rightarrow> bool \<Rightarrow> field_error list" where
  "check_has_many_elements env a key v is_empty =
     (if \<not> fa_has_many a \<or> is_empty then []
      else if fa_type a \<in> {Select, Radio}
      then (case v of
              Some (JString s) \<Rightarrow>
                (case parse_values env s of None \<Rightarrow> [] | Some vs \<Rightarrow> check_count_bounds a key (length vs))
            | _ \<Rightarrow> [])
      else if fa_type a \<notin> {Text, Number} then []
      else (case v of
              Some (JString s) \<Rightarrow>
                (case parse_strings env s of
                   None \<Rightarrow> []
                 | Some vs \<Rightarrow>
                     check_count_bounds a key (length vs) @
                     concat (map (\<lambda>e. if fa_type a = Text then check_text_value_length a key e
                                      else check_number_value_bounds a key e) vs))
            | _ \<Rightarrow> []))"

definition check_custom_validate ::
  "validation_env \<Rightarrow> field_attrs \<Rightarrow> string \<Rightarrow> json_value option \<Rightarrow> document_fields \<Rightarrow> string \<Rightarrow> field_error list" where
  "check_custom_validate env a key v data table =
     (case (fa_validate a, v) of
        (Some ref, Some w) \<Rightarrow>
          (case ve_validate env ref w data table (fa_name a) of
             Inr (Some msg) \<Rightarrow> [\<lparr>fe_field = key, fe_text = Message msg\<rparr>]
           | Inr None \<Rightarrow> []
           | Inl e \<Rightarrow> [with_key key ''validation.custom_error''])
      | _ \<Rightarrow> [])"

end
