(* ===== verification/RichtextNodes.thy ===== *)
theory RichtextNodes
  imports ValidationChecks
begin

text \<open>
  Custom nodes of rich text: finding them in ProseMirror JSON and in HTML, and the checks of their
  attributes (src/src/hooks/lifecycle/validation/richtext_attrs/).
\<close>

section \<open>Substrings\<close>

text \<open>\<open>str::find\<close> and \<open>str::split_once\<close> of a string pattern.\<close>

fun find_str :: "string \<Rightarrow> string \<Rightarrow> nat option" where
  "find_str pat s =
     (if starts_with pat s then Some 0
      else (case s of [] \<Rightarrow> None | c # cs \<Rightarrow> map_option Suc (find_str pat cs)))"

declare find_str.simps [simp del]

definition split_once_str :: "string \<Rightarrow> string \<Rightarrow> (string \<times> string) option" where
  "split_once_str pat s = map_option (\<lambda>i. (take i s, drop (i + length pat) s)) (find_str pat s)"

lemma find_str_Some:
  "find_str pat s = Some i \<Longrightarrow> i + length pat \<le> length s \<and> take (length pat) (drop i s) = pat"
proof (induction s arbitrary: i)
  case Nil
  then show ?case by (subst (asm) find_str.simps) (auto simp: starts_with_def split: if_splits)
next
  case (Cons c cs)
  show ?case
  proof (cases "starts_with pat (c # cs)")
    case True
    then have "take (length pat) (c # cs) = pat" by (simp add: starts_with_def)
    then have "length pat \<le> length (c # cs)" by (metis length_take min.cobounded1)
    with Cons.prems True show ?thesis
      by (subst (asm) find_str.simps) (simp add: starts_with_def)
  next
    case False
    with Cons.prems obtain j where "find_str pat cs = Some j" "i = Suc j"
      by (subst (asm) find_str.simps) auto
    with Cons.IH show ?thesis by simp
  qed
qed

section \<open>Node instances\<close>

record node_instance =
  ni_type :: string
  ni_index :: nat
  ni_attrs :: document_fields

text \<open>The counters by node type and the instances found so far.\<close>

type_synonym node_acc = "(string \<Rightarrow> nat) \<times> node_instance list"

definition add_instance :: "string \<Rightarrow> document_fields \<Rightarrow> node_acc \<Rightarrow> node_acc" where
  "add_instance t attrs acc =
     (case acc of (counters, out) \<Rightarrow>
        (counters(t := counters t + 1), out @ [\<lparr>ni_type = t, ni_index = counters t, ni_attrs = attrs\<rparr>]))"

lemma json_member_size: "map_of ms k = Some v \<Longrightarrow> size v < size (JObject ms)"
  by (induction ms) (auto split: if_splits)

lemma json_element_size: "c \<in> set cs \<Longrightarrow> size c < size (JArray cs)"
  by (induction cs) auto

function (sequential) collect_nodes_recursive :: "string set \<Rightarrow> json_value \<Rightarrow> node_acc \<Rightarrow> node_acc" where
  "collect_nodes_recursive known (JObject ms) acc =
     (case map_of ms ''type'' of
        Some (JString t) \<Rightarrow>
          (let acc' = (if t \<in> known
                       then add_instance t (case map_of ms ''attrs'' of Some (JObject as) \<Rightarrow> as | _ \<Rightarrow> []) acc
                       else acc)
           in case map_of ms ''content'' of
                Some (JArray cs) \<Rightarrow> fold (collect_nodes_recursive known) cs acc'
              | _ \<Rightarrow> acc')
      | _ \<Rightarrow> acc)"
| "collect_nodes_recursive known v acc = acc"
  by pat_completeness auto
termination
  by (relation "measure (\<lambda>(known, v, acc). size v)")
     (auto dest!: json_member_size json_element_size simp del: json_value.size)

definition no_counts :: node_acc where
  "no_counts = ((\<lambda>t. 0), [])"

definition extract_nodes_from_json :: "validation_env \<Rightarrow> string set \<Rightarrow> string \<Rightarrow> node_instance list" where
  "extract_nodes_from_json env known s =
     (case ve_parse_json env s of None \<Rightarrow> [] | Some v \<Rightarrow> snd (collect_nodes_recursive known v no_counts))"

definition extract_attr_value :: "string \<Rightarrow> string \<Rightarrow> string option" where
  "extract_attr_value tag name =
     first_some_of (\<lambda>q. Option.bind (split_once_str (name @ ''='' @ [q]) tag)
         (\<lambda>(before_it, after_it). map_option fst (split_once q after_it)))
       [CHR 0x22, CHR 0x27]"

text \<open>Where the tag that starts here ends: behind the nearer of a self-closing and a closing tag.\<close>

definition tag_end :: "string \<Rightarrow> nat option" where
  "tag_end s =
     (case (find_str ''/>'' s, find_str ''</crap-node>'' s) of
        (Some sc, Some et) \<Rightarrow> Some (if sc < et then sc + 2 else et + 12)
      | (Some sc, None) \<Rightarrow> Some (sc + 2)
      | (None, Some et) \<Rightarrow> Some (et + 12)
      | (None, None) \<Rightarrow> None)"

lemma tag_end_pos: "tag_end s = Some n \<Longrightarrow> 0 < n"
  by (auto simp: tag_end_def split: option.splits)

definition tag_node :: "validation_env \<Rightarrow> string set \<Rightarrow> string \<Rightarrow> node_acc \<Rightarrow> node_acc" where
  "tag_node env known tag acc =
     (case extract_attr_value tag ''data-type'' of
        None \<Rightarrow> acc
      | Some t \<Rightarrow>
          if t \<in> known
          then add_instance t
                 (case Option.bind (extract_attr_value tag ''data-attrs'') (ve_parse_json env) of
                    Some (JObject as) \<Rightarrow> as | _ \<Rightarrow> []) acc
          else acc)"

function html_nodes :: "validation_env \<Rightarrow> string set \<Rightarrow> string \<Rightarrow> node_acc \<Rightarrow> node_acc" where
  "html_nodes env known s acc =
     (case find_str ''<crap-node '' s of
        None \<Rightarrow> acc
      | Some i \<Rightarrow>
          (case tag_end (drop i s) of
             None \<Rightarrow> acc
           | Some n \<Rightarrow> html_nodes env known (drop n (drop i s)) (tag_node env known (take n (drop i s)) acc)))"
  by pat_completeness auto
termination
proof (relation "measure (\<lambda>(env, known, s, acc). length s)", goal_cases)
  case (2 env known s acc i n)
  then show ?case using find_str_Some [of "''<crap-node ''" s i] tag_end_pos by fastforce
qed simp

declare html_nodes.simps [simp del]

definition extract_nodes_from_html :: "validation_env \<Rightarrow> string set \<Rightarrow> string \<Rightarrow> node_instance list" where
  "extract_nodes_from_html env known s = snd (html_nodes env known s no_counts)"

section \<open>Their attributes\<close>

definition node_data_key :: "string \<Rightarrow> node_instance \<Rightarrow> string \<Rightarrow> string" where
  "node_data_key field inst attr =
     field @ ''['' @ ni_type inst @ ''#'' @ show_nat (ni_index inst) @ ''].'' @ attr"

text \<open>An error of a custom validator of an attribute is only logged.\<close>

definition check_attr ::
  "validation_env \<Rightarrow> string \<Rightarrow> bool \<Rightarrow> node_instance \<Rightarrow> string \<Rightarrow> field_attrs \<Rightarrow> field_error list" where
  "check_attr env collection is_draft inst field a =
     (let key = node_data_key field inst (fa_name a);
          v = map_of (ni_attrs inst) (fa_name a);
          is_empty = is_empty_value v
      in if fa_required a \<and> is_empty \<and> \<not> is_draft then [with_key key ''validation.required'']
         else if is_empty then []
         else check_length_bounds a key v is_empty @ check_numeric_bounds a key v is_empty @
              check_email_format a key v is_empty @ check_option_valid env a key v is_empty @
              check_date_field env a key v is_empty @
              (case (fa_validate a, v) of
                 (Some ref, Some w) \<Rightarrow>
                   (case ve_validate env ref w (ni_attrs inst) collection (fa_name a) of
                      Inr (Some msg) \<Rightarrow> [\<lparr>fe_field = key, fe_text = Message msg\<rparr>]
                    | _ \<Rightarrow> [])
               | _ \<Rightarrow> []))"

definition validate_node_instance ::
  "validation_env \<Rightarrow> string \<Rightarrow> bool \<Rightarrow> node_instance \<Rightarrow> field_definition list \<Rightarrow> string \<Rightarrow> field_error list" where
  "validate_node_instance env collection is_draft inst defs field =
     concat (map (\<lambda>d. check_attr env collection is_draft inst field (fd_attrs d)) defs)"

text \<open>The nodes of a field that are registered with attributes.\<close>

definition known_nodes :: "richtext_node_def list \<Rightarrow> string list \<Rightarrow> (string \<times> field_definition list) list" where
  "known_nodes nodes names =
     List.map_filter (\<lambda>name. case find (\<lambda>n. rn_name n = name) nodes of
         Some n \<Rightarrow> if rn_attrs n \<noteq> [] then Some (rn_name n, rn_attrs n) else None
       | None \<Rightarrow> None) names"

definition validate_richtext_node_attrs ::
  "validation_env \<Rightarrow> richtext_node_def list \<Rightarrow> string \<Rightarrow> bool \<Rightarrow> string \<Rightarrow> string \<Rightarrow> field_attrs \<Rightarrow> field_error list" where
  "validate_richtext_node_attrs env nodes collection is_draft content field a =
     (let known = known_nodes nodes (fa_nodes a)
      in if known = [] then []
         else (let insts = (if unwrap_or ''html'' (fa_richtext_format a) = ''json''
                            then extract_nodes_from_json env (set (map fst known)) content
                            else extract_nodes_from_html env (set (map fst known)) content)
               in concat (map (\<lambda>inst. case map_of known (ni_type inst) of
                      None \<Rightarrow> []
                    | Some defs \<Rightarrow> validate_node_instance env collection is_draft inst defs field) insts)))"

end
