(* ===== verification/Validation.thy ===== *)
theory Validation
  imports RichtextNodes
begin

text \<open>
  The validation of a document (src/src/hooks/lifecycle/validation/): the walk through groups and
  layout containers, the checks of a field, the rows of arrays and blocks, and what an accepted
  document is known to satisfy.
\<close>

section \<open>Rows of arrays and blocks\<close>

text \<open>A row: its members, the name it is reported under and its index.\<close>

record row_ctx =
  rx_row :: document_fields
  rx_parent :: string
  rx_idx :: nat

definition qualified_name :: "row_ctx \<Rightarrow> string \<Rightarrow> string" where
  "qualified_name rx key = rx_parent rx @ ''['' @ show_nat (rx_idx rx) @ ''][''  @ key @ '']''"

definition richtext_errors ::
  "validation_env \<Rightarrow> validation_ctx \<Rightarrow> field_attrs \<Rightarrow> string \<Rightarrow> json_value option \<Rightarrow> bool \<Rightarrow> field_error list" where
  "richtext_errors env ctx a key v is_empty =
     (if fa_type a \<noteq> Richtext \<or> is_empty \<or> fa_nodes a = [] then []
      else (case (vx_nodes ctx, v) of
              (Some nodes, Some (JString content)) \<Rightarrow>
                validate_richtext_node_attrs env nodes (vx_table ctx) (vx_is_draft ctx) content key a
            | _ \<Rightarrow> []))"

definition validate_leaf_sub_field ::
  "validation_env \<Rightarrow> validation_ctx \<Rightarrow> row_ctx \<Rightarrow> field_attrs \<Rightarrow> string \<Rightarrow> json_value option \<Rightarrow> field_error list" where
  "validate_leaf_sub_field env ctx rx a qualified v =
     (let is_empty = is_empty_value v
      in (if fa_required a \<and> is_empty \<and> \<not> vx_is_draft ctx \<and> fa_type a \<noteq> Checkbox
          then [with_key qualified ''validation.required''] else []) @
         (if fa_type a = Date \<and> \<not> is_empty
          then (case v of
                  Some (JString s) \<Rightarrow> if is_valid_date_format (ve_dates env) s then []
                                     else [with_key qualified ''validation.invalid_date'']
                | _ \<Rightarrow> [])
          else []) @
         check_custom_validate env a qualified v (rx_row rx) (vx_table ctx) @
         check_length_bounds a qualified v is_empty @
         check_numeric_bounds a qualified v is_empty @
         check_email_format a qualified v is_empty @
         check_option_valid env a qualified v is_empty @
         check_has_many_elements env a qualified v is_empty @
         richtext_errors env ctx a qualified v is_empty)"

definition row_objects :: "json_value list \<Rightarrow> (nat \<times> document_fields) list" where
  "row_objects rows = List.map_filter (\<lambda>(i, row). case row of JObject ms \<Rightarrow> Some (i, ms) | _ \<Rightarrow> None) (List.enumerate 0 rows)"

definition block_type_of :: "document_fields \<Rightarrow> string" where
  "block_type_of ms = unwrap_or [] (Option.bind (map_of ms ''_block_type'') as_json_str)"

fun validate_children ::
  "validation_env \<Rightarrow> validation_ctx \<Rightarrow> row_ctx \<Rightarrow> field_definition list \<Rightarrow> string \<Rightarrow> field_error list"
  and validate_tab_children ::
  "validation_env \<Rightarrow> validation_ctx \<Rightarrow> row_ctx \<Rightarrow> field_tab list \<Rightarrow> string \<Rightarrow> field_error list"
  and validate_block_children ::
  "validation_env \<Rightarrow> validation_ctx \<Rightarrow> row_ctx \<Rightarrow> block_definition list \<Rightarrow> field_error list"
where
  "validate_children env ctx rx [] group_prefix = []"
| "validate_children env ctx rx (FieldDefinition a sub tabs blocks # fs) group_prefix =
     (let key = group_prefix @ fa_name a;
          qualified = qualified_name rx key;
          v = map_of (rx_row rx) key
      in case fa_type a of
           Group \<Rightarrow>
             (case v of
                Some (JObject ms) \<Rightarrow>
                  validate_children env ctx \<lparr>rx_row = ms, rx_parent = qualified, rx_idx = 0\<rparr> sub []
              | _ \<Rightarrow> [])
         | Row \<Rightarrow> validate_children env ctx rx sub group_prefix
         | Collapsible \<Rightarrow> validate_children env ctx rx sub group_prefix
         | Tabs \<Rightarrow> validate_tab_children env ctx rx tabs group_prefix
         | Array \<Rightarrow>
             validate_leaf_sub_field env ctx rx a qualified v @
             (case v of
                Some (JArray rows) \<Rightarrow>
                  concat (map (\<lambda>(i, ms). validate_children env ctx \<lparr>rx_row = ms, rx_parent = qualified, rx_idx = i\<rparr> sub [])
                    (row_objects rows))
              | _ \<Rightarrow> [])
         | Blocks \<Rightarrow>
             validate_leaf_sub_field env ctx rx a qualified v @
             (case v of
                Some (JArray rows) \<Rightarrow>
                  concat (map (\<lambda>(i, ms). validate_block_children env ctx \<lparr>rx_row = ms, rx_parent = qualified, rx_idx = i\<rparr> blocks)
                    (row_objects rows))
              | _ \<Rightarrow> [])
         | _ \<Rightarrow> validate_leaf_sub_field env ctx rx a qualified v) @
     validate_children env ctx rx fs group_prefix"
| "validate_tab_children env ctx rx [] group_prefix = []"
| "validate_tab_children env ctx rx (FieldTab l sub # ts) group_prefix =
     validate_children env ctx rx sub group_prefix @ validate_tab_children env ctx rx ts group_prefix"
| "validate_block_children env ctx rx [] = []"
| "validate_block_children env ctx rx (BlockDefinition t sub # bs) =
     (if t = block_type_of (rx_row rx) then validate_children env ctx rx sub []
      else validate_block_children env ctx rx bs)"

section \<open>The fields of the document\<close>

text \<open>\<open>resolve_row_sub_fields\<close>: an error for a row whose block type is unknown.\<close>

definition resolve_row_sub_fields ::
  "field_definition \<Rightarrow> document_fields \<Rightarrow> string \<Rightarrow> nat \<Rightarrow> field_error + field_definition list" where
  "resolve_row_sub_fields f ms key i =
     (if fa_type (fd_attrs f) \<noteq> Blocks then Inr (fd_fields f)
      else (case find (\<lambda>b. block_type b = block_type_of ms) (fd_blocks f) of
              Some b \<Rightarrow> Inr (block_fields b)
            | None \<Rightarrow> Inl (with_key (key @ ''['' @ show_nat i @ '']'') ''validation.unknown_block_type'')))"

definition validate_row ::
  "validation_env \<Rightarrow> validation_ctx \<Rightarrow> field_definition \<Rightarrow> string \<Rightarrow> nat \<times> json_value \<Rightarrow> field_error list" where
  "validate_row env ctx f key ir =
     (case ir of (i, row) \<Rightarrow>
       (case row of
          JObject ms \<Rightarrow>
            (case resolve_row_sub_fields f ms key i of
               Inl e \<Rightarrow> [e]
             | Inr sub \<Rightarrow> validate_children env ctx \<lparr>rx_row = ms, rx_parent = key, rx_idx = i\<rparr> sub [])
        | _ \<Rightarrow> [with_key (key @ ''['' @ show_nat i @ '']'') ''validation.invalid_row_type'']))"

definition validate_array_or_blocks_rows ::
  "validation_env \<Rightarrow> validation_ctx \<Rightarrow> field_definition \<Rightarrow> string \<Rightarrow> json_value option \<Rightarrow> field_error list" where
  "validate_array_or_blocks_rows env ctx f key v =
     (if fa_type (fd_attrs f) \<notin> {Array, Blocks} \<or> fd_fields f = [] \<and> fd_blocks f = [] then []
      else (case v of
              Some (JArray rows) \<Rightarrow> concat (map (validate_row env ctx f key) (List.enumerate 0 rows))
            | _ \<Rightarrow> []))"

definition resolve_unique_check_column ::
  "validation_ctx \<Rightarrow> field_attrs \<Rightarrow> string \<Rightarrow> bool \<Rightarrow> field_error + string" where
  "resolve_unique_check_column ctx a key inherited_localized =
     (case (if inherited_localized \<or> fa_localized a then vx_locale_ctx ctx else None) of
        None \<Rightarrow> Inr key
      | Some lctx \<Rightarrow>
          (case sanitize_locale (get_locale lctx) of
             Some l \<Rightarrow> Inr (key @ ''__'' @ l)
           | None \<Rightarrow> Inl (with_key key ''validation.invalid_locale'')))"

definition scalar ::
  "validation_env \<Rightarrow> validation_ctx \<Rightarrow> document_fields \<Rightarrow> field_definition \<Rightarrow> string \<Rightarrow> bool \<Rightarrow> field_error list" where
  "scalar env ctx data f pre inherited_localized =
     (let a = fd_attrs f;
          key = prefixed_name pre (fa_name a);
          v = map_of data key;
          is_empty = is_empty_value v;
          is_update = vx_exclude_id ctx \<noteq> None
      in check_required env a key v is_empty (vx_is_draft ctx) is_update @
         check_row_bounds a key v (vx_is_draft ctx) @
         check_polymorphic_allowlist a key v @
         validate_array_or_blocks_rows env ctx f key v @
         (case resolve_unique_check_column ctx a key inherited_localized of
            Inl e \<Rightarrow> [e]
          | Inr col \<Rightarrow> check_unique env ctx a key col v is_empty) @
         check_length_bounds a key v is_empty @
         check_numeric_bounds a key v is_empty @
         check_email_format a key v is_empty @
         check_option_valid env a key v is_empty @
         check_has_many_elements env a key v is_empty @
         check_date_field env a key v is_empty @
         check_custom_validate env a key v data (vx_table ctx) @
         richtext_errors env ctx a key v is_empty)"

fun walk_fields ::
  "validation_env \<Rightarrow> validation_ctx \<Rightarrow> document_fields \<Rightarrow> field_definition list \<Rightarrow> string \<Rightarrow> bool \<Rightarrow> field_error list"
  and walk_tabs ::
  "validation_env \<Rightarrow> validation_ctx \<Rightarrow> document_fields \<Rightarrow> field_tab list \<Rightarrow> string \<Rightarrow> bool \<Rightarrow> field_error list"
where
  "walk_fields env ctx data [] pre inherited = []"
| "walk_fields env ctx data (FieldDefinition a sub tabs blocks # fs) pre inherited =
     (case fa_type a of
        Group \<Rightarrow> walk_fields env ctx data sub (prefixed_name pre (fa_name a)) (inherited \<or> fa_localized a)
      | Row \<Rightarrow> walk_fields env ctx data sub pre inherited
      | Collapsible \<Rightarrow> walk_fields env ctx data sub pre inherited
      | Tabs \<Rightarrow> walk_tabs env ctx data tabs pre inherited
      | Join \<Rightarrow> []
      | _ \<Rightarrow> scalar env ctx data (FieldDefinition a sub tabs blocks) pre inherited) @
     walk_fields env ctx data fs pre inherited"
| "walk_tabs env ctx data [] pre inherited = []"
| "walk_tabs env ctx data (FieldTab l sub # ts) pre inherited =
     walk_fields env ctx data sub pre inherited @ walk_tabs env ctx data ts pre inherited"

definition validate_fields_inner ::
  "validation_env \<Rightarrow> validation_ctx \<Rightarrow> field_definition list \<Rightarrow> document_fields \<Rightarrow> field_error list + unit" where
  "validate_fields_inner env ctx fds data =
     (let errors = walk_fields env ctx data fds [] False in if errors = [] then Inr () else Inl errors)"

section \<open>The walk checks every data field\<close>

text \<open>The fields with data, the prefix of their keys and whether a group above them is localized.\<close>

type_synonym leaf = "field_definition \<times> string \<times> bool"

fun data_leaves :: "field_definition list \<Rightarrow> string \<Rightarrow> bool \<Rightarrow> leaf list"
  and tab_leaves :: "field_tab list \<Rightarrow> string \<Rightarrow> bool \<Rightarrow> leaf list"
where
  "data_leaves [] pre inherited = []"
| "data_leaves (FieldDefinition a sub tabs blocks # fs) pre inherited =
     (case fa_type a of
        Group \<Rightarrow> data_leaves sub (prefixed_name pre (fa_name a)) (inherited \<or> fa_localized a)
      | Row \<Rightarrow> data_leaves sub pre inherited
      | Collapsible \<Rightarrow> data_leaves sub pre inherited
      | Tabs \<Rightarrow> tab_leaves tabs pre inherited
      | Join \<Rightarrow> []
      | _ \<Rightarrow> [(FieldDefinition a sub tabs blocks, pre, inherited)]) @
     data_leaves fs pre inherited"
| "tab_leaves [] pre inherited = []"
| "tab_leaves (FieldTab l sub # ts) pre inherited =
     data_leaves sub pre inherited @ tab_leaves ts pre inherited"

definition leaf_errors :: "validation_env \<Rightarrow> validation_ctx \<Rightarrow> document_fields \<Rightarrow> leaf \<Rightarrow> field_error list" where
  "leaf_errors env ctx data lf = (case lf of (f, pre, inherited) \<Rightarrow> scalar env ctx data f pre inherited)"

lemma walk_leaves:
  "walk_fields env ctx data fds pre inherited =
     concat (map (leaf_errors env ctx data) (data_leaves fds pre inherited))"
  "walk_tabs env ctx data ts pre inherited =
     concat (map (leaf_errors env ctx data) (tab_leaves ts pre inherited))"
  by (induction fds pre inherited and ts pre inherited rule: data_leaves_tab_leaves.induct)
     (simp_all add: leaf_errors_def split: field_type.split)

lemma validate_ok_iff:
  "validate_fields_inner env ctx fds data = Inr () \<longleftrightarrow>
     (\<forall>lf \<in> set (data_leaves fds [] False). leaf_errors env ctx data lf = [])"
  by (simp add: validate_fields_inner_def Let_def walk_leaves)

end
