(* ===== verification/ValidationProperties.thy ===== *)
theory ValidationProperties
  imports Validation
begin

text \<open>
  What validation guarantees of an accepted document, how drafts relate to published documents, and
  where the checks refuse what they should accept or accept what they should refuse.
\<close>

section \<open>Checks that report nothing\<close>

named_theorems check_nil

lemma bound_errors_nil [check_nil]: "bound_errors key low lk high hk = [] \<longleftrightarrow> \<not> low \<and> \<not> high"
  by (simp add: bound_errors_def)

lemma below_iff [check_nil]: "\<not> below b n \<longleftrightarrow> pred_option (\<lambda>m. m \<le> n) b"
  by (cases b) (auto simp: below_def)

lemma above_iff [check_nil]: "\<not> above b n \<longleftrightarrow> pred_option (\<lambda>m. n \<le> m) b"
  by (cases b) (auto simp: above_def)

lemma less_bound_iff [check_nil]: "\<not> less_bound (Finite q) b \<longleftrightarrow> pred_option (\<lambda>m. m \<le> q) b"
  by (cases b) (auto simp: less_bound_def)

lemma greater_bound_iff [check_nil]: "\<not> greater_bound (Finite q) b \<longleftrightarrow> pred_option (\<lambda>m. q \<le> m) b"
  by (cases b) (auto simp: greater_bound_def)

section \<open>The values of an accepted document\<close>

definition number_conforms :: "field_attrs \<Rightarrow> f64 \<Rightarrow> bool" where
  "number_conforms a x \<longleftrightarrow>
     (case x of
        Finite q \<Rightarrow> pred_option (\<lambda>m. m \<le> q) (fa_min a) \<and> pred_option (\<lambda>m. q \<le> m) (fa_max a)
      | _ \<Rightarrow> False)"

definition string_conforms :: "validation_env \<Rightarrow> field_attrs \<Rightarrow> string \<Rightarrow> bool" where
  "string_conforms env a s \<longleftrightarrow>
     (\<not> fa_has_many a \<longrightarrow>
        pred_option (\<lambda>m. m \<le> chars_count s) (fa_min_length a) \<and> pred_option (\<lambda>m. chars_count s \<le> m) (fa_max_length a)) \<and>
     (\<not> fa_has_many a \<and> (fa_min a \<noteq> None \<or> fa_max a \<noteq> None) \<longrightarrow> pred_option (number_conforms a) (parse_f64 s)) \<and>
     (fa_type a = Email \<longrightarrow> is_valid_email_format s) \<and>
     (fa_type a \<in> {Select, Radio} \<and> fa_options a \<noteq> [] \<longrightarrow>
        (if fa_has_many a
         then (case parse_strings env s of None \<Rightarrow> False | Some vs \<Rightarrow> list_all (is_option a) vs)
         else is_option a s)) \<and>
     (fa_type a = Date \<longrightarrow>
        is_valid_date_format (ve_dates env) s \<and>
        pred_option (\<lambda>d. d \<le> date_part s) (fa_min_date a) \<and> pred_option (\<lambda>d. date_part s \<le> d) (fa_max_date a))"

definition value_conforms :: "validation_env \<Rightarrow> field_attrs \<Rightarrow> json_value option \<Rightarrow> bool" where
  "value_conforms env a v \<longleftrightarrow>
     (case v of
        Some (JString s) \<Rightarrow> s = [] \<or> string_conforms env a s
      | Some (JNumber n) \<Rightarrow> fa_has_many a \<or> number_conforms a (as_f64 n)
      | _ \<Rightarrow> True)"

definition row_count :: "json_value option \<Rightarrow> nat" where
  "row_count v = (case v of Some (JArray xs) \<Rightarrow> length xs | _ \<Rightarrow> 0)"

definition is_json_object :: "json_value \<Rightarrow> bool" where
  "is_json_object v = (case v of JObject ms \<Rightarrow> True | _ \<Rightarrow> False)"

lemma concat_map_nil: "concat (map f xs) = [] \<longleftrightarrow> (\<forall>x \<in> set xs. f x = [])"
  by auto

lemma string_checks_nil:
  assumes "check_length_bounds a key (Some (JString s)) False = []"
    "check_numeric_bounds a key (Some (JString s)) False = []"
    "check_email_format a key (Some (JString s)) False = []"
    "check_option_valid env a key (Some (JString s)) False = []"
    "check_date_field env a key (Some (JString s)) False = []"
  shows "string_conforms env a s"
  unfolding string_conforms_def
proof (intro conjI impI)
  assume "\<not> fa_has_many a"
  with assms(1) show "pred_option (\<lambda>m. m \<le> chars_count s) (fa_min_length a)"
    "pred_option (\<lambda>m. chars_count s \<le> m) (fa_max_length a)"
    by (auto simp: check_length_bounds_def check_nil split: if_splits)
next
  assume "\<not> fa_has_many a \<and> (fa_min a \<noteq> None \<or> fa_max a \<noteq> None)"
  with assms(2) show "pred_option (number_conforms a) (parse_f64 s)"
    by (auto simp: check_numeric_bounds_def check_nil number_conforms_def pred_option_def
        split: option.splits f64.splits)
next
  assume "fa_type a = Email"
  with assms(3) show "is_valid_email_format s" by (simp add: check_email_format_def split: if_splits)
next
  assume "fa_type a \<in> {Select, Radio} \<and> fa_options a \<noteq> []"
  with assms(4) show "if fa_has_many a
      then case parse_strings env s of None \<Rightarrow> False | Some vs \<Rightarrow> list_all (is_option a) vs else is_option a s"
    by (auto simp: check_option_valid_def check_has_many_options_def list_all_iff split: if_splits option.splits)
next
  assume "fa_type a = Date"
  with assms(5) show "is_valid_date_format (ve_dates env) s"
    "pred_option (\<lambda>d. d \<le> date_part s) (fa_min_date a)" "pred_option (\<lambda>d. date_part s \<le> d) (fa_max_date a)"
    by (auto simp: check_date_field_def bound_errors_nil not_less pred_option_def split: if_splits option.splits)
qed

lemma value_checks_nil:
  assumes "check_length_bounds a key v (is_empty_value v) = []"
    "check_numeric_bounds a key v (is_empty_value v) = []"
    "check_email_format a key v (is_empty_value v) = []"
    "check_option_valid env a key v (is_empty_value v) = []"
    "check_date_field env a key v (is_empty_value v) = []"
  shows "value_conforms env a v"
proof (cases "\<exists>s. v = Some (JString s) \<and> s \<noteq> []")
  case True
  then obtain s where v: "v = Some (JString s)" "s \<noteq> []" by blast
  then have "is_empty_value v = False" by (simp add: is_empty_value_def)
  with assms v string_checks_nil [of a key s env] show ?thesis by (simp add: value_conforms_def)
next
  case False
  show ?thesis
  proof (cases "\<exists>n. v = Some (JNumber n)")
    case True
    then obtain n where v: "v = Some (JNumber n)" by blast
    with assms(2) show ?thesis
      by (cases n) (auto simp: value_conforms_def check_numeric_bounds_def is_empty_value_def check_nil
          number_conforms_def split: if_splits)
  next
    case False
    with \<open>\<not> (\<exists>s. v = Some (JString s) \<and> s \<noteq> [])\<close> show ?thesis
      by (auto simp: value_conforms_def split: option.splits json_value.splits)
  qed
qed


section \<open>Drafts\<close>

text \<open>A draft is excused from missing values and from row bounds, and from nothing else.\<close>

definition as_draft :: "validation_ctx \<Rightarrow> validation_ctx" where
  "as_draft ctx = ctx\<lparr>vx_is_draft := True\<rparr>"

definition excused :: "field_error \<Rightarrow> bool" where
  "excused e \<longleftrightarrow> fe_text e \<in> Key ` {''validation.required'', ''validation.min_rows'', ''validation.max_rows''}"

definition kept :: "field_error list \<Rightarrow> field_error list" where
  "kept es = filter (\<lambda>e. \<not> excused e) es"

lemma as_draft_simps [simp]:
  "vx_table (as_draft ctx) = vx_table ctx" "vx_rows (as_draft ctx) = vx_rows ctx"
  "vx_exclude_id (as_draft ctx) = vx_exclude_id ctx" "vx_is_draft (as_draft ctx)"
  "vx_locale_ctx (as_draft ctx) = vx_locale_ctx ctx" "vx_nodes (as_draft ctx) = vx_nodes ctx"
  "vx_soft_delete (as_draft ctx) = vx_soft_delete ctx"
  by (simp_all add: as_draft_def)

lemma kept_simps [simp]:
  "kept [] = []" "kept (xs @ ys) = kept xs @ kept ys" "kept (if b then xs else ys) = (if b then kept xs else kept ys)"
  by (simp_all add: kept_def)

lemma kept_concat: "kept (concat (map f xs)) = concat (map (\<lambda>x. kept (f x)) xs)"
  by (induction xs) simp_all

lemma kept_with_key [simp]:
  "kept [with_key key t] =
     (if t \<in> {''validation.required'', ''validation.min_rows'', ''validation.max_rows''} then [] else [with_key key t])"
  by (auto simp: kept_def excused_def with_key_def)

lemma kept_message [simp]: "kept [\<lparr>fe_field = key, fe_text = Message m\<rparr>] = [\<lparr>fe_field = key, fe_text = Message m\<rparr>]"
  by (simp add: kept_def excused_def image_iff)

lemma kept_bounds [simp]:
  "kept (bound_errors key low lk high hk) =
     bound_errors key (low \<and> lk \<notin> {''validation.required'', ''validation.min_rows'', ''validation.max_rows''}) lk
       (high \<and> hk \<notin> {''validation.required'', ''validation.min_rows'', ''validation.max_rows''}) hk"
  by (simp add: bound_errors_def)

lemma kept_option [simp]: "kept (case v of None \<Rightarrow> xs | Some w \<Rightarrow> f w) = (case v of None \<Rightarrow> kept xs | Some w \<Rightarrow> kept (f w))"
  by (simp split: option.split)

lemma kept_json [simp]:
  "kept (case v of JNull \<Rightarrow> a | JBool b \<Rightarrow> fb b | JNumber n \<Rightarrow> fn n | JString s \<Rightarrow> fs s | JArray xs \<Rightarrow> fa xs | JObject ms \<Rightarrow> fo ms) =
     (case v of JNull \<Rightarrow> kept a | JBool b \<Rightarrow> kept (fb b) | JNumber n \<Rightarrow> kept (fn n) | JString s \<Rightarrow> kept (fs s)
      | JArray xs \<Rightarrow> kept (fa xs) | JObject ms \<Rightarrow> kept (fo ms))"
  by (simp split: json_value.split)

lemma kept_sum [simp]: "kept (case v of Inl e \<Rightarrow> f e | Inr w \<Rightarrow> g w) = (case v of Inl e \<Rightarrow> kept (f e) | Inr w \<Rightarrow> kept (g w))"
  by (simp split: sum.split)

text \<open>None of the other checks reports an excused error.\<close>

lemma kept_element [simp]:
  "kept (check_text_value_length a key x) = check_text_value_length a key x"
  "kept (check_number_value_bounds a key x) = check_number_value_bounds a key x"
  "kept (check_count_bounds a key n) = check_count_bounds a key n"
  "kept (check_one a key w) = check_one a key w"
  by (simp_all add: check_count_bounds_def check_text_value_length_def check_number_value_bounds_def check_one_def
      split: option.split)

lemma kept_f64 [simp]:
  "kept (case x of Finite q \<Rightarrow> f q | Infinite b \<Rightarrow> g b | NaN \<Rightarrow> h) =
     (case x of Finite q \<Rightarrow> kept (f q) | Infinite b \<Rightarrow> kept (g b) | NaN \<Rightarrow> kept h)"
  by (simp split: f64.split)

lemma kept_checks [simp]:
  "kept (check_length_bounds a key v e) = check_length_bounds a key v e"
  "kept (check_numeric_bounds a key v e) = check_numeric_bounds a key v e"
  "kept (check_email_format a key v e) = check_email_format a key v e"
  "kept (check_option_valid env a key v e) = check_option_valid env a key v e"
  "kept (check_has_many_elements env a key v e) = check_has_many_elements env a key v e"
  "kept (check_date_field env a key v e) = check_date_field env a key v e"
  "kept (check_custom_validate env a key v d t) = check_custom_validate env a key v d t"
  "kept (check_unique env ctx a key col v e) = check_unique env ctx a key col v e"
  by (simp_all add: check_length_bounds_def check_numeric_bounds_def check_email_format_def check_option_valid_def
      check_has_many_options_def check_has_many_elements_def check_date_field_def check_custom_validate_def
      check_unique_def kept_concat Let_def cong: if_cong option.case_cong json_value.case_cong sum.case_cong f64.case_cong)

lemma kept_polymorphic [simp]: "kept (check_polymorphic_allowlist a key v) = check_polymorphic_allowlist a key v"
  by (simp add: check_polymorphic_allowlist_def kept_concat cong: if_cong option.case_cong json_value.case_cong)

lemma kept_missing [simp]:
  "kept (check_required env a key v e d u) = []" "kept (check_row_bounds a key v d) = []"
  by (simp_all add: check_required_def check_row_bounds_def Let_def bound_errors_def)

lemma kept_attr: "kept (check_attr env c d inst field a) = check_attr env c True inst field a"
  by (simp add: check_attr_def Let_def split: option.split sum.split)

lemma kept_richtext:
  "kept (validate_richtext_node_attrs env nodes c d content field a) =
     validate_richtext_node_attrs env nodes c True content field a"
  by (simp add: validate_richtext_node_attrs_def validate_node_instance_def Let_def kept_concat kept_attr cong: option.case_cong if_cong)

lemma kept_richtext_errors [simp]: "kept (richtext_errors env ctx a key v e) = richtext_errors env (as_draft ctx) a key v e"
  by (simp add: richtext_errors_def kept_richtext split: option.split json_value.split)

lemma kept_leaf_sub_field [simp]:
  "kept (validate_leaf_sub_field env ctx rx a q v) = validate_leaf_sub_field env (as_draft ctx) rx a q v"
  by (simp add: validate_leaf_sub_field_def Let_def split: option.split json_value.split)

lemma kept_prod [simp]: "kept (case p of (x, y) \<Rightarrow> f x y) = (case p of (x, y) \<Rightarrow> kept (f x y))"
  by (simp split: prod.split)

lemma kept_concat_rows:
  "(\<And>i ms. (i, ms) \<in> set rs \<Longrightarrow> kept (f i ms) = g i ms) \<Longrightarrow>
    kept (concat (map (\<lambda>(i, ms). f i ms) rs)) = concat (map (\<lambda>(i, ms). g i ms) rs)"
  by (induction rs) auto

lemma kept_array_case:
  "(\<And>rs. v = Some (JArray rs) \<Longrightarrow> kept (f rs) = g rs) \<Longrightarrow>
    kept (case v of Some (JArray rs) \<Rightarrow> f rs | _ \<Rightarrow> []) = (case v of Some (JArray rs) \<Rightarrow> g rs | _ \<Rightarrow> [])"
  by (auto split: option.split json_value.split)

lemma kept_object_case:
  "(\<And>ms. v = Some (JObject ms) \<Longrightarrow> kept (f ms) = g ms) \<Longrightarrow>
    kept (case v of Some (JObject ms) \<Rightarrow> f ms | _ \<Rightarrow> []) = (case v of Some (JObject ms) \<Rightarrow> g ms | _ \<Rightarrow> [])"
  by (auto split: option.split json_value.split)

lemma kept_children [simp]:
  "kept (validate_children env ctx rx fds gp) = validate_children env (as_draft ctx) rx fds gp"
  "kept (validate_tab_children env ctx rx ts gp) = validate_tab_children env (as_draft ctx) rx ts gp"
  "kept (validate_block_children env ctx rx bs) = validate_block_children env (as_draft ctx) rx bs"
proof (induction env ctx rx fds gp and env ctx rx ts gp and env ctx rx bs
    rule: validate_children_validate_tab_children_validate_block_children.induct)
  case (2 env ctx rx a sub tabs blocks fs gp)
  note rows = "2.IH"(1) [OF refl refl refl _ _ refl _ refl] "2.IH"(3) [OF refl refl refl _ _ refl _ refl]
    and group = "2.IH"(2) [OF refl refl refl _ _ refl]
    and layout = "2.IH"(4-6) [OF refl refl refl] "2.IH"(7)
  show ?case
    unfolding validate_children.simps Let_def kept_simps layout
    apply (rule arg_cong2 [where f = append, OF _ refl])
    apply (cases "fa_type a"; simp only: field_type.case kept_simps kept_leaf_sub_field layout)
      apply (rule arg_cong2 [where f = append, OF refl] kept_array_case kept_concat_rows rows; assumption?)+
     apply (rule kept_object_case group; assumption?)+
    apply (rule arg_cong2 [where f = append, OF refl] kept_array_case kept_concat_rows rows; assumption?)+
    done
qed simp_all

lemma kept_row [simp]: "kept (validate_row env ctx f key ir) = validate_row env (as_draft ctx) f key ir"
  by (simp add: validate_row_def resolve_row_sub_fields_def split: prod.split option.split json_value.split)

lemma kept_rows [simp]:
  "kept (validate_array_or_blocks_rows env ctx f key v) = validate_array_or_blocks_rows env (as_draft ctx) f key v"
  by (simp add: validate_array_or_blocks_rows_def kept_concat split: option.split json_value.split)

lemma as_draft_unique [simp]:
  "check_unique env (as_draft ctx) a key col v e = check_unique env ctx a key col v e"
  "resolve_unique_check_column (as_draft ctx) a key inh = resolve_unique_check_column ctx a key inh"
  by (simp_all add: check_unique_def resolve_unique_check_column_def)

lemma unique_column_error: "resolve_unique_check_column ctx a key inh = Inl e \<Longrightarrow> kept [e] = [e]"
  by (auto simp: resolve_unique_check_column_def split: option.splits)

lemma draft_misses [simp]: "check_required env a key v e True u = []" "check_row_bounds a key v True = []"
  by (simp_all add: check_required_def check_row_bounds_def)

lemma kept_scalar: "kept (scalar env ctx data f pre inh) = scalar env (as_draft ctx) data f pre inh"
  by (simp add: scalar_def Let_def unique_column_error split: sum.split)

text \<open>
  C22: Saving a document as a draft reports exactly the errors of publishing it, less those for
  missing required values and for too few or too many rows; no draft is refused for a reason that
  would not also refuse its publication, and everything a draft is accepted with is only ever
  missing values and rows.
\<close>
theorem draft_errors_exact:
  "walk_fields env (ctx\<lparr>vx_is_draft := True\<rparr>) data fds [] False =
     filter (\<lambda>e. fe_text e \<notin> Key ` {''validation.required'', ''validation.min_rows'', ''validation.max_rows''})
       (walk_fields env ctx data fds [] False)"
proof -
  have "walk_fields env (as_draft ctx) data fds [] False = kept (walk_fields env ctx data fds [] False)"
    by (simp add: walk_leaves kept_concat leaf_errors_def kept_scalar cong: map_cong)
  then show ?thesis by (simp add: as_draft_def kept_def excused_def)
qed

section \<open>A conforming document\<close>

text \<open>A library that parses nothing and validators that accept everything.\<close>

definition plain_env :: "(string \<Rightarrow> json_value option) \<Rightarrow> validation_env" where
  "plain_env parse = \<lparr>ve_parse_json = parse, ve_display = (\<lambda>v. []), ve_dates = no_dates,
     ve_validate = (\<lambda>ref v d c f. Inr None)\<rparr>"

definition publish_ctx :: "string option \<Rightarrow> validation_ctx" where
  "publish_ctx exclude = \<lparr>vx_table = ''posts'', vx_rows = [], vx_exclude_id = exclude, vx_is_draft = False,
     vx_locale_ctx = None, vx_nodes = None, vx_soft_delete = False\<rparr>"

definition post_sections :: field_definition where
  "post_sections = FieldDefinition ((new_attrs ''sections'' Blocks)\<lparr>fa_required := True, fa_min_rows := Some 1\<rparr>) [] []
     [BlockDefinition ''quote'' [FieldDefinition (new_attrs ''body'' Text) [] [] []]]"

definition post_data :: document_fields where
  "post_data = [(''seo__sections'', JArray [JObject [(''_block_type'', JString ''quote''), (''body'', JString ''b'')]])]"


section \<open>Row bounds of strings\<close>


definition post_tags :: field_definition where
  "post_tags = FieldDefinition ((new_attrs ''tags'' Text)\<lparr>fa_has_many := True, fa_min_rows := Some 1\<rparr>) [] [] []"

definition two_tags :: string where
  "two_tags = [CHR 0x5B, CHR 0x22, CHR ''a'', CHR 0x22, CHR '','', CHR 0x22, CHR ''b'', CHR 0x22, CHR 0x5D]"


text \<open>Apart from the row bounds, the list of two tags is accepted.\<close>

lemma two_tags_else_accepted:
  "walk_fields (plain_env (\<lambda>s. if s = two_tags then Some (JArray [JString ''a'', JString ''b'']) else None))
      (publish_ctx None) [(''tags'', JString two_tags)] [post_tags] [] False = [with_key ''tags'' ''validation.min_rows'']"
  by code_simp

section \<open>What the checks of rows leave out\<close>

text \<open>
  The fields of a row are checked less strictly than those of the document: the allowlist of a
  polymorphic target, the row bounds of an inner array and an unknown type of an inner block are not
  checked.
\<close>

definition free_target :: field_definition where
  "free_target = FieldDefinition ((new_attrs ''target'' Relationship)\<lparr>fa_relationship :=
     Some \<lparr>rc_collection = ''posts'', rc_has_many = False, rc_polymorphic = [''posts''], rc_max_depth = None\<rparr>\<rparr>) [] [] []"

lemma nested_targets_unchecked:
  "walk_fields (plain_env (\<lambda>s. None)) (publish_ctx None) [(''target'', JString ''users/1'')] [free_target] [] False =
     [with_key ''target'' ''validation.polymorphic_collection_not_allowed'']"
  "walk_fields (plain_env (\<lambda>s. None)) (publish_ctx None) [(''rows'', JArray [JObject [(''target'', JString ''users/1'')]])]
     [FieldDefinition (new_attrs ''rows'' Array) [free_target] [] []] [] False = []"
  by code_simp+

lemma nested_blocks_unchecked:
  "walk_fields (plain_env (\<lambda>s. None)) (publish_ctx None)
     [(''rows'', JArray [JObject [(''sections'', JArray [JString ''x'', JObject [(''_block_type'', JString ''unknown'')]])]])]
     [FieldDefinition (new_attrs ''rows'' Array) [post_sections] [] []] [] False = []"
  by code_simp

text \<open>More than one \<open>@\<close> and a lone colon are accepted.\<close>

lemma format_gaps:
  "is_valid_email_format ''a@b@c.d''" "is_valid_date_format no_dates '':''"
  by code_simp+

end
