(* ===== verification/RichtextRender.thy ===== *)
theory RichtextRender
  imports RichtextNodes
begin

text \<open>
  Rendering of rich text to HTML (src/src/core/richtext/renderer.rs): ProseMirror documents, and the
  custom nodes of HTML content.  The JSON text of a value and the render function of a custom node
  are parameters.
\<close>

section \<open>Escaping\<close>

text \<open>\<open>str::replace\<close> of a character and of a non-empty text: leftmost occurrences, without overlap.\<close>

definition replace_char :: "char \<Rightarrow> string \<Rightarrow> string \<Rightarrow> string" where
  "replace_char c w s = concat (map (\<lambda>x. if x = c then w else [x]) s)"

fun replace_str :: "string \<Rightarrow> string \<Rightarrow> string \<Rightarrow> string" where
  "replace_str pat w [] = []"
| "replace_str pat w (c # cs) =
     (if starts_with pat (c # cs) then w @ replace_str pat w (drop (length pat - 1) cs)
      else c # replace_str pat w cs)"

definition html_escape :: "string \<Rightarrow> string" where
  "html_escape s = replace_char (CHR ''>'') ''&gt;'' (replace_char (CHR ''<'') ''&lt;'' (replace_char (CHR ''&'') ''&amp;'' s))"

definition html_escape_attr :: "string \<Rightarrow> string" where
  "html_escape_attr s = replace_char (CHR 0x27) ''&#39;'' (replace_char (CHR 0x22) ''&quot;''
     (replace_char (CHR ''>'') ''&gt;'' (replace_char (CHR ''<'') ''&lt;'' (replace_char (CHR ''&'') ''&amp;'' s))))"

text \<open>The way back, in the order of \<open>render_html_custom_nodes\<close>.\<close>

definition unescape_attrs :: "string \<Rightarrow> string" where
  "unescape_attrs s = replace_str ''&quot;'' [CHR 0x22] (replace_str ''&gt;'' ''>'' (replace_str ''&lt;'' ''<''
     (replace_str ''&amp;'' ''&'' (replace_str ''&#39;'' [CHR 0x27] s))))"

definition is_safe_url :: "string \<Rightarrow> bool" where
  "is_safe_url url =
     (let trimmed = trim_start url; lower = ascii_lowercase trimmed
      in trimmed \<noteq> [] \<and>
         (starts_with ''/'' trimmed \<or> starts_with ''#'' trimmed \<or> starts_with ''?'' trimmed \<or>
          starts_with ''http://'' lower \<or> starts_with ''https://'' lower \<or> starts_with ''mailto:'' lower \<or>
          starts_with ''tel:'' lower \<or> starts_with ''ftp://'' lower))"

section \<open>ProseMirror documents\<close>

definition type_of :: "json_value \<Rightarrow> string option" where
  "type_of v = Option.bind (json_get v ''type'') as_json_str"

definition content_of :: "json_value \<Rightarrow> json_value list" where
  "content_of v = (case json_get v ''content'' of Some (JArray cs) \<Rightarrow> cs | _ \<Rightarrow> [])"

definition attrs_of :: "json_value \<Rightarrow> json_value" where
  "attrs_of v = unwrap_or (JObject []) (json_get v ''attrs'')"

text \<open>\<open>as_u64\<close>: integers in range only.\<close>

definition heading_level :: "json_value \<Rightarrow> nat" where
  "heading_level v =
     (case Option.bind (json_get v ''attrs'') (\<lambda>a. json_get a ''level'') of
        Some (JNumber (JInt i)) \<Rightarrow> if 0 \<le> i \<and> i < 2 ^ 64 then max 1 (min 6 (nat i)) else 1
      | _ \<Rightarrow> 1)"

definition safe_href :: "json_value \<Rightarrow> string" where
  "safe_href mark =
     (let href = unwrap_or ''#'' (Option.bind (Option.bind (json_get mark ''attrs'') (\<lambda>a. json_get a ''href'')) as_json_str)
      in if is_safe_url href then href else ''#'')"

text \<open>The opening and the closing tag of a mark; an unknown mark has none.\<close>

definition mark_tags :: "json_value \<Rightarrow> (string \<times> string) option" where
  "mark_tags mark =
     (let t = unwrap_or [] (type_of mark)
      in if t = ''strong'' then Some (''<strong>'', ''</strong>'')
         else if t = ''em'' then Some (''<em>'', ''</em>'')
         else if t = ''code'' then Some (''<code>'', ''</code>'')
         else if t = ''link''
         then Some (''<a href='' @ [CHR 0x22] @ html_escape_attr (safe_href mark) @ [CHR 0x22] @ ''>'', ''</a>'')
         else None)"

definition render_text_with_marks :: "string \<Rightarrow> json_value list option \<Rightarrow> string" where
  "render_text_with_marks s marks =
     (case marks of
        None \<Rightarrow> html_escape s
      | Some ms \<Rightarrow>
          if ms = [] then html_escape s
          else (let tags = List.map_filter mark_tags ms
                in concat (map fst tags) @ html_escape s @ concat (map snd (rev tags))))"

definition render_text :: "json_value \<Rightarrow> string" where
  "render_text v =
     render_text_with_marks (unwrap_or [] (Option.bind (json_get v ''text'') as_json_str))
       (case json_get v ''marks'' of Some (JArray ms) \<Rightarrow> Some ms | _ \<Rightarrow> None)"

definition crap_node :: "(json_value \<Rightarrow> string) \<Rightarrow> string \<Rightarrow> json_value \<Rightarrow> string" where
  "crap_node to_s t attrs =
     ''<crap-node data-type='' @ [CHR 0x22] @ html_escape_attr t @ [CHR 0x22] @ '' data-attrs='' @ [CHR 0x27] @
     html_escape_attr (to_s attrs) @ [CHR 0x27] @ ''>'' @ ''</crap-node>''"

type_synonym custom_renderer = "string \<Rightarrow> json_value \<Rightarrow> string option"

definition render_custom :: "(json_value \<Rightarrow> string) \<Rightarrow> custom_renderer \<Rightarrow> string \<Rightarrow> json_value \<Rightarrow> string" where
  "render_custom to_s cust t attrs = (case cust t attrs of Some html \<Rightarrow> html | None \<Rightarrow> crap_node to_s t attrs)"

lemma json_get_size: "json_get v k = Some w \<Longrightarrow> size w < size v"
  using json_member_size by (cases v) auto

lemma content_of_size:
  assumes c: "c \<in> set (content_of v)"
  shows "size c < size v"
proof (cases "json_get v ''content''")
  case None
  with c show ?thesis by (simp add: content_of_def)
next
  case (Some w)
  with c obtain cs where "w = JArray cs" "c \<in> set cs" by (cases w) (auto simp: content_of_def)
  with json_get_size [OF Some] json_element_size [of c cs] show ?thesis by simp
qed

function render_node :: "(json_value \<Rightarrow> string) \<Rightarrow> custom_renderer \<Rightarrow> json_value \<Rightarrow> string" where
  "render_node to_s cust v =
     (case type_of v of
        None \<Rightarrow> []
      | Some t \<Rightarrow>
          (let children = concat (map (render_node to_s cust) (content_of v))
           in if t = ''doc'' then children
              else if t = ''paragraph'' then ''<p>'' @ children @ ''</p>''
              else if t = ''heading''
              then ''<h'' @ show_nat (heading_level v) @ ''>'' @ children @ ''</h'' @ show_nat (heading_level v) @ ''>''
              else if t = ''text'' then render_text v
              else if t = ''blockquote'' then ''<blockquote>'' @ children @ ''</blockquote>''
              else if t = ''code_block'' then ''<pre><code>'' @ children @ ''</code></pre>''
              else if t = ''bullet_list'' then ''<ul>'' @ children @ ''</ul>''
              else if t = ''ordered_list'' then ''<ol>'' @ children @ ''</ol>''
              else if t = ''list_item'' then ''<li>'' @ children @ ''</li>''
              else if t = ''horizontal_rule'' then ''<hr>''
              else if t = ''hard_break'' then ''<br>''
              else render_custom to_s cust t (attrs_of v)))"
  by pat_completeness auto
termination by (relation "measure (\<lambda>(to_s, cust, v). size v)") (auto dest: content_of_size)

declare render_node.simps [simp del]

definition render_prosemirror_to_html ::
  "(string \<Rightarrow> json_value option) \<Rightarrow> (json_value \<Rightarrow> string) \<Rightarrow> custom_renderer \<Rightarrow> string \<Rightarrow> string + string" where
  "render_prosemirror_to_html parse to_s cust s =
     (case parse s of None \<Rightarrow> Inl ''Invalid JSON'' | Some v \<Rightarrow> Inr (render_node to_s cust v))"

section \<open>Custom nodes of HTML content\<close>

definition replace_tag :: "(string \<Rightarrow> json_value option) \<Rightarrow> custom_renderer \<Rightarrow> string \<Rightarrow> string" where
  "replace_tag parse cust tag =
     (case extract_attr_value tag ''data-type'' of
        None \<Rightarrow> tag
      | Some t \<Rightarrow>
          (case cust t (unwrap_or (JObject [])
                  (Option.bind (extract_attr_value tag ''data-attrs'') (\<lambda>s. parse (unescape_attrs s)))) of
             Some html \<Rightarrow> html
           | None \<Rightarrow> tag))"

function render_html_custom_nodes ::
  "(string \<Rightarrow> json_value option) \<Rightarrow> custom_renderer \<Rightarrow> string \<Rightarrow> string" where
  "render_html_custom_nodes parse cust s =
     (case find_str ''<crap-node '' s of
        None \<Rightarrow> s
      | Some i \<Rightarrow>
          take i s @
          (case tag_end (drop i s) of
             None \<Rightarrow> drop i s
           | Some n \<Rightarrow> replace_tag parse cust (take n (drop i s)) @
                       render_html_custom_nodes parse cust (drop n (drop i s))))"
  by pat_completeness auto
termination
proof (relation "measure (\<lambda>(parse, cust, s). length s)", goal_cases)
  case (2 parse cust s i n)
  then show ?case using find_str_Some [of "''<crap-node ''" s i] tag_end_pos by fastforce
qed simp

declare render_html_custom_nodes.simps [simp del]

section \<open>The document as a tree of elements\<close>

text \<open>
  What rendering means: a tree whose elements carry the text of their opening tag and their name,
  with holes for the custom nodes.
\<close>

datatype html = Chars string | Void string | Elem string string "html list" | Hole string json_value

definition mark_elem :: "json_value \<Rightarrow> (string \<times> string) option" where
  "mark_elem mark =
     (let t = unwrap_or [] (type_of mark)
      in if t = ''strong'' then Some (''strong'', ''strong'')
         else if t = ''em'' then Some (''em'', ''em'')
         else if t = ''code'' then Some (''code'', ''code'')
         else if t = ''link''
         then Some (''a href='' @ [CHR 0x22] @ html_escape_attr (safe_href mark) @ [CHR 0x22], ''a'')
         else None)"

definition marked :: "json_value list \<Rightarrow> html \<Rightarrow> html" where
  "marked ms h = foldr (\<lambda>m h. case mark_elem m of None \<Rightarrow> h | Some (open_tag, name) \<Rightarrow> Elem open_tag name [h]) ms h"

function html_of :: "json_value \<Rightarrow> html list" where
  "html_of v =
     (case type_of v of
        None \<Rightarrow> []
      | Some t \<Rightarrow>
          (let children = concat (map html_of (content_of v)); elem = (\<lambda>n. [Elem n n children])
           in if t = ''doc'' then children
              else if t = ''paragraph'' then elem ''p''
              else if t = ''heading'' then elem (''h'' @ show_nat (heading_level v))
              else if t = ''text''
              then [marked (case json_get v ''marks'' of Some (JArray ms) \<Rightarrow> ms | _ \<Rightarrow> [])
                     (Chars (unwrap_or [] (Option.bind (json_get v ''text'') as_json_str)))]
              else if t = ''blockquote'' then elem ''blockquote''
              else if t = ''code_block'' then [Elem ''pre'' ''pre'' (elem ''code'')]
              else if t = ''bullet_list'' then elem ''ul''
              else if t = ''ordered_list'' then elem ''ol''
              else if t = ''list_item'' then elem ''li''
              else if t = ''horizontal_rule'' then [Void ''hr'']
              else if t = ''hard_break'' then [Void ''br'']
              else [Hole t (attrs_of v)]))"
  by pat_completeness auto
termination by (relation "measure size") (auto dest: content_of_size)

declare html_of.simps [simp del]

fun show_html :: "(string \<Rightarrow> json_value \<Rightarrow> string) \<Rightarrow> html \<Rightarrow> string" where
  "show_html hole (Chars s) = html_escape s"
| "show_html hole (Void t) = ''<'' @ t @ ''>''"
| "show_html hole (Elem t name hs) = ''<'' @ t @ ''>'' @ concat (map (show_html hole) hs) @ ''</'' @ name @ ''>''"
| "show_html hole (Hole t attrs) = hole t attrs"

lemma show_marked:
  "show_html hole (marked ms h) =
     (let tags = List.map_filter mark_tags ms in concat (map fst tags) @ show_html hole h @ concat (map snd (rev tags)))"
proof (induction ms)
  case Nil
  then show ?case by (simp add: marked_def List.map_filter_def)
next
  case (Cons m ms)
  then show ?case
    by (auto simp: marked_def mark_elem_def mark_tags_def Let_def List.map_filter_def)
qed

lemma concat_map_concat: "concat (map f (concat (map g xs))) = concat (map (\<lambda>x. concat (map f (g x))) xs)"
  by (induction xs) simp_all

lemma render_is_tree:
  "render_node to_s cust v = concat (map (show_html (render_custom to_s cust)) (html_of v))"
proof (induction v rule: html_of.induct)
  case (1 v)
  show ?case
  proof (cases "type_of v")
    case None
    then show ?thesis by (simp add: render_node.simps [of _ _ v] html_of.simps [of v])
  next
    case (Some t)
    have kids: "concat (map (show_html (render_custom to_s cust)) (concat (map html_of (content_of v)))) =
        concat (map (render_node to_s cust) (content_of v))"
      unfolding concat_map_concat using 1 [OF Some] by (simp cong: map_cong)
    show ?thesis
      unfolding render_node.simps [of _ _ v] html_of.simps [of v] Some option.case Let_def kids [symmetric]
      by (auto simp: render_text_def render_text_with_marks_def show_marked List.map_filter_def Let_def
          split: option.split json_value.split)
  qed
qed

end
