(* ===== verification/RichtextSafety.thy ===== *)
theory RichtextSafety
  imports RichtextRender
begin

text \<open>
  What rendered rich text is known to be: the markup a tokenizer finds in it, the schemes of its
  links, and that replacing custom nodes after rendering gives what rendering with them gives.
\<close>

section \<open>Escaped text\<close>

lemma replace_char_append [simp]: "replace_char c w (s @ t) = replace_char c w s @ replace_char c w t"
  by (simp add: replace_char_def)

lemma replace_char_Cons: "replace_char c w (x # s) = (if x = c then w else [x]) @ replace_char c w s"
  by (simp add: replace_char_def)

lemma replace_char_Nil [simp]: "replace_char c w [] = []"
  by (simp add: replace_char_def)

lemma replace_char_free: "c \<notin> set w \<Longrightarrow> c \<notin> set (replace_char c w s)"
  by (auto simp: replace_char_def)

lemma replace_char_keeps: "d \<notin> set w \<Longrightarrow> d \<notin> set s \<Longrightarrow> d \<notin> set (replace_char c w s)"
  by (auto simp: replace_char_def)

lemma html_escape_free: "CHR ''<'' \<notin> set (html_escape s)" "CHR ''>'' \<notin> set (html_escape s)"
  unfolding html_escape_def by (intro replace_char_free replace_char_keeps; simp)+

lemma html_escape_attr_free:
  "CHR ''<'' \<notin> set (html_escape_attr s)" "CHR ''>'' \<notin> set (html_escape_attr s)"
  "CHR 0x22 \<notin> set (html_escape_attr s)" "CHR 0x27 \<notin> set (html_escape_attr s)"
  unfolding html_escape_attr_def by (intro replace_char_free replace_char_keeps; simp)+

lemma html_escape_attr_Nil [simp]: "html_escape_attr [] = []"
  by (simp add: html_escape_attr_def)

lemma html_escape_attr_plain:
  "list_all (\<lambda>c. c \<notin> set (''&<>'' @ [CHR 0x22, CHR 0x27])) s \<Longrightarrow> html_escape_attr s = s"
  by (induction s) (auto simp: html_escape_attr_def replace_char_Cons)

section \<open>A tokenizer\<close>

text \<open>The tags of an HTML text: what stands between a \<open><\<close> and the next \<open>>\<close>.\<close>

function tags_of :: "string \<Rightarrow> string list" where
  "tags_of s =
     (case dropWhile (\<lambda>c. c \<noteq> CHR ''<'') s of
        [] \<Rightarrow> []
      | c # r \<Rightarrow> takeWhile (\<lambda>c. c \<noteq> CHR ''>'') r # tags_of (dropWhile (\<lambda>c. c \<noteq> CHR ''>'') r))"
  by pat_completeness auto
termination
proof (relation "measure length", goal_cases)
  case (2 s c r)
  have "length (dropWhile (\<lambda>c. c \<noteq> CHR ''>'') r) \<le> length r" by (rule length_dropWhile_le)
  also have "\<dots> < length (dropWhile (\<lambda>c. c \<noteq> CHR ''<'') s)" using 2 by simp
  also have "\<dots> \<le> length s" by (rule length_dropWhile_le)
  finally show ?case by simp
qed simp

declare tags_of.simps [simp del]

lemma tags_of_Nil [simp]: "tags_of [] = []"
  by (simp add: tags_of.simps)

lemma until_char:
  "d \<notin> set t \<Longrightarrow> dropWhile (\<lambda>c. c \<noteq> d) (t @ s) = dropWhile (\<lambda>c. c \<noteq> d) s"
  "d \<notin> set t \<Longrightarrow> takeWhile (\<lambda>c. c \<noteq> d) (t @ s) = t @ takeWhile (\<lambda>c. c \<noteq> d) s"
  by (induction t) auto

lemma tags_of_text:
  assumes "CHR ''<'' \<notin> set t"
  shows "tags_of (t @ s) = tags_of s"
  unfolding tags_of.simps [of "t @ s"] tags_of.simps [of s] until_char(1) [OF assms] ..

lemma tags_of_tag:
  assumes "CHR ''>'' \<notin> set g"
  shows "tags_of (''<'' @ g @ ''>'' @ s) = g # tags_of s"
proof -
  have "tags_of (''<'' @ g @ ''>'' @ s) = g # tags_of (''>'' @ s)"
    using assms by (subst tags_of.simps) (simp add: until_char)
  then show ?thesis using tags_of_text [of "''>''" s] by simp
qed

section \<open>The tags of a rendered document\<close>

definition void_tags :: "string list" where
  "void_tags = [''hr'', ''br'']"

definition element_names :: "string list" where
  "element_names = [''p'', ''h1'', ''h2'', ''h3'', ''h4'', ''h5'', ''h6'', ''blockquote'', ''pre'', ''code'',
     ''ul'', ''ol'', ''li'', ''strong'', ''em'']"

text \<open>
  The scheme of a URL as browsers read it: leading control characters and blanks are dropped, tabs
  and line breaks ignored; no scheme when the URL is relative.
\<close>

definition is_scheme_char :: "char \<Rightarrow> bool" where
  "is_scheme_char c \<longleftrightarrow> is_ascii_alphanumeric c \<or> c \<in> set ''+-.''"

definition url_scheme :: "string \<Rightarrow> string option" where
  "url_scheme url =
     (let s = filter (\<lambda>c. char_code c \<notin> {9, 10, 13}) (dropWhile (\<lambda>c. char_code c \<le> 32) url);
          name = takeWhile is_scheme_char s
      in if name \<noteq> [] \<and> \<not> is_ascii_digit (hd name) \<and> starts_with '':'' (drop (length name) s)
         then Some (ascii_lowercase name) else None)"

definition link_schemes :: "string list" where
  "link_schemes = [''http'', ''https'', ''mailto'', ''tel'', ''ftp'']"

definition allowed_tag :: "string \<Rightarrow> bool" where
  "allowed_tag g \<longleftrightarrow>
     g \<in> set void_tags \<or> g \<in> set element_names \<or> g \<in> (\<lambda>n. ''/'' @ n) ` set ([''a'', ''crap-node''] @ element_names) \<or>
     (\<exists>url. g = ''a href='' @ [CHR 0x22] @ html_escape_attr url @ [CHR 0x22] \<and>
            pred_option (\<lambda>s. s \<in> set link_schemes) (url_scheme url)) \<or>
     (\<exists>t j. g = ''crap-node data-type='' @ [CHR 0x22] @ html_escape_attr t @ [CHR 0x22] @ '' data-attrs='' @ [CHR 0x27] @
              html_escape_attr j @ [CHR 0x27])"

definition tag_name :: "string \<Rightarrow> string" where
  "tag_name g = takeWhile (\<lambda>c. c \<noteq> CHR '' '') g"

text \<open>Every closing tag closes the element opened last, and none is left open.\<close>

fun nested :: "string list \<Rightarrow> string list \<Rightarrow> bool" where
  "nested st [] = (st = [])"
| "nested st (g # gs) =
     (if g \<in> set void_tags then nested st gs
      else if starts_with ''/'' g then st \<noteq> [] \<and> hd st = drop 1 g \<and> nested (tl st) gs
      else nested (tag_name g # st) gs)"

fun html_tags :: "(string \<Rightarrow> json_value \<Rightarrow> string) \<Rightarrow> html \<Rightarrow> string list" where
  "html_tags hole (Chars s) = []"
| "html_tags hole (Void t) = [t]"
| "html_tags hole (Elem t name hs) = t # concat (map (html_tags hole) hs) @ [''/'' @ name]"
| "html_tags hole (Hole t attrs) = [hole t attrs, ''/crap-node'']"

definition link_elem :: "string \<Rightarrow> string \<Rightarrow> bool" where
  "link_elem t name \<longleftrightarrow> name = ''a'' \<and>
     (\<exists>url. t = ''a href='' @ [CHR 0x22] @ html_escape_attr url @ [CHR 0x22] \<and>
            pred_option (\<lambda>s. s \<in> set link_schemes) (url_scheme url))"

fun ok_html :: "html \<Rightarrow> bool" where
  "ok_html (Chars s) = True"
| "ok_html (Void t) = (t \<in> set void_tags)"
| "ok_html (Elem t name hs) = ((t = name \<and> name \<in> set element_names \<or> link_elem t name) \<and> list_all ok_html hs)"
| "ok_html (Hole t attrs) = True"

subsection \<open>Links\<close>

lemma ascii_lower_cases: "ascii_lower c = c \<or> is_ascii_uppercase c \<and> char_code (ascii_lower c) = char_code c + 32"
  by (auto simp: ascii_lower_def is_ascii_uppercase_def)

lemma lower_letter:
  assumes "ascii_lower c = d" "is_ascii_lowercase d"
  shows "is_ascii_lowercase c \<or> is_ascii_uppercase c"
  using assms ascii_lower_cases [of c] by (auto simp: is_ascii_lowercase_def is_ascii_uppercase_def)

lemma lower_other:
  assumes "ascii_lower c = d" "\<not> is_ascii_lowercase d"
  shows "c = d"
  using assms ascii_lower_cases [of c] by (auto simp: is_ascii_lowercase_def is_ascii_uppercase_def)

lemma drop_controls: "dropWhile (\<lambda>c. char_code c \<le> 32) (trim_start u) = dropWhile (\<lambda>c. char_code c \<le> 32) u"
  by (induction u) (auto simp: trim_start_def is_whitespace_def)

lemma scheme_of_lower:
  assumes "starts_with (n @ '':'') (ascii_lowercase s)" "list_all is_ascii_lowercase n" "n \<noteq> []"
  shows "url_scheme s = Some n"
proof -
  let ?m = "take (length n) s"
  have m: "ascii_lowercase ?m = n" "s = ?m @ '':'' @ drop (Suc (length n)) s"
  proof -
    have t: "take (length n + 1) (ascii_lowercase s) = n @ '':''"
      using assms(1) by (simp add: starts_with_def)
    then have len: "length n + 1 \<le> length s"
      by (metis ascii_lowercase_def length_append length_map length_take list.size(3,4) min.cobounded1 add.commute plus_1_eq_Suc One_nat_def)
    from t have "take (length n) (take (length n + 1) (ascii_lowercase s)) = n" by simp
    then show "ascii_lowercase ?m = n" by (simp add: ascii_lowercase_def take_map)
    have "ascii_lowercase s ! length n = CHR '':''"
      using arg_cong [OF t, of "\<lambda>x. x ! length n"] by (simp add: nth_append)
    with len have "ascii_lower (s ! length n) = CHR '':''" by (simp add: ascii_lowercase_def)
    from lower_other [OF this] have "s ! length n = CHR '':''" by (simp add: is_ascii_lowercase_def)
    with len id_take_nth_drop [of "length n" s] show "s = ?m @ '':'' @ drop (Suc (length n)) s" by simp
  qed
  have alpha: "list_all (\<lambda>c. is_ascii_lowercase c \<or> is_ascii_uppercase c) ?m"
    unfolding list_all_iff
  proof
    fix c assume "c \<in> set ?m"
    then have "ascii_lower c \<in> set n" using m(1) by (metis ascii_lowercase_def image_eqI set_map)
    with assms(2) show "is_ascii_lowercase c \<or> is_ascii_uppercase c"
      by (intro lower_letter [OF refl]) (simp add: list_all_iff)
  qed
  have m_chars: "\<forall>c \<in> set ?m. is_scheme_char c \<and> \<not> is_ascii_digit c \<and> 32 < char_code c"
    using alpha by (auto simp: list_all_iff is_scheme_char_def is_ascii_alphanumeric_def is_ascii_lowercase_def
        is_ascii_uppercase_def is_ascii_digit_def)
  have ne: "?m \<noteq> []" using m(1) assms(3) by (auto simp: ascii_lowercase_def)
  let ?r = "filter (\<lambda>c. char_code c \<notin> {9, 10, 13}) (drop (Suc (length n)) s)"
  have "dropWhile (\<lambda>c. char_code c \<le> 32) s = s"
  proof (cases ?m)
    case (Cons a list)
    then have "hd s = a" using arg_cong [OF m(2), of hd] by simp
    with m_chars Cons show ?thesis by (auto simp: dropWhile_eq_self_iff)
  qed (use ne in simp)
  moreover have "filter (\<lambda>c. char_code c \<notin> {9, 10, 13}) ?m = ?m"
    using m_chars by (auto simp: filter_id_conv)
  ultimately have f: "filter (\<lambda>c. char_code c \<notin> {9, 10, 13}) (dropWhile (\<lambda>c. char_code c \<le> 32) s) = ?m @ '':'' @ ?r"
  proof -
    assume d: "dropWhile (\<lambda>c. char_code c \<le> 32) s = s"
      and k: "filter (\<lambda>c. char_code c \<notin> {9, 10, 13}) ?m = ?m"
    have "filter (\<lambda>c. char_code c \<notin> {9, 10, 13}) s =
        filter (\<lambda>c. char_code c \<notin> {9, 10, 13}) (?m @ '':'' @ drop (Suc (length n)) s)"
      by (rule arg_cong [OF m(2)])
    also have "\<dots> = ?m @ '':'' @ ?r" unfolding filter_append k by simp
    finally show ?thesis unfolding d .
  qed
  have "takeWhile is_scheme_char (?m @ '':'' @ ?r) = ?m"
  proof -
    have "takeWhile is_scheme_char ('':'' @ ?r) = []"
      by (simp add: is_scheme_char_def is_ascii_alphanumeric_def is_ascii_digit_def is_ascii_lowercase_def is_ascii_uppercase_def)
    moreover have "\<forall>c \<in> set ?m. is_scheme_char c" using m_chars by blast
    ultimately show ?thesis by (metis append_Nil2 takeWhile_append2)
  qed
  moreover have "\<not> is_ascii_digit (hd ?m)" using m_chars ne hd_in_set by blast
  ultimately show ?thesis
    unfolding url_scheme_def Let_def f using ne m(1) by (simp add: starts_with_def)
qed

lemma starts_with_iff: "starts_with p s \<longleftrightarrow> (\<exists>r. s = p @ r)"
  unfolding starts_with_def by (metis append_eq_conv_conj append_take_drop_id)

lemma starts_with_append: "starts_with (a @ b) s \<Longrightarrow> starts_with a s"
  by (auto simp: starts_with_iff)

lemma relative_no_scheme:
  assumes "starts_with [c] s" "\<not> is_scheme_char c" "32 < char_code c"
  shows "url_scheme s = None"
proof -
  from assms(1) obtain r where "s = c # r" by (cases s) (auto simp: starts_with_def)
  with assms(2,3) show ?thesis by (auto simp: url_scheme_def Let_def)
qed

lemma safe_url_scheme:
  assumes "is_safe_url url"
  shows "pred_option (\<lambda>s. s \<in> set link_schemes) (url_scheme url)"
proof -
  let ?t = "trim_start url"
  have t: "url_scheme url = url_scheme ?t" by (simp add: url_scheme_def drop_controls)
  have known: "pred_option (\<lambda>s. s \<in> set link_schemes) (url_scheme ?t)"
    if "starts_with (n @ '':'' @ r) (ascii_lowercase ?t)" "n \<in> set link_schemes" for n r
  proof -
    have "starts_with (n @ '':'') (ascii_lowercase ?t)"
      using that(1) starts_with_append [of "n @ '':''" r "ascii_lowercase ?t"] by simp
    moreover have "list_all is_ascii_lowercase n \<and> n \<noteq> []"
      using that(2) by (auto simp: link_schemes_def is_ascii_lowercase_def)
    ultimately have "url_scheme ?t = Some n" by (intro scheme_of_lower) auto
    with that(2) show ?thesis by simp
  qed
  have rel: "pred_option (\<lambda>s. s \<in> set link_schemes) (url_scheme ?t)" if "starts_with [c] ?t" "c \<in> set ''/#?''" for c
  proof -
    have "\<not> is_scheme_char c \<and> 32 < char_code c"
      using that(2) by (auto simp: is_scheme_char_def is_ascii_alphanumeric_def is_ascii_digit_def
          is_ascii_lowercase_def is_ascii_uppercase_def)
    with relative_no_scheme [OF that(1)] show ?thesis by simp
  qed
  from assms show ?thesis
    unfolding is_safe_url_def Let_def t
    using known [of "''http''" "''//''"] known [of "''https''" "''//''"] known [of "''mailto''" "[]"]
      known [of "''tel''" "[]"] known [of "''ftp''" "''//''"] rel [of "CHR ''/''"] rel [of "CHR ''#''"] rel [of "CHR ''?''"]
    by (auto simp: link_schemes_def)
qed

lemma safe_href_scheme: "pred_option (\<lambda>s. s \<in> set link_schemes) (url_scheme (safe_href m))"
proof -
  have "url_scheme ''#'' = None" by code_simp
  then show ?thesis by (auto simp: safe_href_def Let_def safe_url_scheme)
qed

subsection \<open>The tree of a document\<close>

lemma ok_marked: "ok_html h \<Longrightarrow> ok_html (marked ms h)"
proof (induction ms)
  case (Cons m ms)
  moreover have "link_elem (''a href='' @ [CHR 0x22] @ html_escape_attr (safe_href m) @ [CHR 0x22]) ''a''"
    unfolding link_elem_def using safe_href_scheme by blast
  ultimately show ?case
    by (auto simp: marked_def mark_elem_def Let_def element_names_def)
qed (simp add: marked_def)

lemma heading_name: "''h'' @ show_nat (heading_level v) \<in> set element_names"
proof -
  have "1 \<le> heading_level v \<and> heading_level v \<le> 6"
    by (auto simp: heading_level_def split: option.splits json_value.splits json_number.splits)
  then have "heading_level v \<in> {1, 2, 3, 4, 5, 6}" by auto
  moreover have "\<forall>n \<in> {1, 2, 3, 4, 5, 6}. ''h'' @ show_nat n \<in> set element_names" by code_simp
  ultimately show ?thesis by blast
qed

lemma list_all_concat_map: "(\<And>x. x \<in> set xs \<Longrightarrow> list_all p (f x)) \<Longrightarrow> list_all p (concat (map f xs))"
  by (induction xs) auto

lemma ok_html_of: "list_all ok_html (html_of v)"
proof (induction v rule: html_of.induct)
  case (1 v)
  show ?case
  proof (cases "type_of v")
    case None
    then show ?thesis by (simp add: html_of.simps [of v])
  next
    case (Some t)
    have kids: "list_all ok_html (concat (map html_of (content_of v)))"
      using 1 [OF Some] by (rule list_all_concat_map)
    show ?thesis
      unfolding html_of.simps [of v] Some option.case Let_def
      using kids heading_name [of v] by (simp add: ok_marked element_names_def void_tags_def)
  qed
qed

section \<open>Rendered documents are safe\<close>

definition crap_open :: "(json_value \<Rightarrow> string) \<Rightarrow> string \<Rightarrow> json_value \<Rightarrow> string" where
  "crap_open to_s t attrs =
     ''crap-node data-type='' @ [CHR 0x22] @ html_escape_attr t @ [CHR 0x22] @ '' data-attrs='' @ [CHR 0x27] @
     html_escape_attr (to_s attrs) @ [CHR 0x27]"

lemma crap_node_open: "crap_node to_s t attrs = ''<'' @ crap_open to_s t attrs @ ''>'' @ ''<'' @ ''/crap-node'' @ ''>''"
  by (simp add: crap_node_def crap_open_def)

lemma crap_open_free: "CHR ''>'' \<notin> set (crap_open to_s t attrs)"
  by (simp add: crap_open_def html_escape_attr_free)

lemma ok_tag_free:
  "t \<in> set void_tags \<Longrightarrow> CHR ''>'' \<notin> set t"
  "t \<in> set element_names \<Longrightarrow> CHR ''>'' \<notin> set t"
  "link_elem t name \<Longrightarrow> CHR ''>'' \<notin> set t"
  "link_elem t name \<Longrightarrow> CHR ''>'' \<notin> set name"
  by (auto simp: void_tags_def element_names_def link_elem_def html_escape_attr_free)

lemma tags_show:
  "ok_html h \<Longrightarrow> tags_of (show_html (crap_node to_s) h @ s) = html_tags (crap_open to_s) h @ tags_of s"
proof (induction h arbitrary: s)
  case (Chars x)
  then show ?case by (simp add: tags_of_text html_escape_free)
next
  case (Void t)
  then show ?case using tags_of_tag [of t s] ok_tag_free by simp
next
  case (Elem t name hs)
  then have free: "CHR ''>'' \<notin> set t" "CHR ''>'' \<notin> set (''/'' @ name)" using ok_tag_free by auto
  have kids: "tags_of (concat (map (show_html (crap_node to_s)) hs) @ r) =
      concat (map (html_tags (crap_open to_s)) hs) @ tags_of r" for r
    using Elem by (induction hs) auto
  have "show_html (crap_node to_s) (Elem t name hs) @ s =
      ''<'' @ t @ ''>'' @ (concat (map (show_html (crap_node to_s)) hs) @ ''<'' @ (''/'' @ name) @ ''>'' @ s)"
    by simp
  then show ?case using tags_of_tag [OF free(1)] kids tags_of_tag [OF free(2)] by simp
next
  case (Hole t attrs)
  show ?case
    using tags_of_tag [OF crap_open_free, of to_s t attrs "''<'' @ ''/crap-node'' @ ''>'' @ s"]
      tags_of_tag [of "''/crap-node''" s] by (simp add: crap_node_open)
qed

lemma ok_tag_names:
  "t \<in> set element_names \<Longrightarrow> t \<notin> set void_tags \<and> \<not> starts_with ''/'' t \<and> tag_name t = t"
  "link_elem t name \<Longrightarrow> t \<notin> set void_tags \<and> \<not> starts_with ''/'' t \<and> tag_name t = name"
  by (auto simp: element_names_def void_tags_def starts_with_def tag_name_def link_elem_def)

lemma crap_open_names:
  "crap_open to_s t a \<notin> set void_tags" "\<not> starts_with ''/'' (crap_open to_s t a)" "tag_name (crap_open to_s t a) = ''crap-node''"
  by (simp_all add: crap_open_def void_tags_def starts_with_def tag_name_def)

lemma nested_close: "nested st ((''/'' @ name) # gs) \<longleftrightarrow> st \<noteq> [] \<and> hd st = name \<and> nested (tl st) gs"
  by (simp add: void_tags_def starts_with_def)

lemma nested_tags: "ok_html h \<Longrightarrow> nested st (html_tags (crap_open to_s) h @ gs) = nested st gs"
proof (induction h arbitrary: st gs)
  case (Elem t name hs)
  have kids: "nested r (concat (map (html_tags (crap_open to_s)) hs) @ gs') = nested r gs'" for r gs'
    using Elem by (induction hs) auto
  have o: "t \<notin> set void_tags" "\<not> starts_with ''/'' t" "tag_name t = name"
    using Elem.prems ok_tag_names by auto
  have "nested st (html_tags (crap_open to_s) (Elem t name hs) @ gs) =
      nested (name # st) (concat (map (html_tags (crap_open to_s)) hs) @ (''/'' @ name) # gs)"
    using o by simp
  also have "\<dots> = nested st gs" unfolding kids nested_close by simp
  finally show ?case .
next
  case (Hole t a)
  have "nested st (html_tags (crap_open to_s) (Hole t a) @ gs) = nested (''crap-node'' # st) ((''/'' @ ''crap-node'') # gs)"
    by (simp add: crap_open_names)
  then show ?case unfolding nested_close by simp
qed (simp_all)

lemma allowed_open:
  "g \<in> set void_tags \<Longrightarrow> allowed_tag g" "g \<in> set element_names \<Longrightarrow> allowed_tag g"
  "link_elem g name \<Longrightarrow> allowed_tag g" "allowed_tag (crap_open to_s t a)"
  unfolding allowed_tag_def link_elem_def crap_open_def by blast+

lemma allowed_close:
  "name \<in> set element_names \<Longrightarrow> allowed_tag (''/'' @ name)" "link_elem g name \<Longrightarrow> allowed_tag (''/'' @ name)"
  "allowed_tag (''/'' @ ''crap-node'')"
proof -
  have "name \<in> set ([''a'', ''crap-node''] @ element_names) \<Longrightarrow> allowed_tag (''/'' @ name)" for name
    unfolding allowed_tag_def by blast
  then show "name \<in> set element_names \<Longrightarrow> allowed_tag (''/'' @ name)" "link_elem g name \<Longrightarrow> allowed_tag (''/'' @ name)"
    "allowed_tag (''/'' @ ''crap-node'')"
    by (auto simp: link_elem_def)
qed

lemma allowed_tags: "ok_html h \<Longrightarrow> list_all allowed_tag (html_tags (crap_open to_s) h)"
proof (induction h)
  case (Elem t name hs)
  then have "list_all allowed_tag (concat (map (html_tags (crap_open to_s)) hs))"
    by (intro list_all_concat_map) (auto simp: list_all_iff)
  moreover have "allowed_tag t \<and> allowed_tag (''/'' @ name)"
    using Elem.prems allowed_open allowed_close by auto
  ultimately show ?case by simp
next
  case (Hole t a)
  then show ?case using allowed_open(4) allowed_close(3) by simp
qed (simp_all add: allowed_open)

text \<open>
  C12: Whatever JSON a rich text field holds, its HTML is safe: the tags a tokenizer finds in it are
  those of the editor's elements, of links whose scheme is absent or one of http, https, mailto, tel
  and ftp, and of placeholders of unrendered custom nodes, with attributes that hold neither quotes
  nor angle brackets; and every tag is closed in the right order.  No text, attribute or node type
  of the document opens a tag of its own.
\<close>
theorem rendered_html_safe:
  "list_all allowed_tag (tags_of (render_node to_s (\<lambda>t attrs. None) v)) \<and>
   nested [] (tags_of (render_node to_s (\<lambda>t attrs. None) v))"
proof -
  have hole: "render_custom to_s (\<lambda>t attrs. None) = crap_node to_s"
    by (intro ext) (simp add: render_custom_def)
  let ?tags = "concat (map (html_tags (crap_open to_s)) (html_of v))"
  have "tags_of (concat (map (show_html (crap_node to_s)) hs)) = concat (map (html_tags (crap_open to_s)) hs)"
    if "list_all ok_html hs" for hs
    using that by (induction hs) (simp_all add: tags_show)
  then have t: "tags_of (render_node to_s (\<lambda>t attrs. None) v) = ?tags"
    unfolding render_is_tree hole using ok_html_of by blast
  have "list_all allowed_tag ?tags"
    using ok_html_of [of v] allowed_tags by (intro list_all_concat_map) (auto simp: list_all_iff)
  moreover have "nested [] (concat (map (html_tags (crap_open to_s)) hs))" if "list_all ok_html hs" for hs
    using that nested_tags [of _ "[]" to_s] by (induction hs) auto
  ultimately show ?thesis unfolding t using ok_html_of by blast
qed

end
