(* ===== verification/RichtextReplace.thy ===== *)
theory RichtextReplace
  imports RichtextSafety
begin

text \<open>
  Custom nodes left as placeholders by the rendering of a document, and the pass over HTML that
  renders them: where the two passes give what a single rendering gives, and where they lose
  attributes.
\<close>

section \<open>Searching in concatenations\<close>

text \<open>A text is clean for a pattern when no occurrence starts in it, whatever follows.\<close>

definition clean :: "string \<Rightarrow> string \<Rightarrow> bool" where
  "clean pat x \<longleftrightarrow> (\<forall>s. find_str pat (x @ s) = map_option ((+) (length x)) (find_str pat s))"

lemma clean_Nil [simp]: "clean pat []"
  by (simp add: clean_def option.map_ident_strong)

lemma clean_append: "clean pat x \<Longrightarrow> clean pat y \<Longrightarrow> clean pat (x @ y)"
  by (auto simp: clean_def option.map_comp intro!: option.map_cong)

lemma clean_Cons:
  assumes "\<And>s. \<not> starts_with pat (c # x @ s)" "clean pat x"
  shows "clean pat (c # x)"
  unfolding clean_def
proof
  fix s
  have "find_str pat ((c # x) @ s) = map_option Suc (find_str pat (x @ s))"
    using assms(1) [of s] by (subst find_str.simps) simp
  also have "\<dots> = map_option ((+) (length (c # x))) (find_str pat s)"
    using assms(2) by (auto simp: clean_def option.map_comp intro!: option.map_cong)
  finally show "find_str pat ((c # x) @ s) = map_option ((+) (length (c # x))) (find_str pat s)" .
qed

lemma clean_concat: "(\<And>x. x \<in> set xs \<Longrightarrow> clean pat x) \<Longrightarrow> clean pat (concat xs)"
  by (induction xs) (auto intro: clean_append)

lemma clean_without_head: "d \<notin> set x \<Longrightarrow> clean (d # pat) x"
  by (induction x) (auto intro!: clean_Cons simp: starts_with_def)

lemma starts_with_Cons [simp]: "starts_with (p # ps) (c # cs) \<longleftrightarrow> p = c \<and> starts_with ps cs"
  "starts_with [] cs" "\<not> starts_with (p # ps) []"
  by (auto simp: starts_with_def)

lemma find_here: "find_str pat (pat @ s) = Some 0"
  by (subst find_str.simps) (simp add: starts_with_iff)

lemma find_clean: "clean pat x \<Longrightarrow> find_str pat (x @ pat @ s) = Some (length x)"
  by (simp add: clean_def find_here)

lemma find_none: "c \<in> set pat \<Longrightarrow> c \<notin> set x \<Longrightarrow> find_str pat x = None"
proof (rule ccontr)
  assume c: "c \<in> set pat" "c \<notin> set x" and "find_str pat x \<noteq> None"
  then obtain i where "find_str pat x = Some i" by blast
  then have "take (length pat) (drop i x) = pat" using find_str_Some by blast
  with c show False by (metis in_set_dropD in_set_takeD)
qed

text \<open>
  No occurrence starts in a text without the marker \<open>m\<close> of the pattern when a character follows
  that the pattern does not hold up to its marker.
\<close>

lemma no_start_before:
  "m \<notin> set t \<Longrightarrow> q \<notin> set u \<Longrightarrow> m \<noteq> q \<Longrightarrow> \<not> starts_with (u @ m # w) (t @ q # r)"
proof (induction t arbitrary: u)
  case Nil
  then show ?case by (cases u) auto
next
  case (Cons c t)
  then show ?case by (cases u) auto
qed

lemma clean_before:
  assumes "m \<notin> set t" "q \<notin> set u" "m \<noteq> q" "u @ m # w = p # ps"
  shows "find_str (u @ m # w) (t @ q # r) = map_option (\<lambda>i. length t + i) (find_str (u @ m # w) (q # r))"
  using assms(1)
proof (induction t)
  case Nil
  then show ?case by (simp add: option.map_ident)
next
  case (Cons c t)
  have "\<not> starts_with (u @ m # w) (c # t @ q # r)"
    using no_start_before [of m "c # t" q u w r] Cons.prems assms(2,3) by simp
  then have "find_str (u @ m # w) ((c # t) @ q # r) = map_option Suc (find_str (u @ m # w) (t @ q # r))"
    by (subst find_str.simps) simp
  with Cons show ?case by (simp add: option.map_comp o_def)
qed

section \<open>The placeholder of a custom node\<close>

definition node_mark :: string where
  "node_mark = ''<crap-node ''"

definition type_mark :: string where
  "type_mark = ''data-type='' @ [CHR 0x22]"

definition attrs_mark :: "char \<Rightarrow> string" where
  "attrs_mark q = ''data-attrs='' @ [q]"

text \<open>The names of registered nodes hold none of the characters that markup uses.\<close>

definition plain_name :: "string \<Rightarrow> bool" where
  "plain_name t \<longleftrightarrow> list_all (\<lambda>c. c \<notin> set (''&<>='' @ [CHR 0x22, CHR 0x27])) t"

lemma plain_name_escape: "plain_name t \<Longrightarrow> html_escape_attr t = t"
  by (rule html_escape_attr_plain) (auto simp: plain_name_def list_all_iff)

lemma crap_node_parts:
  "plain_name t \<Longrightarrow> crap_node to_s t a =
     node_mark @ type_mark @ t @ CHR 0x22 # '' '' @ attrs_mark (CHR 0x27) @
     html_escape_attr (to_s a) @ CHR 0x27 # ''></crap-node>''"
  by (simp add: crap_node_def plain_name_escape node_mark_def type_mark_def attrs_mark_def)

lemma node_type_extracted:
  assumes "plain_name t"
  shows "extract_attr_value (crap_node to_s t a) ''data-type'' = Some t"
proof -
  let ?r = "'' '' @ attrs_mark (CHR 0x27) @ html_escape_attr (to_s a) @ CHR 0x27 # ''></crap-node>''"
  have "clean type_mark node_mark"
    by (intro clean_Cons | simp add: type_mark_def node_mark_def)+
  from find_clean [OF this]
  have "find_str (''data-type='' @ [CHR 0x22]) (crap_node to_s t a) = Some (length node_mark)"
    unfolding crap_node_parts [OF assms] by (simp add: type_mark_def)
  then have "split_once_str (''data-type='' @ [CHR 0x22]) (crap_node to_s t a) = Some (node_mark, t @ CHR 0x22 # ?r)"
    unfolding split_once_str_def crap_node_parts [OF assms] by (simp add: type_mark_def)
  moreover have "split_once (CHR 0x22) (t @ CHR 0x22 # ?r) = Some (t, ?r)"
    using assms by (simp add: split_once_Some plain_name_def list_all_iff) blast
  ultimately show ?thesis by (simp add: extract_attr_value_def)
qed

lemma attrs_find:
  assumes "plain_name t"
  shows "find_str (attrs_mark q) (node_mark @ type_mark @ t @ CHR 0x22 # '' '' @ r) =
    map_option (\<lambda>i. length node_mark + length type_mark + length t + 2 + i) (find_str (attrs_mark q) r)"
proof -
  have "clean (attrs_mark q) (node_mark @ type_mark)"
    by (intro clean_append; (intro clean_Cons | simp add: attrs_mark_def node_mark_def type_mark_def)+)
  moreover have "clean (attrs_mark q) (CHR 0x22 # '' '')"
    unfolding attrs_mark_def append_Cons by (rule clean_without_head) simp
  moreover have "CHR ''='' \<notin> set t" using assms by (auto simp: plain_name_def list_all_iff)
  then have "find_str (attrs_mark q) (t @ CHR 0x22 # '' '' @ r) =
      map_option (\<lambda>i. length t + i) (find_str (attrs_mark q) (CHR 0x22 # '' '' @ r))"
    using clean_before [of "CHR ''=''" t "CHR 0x22" "''data-attrs''" "[q]" "CHR ''d''" "''ata-attrs='' @ [q]" "'' '' @ r"]
    by (simp add: attrs_mark_def)
  ultimately show ?thesis
    unfolding clean_def append_assoc [symmetric] by (auto simp: option.map_comp intro!: option.map_cong)
qed

lemma node_attrs_extracted:
  assumes "plain_name t"
  shows "extract_attr_value (crap_node to_s t a) ''data-attrs'' = Some (html_escape_attr (to_s a))"
proof -
  let ?e = "html_escape_attr (to_s a)"
  let ?r = "attrs_mark (CHR 0x27) @ ?e @ CHR 0x27 # ''></crap-node>''"
  have "find_str (attrs_mark (CHR 0x22)) ?r = None"
    by (rule find_none [of "CHR 0x22"]) (auto simp: attrs_mark_def html_escape_attr_free)
  then have "find_str (attrs_mark (CHR 0x22)) (crap_node to_s t a) = None"
    unfolding crap_node_parts [OF assms] attrs_find [OF assms] by simp
  then have dq: "split_once_str (''data-attrs'' @ ''='' @ [CHR 0x22]) (crap_node to_s t a) = None"
    by (simp add: split_once_str_def attrs_mark_def)
  have "find_str (attrs_mark (CHR 0x27)) (crap_node to_s t a) =
      Some (length node_mark + length type_mark + length t + 2)"
    unfolding crap_node_parts [OF assms] attrs_find [OF assms] using find_here by simp
  then have "split_once_str (''data-attrs'' @ ''='' @ [CHR 0x27]) (crap_node to_s t a) =
      Some (take (length node_mark + length type_mark + length t + 2) (crap_node to_s t a), ?e @ CHR 0x27 # ''></crap-node>'')"
    unfolding split_once_str_def crap_node_parts [OF assms] by (simp add: attrs_mark_def)
  moreover have "split_once (CHR 0x27) (?e @ CHR 0x27 # ''></crap-node>'') = Some (?e, ''></crap-node>'')"
    by (simp add: split_once_Some html_escape_attr_free)
  ultimately show ?thesis using dq by (simp add: extract_attr_value_def)
qed

lemma clean_slash: "CHR ''>'' \<notin> set x \<Longrightarrow> x = [] \<or> last x \<noteq> CHR ''/'' \<Longrightarrow> clean ''/>'' x"
proof (induction x)
  case (Cons c x)
  then show ?case by (cases x) (auto intro!: clean_Cons)
qed simp

lemma tag_end_crap: "tag_end (crap_node to_s t a @ s) = Some (length (crap_node to_s t a))"
proof -
  let ?body = "''<crap-node data-type='' @ [CHR 0x22] @ html_escape_attr t @ [CHR 0x22] @ '' data-attrs='' @ [CHR 0x27] @
     html_escape_attr (to_s a) @ [CHR 0x27]"
  have split: "crap_node to_s t a = (?body @ ''>'') @ ''</crap-node>''"
    by (simp add: crap_node_def)
  have "clean ''</crap-node>'' (?body @ ''>'')"
    unfolding append_Cons by (rule clean_Cons) (auto intro!: clean_without_head simp: html_escape_attr_free)
  from find_clean [OF this, of s] have et: "find_str ''</crap-node>'' (crap_node to_s t a @ s) = Some (length (?body @ ''>''))"
    unfolding split by simp
  have body: "clean ''/>'' ?body" by (rule clean_slash) (auto simp: html_escape_attr_free)
  have gt: "clean ''/>'' ''>''" and close: "clean ''/>'' ''</crap-node''" by (auto intro!: clean_Cons)
  have "clean ''/>'' (?body @ ''>'' @ ''</crap-node'' @ ''>'')"
    by (rule clean_append [OF body clean_append [OF gt clean_append [OF close gt]]])
  then have "clean ''/>'' (crap_node to_s t a)" unfolding split by simp
  then have sc: "find_str ''/>'' (crap_node to_s t a @ s) = map_option ((+) (length (crap_node to_s t a))) (find_str ''/>'' s)"
    by (simp add: clean_def)
  have "length (crap_node to_s t a) = length (?body @ ''>'') + 12" unfolding split by simp
  then show ?thesis unfolding tag_end_def et sc by (simp split: option.split)
qed

section \<open>Unescaping\<close>

text \<open>Pieces that the replacement of a pattern leaves alone, whatever follows.\<close>

definition opaque :: "string \<Rightarrow> string \<Rightarrow> bool" where
  "opaque pat x \<longleftrightarrow> (\<forall>w s. replace_str pat w (x @ s) = x @ replace_str pat w s)"

lemma replace_pieces:
  assumes "\<And>c. c \<in> set s \<Longrightarrow> opaque pat (f c) \<or> f c = pat" "pat \<noteq> []"
  shows "replace_str pat w (concat (map f s)) = concat (map (\<lambda>c. if f c = pat then w else f c) s)"
  using assms(1)
proof (induction s)
  case (Cons c s)
  have hit: "replace_str pat w (pat @ r) = w @ replace_str pat w r" for r
    using assms(2) by (cases pat) (auto simp: starts_with_iff)
  have "replace_str pat w (concat (map f s)) = concat (map (\<lambda>c. if f c = pat then w else f c) s)"
    using Cons by simp
  moreover have "opaque pat (f c) \<or> f c = pat" using Cons.prems by simp
  ultimately show ?case
  proof (cases "f c = pat")
    case False
    with \<open>opaque pat (f c) \<or> f c = pat\<close> Cons show ?thesis by (simp add: opaque_def)
  next
    case True
    with Cons hit show ?thesis by simp
  qed
qed simp

lemma opaque_entity:
  "opaque ''&quot;'' ''&#39;''" "opaque ''&#39;'' ''&lt;''" "opaque ''&#39;'' ''&gt;''" "opaque ''&#39;'' ''&quot;''"
  "opaque ''&amp;'' ''&lt;''" "opaque ''&amp;'' ''&gt;''" "opaque ''&amp;'' ''&quot;''"
  "opaque ''&lt;'' ''&gt;''" "opaque ''&lt;'' ''&quot;''" "opaque ''&gt;'' ''&quot;''"
  by (simp_all add: opaque_def)

lemma opaque_char: "c \<noteq> CHR ''&'' \<Longrightarrow> opaque (CHR ''&'' # p) [c]"
  by (simp add: opaque_def)

definition escape_char :: "char \<Rightarrow> string" where
  "escape_char c = (if c = CHR ''<'' then ''&lt;'' else if c = CHR ''>'' then ''&gt;''
     else if c = CHR 0x22 then ''&quot;'' else if c = CHR 0x27 then ''&#39;'' else [c])"

lemma html_escape_attr_chars: "CHR ''&'' \<notin> set s \<Longrightarrow> html_escape_attr s = concat (map escape_char s)"
  by (induction s) (auto simp: html_escape_attr_def replace_char_Cons escape_char_def)

lemma unescape_escape:
  assumes "CHR ''&'' \<notin> set s"
  shows "unescape_attrs (html_escape_attr s) = s"
proof -
  define f1 where "f1 c = (if escape_char c = ''&#39;'' then [CHR 0x27] else escape_char c)" for c
  define f2 where "f2 c = (if f1 c = ''&amp;'' then ''&'' else f1 c)" for c
  define f3 where "f3 c = (if f2 c = ''&lt;'' then ''<'' else f2 c)" for c
  define f4 where "f4 c = (if f3 c = ''&gt;'' then ''>'' else f3 c)" for c
  have fs: "f1 c = (if c = CHR ''<'' then ''&lt;'' else if c = CHR ''>'' then ''&gt;'' else if c = CHR 0x22 then ''&quot;'' else [c])"
    "f2 c = f1 c"
    "f3 c = (if c = CHR ''>'' then ''&gt;'' else if c = CHR 0x22 then ''&quot;'' else [c])"
    "f4 c = (if c = CHR 0x22 then ''&quot;'' else [c])" for c
    by (simp_all add: f1_def f2_def f3_def f4_def escape_char_def)
  have c: "c \<noteq> CHR ''&''" if "c \<in> set s" for c using that assms by blast
  have "replace_str ''&#39;'' [CHR 0x27] (concat (map escape_char s)) = concat (map f1 s)"
    unfolding f1_def by (rule replace_pieces) (auto simp: escape_char_def opaque_entity opaque_char c)
  moreover have "replace_str ''&amp;'' ''&'' (concat (map f1 s)) = concat (map f2 s)"
    unfolding f2_def by (rule replace_pieces) (auto simp: fs opaque_entity opaque_char c)
  moreover have "replace_str ''&lt;'' ''<'' (concat (map f2 s)) = concat (map f3 s)"
    unfolding f3_def by (rule replace_pieces) (auto simp: fs opaque_entity opaque_char c)
  moreover have "replace_str ''&gt;'' ''>'' (concat (map f3 s)) = concat (map f4 s)"
    unfolding f4_def by (rule replace_pieces) (auto simp: fs opaque_entity opaque_char c)
  moreover have "replace_str ''&quot;'' [CHR 0x22] (concat (map f4 s)) = concat (map (\<lambda>c. if f4 c = ''&quot;'' then [CHR 0x22] else f4 c) s)"
    by (rule replace_pieces) (auto simp: fs opaque_entity opaque_char c)
  moreover have "concat (map (\<lambda>c. if f4 c = ''&quot;'' then [CHR 0x22] else f4 c) s) = s"
    by (induction s) (auto simp: fs)
  ultimately show ?thesis
    unfolding unescape_attrs_def html_escape_attr_chars [OF assms] by simp
qed

text \<open>With an ampersand the way back goes too far: the entities of the text itself are replaced too.\<close>

lemma unescape_goes_too_far:
  "unescape_attrs (html_escape_attr ''&lt;'') = ''<''" "unescape_attrs (html_escape_attr ''&quot;'') = [CHR 0x22]"
  by code_simp+

section \<open>Rendering in two passes\<close>

lemma render_clean:
  assumes "clean node_mark x"
  shows "render_html_custom_nodes parse cust (x @ s) = x @ render_html_custom_nodes parse cust s"
proof -
  have f: "find_str ''<crap-node '' (x @ s) = map_option ((+) (length x)) (find_str ''<crap-node '' s)"
    using assms by (simp add: clean_def node_mark_def)
  show ?thesis
    unfolding render_html_custom_nodes.simps [of _ _ "x @ s"] render_html_custom_nodes.simps [of _ _ s] f
    by (simp split: option.split)
qed

definition faithful_node ::
  "(string \<Rightarrow> json_value option) \<Rightarrow> (json_value \<Rightarrow> string) \<Rightarrow> string \<times> json_value \<Rightarrow> bool" where
  "faithful_node parse to_s ta = (case ta of (t, a) \<Rightarrow>
     plain_name t \<and> CHR ''&'' \<notin> set (to_s a) \<and> parse (to_s a) = Some a)"

lemma render_crap_node:
  assumes "faithful_node parse to_s (t, a)"
  shows "render_html_custom_nodes parse cust (crap_node to_s t a @ s) =
    render_custom to_s cust t a @ render_html_custom_nodes parse cust s"
proof -
  have plain: "plain_name t" using assms by (simp add: faithful_node_def)
  have "find_str ''<crap-node '' (crap_node to_s t a @ s) = Some 0"
    unfolding crap_node_parts [OF plain] append_assoc using find_here [of "''<crap-node ''"] by (simp add: node_mark_def)
  moreover have "replace_tag parse cust (crap_node to_s t a) = render_custom to_s cust t a"
    using assms by (simp add: replace_tag_def node_type_extracted node_attrs_extracted faithful_node_def unescape_escape
        render_custom_def)
  ultimately show ?thesis
    by (subst render_html_custom_nodes.simps) (simp add: tag_end_crap)
qed

fun holes :: "html \<Rightarrow> (string \<times> json_value) list" where
  "holes (Chars s) = []"
| "holes (Void t) = []"
| "holes (Elem t name hs) = concat (map holes hs)"
| "holes (Hole t attrs) = [(t, attrs)]"

lemma clean_tag:
  "CHR ''<'' \<notin> set t \<Longrightarrow> (\<And>s. \<not> starts_with ''crap-node '' (t @ ''>'' @ s)) \<Longrightarrow> clean node_mark (''<'' @ t @ ''>'')"
  unfolding node_mark_def append_Cons append_Nil by (rule clean_Cons) (auto intro!: clean_without_head)

lemma clean_tags:
  "t \<in> set void_tags \<Longrightarrow> clean node_mark (''<'' @ t @ ''>'')"
  "t \<in> set element_names \<Longrightarrow> clean node_mark (''<'' @ t @ ''>'')"
  "t \<in> set element_names \<Longrightarrow> clean node_mark (''</'' @ t @ ''>'')"
  "link_elem t name \<Longrightarrow> clean node_mark (''<'' @ t @ ''>'')"
  "link_elem t name \<Longrightarrow> clean node_mark (''</'' @ name @ ''>'')"
proof -
  show "clean node_mark (''<'' @ t @ ''>'')" if "t \<in> set void_tags"
    using that by (intro clean_tag) (auto simp: void_tags_def)
  show "clean node_mark (''<'' @ t @ ''>'')" if "t \<in> set element_names"
    using that by (intro clean_tag) (auto simp: element_names_def)
  show "clean node_mark (''</'' @ t @ ''>'')" if "t \<in> set element_names"
    using that clean_tag [of "''/'' @ t"] by (auto simp: element_names_def)
  show "clean node_mark (''<'' @ t @ ''>'')" if "link_elem t name"
    using that by (intro clean_tag) (auto simp: link_elem_def html_escape_attr_free)
  show "clean node_mark (''</'' @ name @ ''>'')" if "link_elem t name"
    using that clean_tag [of "''/'' @ name"] by (auto simp: link_elem_def)
qed

lemma two_passes_tree:
  assumes "ok_html h" "\<And>p. p \<in> set (holes h) \<Longrightarrow> faithful_node parse to_s p"
  shows "render_html_custom_nodes parse cust (show_html (crap_node to_s) h @ s) =
    show_html (render_custom to_s cust) h @ render_html_custom_nodes parse cust s"
  using assms
proof (induction h arbitrary: s)
  case (Chars x)
  have "clean node_mark (html_escape x)"
    unfolding node_mark_def by (rule clean_without_head) (rule html_escape_free)
  then show ?case by (simp add: render_clean)
next
  case (Void t)
  then show ?case using render_clean [OF clean_tags(1)] by simp
next
  case (Elem t name hs)
  have tags: "clean node_mark (''<'' @ t @ ''>'')" "clean node_mark (''</'' @ name @ ''>'')"
    using Elem.prems(1) clean_tags(2-5) by auto
  have kids: "render_html_custom_nodes parse cust (concat (map (show_html (crap_node to_s)) hs) @ r) =
      concat (map (show_html (render_custom to_s cust)) hs) @ render_html_custom_nodes parse cust r" for r
    using Elem by (induction hs) auto
  have "show_html (crap_node to_s) (Elem t name hs) @ s =
      (''<'' @ t @ ''>'') @ concat (map (show_html (crap_node to_s)) hs) @ (''</'' @ name @ ''>'') @ s"
    by simp
  then have "render_html_custom_nodes parse cust (show_html (crap_node to_s) (Elem t name hs) @ s) =
      (''<'' @ t @ ''>'') @ concat (map (show_html (render_custom to_s cust)) hs) @
      (''</'' @ name @ ''>'') @ render_html_custom_nodes parse cust s"
    by (simp only: render_clean [OF tags(1)] kids render_clean [OF tags(2)])
  then show ?case by simp
next
  case (Hole t a)
  then show ?case using render_crap_node by simp
qed

definition document_nodes :: "json_value \<Rightarrow> (string \<times> json_value) list" where
  "document_nodes v = concat (map holes (html_of v))"


text \<open>A call to action whose label holds angle brackets and an apostrophe.\<close>

definition cta_attrs :: json_value where
  "cta_attrs = JObject [(''label'', JString (''<b>it'' @ [CHR 0x27] @ ''s''))]"

definition cta_text :: string where
  "cta_text = ''{'' @ [CHR 0x22] @ ''label'' @ [CHR 0x22] @ '':'' @ [CHR 0x22] @ ''<b>it'' @ [CHR 0x27] @ ''s'' @ [CHR 0x22] @ ''}''"

definition cta_document :: json_value where
  "cta_document = JObject [(''type'', JString ''doc''), (''content'', JArray
     [JObject [(''type'', JString ''text''), (''text'', JString ''<crap-node '')],
      JObject [(''type'', JString ''cta''), (''attrs'', cta_attrs)]])]"


text \<open>
  With an ampersand the attributes are lost: the label \<open>&quot;\<close> comes back as a quotation mark, and
  the text is no longer the JSON that was written.
\<close>

lemma ampersand_changes_attributes:
  "Option.bind (extract_attr_value (crap_node (\<lambda>a. ''&quot;'') ''cta'' cta_attrs) ''data-attrs'')
     (\<lambda>s. Some (unescape_attrs s)) = Some [CHR 0x22]"
  by code_simp

text \<open>
  Validation reads the attributes of a node in HTML without unescaping them
  (\<open>extract_nodes_from_html\<close>): of the placeholder that rendering and the before-validate hooks
  write, it sees no attribute at all.
\<close>

lemma validation_loses_attributes:
  "map ni_attrs (extract_nodes_from_html
     \<lparr>ve_parse_json = (\<lambda>s. if s = cta_text then Some cta_attrs else None), ve_display = (\<lambda>v. []),
      ve_dates = no_dates, ve_validate = (\<lambda>ref v d c f. Inr None)\<rparr>
     {''cta''} (crap_node (\<lambda>a. cta_text) ''cta'' cta_attrs)) = [[]]"
  by code_simp

end
