(* ===== verification/WriteColumns.thy ===== *)
theory WriteColumns
  imports AuthStore ValidationChecks
begin

text \<open>
  The columns a create or an update writes and the columns a read selects (src/src/db/query/helpers.rs,
  locale.rs, write/create.rs, write/update.rs, read/find_by_id.rs): the value a column gets for a JSON
  value, the walk over the fields, the columns of a locale, and the statements on the rows of a collection.
\<close>

section \<open>Column values\<close>

text \<open>
  The time zones of chrono-tz: whether a zone is known, and the UTC text of a local date (at noon),
  minute or second; the outer option is whether the text has the format, the inner whether the zone
  has such a local time.
\<close>

record tz_library =
  tl_known :: "string \<Rightarrow> bool"
  tl_date :: "string \<Rightarrow> string \<Rightarrow> string option option"
  tl_minutes :: "string \<Rightarrow> string \<Rightarrow> string option option"
  tl_seconds :: "string \<Rightarrow> string \<Rightarrow> string option option"

record write_env =
  we_dates :: date_library
  we_zones :: tz_library
  we_display :: "json_value \<Rightarrow> string"
  we_parse :: "string \<Rightarrow> json_value option"

definition coerce_value :: "write_env \<Rightarrow> field_type \<Rightarrow> string \<Rightarrow> db_value" where
  "coerce_value env ft v =
     (if v = [] \<and> ft \<noteq> Checkbox then DNull
      else (case ft of
              Checkbox \<Rightarrow> DInteger (if v \<in> {''on'', ''true'', ''1'', ''yes''} then 1 else 0)
            | Number \<Rightarrow> (case parse_f64 v of Some (Finite q) \<Rightarrow> DReal q | _ \<Rightarrow> DNull)
            | Date \<Rightarrow> DText (normalize_date_value (we_dates env) v)
            | _ \<Rightarrow> DText v))"

definition coerce_json_value :: "write_env \<Rightarrow> field_type \<Rightarrow> json_value \<Rightarrow> db_value" where
  "coerce_json_value env ft v =
     (case (ft, v) of
        (Number, JNumber n) \<Rightarrow> (case as_f64 n of Finite q \<Rightarrow> DReal q | _ \<Rightarrow> DReal 0)
      | (Checkbox, JBool b) \<Rightarrow> DInteger (if b then 1 else 0)
      | _ \<Rightarrow>
          (case v of
             JNull \<Rightarrow> DNull
           | JString s \<Rightarrow> coerce_value env ft s
           | JBool b \<Rightarrow> coerce_value env ft (if b then ''true'' else ''false'')
           | _ \<Rightarrow> coerce_value env ft (we_display env v)))"

text \<open>\<open>None\<close> is an error.\<close>

definition normalize_date_with_timezone :: "write_env \<Rightarrow> string \<Rightarrow> string \<Rightarrow> string option" where
  "normalize_date_with_timezone env v tz =
     (let zones = we_zones env; trimmed = trim v
      in if \<not> tl_known zones tz then None
         else (case if length trimmed = 10 then tl_date zones tz trimmed else None of
                 Some utc \<Rightarrow> utc
               | None \<Rightarrow>
                   (case tl_minutes zones tz trimmed of
                      Some utc \<Rightarrow> utc
                    | None \<Rightarrow>
                        (case tl_seconds zones tz trimmed of
                           Some utc \<Rightarrow> utc
                         | None \<Rightarrow> Some (normalize_date_value (we_dates env) v)))))"

definition coerce_date_value :: "write_env \<Rightarrow> field_type \<Rightarrow> string \<Rightarrow> string option \<Rightarrow> db_value" where
  "coerce_date_value env ft v tz =
     (case tz of
        Some z \<Rightarrow>
          if z \<noteq> [] \<and> ft = Date
          then (if v = [] then DNull
                else (case normalize_date_with_timezone env v z of Some s \<Rightarrow> DText s | None \<Rightarrow> coerce_value env ft v))
          else coerce_value env ft v
      | None \<Rightarrow> coerce_value env ft v)"

definition coerce_date_value_json :: "write_env \<Rightarrow> field_type \<Rightarrow> json_value \<Rightarrow> string option \<Rightarrow> db_value" where
  "coerce_date_value_json env ft v tz =
     (case v of JString s \<Rightarrow> coerce_date_value env ft s tz | _ \<Rightarrow> coerce_json_value env ft v)"

definition validate_no_null_byte :: "field_type \<Rightarrow> string \<Rightarrow> bool" where
  "validate_no_null_byte ft v \<longleftrightarrow> ft \<notin> {Text, Textarea, Email} \<or> \<not> list_ex (\<lambda>c. char_code c = 0) v"

definition validate_no_null_byte_json :: "field_type \<Rightarrow> json_value \<Rightarrow> bool" where
  "validate_no_null_byte_json ft v \<longleftrightarrow> (case v of JString s \<Rightarrow> validate_no_null_byte ft s | _ \<Rightarrow> True)"

section \<open>The walk over the fields\<close>

fun walk_leaf_fields :: "field_definition list \<Rightarrow> string \<Rightarrow> bool \<Rightarrow> (field_attrs \<times> string \<times> bool) list"
  and walk_leaf_tabs :: "field_tab list \<Rightarrow> string \<Rightarrow> bool \<Rightarrow> (field_attrs \<times> string \<times> bool) list"
where
  "walk_leaf_fields [] pre inherited = []"
| "walk_leaf_fields (FieldDefinition a sub tabs blocks # fs) pre inherited =
     (case fa_type a of
        Group \<Rightarrow> walk_leaf_fields sub (prefixed_name pre (fa_name a)) (inherited \<or> fa_localized a)
      | Row \<Rightarrow> walk_leaf_fields sub pre inherited
      | Collapsible \<Rightarrow> walk_leaf_fields sub pre inherited
      | Tabs \<Rightarrow> walk_leaf_tabs tabs pre inherited
      | _ \<Rightarrow> [(a, pre, inherited)]) @ walk_leaf_fields fs pre inherited"
| "walk_leaf_tabs [] pre inherited = []"
| "walk_leaf_tabs (FieldTab l sub # ts) pre inherited =
     walk_leaf_fields sub pre inherited @ walk_leaf_tabs ts pre inherited"

datatype write_error =
    InvalidLocale string
  | ControlCharacters string
  | DocumentNotFound string
  | NotFoundAfterUpdate string
  | NotFoundAfterCreate string

type_synonym assignments = "(string \<times> db_value) list"

fun collect_all :: "('a \<Rightarrow> 'e + 'b list) \<Rightarrow> 'a list \<Rightarrow> 'e + 'b list" where
  "collect_all f [] = Inr []"
| "collect_all f (x # xs) = bindE (f x) (\<lambda>ys. bindE (collect_all f xs) (\<lambda>zs. Inr (ys @ zs)))"

text \<open>The value of a present field and, for a date with a time zone, the zone's column.\<close>

definition leaf_values ::
  "write_env \<Rightarrow> locale_context option \<Rightarrow> document_fields \<Rightarrow> field_attrs \<Rightarrow> string \<Rightarrow> bool \<Rightarrow> string \<Rightarrow> json_value
   \<Rightarrow> write_error + assignments" where
  "leaf_values env locale_ctx data a key inherited col v =
     (if \<not> validate_no_null_byte_json (fa_type a) v then Inl (ControlCharacters key)
      else if fa_type a = Date \<and> fa_timezone a
      then (let tk = tz_column key; tz = Option.bind (map_of data tk) as_json_str
            in case locale_write_column tk a locale_ctx inherited of
                 None \<Rightarrow> Inl (InvalidLocale tk)
               | Some tz_col \<Rightarrow>
                   Inr [(col, coerce_date_value_json env (fa_type a) v tz),
                        (tz_col, if unwrap_or [] tz = [] then DNull else DText (unwrap_or [] tz))])
      else Inr [(col, coerce_json_value env (fa_type a) v)])"

definition collect_leaf_update ::
  "write_env \<Rightarrow> locale_context option \<Rightarrow> bool \<Rightarrow> document_fields \<Rightarrow> field_attrs \<times> string \<times> bool
   \<Rightarrow> write_error + assignments" where
  "collect_leaf_update env locale_ctx skip_absent_checkboxes data leaf =
     (case leaf of (a, pre, inherited) \<Rightarrow>
       if \<not> attrs_has_parent_column a then Inr []
       else (let key = prefixed_name pre (fa_name a)
             in case locale_write_column key a locale_ctx inherited of
                  None \<Rightarrow> Inl (InvalidLocale key)
                | Some col \<Rightarrow>
                    (case map_of data key of
                       None \<Rightarrow> Inr (if fa_type a = Checkbox \<and> \<not> skip_absent_checkboxes then [(col, DInteger 0)] else [])
                     | Some v \<Rightarrow> leaf_values env locale_ctx data a key inherited col v)))"

definition collect_leaf_param ::
  "write_env \<Rightarrow> locale_context option \<Rightarrow> document_fields \<Rightarrow> field_attrs \<times> string \<times> bool \<Rightarrow> write_error + assignments" where
  "collect_leaf_param env locale_ctx data leaf =
     (case leaf of (a, pre, inherited) \<Rightarrow>
       if \<not> attrs_has_parent_column a then Inr []
       else (let key = prefixed_name pre (fa_name a)
             in case locale_write_column key a locale_ctx inherited of
                  None \<Rightarrow> Inl (InvalidLocale key)
                | Some col \<Rightarrow>
                    (case map_of data key of
                       None \<Rightarrow> Inr (if fa_type a = Checkbox then [(col, DInteger 0)] else [])
                     | Some v \<Rightarrow> leaf_values env locale_ctx data a key inherited col v)))"

definition collect_update_params ::
  "write_env \<Rightarrow> locale_context option \<Rightarrow> bool \<Rightarrow> field_definition list \<Rightarrow> document_fields \<Rightarrow> write_error + assignments" where
  "collect_update_params env locale_ctx skip fds data =
     collect_all (collect_leaf_update env locale_ctx skip data) (walk_leaf_fields fds [] False)"

definition collect_insert_params ::
  "write_env \<Rightarrow> locale_context option \<Rightarrow> field_definition list \<Rightarrow> document_fields \<Rightarrow> write_error + assignments" where
  "collect_insert_params env locale_ctx fds data =
     collect_all (collect_leaf_param env locale_ctx data) (walk_leaf_fields fds [] False)"

section \<open>Reading a row\<close>

definition json_put :: "string \<Rightarrow> json_value \<Rightarrow> document_fields \<Rightarrow> document_fields" where
  "json_put k v ms = (k, v) # filter (\<lambda>(k', w). k' \<noteq> k) ms"

definition json_remove :: "string \<Rightarrow> document_fields \<Rightarrow> document_fields" where
  "json_remove k ms = filter (\<lambda>(k', v). k' \<noteq> k) ms"

text \<open>
  A selected expression is the name of its result and the columns it is the \<open>COALESCE\<close> of (src/src/db/query/locale.rs,
  read/find_by_id.rs).
\<close>

type_synonym select_expr = "string \<times> string list"

definition add_locale_columns :: "locale_context \<Rightarrow> string \<Rightarrow> write_error + select_expr list" where
  "add_locale_columns ctx field_name =
     (let cfg = lx_config ctx; column_of = (\<lambda>l. case locale_column field_name l of None \<Rightarrow> Inl (InvalidLocale field_name) | Some c \<Rightarrow> Inr c)
      in case lx_mode ctx of
           Default \<Rightarrow> bindE (column_of (lc_default_locale cfg)) (\<lambda>c. Inr [(field_name, [c])])
         | Single req \<Rightarrow>
             bindE (column_of (if req \<in> set (lc_locales cfg) then req else lc_default_locale cfg)) (\<lambda>req_col.
               bindE (column_of (lc_default_locale cfg)) (\<lambda>default_col.
                 Inr [(field_name, if lc_fallback cfg \<and> req_col \<noteq> default_col then [req_col, default_col] else [req_col])]))
         | All \<Rightarrow> collect_all (\<lambda>l. bindE (column_of l) (\<lambda>c. Inr [(c, [c])])) (lc_locales cfg))"

definition push_column :: "locale_context \<Rightarrow> bool \<Rightarrow> string \<Rightarrow> write_error + select_expr list" where
  "push_column ctx is_localized col = (if is_localized then add_locale_columns ctx col else Inr [(col, [col])])"

definition leaf_select :: "locale_context \<Rightarrow> field_attrs \<times> string \<times> bool \<Rightarrow> write_error + select_expr list" where
  "leaf_select ctx leaf =
     (case leaf of (a, pre, inherited) \<Rightarrow>
       if \<not> attrs_has_parent_column a then Inr []
       else (let base = prefixed_name pre (fa_name a); is_localized = (inherited \<or> fa_localized a) \<and> is_enabled (lx_config ctx)
             in bindE (push_column ctx is_localized base) (\<lambda>cs.
                  bindE (if fa_type a = Date \<and> fa_timezone a then push_column ctx is_localized (tz_column base) else Inr [])
                    (\<lambda>tz. Inr (cs @ tz)))))"

definition get_locale_select_columns_full :: "auth_collection \<Rightarrow> locale_context \<Rightarrow> write_error + select_expr list" where
  "get_locale_select_columns_full def ctx =
     bindE (collect_all (leaf_select ctx) (walk_leaf_fields (ci_fields def) [] False)) (\<lambda>cs.
       Inr (map (\<lambda>c. (c, [c])) [''id''] @ cs
         @ map (\<lambda>c. (c, [c]))
             ((if ci_has_drafts def then [''_status''] else [])
              @ (if ac_soft_delete def then [''_deleted_at''] else [])
              @ (if ci_timestamps def then [''created_at'', ''updated_at''] else []))))"

definition locale_enabled :: "locale_context option \<Rightarrow> locale_context option" where
  "locale_enabled lx = (case lx of Some ctx \<Rightarrow> if is_enabled (lx_config ctx) then Some ctx else None | None \<Rightarrow> None)"

definition select_columns :: "auth_collection \<Rightarrow> locale_context option \<Rightarrow> write_error + select_expr list" where
  "select_columns def lx =
     (case locale_enabled lx of
        Some ctx \<Rightarrow> get_locale_select_columns_full def ctx
      | None \<Rightarrow> Inr (map (\<lambda>c. (c, [c])) (get_column_names def)))"

fun coalesce :: "db_value list \<Rightarrow> db_value" where
  "coalesce [] = DNull"
| "coalesce (v # vs) = (if v = DNull then coalesce vs else v)"

definition selected_value :: "find_row \<Rightarrow> select_expr \<Rightarrow> string \<times> db_value" where
  "selected_value r e = (fst e, coalesce (map (column r) (snd e)))"

text \<open>The values of a field in each locale, taken out of the document one after the other.\<close>

fun take_locales :: "(string \<times> string) list \<Rightarrow> document_fields \<Rightarrow> document_fields \<times> document_fields" where
  "take_locales [] ms = ([], ms)"
| "take_locales ((l, c) # cs) ms =
     (case map_of ms c of
        None \<Rightarrow> take_locales cs ms
      | Some v \<Rightarrow> (case take_locales cs (json_remove c ms) of (found, rest) \<Rightarrow> ((l, v) # found, rest)))"

definition group_leaf :: "locale_config \<Rightarrow> field_attrs \<times> string \<times> bool \<Rightarrow> document_fields \<Rightarrow> write_error + document_fields" where
  "group_leaf cfg leaf ms =
     (case leaf of (a, pre, inherited) \<Rightarrow>
       if \<not> attrs_has_parent_column a \<or> \<not> ((inherited \<or> fa_localized a) \<and> is_enabled cfg) then Inr ms
       else (let base = prefixed_name pre (fa_name a)
             in bindE (collect_all (\<lambda>l. case locale_column base l of None \<Rightarrow> Inl (InvalidLocale base) | Some c \<Rightarrow> Inr [(l, c)]) (lc_locales cfg))
                  (\<lambda>cols. case take_locales cols ms of
                     (found, rest) \<Rightarrow> Inr (if found = [] then rest else json_put base (JObject found) rest))))"

fun fold_all :: "('a \<Rightarrow> 's \<Rightarrow> 'e + 's) \<Rightarrow> 'a list \<Rightarrow> 's \<Rightarrow> 'e + 's" where
  "fold_all f [] s = Inr s"
| "fold_all f (x # xs) s = bindE (f x s) (fold_all f xs)"

definition group_locale_fields :: "locale_config \<Rightarrow> field_definition list \<Rightarrow> document_fields \<Rightarrow> write_error + document_fields" where
  "group_locale_fields cfg fds ms = fold_all (group_leaf cfg) (walk_leaf_fields fds [] False) ms"

definition raw_document ::
  "(string \<Rightarrow> string) \<Rightarrow> auth_collection \<Rightarrow> locale_context option \<Rightarrow> select_expr list \<Rightarrow> find_row \<Rightarrow> write_error + document" where
  "raw_document base64 def lx cols r =
     (let d = row_to_document base64 None
                \<lparr>fr_id = fr_id r, fr_cols = map (selected_value r) (filter (\<lambda>e. fst e \<noteq> ''id'') cols)\<rparr>
      in case locale_enabled lx of
           Some ctx \<Rightarrow>
             if lx_mode ctx = All
             then bindE (group_locale_fields (lx_config ctx) (ci_fields def) (doc_fields d)) (\<lambda>ms. Inr (d\<lparr>doc_fields := ms\<rparr>))
             else Inr d
         | None \<Rightarrow> Inr d)"

definition is_deleted :: "auth_collection \<Rightarrow> find_row \<Rightarrow> bool" where
  "is_deleted def r \<longleftrightarrow> ac_soft_delete def \<and> column r ''_deleted_at'' \<noteq> DNull"

definition find_by_id_raw ::
  "(string \<Rightarrow> string) \<Rightarrow> auth_collection \<Rightarrow> locale_context option \<Rightarrow> bool \<Rightarrow> string \<Rightarrow> find_row list \<Rightarrow> write_error + document option" where
  "find_by_id_raw base64 def lx include_deleted i t =
     bindE (select_columns def lx) (\<lambda>cols.
       case find (\<lambda>r. fr_id r = i \<and> (include_deleted \<or> \<not> is_deleted def r)) t of
         None \<Rightarrow> Inr None
       | Some r \<Rightarrow> bindE (raw_document base64 def lx cols r) (\<lambda>d. Inr (Some d)))"

definition found_document :: "write_error \<Rightarrow> write_error + document option \<Rightarrow> write_error + document" where
  "found_document missing found = bindE found (\<lambda>d. case d of None \<Rightarrow> Inl missing | Some d \<Rightarrow> Inr d)"

section \<open>The statements\<close>

definition set_columns :: "assignments \<Rightarrow> find_row \<Rightarrow> find_row" where
  "set_columns sets r = r\<lparr>fr_cols := rev sets @ fr_cols r\<rparr>"

definition update_inner ::
  "write_env \<Rightarrow> (string \<Rightarrow> string) \<Rightarrow> string \<Rightarrow> auth_collection \<Rightarrow> locale_context option \<Rightarrow> bool \<Rightarrow> string \<Rightarrow> document_fields
   \<Rightarrow> find_row list \<Rightarrow> write_error + find_row list \<times> document" where
  "update_inner env base64 now def locale_ctx skip i data t =
     bindE (collect_update_params env locale_ctx skip (ci_fields def) data) (\<lambda>sets.
       let sets' = sets @ (if ci_timestamps def then [(''updated_at'', DText now)] else [])
       in if sets' = []
          then bindE (found_document (DocumentNotFound i) (find_by_id_raw base64 def locale_ctx False i t)) (\<lambda>d. Inr (t, d))
          else if \<not> list_ex (\<lambda>r. fr_id r = i) t then Inl (DocumentNotFound i)
          else (let t' = update_where (\<lambda>r. fr_id r = i) (set_columns sets') t
                in bindE (found_document (NotFoundAfterUpdate i) (find_by_id_raw base64 def locale_ctx False i t')) (\<lambda>d. Inr (t', d))))"

text \<open>The new row has a fresh id; its status column has a default.\<close>

definition create ::
  "write_env \<Rightarrow> (string \<Rightarrow> string) \<Rightarrow> string \<Rightarrow> auth_collection \<Rightarrow> locale_context option \<Rightarrow> string \<Rightarrow> document_fields
   \<Rightarrow> find_row list \<Rightarrow> write_error + find_row list \<times> document" where
  "create env base64 now def locale_ctx i data t =
     bindE (collect_insert_params env locale_ctx (ci_fields def) data) (\<lambda>sets.
       let r = \<lparr>fr_id = i,
                fr_cols = sets @ (if ci_timestamps def then [(''created_at'', DText now), (''updated_at'', DText now)] else [])
                          @ (if ci_has_drafts def then [(''_status'', DText ''published'')] else [])\<rparr>
       in bindE (found_document (NotFoundAfterCreate i) (find_by_id_raw base64 def locale_ctx False i (t @ [r])))
            (\<lambda>d. Inr (t @ [r], d)))"

section \<open>What the writes do\<close>

text \<open>A create writes what a full update would write.\<close>

lemma leaf_param_update: "collect_leaf_param env locale_ctx data leaf = collect_leaf_update env locale_ctx False data leaf"
  by (cases leaf) (simp add: collect_leaf_param_def collect_leaf_update_def Let_def cong: option.case_cong if_cong)

lemma insert_params_update: "collect_insert_params env locale_ctx fds data = collect_update_params env locale_ctx False fds data"
  by (simp add: collect_insert_params_def collect_update_params_def leaf_param_update [abs_def])

lemma collect_all_Inr:
  "collect_all f xs = Inr ys \<Longrightarrow> x \<in> set xs \<Longrightarrow> \<exists>zs. f x = Inr zs \<and> set zs \<subseteq> set ys"
  by (induction xs arbitrary: ys) (fastforce simp: bindE_Inr_iff)+

lemma collect_all_set:
  "collect_all f xs = Inr ys \<Longrightarrow> y \<in> set ys \<Longrightarrow> \<exists>x \<in> set xs. \<exists>zs. f x = Inr zs \<and> y \<in> set zs"
  by (induction xs arbitrary: ys) (fastforce simp: bindE_Inr_iff)+

lemma column_set_columns:
  "c \<noteq> ''id'' \<Longrightarrow> column (set_columns sets r) c = (case map_of (rev sets) c of None \<Rightarrow> column r c | Some v \<Rightarrow> v)"
  by (simp add: column_def set_columns_def map_add_def split: option.split)

lemma fr_id_set_columns [simp]: "fr_id (set_columns sets r) = fr_id r"
  by (simp add: set_columns_def)

text \<open>
  A required number with a text that is no number passes validation and is stored as NULL.
\<close>

lemma required_number_stored_null:
  "check_required venv ((new_attrs ''price'' Number)\<lparr>fa_required := True\<rparr>) ''price'' (Some (JString ''abc''))
     (is_empty_value (Some (JString ''abc''))) False False = []"
  "check_numeric_bounds ((new_attrs ''price'' Number)\<lparr>fa_required := True, fa_min := Some 1\<rparr>) ''price'' (Some (JString ''abc''))
     (is_empty_value (Some (JString ''abc''))) = []"
  "coerce_json_value env Number (JString ''abc'') = DNull"
proof -
  have "parse_f64 ''abc'' = None" by code_simp
  then show "coerce_json_value env Number (JString ''abc'') = DNull"
    "check_numeric_bounds ((new_attrs ''price'' Number)\<lparr>fa_required := True, fa_min := Some 1\<rparr>) ''price'' (Some (JString ''abc''))
       (is_empty_value (Some (JString ''abc''))) = []"
    by (simp_all add: coerce_json_value_def coerce_value_def check_numeric_bounds_def is_empty_value_def new_attrs_def)
  show "check_required venv ((new_attrs ''price'' Number)\<lparr>fa_required := True\<rparr>) ''price'' (Some (JString ''abc''))
     (is_empty_value (Some (JString ''abc''))) False False = []"
    by (simp add: check_required_def is_value_present_def attrs_has_parent_column_def is_empty_value_def new_attrs_def)
qed

text \<open>An environment without dates or zones, for the examples.\<close>

definition plain_library :: write_env where
  "plain_library =
     \<lparr>we_dates = \<lparr>dl_rfc3339 = Map.empty, dl_date_noon = Map.empty, dl_minutes = Map.empty, dl_seconds = Map.empty\<rparr>,
      we_zones = \<lparr>tl_known = \<lambda>z. False, tl_date = \<lambda>z v. None, tl_minutes = \<lambda>z v. None, tl_seconds = \<lambda>z v. None\<rparr>,
      we_display = \<lambda>v. ''[]'', we_parse = \<lambda>s. if s = ''[]'' then Some (JArray []) else None\<rparr>"

end
