(* ===== verification/JoinTables.thy ===== *)
theory JoinTables
  imports WriteColumns
begin

text \<open>
  The join tables of has-many relationships, arrays and blocks (src/src/db/query/join/): replacing
  the rows of a document and reading them back, within a locale or across all of them.  A table is
  the list of its rows in insertion order; \<open>ORDER BY _order\<close> keeps that order among equal keys, as
  SQLite does when it sorts.
\<close>

section \<open>Rows\<close>

datatype join_data =
    Related string
  | Polymorphic string string
  | ArrayRow assignments
  | BlockRow string string

record table_row =
  tr_id :: string
  tr_parent :: string
  tr_order :: int
  tr_locale :: string
  tr_data :: join_data

type_synonym table_rows = "table_row list"

text \<open>
  A table with a locale column fills it with the default locale when an insert names none; the
  column is read as that locale throughout when the table has no such column.
\<close>

record join_env =
  je_write :: write_env
  je_default_locale :: string
  je_new_id :: "nat \<Rightarrow> string"

definition in_scope :: "string \<Rightarrow> string option \<Rightarrow> table_row \<Rightarrow> bool" where
  "in_scope parent loc r \<longleftrightarrow> tr_parent r = parent \<and> (case loc of None \<Rightarrow> True | Some l \<Rightarrow> tr_locale r = l)"

definition delete_junction_rows :: "string \<Rightarrow> string option \<Rightarrow> table_rows \<Rightarrow> table_rows" where
  "delete_junction_rows parent loc t = delete_where (in_scope parent loc) t"

definition new_row :: "join_env \<Rightarrow> string \<Rightarrow> string option \<Rightarrow> nat \<times> join_data \<Rightarrow> table_row" where
  "new_row env parent loc od =
     (case od of (i, d) \<Rightarrow>
       \<lparr>tr_id = je_new_id env i, tr_parent = parent, tr_order = min (int i) i64_max,
        tr_locale = unwrap_or (je_default_locale env) loc, tr_data = d\<rparr>)"

text \<open>Clear the rows in scope and insert the new ones in order.\<close>

definition replace_rows :: "join_env \<Rightarrow> string \<Rightarrow> string option \<Rightarrow> join_data list \<Rightarrow> table_rows \<Rightarrow> table_rows" where
  "replace_rows env parent loc ds t =
     delete_junction_rows parent loc t @ map (new_row env parent loc) (List.enumerate 0 ds)"

definition scoped_rows :: "string \<Rightarrow> string option \<Rightarrow> table_rows \<Rightarrow> table_rows" where
  "scoped_rows parent loc t = sort_key tr_order (filter (in_scope parent loc) t)"

section \<open>Has-many relationships\<close>

text \<open>
  \<open>None\<close> is the error of an insert that repeats a key: the table's primary key is the document, the
  related one (and its collection) and the locale, and after the delete only the new rows are in
  scope.
\<close>

definition set_related_ids :: "join_env \<Rightarrow> string \<Rightarrow> string list \<Rightarrow> string option \<Rightarrow> table_rows \<Rightarrow> table_rows option" where
  "set_related_ids env parent ids loc t =
     (if distinct ids then Some (replace_rows env parent loc (map Related ids) t) else None)"

definition related_id :: "table_row \<Rightarrow> string option" where
  "related_id r = (case tr_data r of Related i \<Rightarrow> Some i | Polymorphic c i \<Rightarrow> Some i | _ \<Rightarrow> None)"

definition find_related_ids :: "string \<Rightarrow> string option \<Rightarrow> table_rows \<Rightarrow> string list" where
  "find_related_ids parent loc t = List.map_filter related_id (scoped_rows parent loc t)"

definition set_polymorphic_related ::
  "join_env \<Rightarrow> string \<Rightarrow> (string \<times> string) list \<Rightarrow> string option \<Rightarrow> table_rows \<Rightarrow> table_rows option" where
  "set_polymorphic_related env parent items loc t =
     (if distinct items then Some (replace_rows env parent loc (map (\<lambda>(c, i). Polymorphic c i) items) t) else None)"

definition polymorphic_item :: "table_row \<Rightarrow> (string \<times> string) option" where
  "polymorphic_item r = (case tr_data r of Polymorphic c i \<Rightarrow> Some (c, i) | _ \<Rightarrow> None)"

definition find_polymorphic_related :: "string \<Rightarrow> string option \<Rightarrow> table_rows \<Rightarrow> (string \<times> string) list" where
  "find_polymorphic_related parent loc t = List.map_filter polymorphic_item (scoped_rows parent loc t)"

text \<open>
  The batched reads: one query for all parents, the rows grouped by parent; a parent without rows
  has no entry.
\<close>

definition find_batch :: "(string \<Rightarrow> string option \<Rightarrow> table_rows \<Rightarrow> 'a list) \<Rightarrow> string list \<Rightarrow> string option \<Rightarrow> table_rows
    \<Rightarrow> string \<Rightarrow> 'a list option" where
  "find_batch find_one parents loc t p =
     (if p \<in> set parents \<and> find_one p loc t \<noteq> [] then Some (find_one p loc t) else None)"

section \<open>Arrays\<close>

definition is_tz_date :: "field_attrs \<Rightarrow> bool" where
  "is_tz_date a \<longleftrightarrow> fa_type a = Date \<and> fa_timezone a"

definition sub_columns :: "write_env \<Rightarrow> document_fields \<Rightarrow> field_attrs \<Rightarrow> assignments" where
  "sub_columns env row a =
     (let v = unwrap_or JNull (map_of row (fa_name a));
          tz = Option.bind (map_of row (tz_column (fa_name a))) as_json_str
      in if is_tz_date a
         then [(fa_name a, coerce_date_value_json env (fa_type a) v tz),
               (tz_column (fa_name a), if unwrap_or [] tz = [] then DNull else DText (unwrap_or [] tz))]
         else [(fa_name a, coerce_json_value env (fa_type a) v)])"

definition array_row :: "write_env \<Rightarrow> field_definition list \<Rightarrow> document_fields \<Rightarrow> join_data" where
  "array_row env sub_fields row =
     ArrayRow (concat (map (\<lambda>f. sub_columns env row (fd_attrs f)) (flatten_array_sub_fields sub_fields)))"

definition set_array_rows ::
  "join_env \<Rightarrow> string \<Rightarrow> document_fields list \<Rightarrow> field_definition list \<Rightarrow> string option \<Rightarrow> table_rows \<Rightarrow> table_rows" where
  "set_array_rows env parent rows sub_fields loc t =
     (if rows = [] \<or> flatten_array_sub_fields sub_fields = [] then delete_junction_rows parent loc t
      else replace_rows env parent loc (map (array_row (je_write env) sub_fields) rows) t)"

definition is_composite :: "field_type \<Rightarrow> bool" where
  "is_composite ft \<longleftrightarrow> ft \<in> {Array, Blocks, Group, Row, Collapsible, Tabs, Json}"

definition sub_json :: "write_env \<Rightarrow> field_type \<Rightarrow> db_value \<Rightarrow> json_value" where
  "sub_json env ft v =
     (case v of
        DInteger n \<Rightarrow> JNumber (JInt n)
      | DReal f \<Rightarrow> JNumber (JFloat f)
      | DText s \<Rightarrow> if is_composite ft then unwrap_or (JString s) (we_parse env s) else JString s
      | _ \<Rightarrow> JNull)"

definition sub_members :: "write_env \<Rightarrow> assignments \<Rightarrow> field_attrs \<Rightarrow> document_fields" where
  "sub_members env cols a =
     (fa_name a, sub_json env (fa_type a) (unwrap_or DNull (map_of cols (fa_name a)))) #
     (if is_tz_date a
      then [(tz_column (fa_name a), case unwrap_or DNull (map_of cols (tz_column (fa_name a))) of DText s \<Rightarrow> JString s | _ \<Rightarrow> JNull)]
      else [])"

definition array_json :: "write_env \<Rightarrow> field_definition list \<Rightarrow> table_row \<Rightarrow> json_value" where
  "array_json env sub_fields r =
     (let cols = (case tr_data r of ArrayRow cs \<Rightarrow> cs | _ \<Rightarrow> [])
      in JObject ((''id'', JString (tr_id r)) #
           concat (map (\<lambda>f. sub_members env cols (fd_attrs f)) (flatten_array_sub_fields sub_fields))))"

definition find_array_rows :: "join_env \<Rightarrow> string \<Rightarrow> field_definition list \<Rightarrow> string option \<Rightarrow> table_rows \<Rightarrow> json_value list" where
  "find_array_rows env parent sub_fields loc t =
     map (array_json (je_write env) sub_fields) (scoped_rows parent loc t)"

section \<open>Blocks\<close>

definition split_block_row :: "write_env \<Rightarrow> json_value \<Rightarrow> join_data option" where
  "split_block_row env row =
     (case Option.bind (json_get row ''_block_type'') as_json_str of
        None \<Rightarrow> None
      | Some bt \<Rightarrow>
          Some (BlockRow bt (we_display env (JObject
            (case row of JObject ms \<Rightarrow> filter (\<lambda>(k, v). k \<noteq> ''_block_type'' \<and> k \<noteq> ''id'') ms | _ \<Rightarrow> [])))))"

text \<open>\<open>None\<close> is the error of a row without a block type; the statement's transaction is rolled back.\<close>

definition set_block_rows :: "join_env \<Rightarrow> string \<Rightarrow> json_value list \<Rightarrow> string option \<Rightarrow> table_rows \<Rightarrow> table_rows option" where
  "set_block_rows env parent rows loc t =
     map_option (\<lambda>ds. replace_rows env parent loc ds t) (all_some (map (split_block_row (je_write env)) rows))"

definition block_json :: "write_env \<Rightarrow> table_row \<Rightarrow> json_value option" where
  "block_json env r =
     (case tr_data r of
        BlockRow bt data \<Rightarrow>
          (let ms = (case we_parse env data of Some (JObject ms) \<Rightarrow> ms | _ \<Rightarrow> [])
           in Some (JObject (json_put ''_block_type'' (JString bt) (json_put ''id'' (JString (tr_id r)) ms))))
      | _ \<Rightarrow> None)"

definition find_block_rows :: "join_env \<Rightarrow> string \<Rightarrow> string option \<Rightarrow> table_rows \<Rightarrow> json_value list" where
  "find_block_rows env parent loc t = List.map_filter (block_json (je_write env)) (scoped_rows parent loc t)"

section \<open>Replacing and reading\<close>

lemma in_scope_new_row [simp]: "in_scope q m (new_row env p l od) \<longleftrightarrow>
    p = q \<and> (case m of None \<Rightarrow> True | Some k \<Rightarrow> unwrap_or (je_default_locale env) l = k)"
  by (auto simp: in_scope_def new_row_def split: prod.split option.split)

lemma sorted_new_rows: "sorted (map tr_order (map (new_row env p l) (List.enumerate n ds)))"
  by (induction ds arbitrary: n) (auto simp: new_row_def in_set_enumerate_eq)

lemma filter_replace:
  "filter (in_scope q m) (replace_rows env p l ds t) =
     filter (\<lambda>r. in_scope q m r \<and> \<not> in_scope p l r) t
     @ (if p = q \<and> (case m of None \<Rightarrow> True | Some k \<Rightarrow> unwrap_or (je_default_locale env) l = k)
        then map (new_row env p l) (List.enumerate 0 ds) else [])"
  by (auto simp: replace_rows_def delete_junction_rows_def delete_where_def filter_map o_def conj_commute)

lemma scoped_replace:
  "scoped_rows p l (replace_rows env p l ds t) = map (new_row env p l) (List.enumerate 0 ds)"
  by (simp add: scoped_rows_def filter_replace sort_key_id_if_sorted [OF sorted_new_rows] split: option.split)

lemma scope_disjoint:
  "p \<noteq> q \<Longrightarrow> in_scope q m r \<and> \<not> in_scope p l r \<longleftrightarrow> in_scope q m r"
  "k \<noteq> k' \<Longrightarrow> in_scope p (Some k') r \<and> \<not> in_scope p (Some k) r \<longleftrightarrow> in_scope p (Some k') r"
  by (auto simp: in_scope_def)

lemma scoped_other: "p \<noteq> q \<Longrightarrow> scoped_rows q m (replace_rows env p l ds t) = scoped_rows q m t"
  by (simp add: scoped_rows_def filter_replace scope_disjoint)

lemma scoped_locale: "k \<noteq> k' \<Longrightarrow> scoped_rows p (Some k') (replace_rows env p (Some k) ds t) = scoped_rows p (Some k') t"
  by (simp add: scoped_rows_def filter_replace scope_disjoint)

lemma map_filter_all: "list_all2 (\<lambda>x y. f x = Some y) xs ys \<Longrightarrow> List.map_filter f xs = ys"
  by (induction xs ys rule: list_all2_induct) (simp_all add: List.map_filter_simps)

lemma enumerate_map: "List.enumerate n (map f xs) = map (\<lambda>(i, x). (i, f x)) (List.enumerate n xs)"
  by (induction xs arbitrary: n) simp_all

lemma read_replaced:
  "(\<And>i x. x \<in> set xs \<Longrightarrow> f (new_row env p l (i, h x)) = Some (g i x)) \<Longrightarrow>
     List.map_filter f (scoped_rows p l (replace_rows env p l (map h xs) t)) = map (\<lambda>(i, x). g i x) (List.enumerate 0 xs)"
  by (rule map_filter_all) (auto simp: scoped_replace list_all2_conv_all_nth nth_enumerate_eq)

lemma read_replaced_plain:
  "(\<And>i x. x \<in> set xs \<Longrightarrow> f (new_row env p l (i, h x)) = Some (g x)) \<Longrightarrow>
     List.map_filter f (scoped_rows p l (replace_rows env p l (map h xs) t)) = map g xs"
  by (rule map_filter_all) (auto simp: scoped_replace list_all2_conv_all_nth nth_enumerate_eq)

section \<open>The contract of a join table\<close>

text \<open>
  Replacing and reading the rows of a document: what is read within the scope of the last write is
  what was written, and the rows of other documents and of other locales stay as they were.
\<close>

locale join_table_kind =
  fixes put :: "string \<Rightarrow> 'i \<Rightarrow> string option \<Rightarrow> table_rows \<Rightarrow> table_rows option"
    and get :: "string \<Rightarrow> string option \<Rightarrow> table_rows \<Rightarrow> 'o"
    and norm :: "'i \<Rightarrow> 'o"
  assumes get_put: "put p x l t = Some t' \<Longrightarrow> get p l t' = norm x"
    and get_other: "put p x l t = Some t' \<Longrightarrow> p \<noteq> q \<Longrightarrow> get q m t' = get q m t"
    and get_locale: "put p x (Some k) t = Some t' \<Longrightarrow> k \<noteq> k' \<Longrightarrow> get p (Some k') t' = get p (Some k') t"
begin

lemma last_write_wins: "put p x l t = Some t' \<Longrightarrow> put p y l t' = Some t'' \<Longrightarrow> get p l t'' = norm y"
  by (rule get_put)

lemma other_survives: "put q x m t = Some t' \<Longrightarrow> put p y l t' = Some t'' \<Longrightarrow> p \<noteq> q \<Longrightarrow> get q m t'' = norm x"
  by (simp add: get_other get_put)

lemma locales_independent:
  "put p x (Some k') t = Some t' \<Longrightarrow> put p y (Some k) t' = Some t'' \<Longrightarrow> k \<noteq> k' \<Longrightarrow>
     get p (Some k') t'' = norm x \<and> get p (Some k) t'' = norm y"
  by (simp add: get_locale get_put)

end

definition array_put :: "join_env \<Rightarrow> field_definition list \<Rightarrow> string \<Rightarrow> document_fields list \<Rightarrow> string option \<Rightarrow> table_rows \<Rightarrow> table_rows option" where
  "array_put env sub p rows l t = Some (set_array_rows env p rows sub l t)"

definition array_get :: "join_env \<Rightarrow> field_definition list \<Rightarrow> string \<Rightarrow> string option \<Rightarrow> table_rows \<Rightarrow> json_value list" where
  "array_get env sub p l t = find_array_rows env p sub l t"

text \<open>What a row reads back as.\<close>

definition stored_row :: "join_env \<Rightarrow> field_definition list \<Rightarrow> nat \<Rightarrow> document_fields \<Rightarrow> json_value" where
  "stored_row env sub i row =
     JObject ((''id'', JString (je_new_id env i)) #
        concat (map (\<lambda>f. sub_members (je_write env)
           (concat (map (\<lambda>f. sub_columns (je_write env) row (fd_attrs f)) (flatten_array_sub_fields sub))) (fd_attrs f))
          (flatten_array_sub_fields sub)))"

definition stored_rows :: "join_env \<Rightarrow> field_definition list \<Rightarrow> document_fields list \<Rightarrow> json_value list" where
  "stored_rows env sub rows =
     (if flatten_array_sub_fields sub = [] then [] else map (\<lambda>(i, row). stored_row env sub i row) (List.enumerate 0 rows))"

lemma set_array_rows_replace:
  "set_array_rows env p rows sub l t =
     replace_rows env p l (if flatten_array_sub_fields sub = [] then [] else map (array_row (je_write env) sub) rows) t"
  by (simp add: set_array_rows_def replace_rows_def)

lemma find_after_set_array: "find_array_rows env p sub l (set_array_rows env p rows sub l t) = stored_rows env sub rows"
  by (simp add: find_array_rows_def set_array_rows_replace scoped_replace stored_rows_def enumerate_map array_json_def
      new_row_def array_row_def stored_row_def split: prod.split)

lemma all_some_Some: "all_some (map f xs) = Some ys \<longleftrightarrow> list_all2 (\<lambda>x y. f x = Some y) xs ys"
proof (induction xs arbitrary: ys)
  case (Cons x xs)
  then show ?case by (cases "f x"; cases ys) auto
qed auto

text \<open>What a block reads back as, when its text parses to what was written.\<close>

definition stored_block :: "join_env \<Rightarrow> nat \<Rightarrow> join_data \<Rightarrow> json_value" where
  "stored_block env i d = unwrap_or JNull (block_json (je_write env) (new_row env [] None (i, d)))"

definition stored_blocks :: "join_env \<Rightarrow> json_value list \<Rightarrow> json_value list" where
  "stored_blocks env rows =
     map (\<lambda>(i, d). stored_block env i d) (List.enumerate 0 (unwrap_or [] (all_some (map (split_block_row (je_write env)) rows))))"

lemma split_block: "split_block_row env row = Some d \<Longrightarrow> \<exists>bt data. d = BlockRow bt data"
  by (auto simp: split_block_row_def split: option.splits)

lemma block_json_new:
  "block_json (je_write env) (new_row env p l (i, BlockRow bt data)) = Some (stored_block env i (BlockRow bt data))"
  by (simp add: stored_block_def block_json_def new_row_def Let_def)

lemma find_after_set_blocks:
  assumes "set_block_rows env p rows l t = Some t'"
  shows "find_block_rows env p l t' = stored_blocks env rows"
proof -
  from assms obtain ds where ds: "all_some (map (split_block_row (je_write env)) rows) = Some ds"
    and t': "t' = replace_rows env p l (map (\<lambda>d. d) ds) t" by (auto simp: set_block_rows_def)
  have "block_json (je_write env) (new_row env p l (i, d)) = Some (stored_block env i d)" if "d \<in> set ds" for i d
  proof -
    from that ds obtain row where "split_block_row (je_write env) row = Some d"
      by (auto simp: all_some_Some list_all2_conv_all_nth in_set_conv_nth)
    then show ?thesis using split_block block_json_new by metis
  qed
  then show ?thesis unfolding find_block_rows_def t' stored_blocks_def
    by (subst read_replaced [where g = "stored_block env"]) (simp_all add: ds)
qed

interpretation related: join_table_kind "set_related_ids env" find_related_ids "\<lambda>ids. ids"
  by unfold_locales
    (auto simp: set_related_ids_def find_related_ids_def scoped_other scoped_locale related_id_def new_row_def
      read_replaced_plain [where g = "\<lambda>i. i"] split: if_splits)

interpretation polymorphic: join_table_kind "set_polymorphic_related env" find_polymorphic_related "\<lambda>items. items"
  by unfold_locales
    (auto simp: set_polymorphic_related_def find_polymorphic_related_def scoped_other scoped_locale polymorphic_item_def
      new_row_def read_replaced_plain [where g = "\<lambda>i. i"] split: if_splits prod.split)

lemma array_other:
  "p \<noteq> q \<Longrightarrow> find_array_rows env q sub m (set_array_rows env p rows sub l t) = find_array_rows env q sub m t"
  "k \<noteq> k' \<Longrightarrow> find_array_rows env p sub (Some k') (set_array_rows env p rows sub (Some k) t) = find_array_rows env p sub (Some k') t"
  by (simp_all add: find_array_rows_def set_array_rows_replace scoped_other scoped_locale)

lemma blocks_other:
  "set_block_rows env p rows l t = Some t' \<Longrightarrow> p \<noteq> q \<Longrightarrow> find_block_rows env q m t' = find_block_rows env q m t"
  "set_block_rows env p rows (Some k) t = Some t' \<Longrightarrow> k \<noteq> k' \<Longrightarrow> find_block_rows env p (Some k') t' = find_block_rows env p (Some k') t"
  by (auto simp: find_block_rows_def set_block_rows_def scoped_other scoped_locale)

interpretation arrays: join_table_kind "array_put env sub" "array_get env sub" "stored_rows env sub"
  by unfold_locales (auto simp: array_put_def array_get_def find_after_set_array array_other)

interpretation blocks: join_table_kind "set_block_rows env" "find_block_rows env" "stored_blocks env"
  by unfold_locales (auto simp: find_after_set_blocks blocks_other)

section \<open>What an array keeps\<close>

text \<open>
  The values a sub-field stores and reads back unchanged: a text that is not empty, a number with
  its float value, and in a composite column an array or an object whose text parses back to it.
\<close>

definition kept_value :: "write_env \<Rightarrow> field_type \<Rightarrow> json_value \<Rightarrow> bool" where
  "kept_value env ft v \<longleftrightarrow>
     (case v of
        JNull \<Rightarrow> True
      | JString s \<Rightarrow> s \<noteq> [] \<and> ft \<notin> {Number, Checkbox, Date} \<and> \<not> is_composite ft
      | JNumber (JFloat q) \<Rightarrow> ft = Number
      | JArray vs \<Rightarrow> is_composite ft \<and> we_display env v \<noteq> [] \<and> we_parse env (we_display env v) = Some v
      | JObject ms \<Rightarrow> is_composite ft \<and> we_display env v \<noteq> [] \<and> we_parse env (we_display env v) = Some v
      | _ \<Rightarrow> False)"

lemma kept_value_stored: "kept_value env ft v \<Longrightarrow> sub_json env ft (coerce_json_value env ft v) = v"
  by (cases ft; cases v)
    (auto simp: kept_value_def sub_json_def coerce_json_value_def coerce_value_def is_composite_def
      split: json_number.splits)

definition row_value :: "document_fields \<Rightarrow> field_attrs \<Rightarrow> json_value" where
  "row_value row a = unwrap_or JNull (map_of row (fa_name a))"

lemma plain_columns:
  "\<not> is_tz_date a \<Longrightarrow> sub_columns env row a = [(fa_name a, coerce_json_value env (fa_type a) (row_value row a))]"
  by (simp add: sub_columns_def Let_def row_value_def)

lemma map_of_columns:
  "a \<in> set as \<Longrightarrow> distinct (map fa_name as) \<Longrightarrow> \<forall>a \<in> set as. \<not> is_tz_date a \<Longrightarrow>
     map_of (concat (map (sub_columns env row) as)) (fa_name a) = Some (coerce_json_value env (fa_type a) (row_value row a))"
  by (induction as) (auto simp: plain_columns, metis image_eqI)

text \<open>A row of kept values reads back as it was, under its new id and with a null for an absent value.\<close>

definition kept_row :: "write_env \<Rightarrow> field_attrs list \<Rightarrow> document_fields \<Rightarrow> bool" where
  "kept_row env as row \<longleftrightarrow> list_all (\<lambda>a. kept_value env (fa_type a) (row_value row a)) as"

lemma concat_map_singleton: "(\<And>x. x \<in> set xs \<Longrightarrow> f x = [g x]) \<Longrightarrow> concat (map f xs) = map g xs"
  by (induction xs) simp_all

lemma stored_row_kept:
  assumes "as = map fd_attrs (flatten_array_sub_fields sub)" "distinct (map fa_name as)"
    "\<forall>a \<in> set as. \<not> is_tz_date a" "kept_row (je_write env) as row"
  shows "stored_row env sub i row = JObject ((''id'', JString (je_new_id env i)) # map (\<lambda>a. (fa_name a, row_value row a)) as)"
proof -
  let ?cols = "concat (map (sub_columns (je_write env) row) as)"
  have "sub_members (je_write env) ?cols a = [(fa_name a, row_value row a)]" if "a \<in> set as" for a
    using that assms(2,3,4) map_of_columns [OF that assms(2,3)]
    by (auto simp: sub_members_def kept_row_def list_all_iff kept_value_stored)
  then have "concat (map (sub_members (je_write env) ?cols) as) = map (\<lambda>a. (fa_name a, row_value row a)) as"
    by (rule concat_map_singleton)
  then show ?thesis by (simp add: stored_row_def assms(1) o_def)
qed

text \<open>
  C19: An array saved with rows of kept values reads back as those rows, in their order, each under
  its new id, whatever the table held before and whatever is saved for other documents afterwards.
\<close>

theorem array_rows_round_trip:
  assumes "as = map fd_attrs (flatten_array_sub_fields sub)" "as \<noteq> []" "distinct (map fa_name as)"
    "list_all (\<lambda>a. \<not> is_tz_date a) as" "list_all (kept_row (je_write env) as) rows" "p \<noteq> q"
  shows "find_array_rows env p sub l (set_array_rows env' q others sub l (set_array_rows env p rows sub l t)) =
     map (\<lambda>(i, row). JObject ((''id'', JString (je_new_id env i)) # map (\<lambda>a. (fa_name a, row_value row a)) as))
       (List.enumerate 0 rows)"
proof -
  have other: "find_array_rows env p sub l (set_array_rows env' q others sub l t') = find_array_rows env p sub l t'" for t'
    using assms(6) by (simp add: find_array_rows_def set_array_rows_replace scoped_other)
  have "stored_row env sub i row = JObject ((''id'', JString (je_new_id env i)) # map (\<lambda>a. (fa_name a, row_value row a)) as)"
    if "(i, row) \<in> set (List.enumerate 0 rows)" for i row
    using that assms by (intro stored_row_kept) (auto simp: list_all_iff in_set_enumerate_eq)
  then show ?thesis using assms(1,2) by (auto simp: other find_after_set_array stored_rows_def)
qed

text \<open>A JSON sub-field with a text that is itself JSON comes back as another value; a checkbox as a number.\<close>

lemma array_values_change:
  "we_parse env ''12'' = Some (JNumber (JInt 12)) \<Longrightarrow> sub_json env Json (coerce_json_value env Json (JString ''12'')) = JNumber (JInt 12)"
  "sub_json env Checkbox (coerce_json_value env Checkbox (JBool True)) = JNumber (JInt 1)"
  by (simp_all add: sub_json_def coerce_json_value_def coerce_value_def is_composite_def)

definition plain_env :: join_env where
  "plain_env = \<lparr>je_write = plain_library, je_default_locale = ''en'', je_new_id = \<lambda>i. ''row'' @ show_nat i\<rparr>"

definition label_fields :: "field_definition list" where
  "label_fields =
     [FieldDefinition (new_attrs ''label'' Text) [] [] [],
      FieldDefinition (new_attrs ''weight'' Number) [] [] [],
      FieldDefinition (new_attrs ''notes'' Array) [] [] []]"

definition label_rows :: "document_fields list" where
  "label_rows = [[(''label'', JString ''a''), (''weight'', JNumber (JFloat 2))], [(''notes'', JArray [])]]"

theorem array_rows_round_trip_witness:
  "find_array_rows plain_env ''p1'' label_fields None
     (set_array_rows plain_env ''p2'' [[(''label'', JString ''x'')]] label_fields None
       (set_array_rows plain_env ''p1'' label_rows label_fields None [])) =
     [JObject [(''id'', JString ''row0''), (''label'', JString ''a''), (''weight'', JNumber (JFloat 2)), (''notes'', JNull)],
      JObject [(''id'', JString ''row1''), (''label'', JNull), (''weight'', JNull), (''notes'', JArray [])]]"
proof -
  let ?as = "[new_attrs ''label'' Text, new_attrs ''weight'' Number, new_attrs ''notes'' Array]"
  have flat: "map fd_attrs (flatten_array_sub_fields label_fields) = ?as"
    by (simp add: label_fields_def new_attrs_def)
  have kept: "list_all (kept_row (je_write plain_env) ?as) label_rows"
    by (simp add: kept_row_def kept_value_def row_value_def label_rows_def plain_env_def plain_library_def new_attrs_def
        is_composite_def)
  have shown: "show_nat 0 = ''0''" "show_nat 1 = ''1''" by code_simp+
  show ?thesis
    by (subst array_rows_round_trip [OF flat [symmetric] _ _ _ kept])
      (simp_all add: is_tz_date_def row_value_def label_rows_def plain_env_def new_attrs_def shown [simplified])
qed

end
