(* ===== verification/Hydrate.thy ===== *)
theory Hydrate
  imports JoinTables RefCompute
begin

text \<open>
  Saving a document's join fields and hydrating a document with them
  (src/src/db/query/join/hydrate/): one table per join field, named by the field's prefixed key; a
  group's flat columns become a nested object, a join field an array under its own name.
\<close>

section \<open>Locales\<close>

definition resolve_join_locale :: "field_attrs \<Rightarrow> locale_context option \<Rightarrow> string option" where
  "resolve_join_locale a locale_ctx =
     (case locale_ctx of
        None \<Rightarrow> None
      | Some ctx \<Rightarrow>
          if \<not> fa_localized a \<or> \<not> is_enabled (lx_config ctx) then None
          else Some (case lx_mode ctx of Single l \<Rightarrow> l | _ \<Rightarrow> lc_default_locale (lx_config ctx)))"

definition resolve_join_fallback_locale :: "field_attrs \<Rightarrow> locale_context option \<Rightarrow> string option" where
  "resolve_join_fallback_locale a locale_ctx =
     (case locale_ctx of
        None \<Rightarrow> None
      | Some ctx \<Rightarrow>
          if \<not> fa_localized a \<or> \<not> is_enabled (lx_config ctx) \<or> \<not> lc_fallback (lx_config ctx) then None
          else (case lx_mode ctx of
                  Single l \<Rightarrow> if l \<noteq> lc_default_locale (lx_config ctx) then Some (lc_default_locale (lx_config ctx)) else None
                | _ \<Rightarrow> None))"

section \<open>The tables of a join field\<close>

type_synonym join_tables = "string \<Rightarrow> table_rows"

definition coerce_array_rows :: "json_value \<Rightarrow> document_fields list" where
  "coerce_array_rows v =
     (case v of JArray vs \<Rightarrow> List.map_filter (\<lambda>w. case w of JObject ms \<Rightarrow> Some ms | _ \<Rightarrow> None) vs | _ \<Rightarrow> [])"

definition json_elements :: "json_value \<Rightarrow> json_value list" where
  "json_elements v = (case v of JArray vs \<Rightarrow> vs | _ \<Rightarrow> [])"

definition has_many_config :: "field_attrs \<Rightarrow> relationship_config option" where
  "has_many_config a = (case fa_relationship a of Some rc \<Rightarrow> if rc_has_many rc then Some rc else None | None \<Rightarrow> None)"

text \<open>Whether a field keeps its value in a join table.\<close>

definition is_join_field :: "field_attrs \<Rightarrow> bool" where
  "is_join_field a \<longleftrightarrow> (is_ref_type (fa_type a) \<and> has_many_config a \<noteq> None) \<or> fa_type a \<in> {Array, Blocks}"

definition write_table ::
  "join_env \<Rightarrow> string \<Rightarrow> field_attrs \<Rightarrow> field_definition list \<Rightarrow> string option \<Rightarrow> json_value \<Rightarrow> table_rows \<Rightarrow> table_rows option" where
  "write_table env parent a sub loc v t =
     (case fa_type a of
        Array \<Rightarrow> Some (set_array_rows env parent (coerce_array_rows v) sub loc t)
      | Blocks \<Rightarrow> set_block_rows env parent (json_elements v) loc t
      | _ \<Rightarrow>
          (case has_many_config a of
             None \<Rightarrow> Some t
           | Some rc \<Rightarrow>
               if is_polymorphic rc then set_polymorphic_related env parent (parse_polymorphic_values v) loc t
               else set_related_ids env parent (parse_id_list v) loc t))"

definition read_table ::
  "join_env \<Rightarrow> string \<Rightarrow> field_attrs \<Rightarrow> field_definition list \<Rightarrow> string option \<Rightarrow> table_rows \<Rightarrow> json_value list" where
  "read_table env parent a sub loc t =
     (case fa_type a of
        Array \<Rightarrow> find_array_rows env parent sub loc t
      | Blocks \<Rightarrow> find_block_rows env parent loc t
      | _ \<Rightarrow>
          (case has_many_config a of
             None \<Rightarrow> []
           | Some rc \<Rightarrow>
               if is_polymorphic rc then map (\<lambda>(c, i). JString (c @ ''/'' @ i)) (find_polymorphic_related parent loc t)
               else map JString (find_related_ids parent loc t)))"

text \<open>The value of a join field: the rows of the locale, or of the fallback locale when there are none.\<close>

definition hydrate_field ::
  "join_env \<Rightarrow> locale_context option \<Rightarrow> string \<Rightarrow> field_attrs \<Rightarrow> field_definition list \<Rightarrow> table_rows \<Rightarrow> json_value" where
  "hydrate_field env lx parent a sub t =
     (let rows = read_table env parent a sub (resolve_join_locale a lx) t; fb = resolve_join_fallback_locale a lx
      in JArray (if rows = [] \<and> fb \<noteq> None then read_table env parent a sub fb t else rows))"

section \<open>Saving\<close>

definition save_field ::
  "join_env \<Rightarrow> locale_context option \<Rightarrow> string \<Rightarrow> document_fields \<Rightarrow> field_attrs \<Rightarrow> field_definition list \<Rightarrow> string
   \<Rightarrow> join_tables \<Rightarrow> join_tables option" where
  "save_field env lx parent data a sub key T =
     (case map_of data key of
        None \<Rightarrow> Some T
      | Some v \<Rightarrow> map_option (\<lambda>t. T(key := t)) (write_table env parent a sub (resolve_join_locale a lx) v (T key)))"

fun save_join_data_inner ::
  "join_env \<Rightarrow> locale_context option \<Rightarrow> string \<Rightarrow> document_fields \<Rightarrow> field_definition list \<Rightarrow> string \<Rightarrow> join_tables \<Rightarrow> join_tables option"
  and save_join_data_tabs ::
  "join_env \<Rightarrow> locale_context option \<Rightarrow> string \<Rightarrow> document_fields \<Rightarrow> field_tab list \<Rightarrow> string \<Rightarrow> join_tables \<Rightarrow> join_tables option"
where
  "save_join_data_inner env lx parent data [] pre T = Some T"
| "save_join_data_inner env lx parent data (FieldDefinition a sub tabs blocks # fs) pre T =
     Option.bind
       (case fa_type a of
          Group \<Rightarrow> save_join_data_inner env lx parent data sub (prefixed_name pre (fa_name a)) T
        | Row \<Rightarrow> save_join_data_inner env lx parent data sub pre T
        | Collapsible \<Rightarrow> save_join_data_inner env lx parent data sub pre T
        | Tabs \<Rightarrow> save_join_data_tabs env lx parent data tabs pre T
        | _ \<Rightarrow> if is_join_field a then save_field env lx parent data a sub (prefixed_name pre (fa_name a)) T else Some T)
       (save_join_data_inner env lx parent data fs pre)"
| "save_join_data_tabs env lx parent data [] pre T = Some T"
| "save_join_data_tabs env lx parent data (FieldTab l sub # ts) pre T =
     Option.bind (save_join_data_inner env lx parent data sub pre T) (save_join_data_tabs env lx parent data ts pre)"

definition save_join_table_data ::
  "join_env \<Rightarrow> locale_context option \<Rightarrow> field_definition list \<Rightarrow> string \<Rightarrow> document_fields \<Rightarrow> join_tables \<Rightarrow> join_tables option" where
  "save_join_table_data env lx fds parent data T = save_join_data_inner env lx parent data fds [] T"

section \<open>Hydrating\<close>

text \<open>A group's columns leave the document's fields for the group's object.\<close>

fun reconstruct_group_fields :: "field_definition list \<Rightarrow> string \<Rightarrow> document_fields \<times> document_fields \<Rightarrow> document_fields \<times> document_fields"
  and reconstruct_group_tabs :: "field_tab list \<Rightarrow> string \<Rightarrow> document_fields \<times> document_fields \<Rightarrow> document_fields \<times> document_fields"
where
  "reconstruct_group_fields [] pre st = st"
| "reconstruct_group_fields (FieldDefinition a sub tabs blocks # fs) pre st =
     reconstruct_group_fields fs pre
       (case fa_type a of
          Group \<Rightarrow>
            (case reconstruct_group_fields sub (prefixed_name pre (fa_name a)) (fst st, []) of
               (doc, obj) \<Rightarrow> (doc, if obj = [] then snd st else json_put (fa_name a) (JObject obj) (snd st)))
        | Row \<Rightarrow> reconstruct_group_fields sub pre st
        | Collapsible \<Rightarrow> reconstruct_group_fields sub pre st
        | Tabs \<Rightarrow> reconstruct_group_tabs tabs pre st
        | _ \<Rightarrow>
            (case map_of (fst st) (prefixed_name pre (fa_name a)) of
               None \<Rightarrow> st
             | Some v \<Rightarrow> (json_remove (prefixed_name pre (fa_name a)) (fst st), json_put (fa_name a) v (snd st))))"
| "reconstruct_group_tabs [] pre st = st"
| "reconstruct_group_tabs (FieldTab l sub # ts) pre st =
     reconstruct_group_tabs ts pre (reconstruct_group_fields sub pre st)"

definition as_object :: "json_value option \<Rightarrow> document_fields option" where
  "as_object v = (case v of Some (JObject ms) \<Rightarrow> Some ms | _ \<Rightarrow> None)"

fun hydrate_group_join_fields ::
  "join_env \<Rightarrow> locale_context option \<Rightarrow> string \<Rightarrow> join_tables \<Rightarrow> field_definition list \<Rightarrow> string \<Rightarrow> document_fields \<Rightarrow> document_fields"
  and hydrate_group_join_tabs ::
  "join_env \<Rightarrow> locale_context option \<Rightarrow> string \<Rightarrow> join_tables \<Rightarrow> field_tab list \<Rightarrow> string \<Rightarrow> document_fields \<Rightarrow> document_fields"
where
  "hydrate_group_join_fields env lx p T [] pre obj = obj"
| "hydrate_group_join_fields env lx p T (FieldDefinition a sub tabs blocks # fs) pre obj =
     hydrate_group_join_fields env lx p T fs pre
       (case fa_type a of
          Group \<Rightarrow>
            (case as_object (map_of obj (fa_name a)) of
               Some inner \<Rightarrow>
                 json_put (fa_name a) (JObject (hydrate_group_join_fields env lx p T sub (prefixed_name pre (fa_name a)) inner)) obj
             | None \<Rightarrow>
                 (let inner = hydrate_group_join_fields env lx p T sub (prefixed_name pre (fa_name a)) []
                  in if inner = [] then obj else json_put (fa_name a) (JObject inner) obj))
        | Row \<Rightarrow> hydrate_group_join_fields env lx p T sub pre obj
        | Collapsible \<Rightarrow> hydrate_group_join_fields env lx p T sub pre obj
        | Tabs \<Rightarrow> hydrate_group_join_tabs env lx p T tabs pre obj
        | _ \<Rightarrow> if is_join_field a then json_put (fa_name a) (hydrate_field env lx p a sub (T (prefixed_name pre (fa_name a)))) obj
               else obj)"
| "hydrate_group_join_tabs env lx p T [] pre obj = obj"
| "hydrate_group_join_tabs env lx p T (FieldTab l sub # ts) pre obj =
     hydrate_group_join_tabs env lx p T ts pre (hydrate_group_join_fields env lx p T sub pre obj)"

definition hydrate_group ::
  "join_env \<Rightarrow> locale_context option \<Rightarrow> string \<Rightarrow> join_tables \<Rightarrow> field_attrs \<Rightarrow> field_definition list \<Rightarrow> document_fields \<Rightarrow> document_fields" where
  "hydrate_group env lx p T a sub doc =
     (case reconstruct_group_fields sub (fa_name a) (doc, []) of
        (rest, obj) \<Rightarrow>
          (let obj' = hydrate_group_join_fields env lx p T sub (fa_name a) obj
           in if obj' = [] then rest else json_put (fa_name a) (JObject obj') rest))"

definition selected :: "string list option \<Rightarrow> field_attrs \<Rightarrow> bool" where
  "selected select a \<longleftrightarrow> (case select of None \<Rightarrow> True | Some names \<Rightarrow> fa_name a \<in> set names)"

fun hydrate_document ::
  "join_env \<Rightarrow> locale_context option \<Rightarrow> join_tables \<Rightarrow> string list option \<Rightarrow> string \<Rightarrow> field_definition list \<Rightarrow> document_fields \<Rightarrow> document_fields"
  and hydrate_document_tabs ::
  "join_env \<Rightarrow> locale_context option \<Rightarrow> join_tables \<Rightarrow> string list option \<Rightarrow> string \<Rightarrow> field_tab list \<Rightarrow> document_fields \<Rightarrow> document_fields"
where
  "hydrate_document env lx T select p [] doc = doc"
| "hydrate_document env lx T select p (FieldDefinition a sub tabs blocks # fs) doc =
     hydrate_document env lx T select p fs
       (if \<not> selected select a then doc
        else (case fa_type a of
                Group \<Rightarrow> hydrate_group env lx p T a sub doc
              | Row \<Rightarrow> hydrate_document env lx T select p sub doc
              | Collapsible \<Rightarrow> hydrate_document env lx T select p sub doc
              | Tabs \<Rightarrow> hydrate_document_tabs env lx T select p tabs doc
              | _ \<Rightarrow> if is_join_field a then json_put (fa_name a) (hydrate_field env lx p a sub (T (fa_name a))) doc else doc))"
| "hydrate_document_tabs env lx T select p [] doc = doc"
| "hydrate_document_tabs env lx T select p (FieldTab l sub # ts) doc =
     hydrate_document_tabs env lx T select p ts (hydrate_document env lx T select p sub doc)"

definition hydrate_doc ::
  "join_env \<Rightarrow> locale_context option \<Rightarrow> join_tables \<Rightarrow> string list option \<Rightarrow> field_definition list \<Rightarrow> document \<Rightarrow> document" where
  "hydrate_doc env lx T select fds d = d\<lparr>doc_fields := hydrate_document env lx T select (doc_id d) fds (doc_fields d)\<rparr>"

section \<open>Hydrating many documents\<close>

text \<open>
  One query for all documents and one for those without rows when there is a fallback locale; each
  document takes its entry out of the grouped rows.
\<close>

definition grouped_rows ::
  "join_env \<Rightarrow> field_attrs \<Rightarrow> field_definition list \<Rightarrow> string list \<Rightarrow> string option \<Rightarrow> string option \<Rightarrow> table_rows
   \<Rightarrow> string \<Rightarrow> json_value list option" where
  "grouped_rows env a sub ids loc fb t =
     (let one = (\<lambda>p l t. read_table env p a sub l t);
          grouped = find_batch one ids loc t
      in case fb of
           None \<Rightarrow> grouped
         | Some l \<Rightarrow> grouped ++ find_batch one (filter (\<lambda>i. grouped i = None) ids) (Some l) t)"

fun distribute :: "string \<Rightarrow> (string \<Rightarrow> json_value list option) \<Rightarrow> document list \<Rightarrow> document list" where
  "distribute name grouped [] = []"
| "distribute name grouped (d # ds) =
     d\<lparr>doc_fields := json_put name (JArray (unwrap_or [] (grouped (doc_id d)))) (doc_fields d)\<rparr>
       # distribute name (grouped(doc_id d := None)) ds"

definition hydrate_relationship_batch ::
  "join_env \<Rightarrow> locale_context option \<Rightarrow> field_attrs \<Rightarrow> field_definition list \<Rightarrow> table_rows \<Rightarrow> document list \<Rightarrow> document list" where
  "hydrate_relationship_batch env lx a sub t docs =
     distribute (fa_name a)
       (grouped_rows env a sub (map doc_id docs) (resolve_join_locale a lx) (resolve_join_fallback_locale a lx) t) docs"

fun hydrate_documents ::
  "join_env \<Rightarrow> locale_context option \<Rightarrow> join_tables \<Rightarrow> string list option \<Rightarrow> field_definition list \<Rightarrow> document list \<Rightarrow> document list"
  and hydrate_documents_tabs ::
  "join_env \<Rightarrow> locale_context option \<Rightarrow> join_tables \<Rightarrow> string list option \<Rightarrow> field_tab list \<Rightarrow> document list \<Rightarrow> document list"
where
  "hydrate_documents env lx T select [] docs = docs"
| "hydrate_documents env lx T select (FieldDefinition a sub tabs blocks # fs) docs =
     hydrate_documents env lx T select fs
       (if \<not> selected select a then docs
        else if is_ref_type (fa_type a)
        then (if has_many_config a \<noteq> None then hydrate_relationship_batch env lx a sub (T (fa_name a)) docs else docs)
        else (case fa_type a of
                Row \<Rightarrow> hydrate_documents env lx T select sub docs
              | Collapsible \<Rightarrow> hydrate_documents env lx T select sub docs
              | Tabs \<Rightarrow> hydrate_documents_tabs env lx T select tabs docs
              | Array \<Rightarrow> map (hydrate_doc env lx T select [FieldDefinition a sub tabs blocks]) docs
              | Blocks \<Rightarrow> map (hydrate_doc env lx T select [FieldDefinition a sub tabs blocks]) docs
              | Group \<Rightarrow> map (hydrate_doc env lx T select [FieldDefinition a sub tabs blocks]) docs
              | _ \<Rightarrow> docs))"
| "hydrate_documents_tabs env lx T select [] docs = docs"
| "hydrate_documents_tabs env lx T select (FieldTab l sub # ts) docs =
     hydrate_documents_tabs env lx T select ts (hydrate_documents env lx T select sub docs)"

section \<open>The batch agrees with one document at a time\<close>

lemma distribute_map:
  "distinct (map doc_id docs) \<Longrightarrow>
     distribute name grouped docs =
       map (\<lambda>d. d\<lparr>doc_fields := json_put name (JArray (unwrap_or [] (grouped (doc_id d)))) (doc_fields d)\<rparr>) docs"
  by (induction docs arbitrary: grouped) (auto simp: image_iff intro!: arg_cong [of _ _ JArray] arg_cong [of _ _ "unwrap_or []"])

lemma grouped_rows_one:
  "p \<in> set ids \<Longrightarrow>
     JArray (unwrap_or [] (grouped_rows env a sub ids (resolve_join_locale a lx) (resolve_join_fallback_locale a lx) t p)) =
       hydrate_field env lx p a sub t"
  by (auto simp: grouped_rows_def find_batch_def hydrate_field_def Let_def map_add_def split: option.split)

lemma batch_one:
  "distinct (map doc_id docs) \<Longrightarrow>
     hydrate_relationship_batch env lx a sub t docs =
       map (\<lambda>d. d\<lparr>doc_fields := json_put (fa_name a) (hydrate_field env lx (doc_id d) a sub t) (doc_fields d)\<rparr>) docs"
  unfolding hydrate_relationship_batch_def
  by (subst distribute_map) (auto simp: grouped_rows_one)

lemma doc_id_hydrate [simp]: "doc_id (hydrate_doc env lx T select fds d) = doc_id d"
  by (simp add: hydrate_doc_def)

lemma hydrate_doc_Nil [simp]: "hydrate_doc env lx T select [] d = d"
  by (simp add: hydrate_doc_def)

definition hydrate_tabs_doc where
  "hydrate_tabs_doc env lx T select ts d = d\<lparr>doc_fields := hydrate_document_tabs env lx T select (doc_id d) ts (doc_fields d)\<rparr>"

lemma hydrate_doc_Cons:
  "hydrate_doc env lx T select (f # fs) d = hydrate_doc env lx T select fs (hydrate_doc env lx T select [f] d)"
  by (cases f) (simp add: hydrate_doc_def)

lemma hydrate_documents_map:
  "distinct (map doc_id docs) \<Longrightarrow> hydrate_documents env lx T select fds docs = map (hydrate_doc env lx T select fds) docs"
  "distinct (map doc_id docs) \<Longrightarrow> hydrate_documents_tabs env lx T select ts docs = map (hydrate_tabs_doc env lx T select ts) docs"
proof (induction env lx T select fds docs and env lx T select ts docs rule: hydrate_documents_hydrate_documents_tabs.induct)
  case (2 env lx T select a sub tabs blocks fs docs)
  let ?f = "FieldDefinition a sub tabs blocks"
  let ?one = "hydrate_doc env lx T select [?f]"
  let ?docs = "if \<not> selected select a then docs
        else if is_ref_type (fa_type a)
        then (if has_many_config a \<noteq> None then hydrate_relationship_batch env lx a sub (T (fa_name a)) docs else docs)
        else (case fa_type a of
                Row \<Rightarrow> hydrate_documents env lx T select sub docs
              | Collapsible \<Rightarrow> hydrate_documents env lx T select sub docs
              | Tabs \<Rightarrow> hydrate_documents_tabs env lx T select tabs docs
              | Array \<Rightarrow> map ?one docs
              | Blocks \<Rightarrow> map ?one docs
              | Group \<Rightarrow> map ?one docs
              | _ \<Rightarrow> docs)"
  have wrapped: "hydrate_documents env lx T select sub docs = map (hydrate_doc env lx T select sub) docs"
    if "selected select a" "fa_type a = Row \<or> fa_type a = Collapsible"
    using that 2 by (auto simp: is_ref_type_def)
  have tabbed: "hydrate_documents_tabs env lx T select tabs docs = map (hydrate_tabs_doc env lx T select tabs) docs"
    if "selected select a" "fa_type a = Tabs"
    using that 2 by (auto simp: is_ref_type_def)
  have step: "?docs = map ?one docs"
  proof (cases "selected select a")
    case True
    then show ?thesis
      by (cases "fa_type a")
        (simp_all add: is_ref_type_def is_join_field_def wrapped tabbed batch_one [OF 2(5)]
          hydrate_doc_def [abs_def] hydrate_tabs_doc_def [abs_def])
  qed (simp add: hydrate_doc_def [abs_def])
  have "hydrate_documents env lx T select fs ?docs = map (hydrate_doc env lx T select fs) ?docs"
    using 2 step by (simp add: o_def)
  then show ?case unfolding hydrate_documents.simps(2) step
    by (simp only: step o_def hydrate_doc_Cons [of env lx T select ?f fs] map_map)
qed (simp_all add: hydrate_doc_def [abs_def] hydrate_tabs_doc_def [abs_def] o_def)

text \<open>
  A selected join field in a row, a collapsible or a tab is not hydrated unless the wrapper is
  selected by its own name too; the column of a plain field there is.
\<close>

lemma select_skips_wrapped_join:
  "fa_type a \<in> {Row, Collapsible, Tabs} \<Longrightarrow> fa_name a \<notin> set names \<Longrightarrow>
     hydrate_document env lx T (Some names) p [FieldDefinition a sub tabs blocks] doc = doc"
  by (simp add: selected_def)

section \<open>What a save writes\<close>

text \<open>The join fields with their keys.\<close>

fun join_leaves :: "field_definition list \<Rightarrow> string \<Rightarrow> (field_attrs \<times> field_definition list \<times> string) list"
  and join_leaves_tabs :: "field_tab list \<Rightarrow> string \<Rightarrow> (field_attrs \<times> field_definition list \<times> string) list"
where
  "join_leaves [] pre = []"
| "join_leaves (FieldDefinition a sub tabs blocks # fs) pre =
     (case fa_type a of
        Group \<Rightarrow> join_leaves sub (prefixed_name pre (fa_name a))
      | Row \<Rightarrow> join_leaves sub pre
      | Collapsible \<Rightarrow> join_leaves sub pre
      | Tabs \<Rightarrow> join_leaves_tabs tabs pre
      | _ \<Rightarrow> if is_join_field a then [(a, sub, prefixed_name pre (fa_name a))] else []) @ join_leaves fs pre"
| "join_leaves_tabs [] pre = []"
| "join_leaves_tabs (FieldTab l sub # ts) pre = join_leaves sub pre @ join_leaves_tabs ts pre"

fun save_leaves ::
  "join_env \<Rightarrow> locale_context option \<Rightarrow> string \<Rightarrow> document_fields \<Rightarrow> (field_attrs \<times> field_definition list \<times> string) list
   \<Rightarrow> join_tables \<Rightarrow> join_tables option"
where
  "save_leaves env lx p data [] T = Some T"
| "save_leaves env lx p data ((a, sub, key) # ls) T = Option.bind (save_field env lx p data a sub key T) (save_leaves env lx p data ls)"

lemma save_leaves_append:
  "save_leaves env lx p data (xs @ ys) T = Option.bind (save_leaves env lx p data xs T) (save_leaves env lx p data ys)"
  by (induction xs arbitrary: T) (auto intro!: Option.bind_cong)

lemma save_is_leaves:
  "save_join_data_inner env lx p data fs pre T = save_leaves env lx p data (join_leaves fs pre) T"
  "save_join_data_tabs env lx p data ts pre T = save_leaves env lx p data (join_leaves_tabs ts pre) T"
proof (induction env lx p data fs pre T and env lx p data ts pre T rule: save_join_data_inner_save_join_data_tabs.induct)
  case (2 env lx p data a sub tabs blocks fs pre T)
  then show ?case
    by (cases "fa_type a") (auto simp: save_leaves_append is_join_field_def is_ref_type_def split: option.split intro!: Option.bind_cong)
qed (auto simp: save_leaves_append intro!: Option.bind_cong)

text \<open>What a value reads back as once it is saved.\<close>

definition written :: "join_env \<Rightarrow> field_attrs \<Rightarrow> field_definition list \<Rightarrow> json_value \<Rightarrow> json_value list" where
  "written env a sub v =
     (case fa_type a of
        Array \<Rightarrow> stored_rows env sub (coerce_array_rows v)
      | Blocks \<Rightarrow> stored_blocks env (json_elements v)
      | _ \<Rightarrow>
          (case has_many_config a of
             None \<Rightarrow> []
           | Some rc \<Rightarrow>
               if is_polymorphic rc then map (\<lambda>(c, i). JString (c @ ''/'' @ i)) (parse_polymorphic_values v)
               else map JString (parse_id_list v)))"

lemma write_then_read:
  assumes "is_join_field a" "write_table env p a sub l v t = Some t'"
  shows "read_table env p a sub l t' = written env a sub v"
  using assms by (cases "fa_type a")
    (auto simp: is_join_field_def is_ref_type_def write_table_def read_table_def written_def find_after_set_array
      find_after_set_blocks related.get_put polymorphic.get_put split: if_splits)

lemma write_other_locale:
  assumes "is_join_field a" "write_table env p a sub (Some k) v t = Some t'" "k \<noteq> k'"
  shows "read_table env p a sub (Some k') t' = read_table env p a sub (Some k') t"
  using assms by (cases "fa_type a")
    (auto simp: is_join_field_def is_ref_type_def write_table_def read_table_def array_other blocks_other related.get_locale
      polymorphic.get_locale split: if_splits)

definition rows_of_others :: "string \<Rightarrow> table_rows \<Rightarrow> table_rows" where
  "rows_of_others p t = filter (\<lambda>r. tr_parent r \<noteq> p) t"

lemma replace_keeps_others [simp]: "rows_of_others p (replace_rows env p l ds t) = rows_of_others p t"
  by (auto simp: rows_of_others_def replace_rows_def delete_junction_rows_def delete_where_def in_scope_def new_row_def
      filter_empty_conv intro!: filter_cong split: prod.splits)

lemma write_keeps_others: "write_table env p a sub l v t = Some t' \<Longrightarrow> rows_of_others p t' = rows_of_others p t"
  by (auto simp: write_table_def set_array_rows_replace set_block_rows_def set_related_ids_def set_polymorphic_related_def
      split: field_type.splits option.splits if_splits)

definition leaf_key :: "field_attrs \<times> field_definition list \<times> string \<Rightarrow> string" where
  "leaf_key leaf = (case leaf of (a, sub, key) \<Rightarrow> key)"

lemma save_leaves_other_key: "save_leaves env lx p data ls T = Some T' \<Longrightarrow> k \<notin> leaf_key ` set ls \<Longrightarrow> T' k = T k"
proof (induction ls arbitrary: T)
  case (Cons leaf ls)
  obtain a sub key where "leaf = (a, sub, key)" by (cases leaf)
  with Cons show ?case by (auto simp: Option.bind_eq_Some_conv save_field_def leaf_key_def split: option.splits)
qed simp

lemma save_leaves_others: "save_leaves env lx p data ls T = Some T' \<Longrightarrow> rows_of_others p (T' k) = rows_of_others p (T k)"
proof (induction ls arbitrary: T)
  case (Cons leaf ls)
  obtain a sub key where "leaf = (a, sub, key)" by (cases leaf)
  with Cons show ?case by (auto simp: Option.bind_eq_Some_conv save_field_def write_keeps_others split: option.splits)
qed simp

lemma save_leaves_table:
  assumes "save_leaves env lx p data ls T = Some T'" "distinct (map leaf_key ls)" "(a, sub, key) \<in> set ls"
  shows "save_field env lx p data a sub key T = Some (T(key := T' key))"
  using assms
proof (induction ls arbitrary: T)
  case (Cons leaf ls)
  obtain a' sub' key' where leaf: "leaf = (a', sub', key')" by (cases leaf)
  from Cons.prems(1) obtain U where U: "save_field env lx p data a' sub' key' T = Some U"
    and rest: "save_leaves env lx p data ls U = Some T'" by (auto simp: leaf Option.bind_eq_Some_conv)
  show ?case
  proof (cases "key = key'")
    case True
    then have "(a, sub) = (a', sub')" and "key' \<notin> leaf_key ` set ls"
      using Cons.prems(2,3) by (force simp: leaf leaf_key_def)+
    moreover have "U = T(key' := U key')" using U by (auto simp: save_field_def split: option.splits)
    ultimately show ?thesis using U save_leaves_other_key [OF rest] True by simp
  next
    case False
    then have "save_field env lx p data a sub key U = Some (U(key := T' key))"
      using Cons.IH [OF rest] Cons.prems by (auto simp: leaf)
    moreover have "U key = T key" using U False by (auto simp: save_field_def split: option.splits)
    ultimately show ?thesis using False
      by (auto simp: save_field_def fun_eq_iff split: option.splits if_splits)
  qed
qed simp

lemma join_leaves_fields:
  "(b, s, k) \<in> set (join_leaves fs pre) \<Longrightarrow> is_join_field b"
  "(b, s, k) \<in> set (join_leaves_tabs ts pre) \<Longrightarrow> is_join_field b"
proof (induction fs pre and ts pre rule: join_leaves_join_leaves_tabs.induct)
  case (2 a sub tabs blocks fs pre)
  then show ?case by (cases "fa_type a") (auto split: if_splits)
qed auto

text \<open>
  C37: After a save, a join field in the data hydrates to what was written, or to the rows of the
  fallback locale when nothing was; a join field that is not in the data hydrates as before; and the
  rows of every other document are as they were in every table.
\<close>

theorem saved_joins_read_back:
  assumes saved: "save_join_table_data env lx fds p data T = Some T'"
    and keys: "distinct (map leaf_key (join_leaves fds []))" and leaf: "(a, sub, key) \<in> set (join_leaves fds [])"
  shows "hydrate_field env lx p a sub (T' key) =
      (case map_of data key of
         None \<Rightarrow> hydrate_field env lx p a sub (T key)
       | Some v \<Rightarrow>
           JArray (if written env a sub v = [] \<and> resolve_join_fallback_locale a lx \<noteq> None
                   then read_table env p a sub (resolve_join_fallback_locale a lx) (T key)
                   else written env a sub v))
    \<and> rows_of_others p (T' k) = rows_of_others p (T k)"
proof -
  from saved have leaves: "save_leaves env lx p data (join_leaves fds []) T = Some T'"
    by (simp add: save_join_table_data_def save_is_leaves)
  have join: "is_join_field a" by (rule join_leaves_fields(1) [OF leaf])
  have field: "save_field env lx p data a sub key T = Some (T(key := T' key))" by (rule save_leaves_table [OF leaves keys leaf])
  have fallback: "read_table env p a sub (resolve_join_fallback_locale a lx) t' = read_table env p a sub (resolve_join_fallback_locale a lx) t"
    if "resolve_join_fallback_locale a lx \<noteq> None" and "write_table env p a sub (resolve_join_locale a lx) v t = Some t'" for v t t'
    using that write_other_locale [OF join]
    by (auto simp: resolve_join_fallback_locale_def resolve_join_locale_def split: option.splits locale_mode.splits if_splits)
  have "hydrate_field env lx p a sub (T' key) =
      JArray (if written env a sub v = [] \<and> resolve_join_fallback_locale a lx \<noteq> None
              then read_table env p a sub (resolve_join_fallback_locale a lx) (T key) else written env a sub v)"
    if "map_of data key = Some v" for v
  proof -
    from field that have w: "write_table env p a sub (resolve_join_locale a lx) v (T key) = Some (T' key)"
      by (auto simp: save_field_def dest: fun_cong [of _ _ key])
    show ?thesis using write_then_read [OF join w] fallback [OF _ w]
      by (cases "resolve_join_fallback_locale a lx") (simp_all add: hydrate_field_def Let_def)
  qed
  moreover have "T' key = T key" if "map_of data key = None"
    using field that by (auto simp: save_field_def dest: fun_cong [of _ _ key])
  ultimately show ?thesis using save_leaves_others [OF leaves] by (simp split: option.split)
qed


section \<open>Examples\<close>

definition tags_attrs :: field_attrs where
  "tags_attrs = (new_attrs ''tags'' Relationship)
     \<lparr>fa_relationship := Some \<lparr>rc_collection = ''tags'', rc_has_many = True, rc_polymorphic = [], rc_max_depth = None\<rparr>, fa_localized := True\<rparr>"

definition tags_field :: field_definition where
  "tags_field = FieldDefinition tags_attrs [] [] []"

definition meta_fields :: "field_definition list" where
  "meta_fields =
     [FieldDefinition (new_attrs ''meta'' Group) [tags_field] [] [],
      FieldDefinition (new_attrs ''labels'' Array) label_fields [] []]"

definition german :: "locale_context option" where
  "german = Some \<lparr>lx_mode = Single ''de'', lx_config = \<lparr>lc_default_locale = ''en'', lc_locales = [''en'', ''de''], lc_fallback = True\<rparr>\<rparr>"

definition tag_row :: "string \<Rightarrow> string \<Rightarrow> string \<Rightarrow> table_row" where
  "tag_row p l i = \<lparr>tr_id = [], tr_parent = p, tr_order = 0, tr_locale = l, tr_data = Related i\<rparr>"

definition meta_tables :: join_tables where
  "meta_tables = (\<lambda>k. if k = ''meta__tags'' then [tag_row ''p1'' ''en'' ''a'', tag_row ''p1'' ''de'' ''b'', tag_row ''p2'' ''de'' ''c''] else [])"

definition meta_data :: document_fields where
  "meta_data = [(''meta__tags'', JArray [JString ''t1'', JString ''t2'']), (''title'', JString ''x'')]"

lemma meta_leaves:
  "join_leaves meta_fields [] = [(tags_attrs, [], ''meta__tags''), (new_attrs ''labels'' Array, label_fields, ''labels'')]"
  by (simp add: meta_fields_def tags_field_def tags_attrs_def new_attrs_def is_join_field_def is_ref_type_def has_many_config_def
      prefixed_name_def)

theorem saved_joins_read_back_witness:
  "\<exists>T'. save_join_table_data plain_env german meta_fields ''p1'' meta_data meta_tables = Some T' \<and>
     hydrate_field plain_env german ''p1'' tags_attrs [] (T' ''meta__tags'') = JArray [JString ''t1'', JString ''t2''] \<and>
     rows_of_others ''p1'' (T' ''meta__tags'') = [tag_row ''p2'' ''de'' ''c'']"
proof -
  have "\<exists>T'. save_join_table_data plain_env german meta_fields ''p1'' meta_data meta_tables = Some T'"
    by (simp add: save_join_table_data_def save_is_leaves meta_leaves save_field_def meta_data_def write_table_def
        set_related_ids_def parse_id_list_def List.map_filter_simps tags_attrs_def new_attrs_def has_many_config_def
        is_polymorphic_def)
  then obtain T' where saved: "save_join_table_data plain_env german meta_fields ''p1'' meta_data meta_tables = Some T'" ..
  have written: "written plain_env tags_attrs [] (JArray [JString ''t1'', JString ''t2'']) = [JString ''t1'', JString ''t2'']"
    by (simp add: written_def tags_attrs_def new_attrs_def has_many_config_def is_polymorphic_def parse_id_list_def
        List.map_filter_simps)
  have "hydrate_field plain_env german ''p1'' tags_attrs [] (T' ''meta__tags'') = JArray [JString ''t1'', JString ''t2''] \<and>
      rows_of_others ''p1'' (T' ''meta__tags'') = rows_of_others ''p1'' (meta_tables ''meta__tags'')"
    by (subst saved_joins_read_back [OF saved, where key = "''meta__tags''"])
      (simp_all add: meta_leaves leaf_key_def meta_data_def written saved_joins_read_back [OF saved])
  then show ?thesis using saved by (auto simp: rows_of_others_def meta_tables_def tag_row_def)
qed


end
