(* ===== verification/FieldAccess.thy ===== *)
theory FieldAccess
  imports Hydrate EventDelivery
begin

text \<open>
  Which fields a user may write or see (src/src/hooks/lifecycle/access/field.rs and runner/access.rs,
  src/src/service/helpers.rs) and how the others leave the data of a write
  (src/src/service/write/helpers.rs, hook_context.rs) and a document that is read
  (src/src/core/document/kind.rs, db/query/read/select.rs).
\<close>

section \<open>The denied fields\<close>

text \<open>
  The Lua functions of the access settings, for the user of the request: \<open>None\<close> is an error.  The
  pool of Lua machines may be exhausted.
\<close>

record access_vm =
  av_available :: bool
  av_check :: "string \<Rightarrow> access_result option"

type_synonym access_setting = "field_attrs \<Rightarrow> string option"

definition refused :: "(string \<Rightarrow> access_result option) \<Rightarrow> access_setting \<Rightarrow> field_attrs \<Rightarrow> bool" where
  "refused check setting a =
     (case setting a of
        None \<Rightarrow> False
      | Some f \<Rightarrow> (case check f of None \<Rightarrow> True | Some Denied \<Rightarrow> True | Some _ \<Rightarrow> False))"

fun has_any_field_access :: "access_setting \<Rightarrow> field_definition list \<Rightarrow> bool"
  and has_any_tab_access :: "access_setting \<Rightarrow> field_tab list \<Rightarrow> bool"
where
  "has_any_field_access setting [] \<longleftrightarrow> False"
| "has_any_field_access setting (FieldDefinition a sub tabs blocks # fs) \<longleftrightarrow>
     setting a \<noteq> None \<or>
     (if fa_type a = Group \<or> fa_type a = Row \<or> fa_type a = Collapsible then has_any_field_access setting sub
      else if fa_type a = Tabs then has_any_tab_access setting tabs
      else False) \<or>
     has_any_field_access setting fs"
| "has_any_tab_access setting [] \<longleftrightarrow> False"
| "has_any_tab_access setting (FieldTab l sub # ts) \<longleftrightarrow> has_any_field_access setting sub \<or> has_any_tab_access setting ts"

fun collect_field_access_denied ::
  "(string \<Rightarrow> access_result option) \<Rightarrow> access_setting \<Rightarrow> field_definition list \<Rightarrow> string \<Rightarrow> string list"
  and collect_tab_access_denied ::
  "(string \<Rightarrow> access_result option) \<Rightarrow> access_setting \<Rightarrow> field_tab list \<Rightarrow> string \<Rightarrow> string list"
where
  "collect_field_access_denied check setting [] pre = []"
| "collect_field_access_denied check setting (FieldDefinition a sub tabs blocks # fs) pre =
     (if refused check setting a then [prefixed_name pre (fa_name a)]
      else if fa_type a = Group then collect_field_access_denied check setting sub (prefixed_name pre (fa_name a))
      else if fa_type a = Row \<or> fa_type a = Collapsible then collect_field_access_denied check setting sub pre
      else if fa_type a = Tabs then collect_tab_access_denied check setting tabs pre
      else []) @ collect_field_access_denied check setting fs pre"
| "collect_tab_access_denied check setting [] pre = []"
| "collect_tab_access_denied check setting (FieldTab l sub # ts) pre =
     collect_field_access_denied check setting sub pre @ collect_tab_access_denied check setting ts pre"

fun deny_all_recursive :: "access_setting \<Rightarrow> field_definition list \<Rightarrow> string \<Rightarrow> string list"
  and deny_all_tabs :: "access_setting \<Rightarrow> field_tab list \<Rightarrow> string \<Rightarrow> string list"
where
  "deny_all_recursive setting [] pre = []"
| "deny_all_recursive setting (FieldDefinition a sub tabs blocks # fs) pre =
     (if setting a \<noteq> None then [prefixed_name pre (fa_name a)] else []) @
     (if fa_type a = Group then deny_all_recursive setting sub (prefixed_name pre (fa_name a))
      else if fa_type a = Row \<or> fa_type a = Collapsible then deny_all_recursive setting sub pre
      else if fa_type a = Tabs then deny_all_tabs setting tabs pre
      else []) @ deny_all_recursive setting fs pre"
| "deny_all_tabs setting [] pre = []"
| "deny_all_tabs setting (FieldTab l sub # ts) pre = deny_all_recursive setting sub pre @ deny_all_tabs setting ts pre"

definition check_field_access :: "access_vm \<Rightarrow> access_setting \<Rightarrow> field_definition list \<Rightarrow> string list" where
  "check_field_access vm setting fds =
     (if \<not> has_any_field_access setting fds then []
      else if \<not> av_available vm then deny_all_recursive setting fds []
      else collect_field_access_denied (av_check vm) setting fds [])"

definition check_field_read_access :: "access_vm \<Rightarrow> field_definition list \<Rightarrow> string list" where
  "check_field_read_access vm fds = check_field_access vm fa_access_read fds"

definition check_field_write_access :: "access_vm \<Rightarrow> string \<Rightarrow> field_definition list \<Rightarrow> string list" where
  "check_field_write_access vm operation fds =
     (if operation = ''create'' then check_field_access vm fa_access_create fds
      else if operation = ''update'' then check_field_access vm fa_access_update fds
      else [])"

fun collect_api_hidden_field_names :: "field_definition list \<Rightarrow> string \<Rightarrow> string list"
  and collect_api_hidden_tabs :: "field_tab list \<Rightarrow> string \<Rightarrow> string list"
where
  "collect_api_hidden_field_names [] pre = []"
| "collect_api_hidden_field_names (FieldDefinition a sub tabs blocks # fs) pre =
     (if fa_hidden a then [prefixed_name pre (fa_name a)]
      else if fa_type a = Group then collect_api_hidden_field_names sub (prefixed_name pre (fa_name a))
      else if fa_type a = Row \<or> fa_type a = Collapsible then collect_api_hidden_field_names sub pre
      else if fa_type a = Tabs then collect_api_hidden_tabs tabs pre
      else []) @ collect_api_hidden_field_names fs pre"
| "collect_api_hidden_tabs [] pre = []"
| "collect_api_hidden_tabs (FieldTab l sub # ts) pre =
     collect_api_hidden_field_names sub pre @ collect_api_hidden_tabs ts pre"

section \<open>Out of a document\<close>

fun dunder_segments :: "string \<Rightarrow> string list" where
  "dunder_segments (a # b # cs) =
     (if a = CHR ''_'' \<and> b = CHR ''_'' then [] # dunder_segments cs
      else (case dunder_segments (b # cs) of s # ss \<Rightarrow> (a # s) # ss | [] \<Rightarrow> [[a]]))"
| "dunder_segments [c] = [[c]]"
| "dunder_segments [] = [[]]"

fun strip_nested :: "string list \<Rightarrow> document_fields \<Rightarrow> document_fields" where
  "strip_nested [] ms = ms"
| "strip_nested (first # rest) ms =
     (case as_object (map_of ms first) of
        None \<Rightarrow> ms
      | Some inner \<Rightarrow>
          json_put first (JObject (if length rest = 1 then json_remove (hd rest) inner else strip_nested rest inner)) ms)"

definition strip_name :: "string \<Rightarrow> document_fields \<Rightarrow> document_fields" where
  "strip_name name ms =
     (let ms' = json_remove name ms; segments = dunder_segments name
      in if 2 \<le> length segments then strip_nested segments ms' else ms')"

definition strip_fields :: "string list \<Rightarrow> document_fields \<Rightarrow> document_fields" where
  "strip_fields names ms = fold strip_name names ms"

definition apply_select_to_document :: "string list \<Rightarrow> document \<Rightarrow> document" where
  "apply_select_to_document select d =
     \<lparr>doc_id = doc_id d,
      doc_created_at = (if ''created_at'' \<in> set select then doc_created_at d else None),
      doc_updated_at = (if ''updated_at'' \<in> set select then doc_updated_at d else None),
      doc_fields = filter (\<lambda>(k, v). k \<in> set select \<or>
        (case before_double_underscore k of None \<Rightarrow> False | Some p \<Rightarrow> p \<in> set select)) (doc_fields d)\<rparr>"

section \<open>Out of a write\<close>

definition strip_denied_fields :: "string list \<Rightarrow> document_fields \<Rightarrow> document_fields" where
  "strip_denied_fields denied data = fold json_remove denied data"

text \<open>A group's object as the values of its columns.\<close>

fun flatten_group_to_value_map :: "string \<Rightarrow> json_value \<Rightarrow> document_fields" where
  "flatten_group_to_value_map pre (JObject ms) =
     concat (map (\<lambda>(k, v). flatten_group_to_value_map (pre @ ''__'' @ k) v) ms)"
| "flatten_group_to_value_map pre v = [(pre, v)]"

definition value_entries :: "field_definition list \<Rightarrow> string \<times> json_value \<Rightarrow> document_fields" where
  "value_entries fds kv =
     (case kv of (k, v) \<Rightarrow>
       if list_ex (\<lambda>f. fa_name (fd_attrs f) = k \<and> fa_type (fd_attrs f) = Group) fds
       then flatten_group_to_value_map k v else [(k, v)])"

definition to_value_map :: "field_definition list \<Rightarrow> document_fields \<Rightarrow> document_fields" where
  "to_value_map fds data = fold (\<lambda>(k, v). json_put k v) (concat (map (value_entries fds) data)) []"

lemma dunder_segments_nonempty [simp]: "dunder_segments s \<noteq> []"
  by (induction s rule: dunder_segments.induct) (auto split: list.split)

lemma split_dunder_segments: "split_dunder s = dunder_segments s"
proof -
  have "split_dunder_acc acc s = (case dunder_segments s of t # ts \<Rightarrow> (rev acc @ t) # ts | [] \<Rightarrow> [])" for acc
    by (induction acc s rule: split_dunder_acc.induct) (auto split: list.splits dest: dunder_segments_nonempty [THEN notE])
  then show ?thesis using dunder_segments_nonempty [of s] by (cases "dunder_segments s") (simp_all add: split_dunder_def)
qed

section \<open>The checks\<close>

lemma no_access_none_denied:
  "\<not> has_any_field_access setting fs \<Longrightarrow> collect_field_access_denied check setting fs pre = []"
  "\<not> has_any_tab_access setting ts \<Longrightarrow> collect_tab_access_denied check setting ts pre = []"
proof (induction check setting fs pre and check setting ts pre
    rule: collect_field_access_denied_collect_tab_access_denied.induct)
qed (auto simp: refused_def split: if_splits)

lemma denied_in_deny_all:
  "set (collect_field_access_denied check setting fs pre) \<subseteq> set (deny_all_recursive setting fs pre)"
  "set (collect_tab_access_denied check setting ts pre) \<subseteq> set (deny_all_tabs setting ts pre)"
proof (induction check setting fs pre and check setting ts pre
    rule: collect_field_access_denied_collect_tab_access_denied.induct)
qed (auto simp: refused_def split: option.splits)

text \<open>
  C38: A request that finds no Lua machine is denied at least the fields it would be denied with one.
\<close>

theorem field_access_fails_closed:
  "set (check_field_access (vm\<lparr>av_available := True\<rparr>) setting fds) \<subseteq> set (check_field_access (vm\<lparr>av_available := False\<rparr>) setting fds)"
  by (auto simp: check_field_access_def dest: subsetD [OF denied_in_deny_all(1)])

section \<open>What stripping removes\<close>

lemma map_of_json_remove: "map_of (json_remove k ms) j = (if j = k then None else map_of ms j)"
  by (induction ms) (auto simp: json_remove_def)

lemma map_of_json_put: "map_of (json_put k v ms) j = (if j = k then Some v else map_of ms j)"
  using map_of_json_remove [of k ms j] by (auto simp: json_put_def json_remove_def)

text \<open>The value at a path of nested objects.\<close>

fun path_value :: "document_fields \<Rightarrow> string list \<Rightarrow> json_value option" where
  "path_value ms [] = None"
| "path_value ms [k] = map_of ms k"
| "path_value ms (k # k' # ks) =
     (case as_object (map_of ms k) of None \<Rightarrow> None | Some inner \<Rightarrow> path_value inner (k' # ks))"

lemma path_value_Cons: "ks \<noteq> [] \<Longrightarrow>
    path_value ms (k # ks) = (case as_object (map_of ms k) of None \<Rightarrow> None | Some inner \<Rightarrow> path_value inner ks)"
  by (cases ks) (simp_all cong: option.case_cong)

lemma as_object_simps [simp]: "as_object (Some (JObject ms)) = Some ms" "as_object None = None"
  by (simp_all add: as_object_def)

lemma as_object_Some: "as_object v = Some ms \<longleftrightarrow> v = Some (JObject ms)"
  by (auto simp: as_object_def split: option.splits json_value.splits)

lemma path_value_cong: "q \<noteq> [] \<Longrightarrow> map_of ms (hd q) = map_of ms' (hd q) \<Longrightarrow> path_value ms q = path_value ms' q"
proof (cases q)
  case (Cons k ks)
  then show "map_of ms (hd q) = map_of ms' (hd q) \<Longrightarrow> ?thesis" by (cases ks) simp_all
qed simp

lemma path_value_absent: "map_of ms (hd q) = None \<Longrightarrow> path_value ms q = None"
  using path_value_cong [of q ms "[]"] by (cases q; cases "tl q") auto

lemma path_value_remove: "q \<noteq> [] \<Longrightarrow> path_value (json_remove k ms) q = (if hd q = k then None else path_value ms q)"
  using path_value_cong [of q "json_remove k ms" ms] path_value_absent [of "json_remove k ms" q] by (simp add: map_of_json_remove)

lemma path_value_put_other: "q \<noteq> [] \<Longrightarrow> hd q \<noteq> k \<Longrightarrow> path_value (json_put k v ms) q = path_value ms q"
  using path_value_cong [of q "json_put k v ms" ms] by (simp add: map_of_json_put)

lemma path_value_put_same: "ks \<noteq> [] \<Longrightarrow> path_value (json_put k (JObject inner) ms) (k # ks) = path_value inner ks"
  by (simp add: path_value_Cons map_of_json_put)

lemma strip_nested_path:
  assumes "2 \<le> length segs" "q \<noteq> []" "\<not> strict_prefix q segs"
  shows "path_value (strip_nested segs ms) q = (if prefix segs q then None else path_value ms q)"
  using assms
proof (induction segs ms arbitrary: q rule: strip_nested.induct)
  case (2 first rest ms)
  show ?case
  proof (cases "as_object (map_of ms first)")
    case None
    have "path_value ms q = None" if "prefix (first # rest) q"
      using that None "2.prems"(1) by (cases rest) (auto simp: prefix_def)
    then show ?thesis using None by auto
  next
    case (Some inner)
    obtain k ks where q: "q = k # ks" using "2.prems"(2) by (cases q) auto
    show ?thesis
    proof (cases "k = first")
      case False
      then show ?thesis using Some by (simp add: q path_value_put_other)
    next
      case True
      have ks: "ks \<noteq> []" using "2.prems"(1,3) True by (auto simp: q strict_prefix_def)
      have strict: "\<not> strict_prefix ks rest" using "2.prems"(3) True by (simp add: q strict_prefix_def)
      show ?thesis
      proof (cases "length rest = 1")
        case one: True
        then obtain x where x: "rest = [x]" by (cases rest) auto
        then have "strip_nested (first # rest) ms = json_put first (JObject (json_remove x inner)) ms" using Some by simp
        moreover have "prefix (first # rest) q \<longleftrightarrow> hd ks = x" using ks True by (cases ks) (auto simp: q x)
        moreover have "path_value ms q = path_value inner ks" using ks True Some by (simp add: q path_value_Cons)
        ultimately show ?thesis using ks True by (simp only: q) (simp add: path_value_put_same path_value_remove)
      next
        case False
        then have len: "2 \<le> length rest" using "2.prems"(1) by simp
        have "path_value (strip_nested rest inner) ks = (if prefix rest ks then None else path_value inner ks)"
          by (rule "2.IH" [OF Some False len ks strict])
        then show ?thesis using Some True ks False by (simp add: q path_value_Cons map_of_json_put)
      qed
    qed
  qed
qed simp

text \<open>A path is gone once its top-level key is a stripped name or a stripped name's path leads to it.\<close>

definition strips :: "string \<Rightarrow> string list \<Rightarrow> bool" where
  "strips name q \<longleftrightarrow> hd q = name \<or> prefix (dunder_segments name) q"

lemma split_single: "length (dunder_segments s) < 2 \<Longrightarrow> dunder_segments s = [s]"
proof (induction s rule: dunder_segments.induct)
  case (1 a b cs)
  then show ?case by (cases "dunder_segments (b # cs)") (auto split: if_splits)
qed simp_all

lemma strip_name_path:
  assumes "q \<noteq> []" "\<not> strict_prefix q (dunder_segments name)"
  shows "path_value (strip_name name ms) q = (if strips name q then None else path_value ms q)"
proof (cases "2 \<le> length (dunder_segments name)")
  case True
  then show ?thesis using assms strip_nested_path [OF True assms, of "json_remove name ms"]
    by (simp add: strip_name_def strips_def path_value_remove)
next
  case False
  then have "dunder_segments name = [name]" by (intro split_single) simp
  then have "strips name q \<longleftrightarrow> hd q = name" using assms(1) by (cases q) (auto simp: strips_def)
  then show ?thesis using assms(1) False by (simp add: strip_name_def path_value_remove)
qed

text \<open>
  Stripping removes exactly the values the names stand for, flat or nested in groups, and leaves
  every other value as it was.
\<close>

theorem strip_fields_exact:
  assumes "q \<noteq> []" "list_all (\<lambda>n. \<not> strict_prefix q (dunder_segments n)) names"
  shows "path_value (strip_fields names ms) q = (if list_ex (\<lambda>n. strips n q) names then None else path_value ms q)"
  using assms(2) unfolding strip_fields_def
proof (induction names arbitrary: ms)
  case (Cons n names)
  then show ?case using strip_name_path [OF assms(1), of n ms] by (simp add: Cons.IH)
qed simp

text \<open>Stripping never brings a value back.\<close>

lemma strip_nested_absent: "q \<noteq> [] \<Longrightarrow> path_value ms q = None \<Longrightarrow> path_value (strip_nested segs ms) q = None"
proof (induction segs ms arbitrary: q rule: strip_nested.induct)
  case (2 first rest ms)
  obtain k ks where q: "q = k # ks" using "2.prems"(1) by (cases q) auto
  show ?case
  proof (cases "as_object (map_of ms first)")
    case (Some inner)
    show ?thesis
    proof (cases "k = first")
      case True
      have ks: "ks \<noteq> []" using "2.prems"(2) Some True by (auto simp: q as_object_Some)
      then have inner: "path_value inner ks = None" using "2.prems"(2) Some True by (simp add: q path_value_Cons)
      show ?thesis using Some True ks inner "2.IH" [OF Some _ ks inner]
        by (cases "length rest = 1") (simp_all add: q path_value_put_same path_value_remove)
    qed (use "2.prems"(2) Some in \<open>simp add: q path_value_put_other\<close>)
  qed (use "2.prems"(2) in simp)
qed simp

lemma strip_name_absent: "q \<noteq> [] \<Longrightarrow> path_value ms q = None \<Longrightarrow> path_value (strip_name n ms) q = None"
  by (simp add: strip_name_def Let_def strip_nested_absent path_value_remove)

lemma strip_fields_absent: "q \<noteq> [] \<Longrightarrow> path_value ms q = None \<Longrightarrow> path_value (strip_fields names ms) q = None"
  unfolding strip_fields_def by (induction names arbitrary: ms) (simp_all add: strip_name_absent)

lemma strip_fields_gone:
  assumes "n \<in> set names" "strips n q" "q \<noteq> []" "\<not> strict_prefix q (dunder_segments n)"
  shows "path_value (strip_fields names ms) q = None"
  using assms(1)
proof (induction names arbitrary: ms)
  case (Cons m names)
  show ?case
  proof (cases "m = n")
    case True
    have "path_value (strip_name n ms) q = None" using strip_name_path [OF assms(3,4)] assms(2) by simp
    then show ?thesis using strip_fields_absent [OF assms(3)] True by (simp add: strip_fields_def)
  next
    case False
    then show ?thesis using Cons by (simp add: strip_fields_def)
  qed
qed simp

section \<open>What a user does not see\<close>

text \<open>Names as the parser admits them in groups; a group's name that ends in an underscore would not split back.\<close>

definition plain_segment :: "string \<Rightarrow> bool" where
  "plain_segment s \<longleftrightarrow> s \<noteq> [] \<and> dunder_segments s = [s]"

definition group_segment :: "string \<Rightarrow> bool" where
  "group_segment s \<longleftrightarrow> plain_segment s \<and> last s \<noteq> CHR ''_''"

fun dunder_path :: "string list \<Rightarrow> string" where
  "dunder_path [] = []"
| "dunder_path [g] = g"
| "dunder_path (g # g' # gs) = g @ ''__'' @ dunder_path (g' # gs)"

lemma split_group: "dunder_segments s = [s] \<Longrightarrow> s = [] \<or> last s \<noteq> CHR ''_'' \<Longrightarrow> dunder_segments (s @ ''__'' @ t) = s # dunder_segments t"
proof (induction s rule: dunder_segments.induct)
  case (1 a b cs)
  have "dunder_segments (b # cs) = [b # cs]"
    using "1.prems"(1) by (cases "dunder_segments (b # cs)") (auto split: if_splits)
  moreover have "\<not> (a = CHR ''_'' \<and> b = CHR ''_'')" using "1.prems"(1) by (auto split: if_splits)
  ultimately show ?case using 1 by auto
qed auto

lemma split_dunder_path:
  "gs \<noteq> [] \<Longrightarrow> list_all group_segment (butlast gs) \<Longrightarrow> plain_segment (last gs) \<Longrightarrow> dunder_segments (dunder_path gs) = gs"
proof (induction gs rule: dunder_path.induct)
  case (3 g g' gs)
  then have "dunder_segments (g @ ''__'' @ dunder_path (g' # gs)) = g # dunder_segments (dunder_path (g' # gs))"
    by (intro split_group) (auto simp: group_segment_def plain_segment_def)
  then show ?case using 3 by simp
qed (simp_all add: plain_segment_def)

lemma dunder_path_snoc: "list_all plain_segment gs \<Longrightarrow> prefixed_name (dunder_path gs) n = dunder_path (gs @ [n])"
proof (induction gs rule: dunder_path.induct)
  case (3 g g' gs)
  have "dunder_path (g' # gs) \<noteq> []" using 3(2) by (cases gs) (auto simp: plain_segment_def)
  then show ?case using 3 by (cases gs) (auto simp: prefixed_name_def)
qed (auto simp: prefixed_name_def plain_segment_def)

text \<open>
  The fields with a value, by their path, and whether the field or a group it is in satisfies \<open>P\<close>;
  the names are those of a parsed schema, and \<open>P\<close> holds for no row, collapsible or tabs field.
\<close>

fun concealed_paths :: "(field_attrs \<Rightarrow> bool) \<Rightarrow> field_definition list \<Rightarrow> string list \<Rightarrow> bool \<Rightarrow> (string list \<times> bool) list"
  and concealed_tabs :: "(field_attrs \<Rightarrow> bool) \<Rightarrow> field_tab list \<Rightarrow> string list \<Rightarrow> bool \<Rightarrow> (string list \<times> bool) list"
where
  "concealed_paths P [] gs c = []"
| "concealed_paths P (FieldDefinition a sub tabs blocks # fs) gs c =
     (if fa_type a = Group then concealed_paths P sub (gs @ [fa_name a]) (c \<or> P a)
      else if fa_type a = Row \<or> fa_type a = Collapsible then concealed_paths P sub gs (c \<or> P a)
      else if fa_type a = Tabs then concealed_tabs P tabs gs (c \<or> P a)
      else [(gs @ [fa_name a], c \<or> P a)]) @ concealed_paths P fs gs c"
| "concealed_tabs P [] gs c = []"
| "concealed_tabs P (FieldTab l sub # ts) gs c = concealed_paths P sub gs c @ concealed_tabs P ts gs c"

definition is_wrapper :: "field_type \<Rightarrow> bool" where
  "is_wrapper ft \<longleftrightarrow> ft = Row \<or> ft = Collapsible \<or> ft = Tabs"

fun schema_plain :: "(field_attrs \<Rightarrow> bool) \<Rightarrow> field_definition list \<Rightarrow> bool"
  and tabs_plain :: "(field_attrs \<Rightarrow> bool) \<Rightarrow> field_tab list \<Rightarrow> bool"
where
  "schema_plain P [] \<longleftrightarrow> True"
| "schema_plain P (FieldDefinition a sub tabs blocks # fs) \<longleftrightarrow>
     (is_wrapper (fa_type a) \<or> plain_segment (fa_name a)) \<and> (fa_type a \<noteq> Group \<or> group_segment (fa_name a)) \<and>
     \<not> (is_wrapper (fa_type a) \<and> P a) \<and>
     (fa_type a \<notin> {Group, Row, Collapsible} \<or> schema_plain P sub) \<and> (fa_type a \<noteq> Tabs \<or> tabs_plain P tabs) \<and>
     schema_plain P fs"
| "tabs_plain P [] \<longleftrightarrow> True"
| "tabs_plain P (FieldTab l sub # ts) \<longleftrightarrow> schema_plain P sub \<and> tabs_plain P ts"

text \<open>Both walks of the code collect the outermost fields that satisfy a predicate.\<close>

fun collect_by :: "(field_attrs \<Rightarrow> bool) \<Rightarrow> field_definition list \<Rightarrow> string \<Rightarrow> string list"
  and collect_by_tabs :: "(field_attrs \<Rightarrow> bool) \<Rightarrow> field_tab list \<Rightarrow> string \<Rightarrow> string list"
where
  "collect_by P [] pre = []"
| "collect_by P (FieldDefinition a sub tabs blocks # fs) pre =
     (if P a then [prefixed_name pre (fa_name a)]
      else if fa_type a = Group then collect_by P sub (prefixed_name pre (fa_name a))
      else if fa_type a = Row \<or> fa_type a = Collapsible then collect_by P sub pre
      else if fa_type a = Tabs then collect_by_tabs P tabs pre
      else []) @ collect_by P fs pre"
| "collect_by_tabs P [] pre = []"
| "collect_by_tabs P (FieldTab l sub # ts) pre = collect_by P sub pre @ collect_by_tabs P ts pre"

lemma denied_collect_by:
  "collect_field_access_denied check setting fs pre = collect_by (refused check setting) fs pre"
  "collect_tab_access_denied check setting ts pre = collect_by_tabs (refused check setting) ts pre"
  by (induction check setting fs pre and check setting ts pre
      rule: collect_field_access_denied_collect_tab_access_denied.induct) auto

lemma hidden_collect_by:
  "collect_api_hidden_field_names fs pre = collect_by fa_hidden fs pre"
  "collect_api_hidden_tabs ts pre = collect_by_tabs fa_hidden ts pre"
  by (induction fs pre and ts pre rule: collect_api_hidden_field_names_collect_api_hidden_tabs.induct) auto

lemma concealed_below:
  "(q, d) \<in> set (concealed_paths P fs gs c) \<Longrightarrow> \<exists>r. r \<noteq> [] \<and> q = gs @ r"
  "(q, d) \<in> set (concealed_tabs P ts gs c) \<Longrightarrow> \<exists>r. r \<noteq> [] \<and> q = gs @ r"
proof (induction P fs gs c and P ts gs c rule: concealed_paths_concealed_tabs.induct)
  case (2 P a sub tabs blocks fs gs c)
  then show ?case by (fastforce split: if_splits)
qed auto

lemma concealed_collected:
  "schema_plain P fs \<Longrightarrow> list_all group_segment gs \<Longrightarrow> (q, True) \<in> set (concealed_paths P fs gs False) \<Longrightarrow>
     \<exists>n \<in> set (collect_by P fs (dunder_path gs)). prefix (dunder_segments n) q"
  "tabs_plain P ts \<Longrightarrow> list_all group_segment gs \<Longrightarrow> (q, True) \<in> set (concealed_tabs P ts gs False) \<Longrightarrow>
     \<exists>n \<in> set (collect_by_tabs P ts (dunder_path gs)). prefix (dunder_segments n) q"
proof (induction P fs gs "False" and P ts gs "False" rule: concealed_paths_concealed_tabs.induct)
  case (2 P a sub tabs blocks fs gs)
  have gs: "list_all plain_segment gs" using "2.prems"(2) by (auto simp: list_all_iff group_segment_def)
  have name: "prefixed_name (dunder_path gs) (fa_name a) = dunder_path (gs @ [fa_name a])" by (rule dunder_path_snoc [OF gs])
  consider "(q, True) \<in> set (concealed_paths P fs gs False)" | (group) "fa_type a = Group" "(q, True) \<in> set (concealed_paths P sub (gs @ [fa_name a]) (P a))"
    | (row) "fa_type a = Row \<or> fa_type a = Collapsible" "(q, True) \<in> set (concealed_paths P sub gs (P a))"
    | (tabs) "fa_type a = Tabs" "(q, True) \<in> set (concealed_tabs P tabs gs (P a))"
    | (leaf) "\<not> is_wrapper (fa_type a)" "fa_type a \<noteq> Group" "q = gs @ [fa_name a]" "P a"
    using "2.prems"(3) by (auto simp: is_wrapper_def split: if_splits)
  then show ?case
  proof cases
    case 1
    then show ?thesis using 2 by auto
  next
    case group
    have split: "dunder_segments (dunder_path (gs @ [fa_name a])) = gs @ [fa_name a]"
      using "2.prems"(1,2) group(1) by (intro split_dunder_path) (auto simp: group_segment_def)
    show ?thesis
    proof (cases "P a")
      case True
      have "prefix (gs @ [fa_name a]) q" using concealed_below(1) [OF group(2)] by auto
      then show ?thesis using True split by (simp add: name)
    next
      case False
      then show ?thesis using 2 group by (auto simp: name)
    qed
  next
    case row
    then show ?thesis using 2 by (auto simp: is_wrapper_def)
  next
    case tabs
    then show ?thesis using 2 by (auto simp: is_wrapper_def)
  next
    case leaf
    have "dunder_segments (dunder_path (gs @ [fa_name a])) = gs @ [fa_name a]"
      using "2.prems"(1,2) leaf(1) by (intro split_dunder_path) (auto simp: is_wrapper_def)
    then show ?thesis using leaf by (simp add: name)
  qed
qed auto

text \<open>The read side of a write's answer: refused and hidden fields are stripped.\<close>

definition read_stripped :: "(string \<Rightarrow> access_result option) \<Rightarrow> field_definition list \<Rightarrow> document_fields \<Rightarrow> document_fields" where
  "read_stripped check fds ms =
     strip_fields (check_field_read_access \<lparr>av_available = True, av_check = check\<rparr> fds @ collect_api_hidden_field_names fds []) ms"

lemma concealed_names:
  "schema_plain P fs \<Longrightarrow> list_all group_segment gs \<Longrightarrow> (q, d) \<in> set (concealed_paths P fs gs c) \<Longrightarrow>
     \<exists>hs n. q = hs @ [n] \<and> list_all group_segment hs \<and> plain_segment n"
  "tabs_plain P ts \<Longrightarrow> list_all group_segment gs \<Longrightarrow> (q, d) \<in> set (concealed_tabs P ts gs c) \<Longrightarrow>
     \<exists>hs n. q = hs @ [n] \<and> list_all group_segment hs \<and> plain_segment n"
proof (induction P fs gs c and P ts gs c rule: concealed_paths_concealed_tabs.induct)
  case (2 P a sub tabs blocks fs gs c)
  then show ?case by (auto simp: is_wrapper_def split: if_splits)
qed auto

text \<open>A collected name that leads above a field conceals it; one that leads below it does not arise from the same schema.\<close>

lemma collected_gone:
  assumes "schema_plain P fds" "(q, True) \<in> set (concealed_paths P fds [] False)" "set (collect_by P fds []) \<subseteq> set names"
  shows "path_value (strip_fields names ms) q = None"
proof -
  obtain n where n: "n \<in> set (collect_by P fds [])" "prefix (dunder_segments n) q"
    using concealed_collected(1) [OF assms(1) _ assms(2)] by auto
  have "q \<noteq> []" using concealed_below(1) [OF assms(2)] by auto
  moreover have "\<not> strict_prefix q (dunder_segments n)" using n(2) by (auto simp: strict_prefix_def prefix_order.antisym)
  ultimately show ?thesis using strip_fields_gone n assms(3) by (auto simp: strips_def)
qed

text \<open>
  A document loses every value whose field, or a group the field is in, is hidden or refused to
  the user, wherever it is nested; the marked fields may not be rows, collapsibles or tabs.
\<close>

theorem hidden_values_stripped:
  assumes "schema_plain (refused check fa_access_read) fds" "schema_plain fa_hidden fds"
    and "(q, True) \<in> set (concealed_paths (refused check fa_access_read) fds [] False)
         \<union> set (concealed_paths fa_hidden fds [] False)"
  shows "path_value (read_stripped check fds ms) q = None"
proof -
  let ?names = "check_field_read_access \<lparr>av_available = True, av_check = check\<rparr> fds @ collect_api_hidden_field_names fds []"
  have "set (collect_by (refused check fa_access_read) fds []) \<subseteq> set ?names"
    using no_access_none_denied(1) [of fa_access_read fds check "[]"]
    by (auto simp: check_field_read_access_def check_field_access_def denied_collect_by)
  moreover have "set (collect_by fa_hidden fds []) \<subseteq> set ?names" by (simp add: hidden_collect_by)
  ultimately show ?thesis using assms collected_gone unfolding read_stripped_def by blast
qed

text \<open>A hidden row: its fields stay in the document.\<close>

lemma hidden_row_shows:
  "collect_api_hidden_field_names
     [FieldDefinition ((new_attrs ''layout'' Row)\<lparr>fa_hidden := True\<rparr>) [FieldDefinition (new_attrs ''secret'' Text) [] [] []] [] []] []
   = [''layout'']"
  by (simp add: prefixed_name_def new_attrs_def)

text \<open>A group whose name ends in an underscore: its denied field stays in the group's object.\<close>

lemma underscore_group_shows:
  "strip_fields [''seo___title''] [(''seo_'', JObject [(''title'', v)])] = [(''seo_'', JObject [(''title'', v)])]"
  by (simp add: strip_fields_def strip_name_def json_remove_def)

section \<open>What a user can write\<close>

lemma map_of_strip_denied: "map_of (strip_denied_fields denied data) k = (if k \<in> set denied then None else map_of data k)"
  unfolding strip_denied_fields_def by (induction denied arbitrary: data) (auto simp: map_of_json_remove)

lemma set_strip_denied: "set (strip_denied_fields denied data) = {kv \<in> set data. fst kv \<notin> set denied}"
  unfolding strip_denied_fields_def by (induction denied arbitrary: data) (auto simp: json_remove_def)

lemma map_of_fold_put: "map_of (fold (\<lambda>(k, v). json_put k v) kvs ms) j = (case map_of (rev kvs) j of None \<Rightarrow> map_of ms j | Some v \<Rightarrow> Some v)"
  by (induction kvs arbitrary: ms) (auto simp: map_of_json_put map_add_def split: option.splits prod.splits)

text \<open>Whether data has its groups flat: no group's key holds an object.\<close>

definition groups_flat :: "field_definition list \<Rightarrow> document_fields \<Rightarrow> bool" where
  "groups_flat fds data \<longleftrightarrow>
     list_all (\<lambda>(k, v). \<not> (list_ex (\<lambda>f. fa_name (fd_attrs f) = k \<and> fa_type (fd_attrs f) = Group) fds \<and> as_object (Some v) \<noteq> None)) data"

lemma flatten_not_object: "as_object (Some v) = None \<Longrightarrow> flatten_group_to_value_map k v = [(k, v)]"
  by (cases v) simp_all

lemma value_entries_flat: "groups_flat fds [kv] \<Longrightarrow> value_entries fds kv = [kv]"
  by (cases kv) (auto simp: groups_flat_def value_entries_def flatten_not_object)

lemma entries_flat: "groups_flat fds data \<Longrightarrow> concat (map (value_entries fds) data) = data"
  by (induction data) (auto simp: groups_flat_def value_entries_flat split: prod.splits)

lemma groups_flat_strip: "groups_flat fds data \<Longrightarrow> groups_flat fds (strip_denied_fields denied data)"
  by (auto simp: groups_flat_def list_all_iff set_strip_denied)

lemma to_value_map_flat: "groups_flat fds data \<Longrightarrow> map_of (to_value_map fds data) k = map_of (rev data) k"
  by (simp add: to_value_map_def entries_flat map_of_fold_put split: option.split)

text \<open>
  With its groups flat, the data of a write keeps no value for a field the user may not write;
  what the hooks are given and what is stored has none.
\<close>

theorem denied_fields_not_written:
  assumes "groups_flat fds data" "n \<in> set (check_field_write_access vm operation fds)"
  shows "map_of (strip_denied_fields (check_field_write_access vm operation fds) data) n = None
    \<and> map_of (to_value_map fds (strip_denied_fields (check_field_write_access vm operation fds) data)) n = None"
proof -
  let ?d = "check_field_write_access vm operation fds"
  have "map_of (rev (strip_denied_fields ?d data)) n = None"
    using assms(2) by (auto simp: map_of_eq_None_iff set_strip_denied)
  then show ?thesis using assms by (simp add: map_of_strip_denied to_value_map_flat groups_flat_strip)
qed

text \<open>
  The value of a refused field is written after all when its group is sent as an object: the name
  that is stripped is the one of the column, and the object is flattened afterwards.
\<close>

lemma nested_group_escapes_stripping:
  assumes "f \<in> set fds" "fa_type (fd_attrs f) = Group" "g = fa_name (fd_attrs f)" "g \<notin> set denied" "as_object (Some v) = None"
  shows "map_of (to_value_map fds (strip_denied_fields denied [(g, JObject [(x, v)])])) (g @ ''__'' @ x) = Some v"
proof -
  have "strip_denied_fields denied [(g, JObject [(x, v)])] = [(g, JObject [(x, v)])]"
    using assms(4) unfolding strip_denied_fields_def by (induction denied) (auto simp: json_remove_def)
  moreover have "list_ex (\<lambda>h. fa_name (fd_attrs h) = g \<and> fa_type (fd_attrs h) = Group) fds"
    using assms(1-3) by (auto simp: list_ex_iff)
  ultimately show ?thesis
    using assms(5) by (simp add: to_value_map_def value_entries_def flatten_not_object map_of_json_put)
qed

text \<open>A refused group protects none of its columns.\<close>

lemma refused_group_columns_written:
  "collect_field_access_denied check setting [FieldDefinition a sub tabs blocks] [] = [fa_name a] \<Longrightarrow>
     k \<noteq> fa_name a \<Longrightarrow> map_of (strip_denied_fields [fa_name a] [(k, v)]) k = Some v"
  by (simp add: map_of_strip_denied)

text \<open>A JSON field of a group loses its object: it is taken for a group of its own.\<close>

lemma json_in_group_flattened:
  "to_value_map [FieldDefinition (new_attrs ''meta'' Group) [FieldDefinition (new_attrs ''cfg'' Json) [] [] []] [] []]
     [(''meta'', JObject [(''cfg'', JObject [(''a'', v)])])] = fold (\<lambda>(k, v). json_put k v) (flatten_group_to_value_map ''meta__cfg__a'' v) []"
  by (simp add: to_value_map_def value_entries_def new_attrs_def)

text \<open>
  A checkbox that a user may not change is cleared by every update of theirs: the value is stripped,
  and an update without a value writes a zero.
\<close>

lemma refused_checkbox_cleared:
  "fa_type a = Checkbox \<Longrightarrow> \<not> fa_localized a \<Longrightarrow>
     collect_leaf_update env None False (strip_denied_fields [fa_name a] data) (a, [], False) = Inr [(fa_name a, DInteger 0)]"
  by (simp add: collect_leaf_update_def attrs_has_parent_column_def prefixed_name_def map_of_strip_denied locale_write_column_def)

section \<open>Examples\<close>

definition staff_fields :: "field_definition list" where
  "staff_fields =
     [FieldDefinition (new_attrs ''name'' Text) [] [] [],
      FieldDefinition (new_attrs ''pay'' Group)
        [FieldDefinition ((new_attrs ''salary'' Number)\<lparr>fa_access_read := Some ''admin'', fa_access_update := Some ''admin''\<rparr>) [] [] [],
         FieldDefinition (new_attrs ''grade'' Text) [] [] []] [] []]"

definition no_admin :: "string \<Rightarrow> access_result option" where
  "no_admin f = Some (if f = ''admin'' then Denied else Allowed)"

lemma staff_denied:
  "collect_field_access_denied no_admin fa_access_read staff_fields [] = [''pay__salary'']"
  "check_field_write_access \<lparr>av_available = True, av_check = no_admin\<rparr> ''update'' staff_fields = [''pay__salary'']"
  by (simp_all add: staff_fields_def no_admin_def refused_def new_attrs_def prefixed_name_def check_field_write_access_def
      check_field_access_def)

lemma split_pay_salary: "dunder_segments ''pay__salary'' = [''pay'', ''salary'']"
  by simp

theorem strip_fields_exact_witness:
  "path_value (strip_fields [''pay__salary''] [(''pay'', JObject [(''salary'', JNull), (''grade'', JString ''B'')])]) [''pay'', ''grade''] =
     Some (JString ''B'')"
  by (subst strip_fields_exact) (simp_all add: strips_def strict_prefix_def)

theorem hidden_values_stripped_witness:
  "path_value (read_stripped no_admin staff_fields [(''pay'', JObject [(''salary'', JNull), (''grade'', JString ''B'')])]) [''pay'', ''salary''] = None"
  by (rule hidden_values_stripped)
    (simp_all add: staff_fields_def new_attrs_def refused_def no_admin_def is_wrapper_def plain_segment_def group_segment_def)

definition pay_data :: document_fields where
  "pay_data = [(''pay__salary'', JNumber (JInt 9)), (''name'', JString ''x'')]"

theorem denied_fields_not_written_witness:
  "map_of (to_value_map staff_fields (strip_denied_fields
     (check_field_write_access \<lparr>av_available = True, av_check = no_admin\<rparr> ''update'' staff_fields) pay_data)) ''pay__salary'' = None"
proof -
  have "groups_flat staff_fields pay_data" by (simp add: groups_flat_def pay_data_def as_object_def)
  moreover have "''pay__salary'' \<in> set (check_field_write_access \<lparr>av_available = True, av_check = no_admin\<rparr> ''update'' staff_fields)"
    by (simp add: staff_denied)
  ultimately show ?thesis using denied_fields_not_written by blast
qed

end
