(* ===== verification/VersionStore.thy ===== *)
theory VersionStore
  imports JobTypes AuthStore
begin

text \<open>
  The version rows of a collection and a document's status column (src/src/db/query/versions/crud.rs):
  creating, reading, listing and pruning versions.  A version table holds the versions of all
  documents of its collection; ids are fresh random texts, given by the caller.
\<close>

section \<open>The table\<close>

record version_row =
  vr_id :: string
  vr_parent :: string
  vr_version :: int
  vr_status :: string
  vr_latest :: bool
  vr_snapshot :: json_value

type_synonym version_rows = "version_row list"

abbreviation versions_of :: "string \<Rightarrow> version_rows \<Rightarrow> version_rows" where
  "versions_of p t \<equiv> filter (\<lambda>r. vr_parent r = p) t"

text \<open>\<open>COALESCE(MAX(_version), 0) + 1\<close>.\<close>

definition next_version_number :: "string \<Rightarrow> version_rows \<Rightarrow> int" where
  "next_version_number p t = (case map vr_version (versions_of p t) of [] \<Rightarrow> 0 | v # vs \<Rightarrow> fold max vs v) + 1"

definition create_version :: "string \<Rightarrow> string \<Rightarrow> string \<Rightarrow> json_value \<Rightarrow> version_rows \<Rightarrow> version_rows \<times> version_row" where
  "create_version new_id p status snapshot t =
     (let r = \<lparr>vr_id = new_id, vr_parent = p, vr_version = next_version_number p t, vr_status = status, vr_latest = True,
               vr_snapshot = snapshot\<rparr>
      in (update_where (\<lambda>r. vr_parent r = p \<and> vr_latest r) (\<lambda>r. r\<lparr>vr_latest := False\<rparr>) t @ [r], r))"

definition find_latest_version :: "string \<Rightarrow> version_rows \<Rightarrow> version_row option" where
  "find_latest_version p t = find (\<lambda>r. vr_parent r = p \<and> vr_latest r) t"

definition count_versions :: "string \<Rightarrow> version_rows \<Rightarrow> int" where
  "count_versions p t = int (length (versions_of p t))"

definition newest_first :: "string \<Rightarrow> version_rows \<Rightarrow> version_rows" where
  "newest_first p t = sort_key (\<lambda>r. - vr_version r) (versions_of p t)"

text \<open>
  \<open>None\<close> is an error: an offset without a limit is no valid statement.  A negative limit is none and
  a negative offset zero, as in SQLite.
\<close>

definition list_versions :: "string \<Rightarrow> int option \<Rightarrow> int option \<Rightarrow> version_rows \<Rightarrow> version_rows option" where
  "list_versions p limit offset t =
     (case (limit, offset) of
        (None, None) \<Rightarrow> Some (newest_first p t)
      | (None, Some off) \<Rightarrow> None
      | (Some l, _) \<Rightarrow>
          (let rest = drop (nat (unwrap_or 0 offset)) (newest_first p t)
           in Some (if l < 0 then rest else take (nat l) rest)))"

definition find_version_by_id :: "string \<Rightarrow> version_rows \<Rightarrow> version_row option" where
  "find_version_by_id i t = find (\<lambda>r. vr_id r = i) t"

definition prune_versions :: "string \<Rightarrow> nat \<Rightarrow> version_rows \<Rightarrow> version_rows" where
  "prune_versions p max_versions t =
     (if max_versions = 0 then t
      else (let kept = map vr_id (take max_versions (newest_first p t))
            in delete_where (\<lambda>r. vr_parent r = p \<and> vr_id r \<notin> set kept) t))"

section \<open>The status of a document\<close>

text \<open>The column exists when the collection has drafts; without it the statement is an error.\<close>

definition set_document_status ::
  "auth_collection \<Rightarrow> string \<Rightarrow> string \<Rightarrow> string \<Rightarrow> find_row list \<Rightarrow> find_row list option" where
  "set_document_status def now i status t =
     (if ci_has_drafts def
      then Some (update_where (\<lambda>r. fr_id r = i)
             (\<lambda>r. r\<lparr>fr_cols := (''updated_at'', DText now) # (''_status'', DText status) # fr_cols r\<rparr>) t)
      else None)"

definition get_document_status :: "auth_collection \<Rightarrow> string \<Rightarrow> find_row list \<Rightarrow> string option option" where
  "get_document_status def i t =
     (if ci_has_drafts def
      then Some (Option.bind (find (\<lambda>r. fr_id r = i) t) (\<lambda>r. case column r ''_status'' of DText s \<Rightarrow> Some s | _ \<Rightarrow> None))
      else None)"

section \<open>The invariant of the version table\<close>

text \<open>
  Ids are unique; the versions of a document have different positive numbers; the one with the
  highest number is the only one marked latest.
\<close>

definition versions_ok :: "version_rows \<Rightarrow> bool" where
  "versions_ok t \<longleftrightarrow> distinct (map vr_id t) \<and>
     (\<forall>p. distinct (map vr_version (versions_of p t)) \<and>
        (\<forall>r \<in> set (versions_of p t). 0 < vr_version r \<and>
           (vr_latest r \<longleftrightarrow> (\<forall>s \<in> set (versions_of p t). vr_version s \<le> vr_version r))))"

lemma fold_max_ge: "x \<in> set (v # vs) \<Longrightarrow> x \<le> fold max vs (v :: int)"
  by (simp only: Max.set_eq_fold [symmetric]) (simp add: Max_ge)

lemma fold_max_in: "fold max vs (v :: int) \<in> set (v # vs)"
  by (simp only: Max.set_eq_fold [symmetric]) (rule Max_in, simp_all)

lemma version_below_next: "r \<in> set (versions_of p t) \<Longrightarrow> vr_version r < next_version_number p t"
proof -
  assume r: "r \<in> set (versions_of p t)"
  then obtain v vs where e: "map vr_version (versions_of p t) = v # vs"
    by (cases "versions_of p t") (auto simp del: filter_eq_Cons_iff)
  from r have "vr_version r \<in> set (map vr_version (versions_of p t))" by simp
  then have "vr_version r \<le> fold max vs v" unfolding e by (rule fold_max_ge)
  then show ?thesis by (simp add: next_version_number_def e)
qed

lemma next_version_positive: "\<forall>r \<in> set (versions_of p t). 0 < vr_version r \<Longrightarrow> 0 < next_version_number p t"
proof (cases "versions_of p t")
  case (Cons r rs)
  moreover assume "\<forall>r \<in> set (versions_of p t). 0 < vr_version r"
  ultimately show ?thesis using version_below_next [of r p t] by (metis list.set_intros(1) order_less_trans)
qed (simp add: next_version_number_def)

lemma versions_of_create:
  "versions_of p (fst (create_version i p st sn t)) =
     map (\<lambda>r. r\<lparr>vr_latest := False\<rparr>) (versions_of p t) @ [snd (create_version i p st sn t)]"
  "p \<noteq> q \<Longrightarrow> versions_of q (fst (create_version i p st sn t)) = versions_of q t"
  by (induction t) (auto simp: create_version_def Let_def)

lemma created_row:
  "vr_id (snd (create_version i p st sn t)) = i" "vr_parent (snd (create_version i p st sn t)) = p"
  "vr_version (snd (create_version i p st sn t)) = next_version_number p t" "vr_latest (snd (create_version i p st sn t))"
  by (simp_all add: create_version_def Let_def)

lemma ids_create: "map vr_id (fst (create_version i p st sn t)) = map vr_id t @ [i]"
  by (simp add: create_version_def Let_def map_update_where)

lemma create_version_ok:
  assumes ok: "versions_ok t" and fresh: "i \<notin> vr_id ` set t"
  shows "versions_ok (fst (create_version i p st sn t))"
  unfolding versions_ok_def
proof (intro conjI allI)
  show "distinct (map vr_id (fst (create_version i p st sn t)))" using ok fresh by (simp add: ids_create versions_ok_def)
next
  fix q
  have old: "distinct (map vr_version (versions_of q t))" "\<forall>r \<in> set (versions_of q t). 0 < vr_version r"
    "\<forall>r \<in> set (versions_of q t). vr_latest r \<longleftrightarrow> (\<forall>s \<in> set (versions_of q t). vr_version s \<le> vr_version r)"
    using ok unfolding versions_ok_def by blast+
  let ?vs = "versions_of q (fst (create_version i p st sn t))" and ?new = "snd (create_version i p st sn t)"
  have below: "vr_version r < next_version_number q t" if "r \<in> set (versions_of q t)" for r
    using that by (rule version_below_next)
  have mine: "?vs = map (\<lambda>r. r\<lparr>vr_latest := False\<rparr>) (versions_of q t) @ [?new]" if "q = p"
    using that by (simp add: versions_of_create)
  have other: "?vs = versions_of q t" if "q \<noteq> p" using that versions_of_create(2) by metis
  show "distinct (map vr_version ?vs)"
  proof (cases "q = p")
    case True
    have "map vr_version ?vs = map vr_version (versions_of q t) @ [next_version_number q t]"
      unfolding mine [OF True] by (simp add: created_row True o_def)
    then show ?thesis using old(1) below by force
  qed (use old(1) other in simp)
  show "\<forall>r \<in> set ?vs. 0 < vr_version r \<and> (vr_latest r \<longleftrightarrow> (\<forall>s \<in> set ?vs. vr_version s \<le> vr_version r))"
  proof (cases "q = p")
    case True
    have new: "?new \<in> set ?vs" "vr_version ?new = next_version_number q t" "vr_latest ?new"
      unfolding mine [OF True] by (simp_all add: created_row True)
    have cases: "r = ?new \<or> vr_version r < vr_version ?new \<and> 0 < vr_version r \<and> \<not> vr_latest r" if "r \<in> set ?vs" for r
      using that below old(2) unfolding mine [OF True] by (auto simp: new(2))
    have "0 < vr_version ?new" using next_version_positive [OF old(2)] by (simp add: new(2))
    then show ?thesis using cases new by (metis less_imp_le linorder_not_le order_refl)
  qed (use old other in simp)
qed

lemma find_filter: "find P (filter Q xs) = find (\<lambda>x. Q x \<and> P x) xs"
  by (induction xs) simp_all

lemma find_latest_versions: "find_latest_version p t = find vr_latest (versions_of p t)"
  by (simp add: find_latest_version_def find_filter)

lemma find_last_latest: "vr_latest r \<Longrightarrow> find vr_latest (map (\<lambda>r. r\<lparr>vr_latest := False\<rparr>) rs @ [r]) = Some r"
  by (induction rs) simp_all

lemma find_latest_created: "find_latest_version p (fst (create_version i p st sn t)) = Some (snd (create_version i p st sn t))"
  unfolding find_latest_versions versions_of_create(1) by (rule find_last_latest) (rule created_row(4))

section \<open>Pruning\<close>

lemma filter_ids_take: "distinct (map f xs) \<Longrightarrow> filter (\<lambda>x. f x \<in> f ` set (take n xs)) xs = take n xs"
proof (induction xs arbitrary: n)
  case (Cons x xs)
  show ?case
  proof (cases n)
    case (Suc m)
    have "filter (\<lambda>y. f y \<in> f ` set (take n (x # xs))) xs = filter (\<lambda>y. f y \<in> f ` set (take m xs)) xs"
      using Cons.prems by (intro filter_cong) (auto simp: Suc, metis image_eqI)
    then show ?thesis using Cons by (simp add: Suc)
  qed simp
qed simp

lemma distinct_ids_of: "distinct (map vr_id t) \<Longrightarrow> distinct (map vr_id (newest_first p t))"
  using distinct_map_filter [of vr_id t "\<lambda>r. vr_parent r = p"] by (simp add: newest_first_def distinct_map)

lemma newest_first_prune:
  assumes "distinct (map vr_id t)" "0 < n"
  shows "newest_first p (prune_versions p n t) = take n (newest_first p t)"
proof -
  let ?L = "newest_first p t"
  have "versions_of p (prune_versions p n t) = filter (\<lambda>r. vr_id r \<in> vr_id ` set (take n ?L)) (versions_of p t)"
    using assms(2) by (auto simp: prune_versions_def delete_where_def Let_def intro!: filter_cong)
  then have "newest_first p (prune_versions p n t) = filter (\<lambda>r. vr_id r \<in> vr_id ` set (take n ?L)) ?L"
    by (simp add: newest_first_def filter_sort)
  then show ?thesis using filter_ids_take [OF distinct_ids_of [OF assms(1)]] by simp
qed

lemma versions_of_prune_other: "p \<noteq> q \<Longrightarrow> versions_of q (prune_versions p n t) = versions_of q t"
  by (auto simp: prune_versions_def delete_where_def Let_def intro!: filter_cong)

lemma set_newest_first [simp]: "set (newest_first p t) = set (versions_of p t)"
  by (simp add: newest_first_def)

lemma newest_first_head:
  assumes "newest_first p t = r # rs" "s \<in> set (versions_of p t)" shows "vr_version s \<le> vr_version r"
proof -
  have "sorted (map (\<lambda>r. - vr_version r) (r # rs))" using assms(1) by (metis newest_first_def sorted_sort_key)
  moreover have "s \<in> set (r # rs)" using assms by (metis set_newest_first)
  ultimately show ?thesis by auto
qed

text \<open>A version with the highest number of its document survives.\<close>

lemma prune_keeps_max:
  assumes "distinct (map vr_id t)" "0 < n" "r \<in> set (versions_of q (prune_versions p n t))"
  shows "\<exists>m \<in> set (versions_of q (prune_versions p n t)). \<forall>s \<in> set (versions_of q t). vr_version s \<le> vr_version m"
proof -
  let ?t = "prune_versions p n t"
  have r: "r \<in> set (newest_first q ?t)" using assms(3) by simp
  have new: "newest_first q ?t = (if q = p then take n (newest_first q t) else newest_first q t)"
    using newest_first_prune [OF assms(1,2)] versions_of_prune_other [of p q n t] by (auto simp: newest_first_def)
  have "newest_first q t \<noteq> []"
  proof
    assume "newest_first q t = []"
    then have "newest_first q ?t = []" using new by (cases "q = p") simp_all
    then show False using r by (simp only: list.set empty_iff)
  qed
  then obtain m rest where m: "newest_first q t = m # rest" by (cases "newest_first q t") auto
  then have "m \<in> set (newest_first q ?t)" using new assms(2) by (cases n) auto
  then show ?thesis using newest_first_head [OF m] by auto
qed

lemma prune_subset: "set (versions_of q (prune_versions p n t)) \<subseteq> set (versions_of q t)"
  by (auto simp: prune_versions_def delete_where_def Let_def)

lemma prune_versions_ok:
  assumes ok: "versions_ok t" shows "versions_ok (prune_versions p n t)"
proof (cases "n = 0")
  case False
  let ?t = "prune_versions p n t"
  have ids: "distinct (map vr_id t)" using ok by (simp add: versions_ok_def)
  show ?thesis unfolding versions_ok_def
  proof (intro conjI allI ballI)
    show "distinct (map vr_id ?t)" using ids by (simp add: prune_versions_def Let_def distinct_delete_where)
  next
    fix q
    have "distinct (map vr_version (versions_of q t))" using ok by (simp add: versions_ok_def)
    moreover have "versions_of q ?t = filter (\<lambda>r. r \<in> set ?t) (versions_of q t)"
      by (auto simp: prune_versions_def delete_where_def Let_def intro!: filter_cong)
    ultimately show "distinct (map vr_version (versions_of q ?t))" using distinct_map_filter by metis
  next
    fix q r assume r: "r \<in> set (versions_of q ?t)"
    then have "r \<in> set (versions_of q t)" using prune_subset by blast
    then have old: "0 < vr_version r" "vr_latest r \<longleftrightarrow> (\<forall>s \<in> set (versions_of q t). vr_version s \<le> vr_version r)"
      using ok unfolding versions_ok_def by blast+
    obtain m where m: "m \<in> set (versions_of q ?t)" "\<forall>s \<in> set (versions_of q t). vr_version s \<le> vr_version m"
      using prune_keeps_max [OF ids _ r] False by auto
    show "0 < vr_version r" by (rule old)
    show "vr_latest r \<longleftrightarrow> (\<forall>s \<in> set (versions_of q ?t). vr_version s \<le> vr_version r)"
      unfolding old(2) using m prune_subset [of q p n t] by (meson order_trans subsetD)
  qed
qed (use assms in \<open>simp add: prune_versions_def\<close>)

section \<open>Histories\<close>

text \<open>
  What happens to a version table: a version is created under a fresh id, versions are pruned, and a
  deleted document takes its versions with it (\<open>ON DELETE CASCADE\<close>).
\<close>

definition delete_parent :: "string \<Rightarrow> version_rows \<Rightarrow> version_rows" where
  "delete_parent p t = delete_where (\<lambda>r. vr_parent r = p) t"

inductive version_step :: "version_rows \<Rightarrow> version_rows \<Rightarrow> bool" where
  step_create: "i \<notin> vr_id ` set t \<Longrightarrow> version_step t (fst (create_version i p status snapshot t))"
| step_prune: "version_step t (prune_versions p n t)"
| step_delete: "version_step t (delete_parent p t)"

inductive_cases version_stepE: "version_step t t'"

inductive version_reach :: "version_rows \<Rightarrow> bool" where
  reach_empty: "version_reach []"
| reach_step: "version_reach t \<Longrightarrow> version_step t t' \<Longrightarrow> version_reach t'"

lemma delete_parent_ok: "versions_ok t \<Longrightarrow> versions_ok (delete_parent p t)"
proof -
  assume ok: "versions_ok t"
  have vs: "versions_of q (delete_parent p t) = (if q = p then [] else versions_of q t)" for q
    by (auto simp: delete_parent_def delete_where_def filter_empty_conv intro!: filter_cong)
  show ?thesis using ok unfolding versions_ok_def vs by (auto simp: delete_parent_def distinct_delete_where)
qed

lemma version_reach_ok: "version_reach t \<Longrightarrow> versions_ok t"
proof (induction rule: version_reach.induct)
  case (reach_step t t')
  from reach_step(2) show ?case
    by (rule version_stepE) (simp_all add: reach_step(3) create_version_ok prune_versions_ok delete_parent_ok)
qed (simp add: versions_ok_def)

lemma find_unique:
  assumes "x \<in> set xs" "P x" "\<And>y. y \<in> set xs \<Longrightarrow> P y \<Longrightarrow> y = x"
  shows "find P xs = Some x"
proof (cases "find P xs")
  case None
  then show ?thesis using assms(1,2) by (metis find_None_iff)
next
  case (Some y)
  then have "y \<in> set xs" "P y" by (auto simp: find_Some_iff)
  then show ?thesis using Some assms(3) by simp
qed

lemma latest_is_newest:
  assumes ok: "versions_ok t" shows "find_latest_version p t = (case newest_first p t of [] \<Rightarrow> None | r # rs \<Rightarrow> Some r)"
proof (cases "newest_first p t")
  case Nil
  then have "versions_of p t = []" by (metis set_empty set_newest_first)
  then show ?thesis using Nil by (simp add: find_latest_versions)
next
  case (Cons r rs)
  then have r: "r \<in> set (versions_of p t)" by (metis list.set_intros(1) set_newest_first)
  have flag: "vr_latest s \<longleftrightarrow> (\<forall>u \<in> set (versions_of p t). vr_version u \<le> vr_version s)" if "s \<in> set (versions_of p t)" for s
    using ok that unfolding versions_ok_def by blast
  have inj: "inj_on vr_version (set (versions_of p t))" using ok by (simp add: versions_ok_def distinct_map)
  have "vr_latest r" using flag [OF r] newest_first_head [OF Cons] by blast
  moreover have "s = r" if "s \<in> set (versions_of p t)" "vr_latest s" for s
    using that flag [OF that(1)] r newest_first_head [OF Cons that(1)] inj by (metis inj_onD order_antisym)
  ultimately show ?thesis unfolding find_latest_versions Cons list.case using r by (rule find_unique [rotated])
qed

text \<open>
  C17: Whatever is created, pruned and deleted, the version marked latest is the one with the highest
  number, and the list of versions starts with it.
\<close>

theorem latest_version_is_newest:
  assumes "version_reach t"
  shows "versions_ok t \<and> find_latest_version p t = (case newest_first p t of [] \<Rightarrow> None | r # rs \<Rightarrow> Some r)"
  using version_reach_ok [OF assms] latest_is_newest by blast

text \<open>
  Pruning keeps the newest versions of the document up to the cap and every version of every
  other document; the latest version stays.
\<close>

theorem prune_keeps_newest:
  assumes "version_reach t" "0 < n"
  shows "newest_first q (prune_versions p n t) = (if q = p then take n (newest_first p t) else newest_first q t)
    \<and> count_versions p (prune_versions p n t) \<le> int n
    \<and> find_latest_version q (prune_versions p n t) = find_latest_version q t"
proof -
  have ok: "versions_ok t" by (rule version_reach_ok [OF assms(1)])
  then have ids: "distinct (map vr_id t)" by (simp add: versions_ok_def)
  have list: "newest_first q (prune_versions p n t) = (if q = p then take n (newest_first p t) else newest_first q t)" for q
    using newest_first_prune [OF ids assms(2)] versions_of_prune_other [of p q n t] by (auto simp: newest_first_def)
  have "length (versions_of p (prune_versions p n t)) = length (newest_first p (prune_versions p n t))"
    by (simp add: newest_first_def)
  then have "count_versions p (prune_versions p n t) \<le> int n" by (simp add: count_versions_def list)
  moreover have "find_latest_version q (prune_versions p n t) = find_latest_version q t"
    unfolding latest_is_newest [OF ok] latest_is_newest [OF prune_versions_ok [OF ok]] list
    using assms(2) by (cases n; cases "newest_first q t") auto
  ultimately show ?thesis using list by blast
qed

definition sample_history :: version_rows where
  "sample_history =
     fst (create_version ''v3'' ''a'' ''draft'' JNull (fst (create_version ''v2'' ''b'' ''published'' JNull
       (fst (create_version ''v1'' ''a'' ''published'' JNull [])))))"

lemma history1:
  "fst (create_version ''v1'' ''a'' ''published'' JNull []) =
     [\<lparr>vr_id = ''v1'', vr_parent = ''a'', vr_version = 1, vr_status = ''published'', vr_latest = True, vr_snapshot = JNull\<rparr>]"
  by (simp add: create_version_def next_version_number_def Let_def)

lemma history2:
  "fst (create_version ''v2'' ''b'' ''published'' JNull
     [\<lparr>vr_id = ''v1'', vr_parent = ''a'', vr_version = 1, vr_status = ''published'', vr_latest = True, vr_snapshot = JNull\<rparr>]) =
     [\<lparr>vr_id = ''v1'', vr_parent = ''a'', vr_version = 1, vr_status = ''published'', vr_latest = True, vr_snapshot = JNull\<rparr>,
      \<lparr>vr_id = ''v2'', vr_parent = ''b'', vr_version = 1, vr_status = ''published'', vr_latest = True, vr_snapshot = JNull\<rparr>]"
  by (simp add: create_version_def next_version_number_def Let_def)

lemma sample_history_rows:
  "sample_history =
     [\<lparr>vr_id = ''v1'', vr_parent = ''a'', vr_version = 1, vr_status = ''published'', vr_latest = False, vr_snapshot = JNull\<rparr>,
      \<lparr>vr_id = ''v2'', vr_parent = ''b'', vr_version = 1, vr_status = ''published'', vr_latest = True, vr_snapshot = JNull\<rparr>,
      \<lparr>vr_id = ''v3'', vr_parent = ''a'', vr_version = 2, vr_status = ''draft'', vr_latest = True, vr_snapshot = JNull\<rparr>]"
  unfolding sample_history_def history1 history2
  by (simp add: create_version_def next_version_number_def Let_def)

lemma sample_history_reach: "version_reach sample_history"
proof -
  have "''v2'' \<notin> vr_id ` set (fst (create_version ''v1'' ''a'' ''published'' JNull []))" by (simp add: history1)
  moreover have "''v3'' \<notin> vr_id ` set (fst (create_version ''v2'' ''b'' ''published'' JNull
      (fst (create_version ''v1'' ''a'' ''published'' JNull []))))" unfolding history1 history2 by simp
  ultimately show ?thesis unfolding sample_history_def by (intro reach_step [OF _ step_create] reach_empty) simp_all
qed

theorem latest_version_is_newest_witness:
  "versions_ok sample_history \<and> map_option vr_id (find_latest_version ''a'' sample_history) = Some ''v3''"
  using latest_version_is_newest [OF sample_history_reach, of "''a''"]
  by (simp add: sample_history_rows newest_first_def)

theorem prune_keeps_newest_witness:
  "map vr_id (newest_first ''a'' (prune_versions ''a'' 1 sample_history)) = [''v3'']
   \<and> map vr_id (newest_first ''b'' (prune_versions ''a'' 1 sample_history)) = [''v2'']
   \<and> count_versions ''a'' (prune_versions ''a'' 1 sample_history) \<le> 1"
  using prune_keeps_newest [OF sample_history_reach zero_less_one, of "''a''" "''a''"]
    prune_keeps_newest [OF sample_history_reach zero_less_one, of "''b''" "''a''"]
  by (simp add: sample_history_rows newest_first_def)

end
