(* ===== verification/Snapshots.thy ===== *)
theory Snapshots
  imports FieldAccess VersionStore
begin

text \<open>
  Snapshots of documents and restoring them (src/src/db/query/versions/snapshot.rs, restore.rs, and
  src/src/service/versions/): a snapshot is the hydrated document as JSON; restoring it writes its
  columns, its locale columns and its join fields, sets the status and adds a version.
\<close>

section \<open>Taking a snapshot\<close>

definition with_timestamps :: "document \<Rightarrow> document_fields \<Rightarrow> document_fields" where
  "with_timestamps d ms =
     (let put = (\<lambda>k v ms. case v of None \<Rightarrow> ms | Some ts \<Rightarrow> json_put k (JString ts) ms)
      in put ''updated_at'' (doc_updated_at d) (put ''created_at'' (doc_created_at d) ms))"

definition build_snapshot :: "join_env \<Rightarrow> join_tables \<Rightarrow> field_definition list \<Rightarrow> document \<Rightarrow> json_value" where
  "build_snapshot env T fds d =
     JObject (with_timestamps d (hydrate_document env None T None (doc_id d) fds (doc_fields d)))"

section \<open>The columns of a snapshot\<close>

definition is_scalar_snapshot_value :: "json_value \<Rightarrow> bool" where
  "is_scalar_snapshot_value v \<longleftrightarrow> (case v of JArray vs \<Rightarrow> False | JObject ms \<Rightarrow> False | _ \<Rightarrow> True)"

definition extend_data :: "document_fields \<Rightarrow> document_fields \<Rightarrow> document_fields" where
  "extend_data data more_data = fold (\<lambda>(k, v). json_put k v) more_data data"

definition or_insert_all :: "document_fields \<Rightarrow> document_fields \<Rightarrow> document_fields" where
  "or_insert_all data more_data =
     fold (\<lambda>(k, v) d. if map_of d k = None then json_put k v d else d) more_data data"

definition put_scalar :: "string \<Rightarrow> json_value option \<Rightarrow> document_fields \<Rightarrow> document_fields" where
  "put_scalar k v data = (case v of Some w \<Rightarrow> if is_scalar_snapshot_value w then json_put k w data else data | None \<Rightarrow> data)"

definition first_of :: "document_fields \<Rightarrow> string \<Rightarrow> string \<Rightarrow> json_value option" where
  "first_of obj k k' = (case map_of obj k of Some v \<Rightarrow> Some v | None \<Rightarrow> map_of obj k')"

definition extract_leaf :: "document_fields \<Rightarrow> bool \<Rightarrow> string \<Rightarrow> bool \<Rightarrow> field_attrs \<Rightarrow> document_fields \<Rightarrow> document_fields" where
  "extract_leaf obj locales_enabled pre inherited a data =
     (if \<not> attrs_has_parent_column a \<or> ((inherited \<or> fa_localized a) \<and> locales_enabled) then data
      else (let key = prefixed_name pre (fa_name a);
                data' = put_scalar key (first_of obj key (fa_name a)) data
            in if fa_type a = Date \<and> fa_timezone a
               then put_scalar (tz_column key) (first_of obj (tz_column key) (tz_column (fa_name a))) data'
               else data'))"

text \<open>
  The fields in order; \<open>data\<close> is what the call has gathered so far.  A group is read flat, and then
  nested for what is still missing.
\<close>

fun extract_snapshot_recursive ::
  "document_fields \<Rightarrow> field_definition list \<Rightarrow> bool \<Rightarrow> string \<Rightarrow> bool \<Rightarrow> document_fields \<Rightarrow> document_fields"
  and extract_snapshot_tabs ::
  "document_fields \<Rightarrow> field_tab list \<Rightarrow> bool \<Rightarrow> string \<Rightarrow> bool \<Rightarrow> document_fields \<Rightarrow> document_fields"
where
  "extract_snapshot_recursive obj [] en pre inherited data = data"
| "extract_snapshot_recursive obj (FieldDefinition a sub tabs blocks # fs) en pre inherited data =
     extract_snapshot_recursive obj fs en pre inherited
       (if fa_type a = Group then
          (let new_prefix = prefixed_name pre (fa_name a); inh = inherited \<or> fa_localized a;
               flat = extend_data data (extract_snapshot_recursive obj sub en new_prefix inh [])
           in case as_object (map_of obj (fa_name a)) of
                None \<Rightarrow> flat
              | Some nested \<Rightarrow> or_insert_all flat (extract_snapshot_recursive nested sub en new_prefix inh []))
        else if fa_type a = Row \<or> fa_type a = Collapsible
        then extend_data data (extract_snapshot_recursive obj sub en pre inherited [])
        else if fa_type a = Tabs then extract_snapshot_tabs obj tabs en pre inherited data
        else extract_leaf obj en pre inherited a data)"
| "extract_snapshot_tabs obj [] en pre inherited data = data"
| "extract_snapshot_tabs obj (FieldTab l sub # ts) en pre inherited data =
     extract_snapshot_tabs obj ts en pre inherited (extend_data data (extract_snapshot_recursive obj sub en pre inherited []))"

definition extract_snapshot_data :: "document_fields \<Rightarrow> field_definition list \<Rightarrow> bool \<Rightarrow> document_fields" where
  "extract_snapshot_data obj fds locales_enabled = extract_snapshot_recursive obj fds locales_enabled [] False []"

fun collect_join_data_from_snapshot :: "field_definition list \<Rightarrow> document_fields \<Rightarrow> document_fields \<Rightarrow> document_fields"
  and collect_join_data_from_tabs :: "field_tab list \<Rightarrow> document_fields \<Rightarrow> document_fields \<Rightarrow> document_fields"
where
  "collect_join_data_from_snapshot [] obj data = data"
| "collect_join_data_from_snapshot (FieldDefinition a sub tabs blocks # fs) obj data =
     collect_join_data_from_snapshot fs obj
       (if fa_type a = Row \<or> fa_type a = Collapsible then collect_join_data_from_snapshot sub obj data
        else if fa_type a = Tabs then collect_join_data_from_tabs tabs obj data
        else if \<not> attrs_has_parent_column a
        then (case map_of obj (fa_name a) of None \<Rightarrow> data | Some v \<Rightarrow> json_put (fa_name a) v data)
        else data)"
| "collect_join_data_from_tabs [] obj data = data"
| "collect_join_data_from_tabs (FieldTab l sub # ts) obj data =
     collect_join_data_from_tabs ts obj (collect_join_data_from_snapshot sub obj data)"

section \<open>The locale columns\<close>

fun nested_value :: "document_fields \<Rightarrow> string list \<Rightarrow> string \<Rightarrow> json_value option" where
  "nested_value obj [] name = map_of obj name"
| "nested_value obj (part # parts) name =
     (case as_object (map_of obj part) of None \<Rightarrow> None | Some inner \<Rightarrow> nested_value inner parts name)"

definition resolve_snapshot_value :: "document_fields \<Rightarrow> string \<Rightarrow> string \<Rightarrow> string \<Rightarrow> json_value option" where
  "resolve_snapshot_value obj base pre name =
     (case map_of obj base of Some v \<Rightarrow> Some v | None \<Rightarrow> nested_value obj (dunder_segments pre) name)"

definition restored_locale_value :: "write_env \<Rightarrow> json_value option \<Rightarrow> db_value" where
  "restored_locale_value env v =
     (case v of
        Some (JString s) \<Rightarrow> DText s
      | Some (JNumber n) \<Rightarrow> DText (we_display env (JNumber n))
      | Some (JBool b) \<Rightarrow> DInteger (if b then 1 else 0)
      | _ \<Rightarrow> DNull)"

definition restore_locale_columns ::
  "write_env \<Rightarrow> locale_config \<Rightarrow> json_value option \<Rightarrow> string \<Rightarrow> write_error + assignments" where
  "restore_locale_columns env lc v base =
     collect_all (\<lambda>l.
       case locale_column base l of
         None \<Rightarrow> Inl (InvalidLocale base)
       | Some col \<Rightarrow> Inr [(col, if l = lc_default_locale lc then restored_locale_value env v else DNull)]) (lc_locales lc)"

definition restore_leaf ::
  "write_env \<Rightarrow> locale_config \<Rightarrow> document_fields \<Rightarrow> field_attrs \<times> string \<times> bool \<Rightarrow> write_error + assignments" where
  "restore_leaf env lc obj leaf =
     (case leaf of (a, pre, inherited) \<Rightarrow>
       if \<not> (fa_localized a \<or> inherited) \<or> \<not> attrs_has_parent_column a then Inr []
       else (let base = prefixed_name pre (fa_name a)
             in restore_locale_columns env lc
                  (if pre = [] then map_of obj (fa_name a) else resolve_snapshot_value obj base pre (fa_name a)) base))"

definition collect_locale_restore_fields ::
  "write_env \<Rightarrow> locale_config \<Rightarrow> field_definition list \<Rightarrow> document_fields \<Rightarrow> write_error + assignments" where
  "collect_locale_restore_fields env lc fds obj = collect_all (restore_leaf env lc obj) (walk_leaf_fields fds [] False)"

section \<open>The store of a collection\<close>

record doc_store =
  ds_rows :: "find_row list"
  ds_joins :: join_tables
  ds_versions :: version_rows

record store_env =
  se_join :: join_env
  se_base64 :: "string \<Rightarrow> string"
  se_now :: string
  se_new_version :: string

datatype store_error =
    WriteFailed write_error
  | SnapshotNotObject
  | JoinFailed
  | NoStatusColumn
  | VersionNotFound string
  | NotFound string
  | AccessDenied
  | Invalid "field_error list"
  | HookFailed string
  | StatementFailed string

definition lift_write :: "write_error + 'a \<Rightarrow> store_error + 'a" where
  "lift_write r = (case r of Inl e \<Rightarrow> Inl (WriteFailed e) | Inr x \<Rightarrow> Inr x)"

definition default_locale_ctx :: "locale_config \<Rightarrow> locale_context option" where
  "default_locale_ctx lc = (if is_enabled lc then Some \<lparr>lx_mode = Default, lx_config = lc\<rparr> else None)"

definition set_status :: "store_env \<Rightarrow> auth_collection \<Rightarrow> string \<Rightarrow> string \<Rightarrow> doc_store \<Rightarrow> store_error + doc_store" where
  "set_status env def i status s =
     (case set_document_status def (se_now env) i status (ds_rows s) of
        None \<Rightarrow> Inl NoStatusColumn
      | Some t \<Rightarrow> Inr (s\<lparr>ds_rows := t\<rparr>))"

definition add_version :: "store_env \<Rightarrow> string \<Rightarrow> string \<Rightarrow> json_value \<Rightarrow> doc_store \<Rightarrow> doc_store" where
  "add_version env i status snapshot s =
     s\<lparr>ds_versions := fst (create_version (se_new_version env) i status snapshot (ds_versions s))\<rparr>"

definition restore_locale_and_join_data ::
  "store_env \<Rightarrow> locale_config \<Rightarrow> field_definition list \<Rightarrow> string \<Rightarrow> document_fields \<Rightarrow> doc_store \<Rightarrow> store_error + doc_store" where
  "restore_locale_and_join_data env lc fds i obj s =
     bindE (if is_enabled lc then lift_write (collect_locale_restore_fields (je_write (se_join env)) lc fds obj) else Inr [])
       (\<lambda>sets.
         let s1 = s\<lparr>ds_rows := if sets = [] then ds_rows s
                               else update_where (\<lambda>r. fr_id r = i) (set_columns sets) (ds_rows s)\<rparr>;
             join_data = collect_join_data_from_snapshot fds obj []
         in if join_data = [] then Inr s1
            else (case save_join_table_data (se_join env) None fds i join_data (ds_joins s1) of
                    None \<Rightarrow> Inl JoinFailed
                  | Some T \<Rightarrow> Inr (s1\<lparr>ds_joins := T\<rparr>)))"

text \<open>The reference counts that follow a restore are modelled with the other reference counts.\<close>

definition restore_version ::
  "store_env \<Rightarrow> locale_config \<Rightarrow> auth_collection \<Rightarrow> string \<Rightarrow> json_value \<Rightarrow> string \<Rightarrow> doc_store
   \<Rightarrow> store_error + doc_store \<times> document" where
  "restore_version env lc def i snapshot status s =
     (case snapshot of
        JObject obj \<Rightarrow>
          bindE (lift_write (update_inner (je_write (se_join env)) (se_base64 env) (se_now env) def (default_locale_ctx lc) False i
                   (extract_snapshot_data obj (ci_fields def) (is_enabled lc)) (ds_rows s)))
            (\<lambda>(rows, doc).
              bindE (restore_locale_and_join_data env lc (ci_fields def) i obj (s\<lparr>ds_rows := rows\<rparr>)) (\<lambda>s1.
                bindE (set_status env def i status s1) (\<lambda>s2. Inr (add_version env i status snapshot s2, doc))))
      | _ \<Rightarrow> Inl SnapshotNotObject)"

section \<open>The service's snapshots\<close>

text \<open>\<open>versions\<close> is the collection's setting: the cap on a document's versions, 0 for none.\<close>

definition prune :: "nat option \<Rightarrow> string \<Rightarrow> doc_store \<Rightarrow> doc_store" where
  "prune versions i s =
     (case versions of
        Some n \<Rightarrow> if 0 < n then s\<lparr>ds_versions := prune_versions i n (ds_versions s)\<rparr> else s
      | None \<Rightarrow> s)"

definition create_version_snapshot ::
  "store_env \<Rightarrow> auth_collection \<Rightarrow> nat option \<Rightarrow> string \<Rightarrow> string \<Rightarrow> document \<Rightarrow> doc_store \<Rightarrow> store_error + doc_store" where
  "create_version_snapshot env def versions i status doc s =
     bindE (if ci_has_drafts def then set_status env def i status s else Inr s) (\<lambda>s1.
       Inr (prune versions i (add_version env i status (build_snapshot (se_join env) (ds_joins s1) (ci_fields def) doc) s1)))"

fun merge_join_data_into_snapshot :: "field_definition list \<Rightarrow> document_fields \<Rightarrow> document_fields \<Rightarrow> document_fields"
  and merge_join_data_into_tabs :: "field_tab list \<Rightarrow> document_fields \<Rightarrow> document_fields \<Rightarrow> document_fields"
where
  "merge_join_data_into_snapshot [] data obj = obj"
| "merge_join_data_into_snapshot (FieldDefinition a sub tabs blocks # fs) data obj =
     merge_join_data_into_snapshot fs data
       (if fa_type a = Array \<or> fa_type a = Blocks \<or> fa_type a = Relationship
        then (case map_of data (fa_name a) of None \<Rightarrow> obj | Some v \<Rightarrow> json_put (fa_name a) v obj)
        else if fa_type a = Row \<or> fa_type a = Collapsible then merge_join_data_into_snapshot sub data obj
        else if fa_type a = Tabs then merge_join_data_into_tabs tabs data obj
        else obj)"
| "merge_join_data_into_tabs [] data obj = obj"
| "merge_join_data_into_tabs (FieldTab l sub # ts) data obj =
     merge_join_data_into_tabs ts data (merge_join_data_into_snapshot sub data obj)"

definition save_draft_version ::
  "store_env \<Rightarrow> field_definition list \<Rightarrow> nat option \<Rightarrow> string \<Rightarrow> document \<Rightarrow> document_fields \<Rightarrow> doc_store \<Rightarrow> doc_store" where
  "save_draft_version env fds versions i existing data s =
     (let merged = existing\<lparr>doc_id := i, doc_fields := extend_data (doc_fields existing) data\<rparr>;
          snapshot = (case build_snapshot (se_join env) (ds_joins s) fds merged of
                        JObject obj \<Rightarrow> JObject (merge_join_data_into_snapshot fds data obj)
                      | v \<Rightarrow> v)
      in prune versions i (add_version env i ''draft'' snapshot s))"

definition unpublish_with_snapshot ::
  "store_env \<Rightarrow> auth_collection \<Rightarrow> nat option \<Rightarrow> string \<Rightarrow> document \<Rightarrow> doc_store \<Rightarrow> store_error + doc_store" where
  "unpublish_with_snapshot env def versions i doc s =
     bindE (set_status env def i ''draft'' s) (\<lambda>s1.
       Inr (prune versions i (add_version env i ''draft'' (build_snapshot (se_join env) (ds_joins s1) (ci_fields def) doc) s1)))"

end
