(* ===== verification/AccessConstraints.thy ===== *)
theory AccessConstraints
  imports Hydrate EventDelivery
begin

text \<open>
  The rows an access hook constrains a write to (src/src/db/query/validation.rs, columns.rs,
  read/count.rs, src/src/service/helpers.rs): the names a filter may use, counting rows under filters,
  and the check that the target of a write is among the rows of the constraint.
\<close>

section \<open>Names a filter may use\<close>

definition get_valid_filter_columns :: "auth_collection \<Rightarrow> string list" where
  "get_valid_filter_columns def =
     [''id'']
     @ map (\<lambda>(a, pre, inherited). prefixed_name pre (fa_name a))
         (filter (\<lambda>(a, pre, inherited). attrs_has_parent_column a) (walk_leaf_fields (ci_fields def) [] False))
     @ (if ci_has_drafts def then [''_status''] else [])
     @ (if ci_timestamps def then [''created_at'', ''updated_at''] else [])
     @ (if ac_soft_delete def then [''_deleted_at''] else [])"

fun collect_prefix_roots :: "field_definition list \<Rightarrow> string list"
  and collect_prefix_tabs :: "field_tab list \<Rightarrow> string list"
where
  "collect_prefix_roots [] = []"
| "collect_prefix_roots (FieldDefinition a sub tabs blocks # fs) =
     (if fa_type a = Array \<or> fa_type a = Blocks then [fa_name a]
      else if fa_type a = Relationship then (if has_many_config a \<noteq> None then [fa_name a] else [])
      else if fa_type a = Row \<or> fa_type a = Collapsible then collect_prefix_roots sub
      else if fa_type a = Tabs then collect_prefix_tabs tabs
      else []) @ collect_prefix_roots fs"
| "collect_prefix_tabs [] = []"
| "collect_prefix_tabs (FieldTab l sub # ts) = collect_prefix_roots sub @ collect_prefix_tabs ts"

definition validate_filter_field :: "auth_collection \<Rightarrow> string \<Rightarrow> bool" where
  "validate_filter_field def field \<longleftrightarrow>
     (let root = hd (split_on (CHR ''.'') field)
      in starts_with ''_'' root \<or> field \<in> set (get_valid_filter_columns def)
         \<or> (CHR ''.'' \<in> set field \<and> root \<in> set (collect_prefix_roots (ci_fields def))))"

definition filters_of_clause :: "filter_clause \<Rightarrow> field_filter list" where
  "filters_of_clause c = (case c of SingleFilter f \<Rightarrow> [f] | OrFilters gs \<Rightarrow> concat gs)"

section \<open>Counting rows\<close>

text \<open>The full-text search is the index's: the ids that match, when a search is asked for.\<close>

definition count_with_search ::
  "date_library \<Rightarrow> where_env \<Rightarrow> auth_collection \<Rightarrow> filter_clause list \<Rightarrow> locale_context option \<Rightarrow> (string \<Rightarrow> bool) option \<Rightarrow> bool
   \<Rightarrow> find_row list \<Rightarrow> string + nat" where
  "count_with_search lib wenv def filters lx found include_deleted t =
     (if \<not> list_all (\<lambda>c. list_all (\<lambda>f. validate_filter_field def (ff_field f)) (filters_of_clause c)) filters
      then Inl ''Invalid field''
      else (case resolve_filters (ci_fields def) lx filters of
              None \<Rightarrow> Inl ''Invalid locale''
            | Some resolved \<Rightarrow>
                bindE (build_where_clause lib resolved (ac_slug def) (ci_fields def) lx) (\<lambda>w.
                  Inr (count_where (\<lambda>r. selects wenv r w
                        \<and> (case found of None \<Rightarrow> True | Some p \<Rightarrow> p (fr_id r))
                        \<and> (include_deleted \<or> \<not> is_deleted def r)) t))))"

text \<open>The join tables as a filter's subquery reads them.\<close>

definition join_row_of :: "table_row \<Rightarrow> join_row" where
  "join_row_of r =
     \<lparr>jr_parent_id = tr_parent r, jr_locale = Some (tr_locale r),
      jr_cols = (case tr_data r of
          Related i \<Rightarrow> [(''related_id'', DText i)]
        | Polymorphic c i \<Rightarrow> [(''related_id'', DText i), (''related_collection'', DText c)]
        | ArrayRow cs \<Rightarrow> cs
        | BlockRow bt data \<Rightarrow> [(''_block_type'', DText bt), (''data'', DText data)])\<rparr>"

definition store_where ::
  "(db_value \<Rightarrow> string) \<Rightarrow> ((string \<times> string) list \<Rightarrow> string \<Rightarrow> join_row \<Rightarrow> db_value list) \<Rightarrow> string \<Rightarrow> join_tables \<Rightarrow> where_env" where
  "store_where num_text json_values slug T =
     \<lparr>we_num_text = num_text,
      we_join_rows = (\<lambda>name. case strip_prefix (slug @ ''_'') name of None \<Rightarrow> [] | Some key \<Rightarrow> map join_row_of (T key)),
      we_json_values = json_values\<rparr>"

section \<open>The target of a write\<close>

definition id_filter :: "string \<Rightarrow> filter_clause" where
  "id_filter i = SingleFilter \<lparr>ff_field = ''id'', ff_op = Equals i\<rparr>"

text \<open>\<open>Inl\<close> is an error of the statement, \<open>Inr False\<close> the refusal.\<close>

definition enforce_access_constraints ::
  "date_library \<Rightarrow> where_env \<Rightarrow> auth_collection \<Rightarrow> string \<Rightarrow> access_result \<Rightarrow> bool \<Rightarrow> find_row list \<Rightarrow> string + bool" where
  "enforce_access_constraints lib wenv def i access include_deleted t =
     (case access of
        Constrained extra \<Rightarrow>
          bindE (count_with_search lib wenv def (extra @ [id_filter i]) None None include_deleted t) (\<lambda>n. Inr (n \<noteq> 0))
      | _ \<Rightarrow> Inr True)"

section \<open>What the check admits\<close>

lemma resolve_one_default: "resolve_one fds None f = Some f"
  by (simp add: resolve_one_def resolve_filter_column_def)

lemma all_some_map: "(\<And>x. x \<in> set xs \<Longrightarrow> g x = Some x) \<Longrightarrow> all_some (map g xs) = Some xs"
  by (induction xs) simp_all

lemma resolve_filters_default: "resolve_filters fds None cs = Some cs"
  unfolding resolve_filters_def
  by (rule all_some_map) (simp add: resolve_one_default all_some_map split: filter_clause.split)

lemma id_filter_holds:
  assumes "lookup_column_field_type ''id'' fds = None"
  shows "clause_holds (filter_holds (build_filter_sql lib slug fds lx) wenv r) (id_filter i) \<longleftrightarrow> fr_id r = i"
proof -
  have "is_valid_identifier ''id''" by code_simp
  then show ?thesis
    using assms
    by (simp add: id_filter_def filter_holds_column numeric_column_def column_def build_op_condition_def coerce_filter_value_def
        op_holds_def apply_affinity_def cmp3_def)
qed

lemma count_where_pos: "0 < count_where p t \<longleftrightarrow> (\<exists>r \<in> set t. p r)"
  by (simp add: count_where_def filter_empty_conv)


definition own_filter :: filter_clause where
  "own_filter = SingleFilter \<lparr>ff_field = ''author'', ff_op = Equals ''u1''\<rparr>"

definition notes_def :: auth_collection where
  "notes_def = \<lparr>ci_timestamps = False, ci_has_drafts = False, ci_fields = [FieldDefinition (new_attrs ''author'' Text) [] [] []],
     ac_slug = ''notes'', ac_soft_delete = True, ac_auth = None\<rparr>"

definition note_row :: "string \<Rightarrow> string \<Rightarrow> db_value \<Rightarrow> find_row" where
  "note_row i author deleted = \<lparr>fr_id = i, fr_cols = [(''author'', DText author), (''_deleted_at'', deleted)]\<rparr>"

definition notes_where :: where_env where
  "notes_where = store_where (\<lambda>v. []) (\<lambda>js e r. []) ''notes'' (\<lambda>key. [])"

lemma own_filter_holds:
  "clause_holds (filter_holds (build_filter_sql no_dates ''notes'' (ci_fields notes_def) None) notes_where (note_row i author d)) own_filter
     \<longleftrightarrow> author = ''u1''"
proof -
  have "is_valid_identifier ''author''" by code_simp
  then show ?thesis
    by (simp add: own_filter_def filter_holds_column numeric_column_def column_def build_op_condition_def coerce_filter_value_def
        op_holds_def apply_affinity_def cmp3_def note_row_def notes_def_def new_attrs_def lookup_column_field_type_def column_type_numeric_def)
qed

definition notes_rows :: "find_row list" where
  "notes_rows = [note_row ''n1'' ''u2'' DNull, note_row ''n2'' ''u1'' (DText ''now''), note_row ''n3'' ''u1'' DNull]"

lemma notes_checked:
  "\<exists>b. enforce_access_constraints no_dates notes_where notes_def i (Constrained [own_filter]) False notes_rows = Inr b"
proof -
  have ids: "is_valid_identifier ''author''" "is_valid_identifier ''id''" by code_simp+
  have names: "validate_filter_field notes_def ''author''" "validate_filter_field notes_def ''id''" by code_simp+
  show ?thesis
    using ids names
    by (simp add: enforce_access_constraints_def count_with_search_def resolve_filters_default filters_of_clause_def own_filter_def
        id_filter_def build_where_clause_def build_clause_def build_filter_column bindE_def)
qed


end
