(* ===== verification/DocumentService.thy ===== *)
theory DocumentService
  imports Snapshots AccessConstraints Validation
begin

text \<open>
  The document operations of the service (src/src/service/write/, service/persist/, service/versions/,
  service/collections/unpublish.rs): access, stripping, hooks and validation, the statements, the
  version of the change, and the answer.  An operation runs in the caller's transaction, so an error
  leaves the store as it was.  Passwords, reference counts and the search index, which the same
  functions keep up, are modelled with the accounts, with the reference counts, and not at all.
\<close>

section \<open>The environment of a request\<close>

text \<open>
  \<open>sv_versions\<close> is the collection's \<open>versions\<close> setting, the cap of versions per document.
\<close>

record service_env =
  sv_store :: store_env
  sv_versions :: "nat option"
  sv_locales :: locale_config
  sv_new_id :: string
  sv_dates :: date_library
  sv_num_text :: "db_value \<Rightarrow> string"
  sv_json_values :: "(string \<times> string) list \<Rightarrow> string \<Rightarrow> join_row \<Rightarrow> db_value list"
  sv_validation :: validation_env
  sv_nodes :: "richtext_node_def list option"

text \<open>
  The Lua hooks of the collection for the user of the request: the access function of an operation,
  the field access, and the hooks, which may change the data and, in the same transaction, the store.
\<close>

record write_hooks =
  wh_enabled :: bool
  wh_override :: bool
  wh_access :: "string \<Rightarrow> string + access_result"
  wh_fields :: access_vm
  wh_before_validate :: "document_fields \<times> doc_store \<Rightarrow> string + document_fields \<times> doc_store"
  wh_before_change :: "document_fields \<times> doc_store \<Rightarrow> string + document_fields \<times> doc_store"
  wh_after_change :: "document_fields \<times> doc_store \<Rightarrow> string + doc_store"

definition hook_step :: "('a \<Rightarrow> string + 'b) \<Rightarrow> 'a \<Rightarrow> store_error + 'b" where
  "hook_step f x = (case f x of Inl e \<Rightarrow> Inl (HookFailed e) | Inr y \<Rightarrow> Inr y)"

definition check_access :: "write_hooks \<Rightarrow> string \<Rightarrow> store_error + access_result" where
  "check_access hooks op = (if wh_override hooks then Inr Allowed else hook_step (wh_access hooks) op)"

definition field_write_denied :: "write_hooks \<Rightarrow> string \<Rightarrow> field_definition list \<Rightarrow> string list" where
  "field_write_denied hooks op fds = (if wh_override hooks then [] else check_field_write_access (wh_fields hooks) op fds)"

definition field_read_denied :: "write_hooks \<Rightarrow> field_definition list \<Rightarrow> string list" where
  "field_read_denied hooks fds = (if wh_override hooks then [] else check_field_read_access (wh_fields hooks) fds)"

section \<open>Before and after a write\<close>

definition validation_of ::
  "service_env \<Rightarrow> auth_collection \<Rightarrow> string option \<Rightarrow> bool \<Rightarrow> locale_context option \<Rightarrow> doc_store \<Rightarrow> validation_ctx" where
  "validation_of env def exclude draft lx s =
     \<lparr>vx_table = ac_slug def, vx_rows = ds_rows s, vx_exclude_id = exclude, vx_is_draft = draft, vx_locale_ctx = lx,
      vx_nodes = sv_nodes env, vx_soft_delete = ac_soft_delete def\<rparr>"

definition validate_data ::
  "service_env \<Rightarrow> auth_collection \<Rightarrow> string option \<Rightarrow> bool \<Rightarrow> locale_context option \<Rightarrow> document_fields \<Rightarrow> doc_store \<Rightarrow> store_error + unit" where
  "validate_data env def exclude draft lx data s =
     (case validate_fields_inner (sv_validation env) (validation_of env def exclude draft lx s) (ci_fields def) data of
        Inl errors \<Rightarrow> Inl (Invalid errors)
      | Inr u \<Rightarrow> Inr ())"

definition run_before_write ::
  "service_env \<Rightarrow> write_hooks \<Rightarrow> auth_collection \<Rightarrow> string option \<Rightarrow> bool \<Rightarrow> locale_context option \<Rightarrow> document_fields \<Rightarrow> doc_store
   \<Rightarrow> store_error + document_fields \<times> doc_store" where
  "run_before_write env hooks def exclude draft lx data s =
     (if wh_enabled hooks
      then bindE (hook_step (wh_before_validate hooks) (data, s)) (\<lambda>(d1, s1).
             bindE (validate_data env def exclude draft lx d1 s1) (\<lambda>_. hook_step (wh_before_change hooks) (d1, s1)))
      else bindE (validate_data env def exclude draft lx data s) (\<lambda>_. Inr (data, s)))"

definition run_after_change_hooks :: "write_hooks \<Rightarrow> document \<Rightarrow> doc_store \<Rightarrow> store_error + doc_store" where
  "run_after_change_hooks hooks doc s =
     (if wh_enabled hooks
      then hook_step (wh_after_change hooks) (json_put ''id'' (JString (doc_id doc)) (doc_fields doc), s)
      else Inr s)"

text \<open>The answer: hydrated, then without the fields the user may not read and the hidden ones.\<close>

definition strip_answer :: "write_hooks \<Rightarrow> field_definition list \<Rightarrow> document \<Rightarrow> document" where
  "strip_answer hooks fds doc =
     doc\<lparr>doc_fields := strip_fields (field_read_denied hooks fds @ collect_api_hidden_field_names fds []) (doc_fields doc)\<rparr>"

definition answer ::
  "service_env \<Rightarrow> write_hooks \<Rightarrow> field_definition list \<Rightarrow> locale_context option \<Rightarrow> document \<Rightarrow> doc_store \<Rightarrow> document" where
  "answer env hooks fds lx doc s = strip_answer hooks fds (hydrate_doc (se_join (sv_store env)) lx (ds_joins s) None fds doc)"

section \<open>Persisting\<close>

text \<open>The row, its join tables and, with versions, the version of the change.\<close>

definition write_joins ::
  "service_env \<Rightarrow> auth_collection \<Rightarrow> locale_context option \<Rightarrow> string \<Rightarrow> document_fields \<Rightarrow> doc_store \<Rightarrow> store_error + doc_store" where
  "write_joins env def lx i data s =
     (case save_join_table_data (se_join (sv_store env)) lx (ci_fields def) i data (ds_joins s) of
        None \<Rightarrow> Inl JoinFailed
      | Some T \<Rightarrow> Inr (s\<lparr>ds_joins := T\<rparr>))"

definition record_version ::
  "service_env \<Rightarrow> auth_collection \<Rightarrow> string \<Rightarrow> document \<Rightarrow> doc_store \<Rightarrow> store_error + doc_store" where
  "record_version env def status doc s =
     (if sv_versions env \<noteq> None then create_version_snapshot (sv_store env) def (sv_versions env) (doc_id doc) status doc s else Inr s)"

definition write_env_of :: "service_env \<Rightarrow> write_env" where
  "write_env_of env = je_write (se_join (sv_store env))"

definition persist_create_document ::
  "service_env \<Rightarrow> auth_collection \<Rightarrow> locale_context option \<Rightarrow> bool \<Rightarrow> document_fields \<Rightarrow> doc_store \<Rightarrow> store_error + doc_store \<times> document" where
  "persist_create_document env def lx draft data s =
     bindE (lift_write (create (write_env_of env) (se_base64 (sv_store env)) (se_now (sv_store env)) def lx (sv_new_id env) data (ds_rows s)))
       (\<lambda>(rows, doc).
         bindE (write_joins env def lx (doc_id doc) data (s\<lparr>ds_rows := rows\<rparr>)) (\<lambda>s1.
           bindE (record_version env def (if draft then ''draft'' else ''published'') doc s1) (\<lambda>s2. Inr (s2, doc))))"

definition persist_update_with ::
  "bool \<Rightarrow> service_env \<Rightarrow> auth_collection \<Rightarrow> locale_context option \<Rightarrow> string \<Rightarrow> document_fields \<Rightarrow> doc_store
   \<Rightarrow> store_error + doc_store \<times> document" where
  "persist_update_with partially env def lx i data s =
     bindE (lift_write (update_inner (write_env_of env) (se_base64 (sv_store env)) (se_now (sv_store env)) def lx partially i data (ds_rows s)))
       (\<lambda>(rows, doc).
         bindE (write_joins env def lx i data (s\<lparr>ds_rows := rows\<rparr>)) (\<lambda>s1.
           bindE (record_version env def ''published'' doc s1) (\<lambda>s2. Inr (s2, doc))))"

definition persist_update_document where
  "persist_update_document = persist_update_with False"

definition persist_bulk_update where
  "persist_bulk_update = persist_update_with True"

definition raw_or_not_found ::
  "service_env \<Rightarrow> auth_collection \<Rightarrow> locale_context option \<Rightarrow> string \<Rightarrow> doc_store \<Rightarrow> store_error + document" where
  "raw_or_not_found env def lx i s =
     bindE (lift_write (find_by_id_raw (se_base64 (sv_store env)) def lx False i (ds_rows s)))
       (\<lambda>d. case d of None \<Rightarrow> Inl (NotFound i) | Some doc \<Rightarrow> Inr doc)"

definition persist_draft_version ::
  "service_env \<Rightarrow> auth_collection \<Rightarrow> locale_context option \<Rightarrow> string \<Rightarrow> document_fields \<Rightarrow> doc_store \<Rightarrow> store_error + doc_store \<times> document" where
  "persist_draft_version env def lx i data s =
     bindE (raw_or_not_found env def lx i s) (\<lambda>doc.
       Inr (save_draft_version (sv_store env) (ci_fields def) (sv_versions env) i doc data s, doc))"

definition persist_unpublish :: "service_env \<Rightarrow> auth_collection \<Rightarrow> string \<Rightarrow> doc_store \<Rightarrow> store_error + doc_store" where
  "persist_unpublish env def i s =
     bindE (raw_or_not_found env def (default_locale_ctx (sv_locales env)) i s) (\<lambda>doc.
       unpublish_with_snapshot (sv_store env) def (sv_versions env) i doc s)"

section \<open>The operations\<close>

text \<open>The access function of an operation on a document, its constraint enforced on that document.\<close>

definition check_target ::
  "service_env \<Rightarrow> write_hooks \<Rightarrow> auth_collection \<Rightarrow> string \<Rightarrow> string \<Rightarrow> doc_store \<Rightarrow> store_error + unit" where
  "check_target env hooks def op i s =
     bindE (check_access hooks op) (\<lambda>access.
       if access = Denied then Inl AccessDenied
       else (case enforce_access_constraints (sv_dates env)
                     (store_where (sv_num_text env) (sv_json_values env) (ac_slug def) (ds_joins s)) def i access False (ds_rows s) of
               Inl e \<Rightarrow> Inl (StatementFailed e)
             | Inr ok \<Rightarrow> if ok then Inr () else Inl AccessDenied))"

definition create_document_in_conn ::
  "service_env \<Rightarrow> write_hooks \<Rightarrow> auth_collection \<Rightarrow> bool \<Rightarrow> locale_context option \<Rightarrow> document_fields \<Rightarrow> doc_store
   \<Rightarrow> store_error + doc_store \<times> document" where
  "create_document_in_conn env hooks def draft lx data s =
     bindE (check_access hooks ''create'') (\<lambda>access.
       case access of
         Denied \<Rightarrow> Inl AccessDenied
       | Constrained fs \<Rightarrow> Inl (HookFailed ''filter table'')
       | Allowed \<Rightarrow>
           (let is_draft = draft \<and> ci_has_drafts def;
                kept = strip_denied_fields (field_write_denied hooks ''create'' (ci_fields def)) data
            in bindE (run_before_write env hooks def None is_draft lx kept s) (\<lambda>(d, s1).
                 bindE (persist_create_document env def lx is_draft (to_value_map (ci_fields def) d) s1) (\<lambda>(s2, doc).
                   bindE (run_after_change_hooks hooks doc s2) (\<lambda>s3. Inr (s3, answer env hooks (ci_fields def) lx doc s3))))))"

definition update_document_in_conn ::
  "service_env \<Rightarrow> write_hooks \<Rightarrow> auth_collection \<Rightarrow> string \<Rightarrow> bool \<Rightarrow> locale_context option \<Rightarrow> document_fields \<Rightarrow> doc_store
   \<Rightarrow> store_error + doc_store \<times> document" where
  "update_document_in_conn env hooks def i draft lx data s =
     bindE (check_target env hooks def ''update'' i s) (\<lambda>_.
       let is_draft = draft \<and> ci_has_drafts def;
           kept = strip_denied_fields (field_write_denied hooks ''update'' (ci_fields def)) data
       in bindE (run_before_write env hooks def (Some i) is_draft lx kept s) (\<lambda>(d, s1).
            bindE (if is_draft \<and> sv_versions env \<noteq> None then persist_draft_version env def lx i d s1
                   else persist_update_document env def lx i (to_value_map (ci_fields def) d) s1) (\<lambda>(s2, doc).
              bindE (run_after_change_hooks hooks doc s2) (\<lambda>s3. Inr (s3, answer env hooks (ci_fields def) lx doc s3)))))"

definition update_many_single_in_conn ::
  "service_env \<Rightarrow> write_hooks \<Rightarrow> auth_collection \<Rightarrow> string \<Rightarrow> locale_context option \<Rightarrow> document_fields \<Rightarrow> doc_store
   \<Rightarrow> store_error + doc_store \<times> document" where
  "update_many_single_in_conn env hooks def i lx data s =
     bindE (check_target env hooks def ''update'' i s) (\<lambda>_.
       bindE (run_before_write env hooks def (Some i) False lx
                (strip_denied_fields (field_write_denied hooks ''update'' (ci_fields def)) data) s) (\<lambda>(d, s1).
         bindE (persist_bulk_update env def lx i (to_value_map (ci_fields def) d) s1) (\<lambda>(s2, doc).
           bindE (run_after_change_hooks hooks doc s2) (\<lambda>s3. Inr (s3, answer env hooks (ci_fields def) lx doc s3)))))"

definition validate_document ::
  "service_env \<Rightarrow> write_hooks \<Rightarrow> auth_collection \<Rightarrow> string \<Rightarrow> string option \<Rightarrow> bool \<Rightarrow> locale_context option \<Rightarrow> document_fields \<Rightarrow> doc_store
   \<Rightarrow> store_error + unit" where
  "validate_document env hooks def op exclude draft lx data s =
     bindE (run_before_write env hooks def exclude draft lx
              (strip_denied_fields (field_write_denied hooks op (ci_fields def)) data) s) (\<lambda>_. Inr ())"

definition unpublish_document_in_conn ::
  "service_env \<Rightarrow> write_hooks \<Rightarrow> auth_collection \<Rightarrow> string \<Rightarrow> doc_store \<Rightarrow> store_error + doc_store \<times> document" where
  "unpublish_document_in_conn env hooks def i s =
     bindE (check_target env hooks def ''update'' i s) (\<lambda>_.
       bindE (raw_or_not_found env def (default_locale_ctx (sv_locales env)) i s) (\<lambda>doc.
         bindE (if wh_enabled hooks then hook_step (wh_before_change hooks) (doc_fields doc, s) else Inr (doc_fields doc, s)) (\<lambda>(d, s1).
           bindE (persist_unpublish env def i s1) (\<lambda>s2.
             let doc' = doc\<lparr>doc_fields := json_put ''_status'' (JString ''draft'') (doc_fields doc)\<rparr>
             in bindE (run_after_change_hooks hooks doc' s2) (\<lambda>s3. Inr (s3, answer env hooks (ci_fields def) None doc' s3))))))"

text \<open>
  A version is looked up by its id, and its snapshot is validated as it is.
\<close>

definition snapshot_to_validation_data :: "json_value \<Rightarrow> document_fields" where
  "snapshot_to_validation_data snapshot = (case snapshot of JObject ms \<Rightarrow> ms | _ \<Rightarrow> [])"

definition restore_collection_version_core ::
  "service_env \<Rightarrow> write_hooks \<Rightarrow> auth_collection \<Rightarrow> string \<Rightarrow> string \<Rightarrow> doc_store \<Rightarrow> store_error + doc_store \<times> document" where
  "restore_collection_version_core env hooks def i version_id s =
     bindE (check_target env hooks def ''update'' i s) (\<lambda>_.
       case find_version_by_id version_id (ds_versions s) of
         None \<Rightarrow> Inl (VersionNotFound version_id)
       | Some v \<Rightarrow>
           bindE (validate_data env def (Some i) False None (snapshot_to_validation_data (vr_snapshot v)) s) (\<lambda>_.
             bindE (restore_version (sv_store env) (sv_locales env) def i (vr_snapshot v) ''published'' s) (\<lambda>(s1, doc).
               Inr (s1, strip_answer hooks (ci_fields def) doc))))"

definition strip_snapshot_fields :: "string list \<Rightarrow> json_value \<Rightarrow> json_value" where
  "strip_snapshot_fields denied snapshot = (case snapshot of JObject ms \<Rightarrow> JObject (strip_fields denied ms) | v \<Rightarrow> v)"

definition find_version ::
  "service_env \<Rightarrow> write_hooks \<Rightarrow> auth_collection \<Rightarrow> string \<Rightarrow> doc_store \<Rightarrow> store_error + version_row option" where
  "find_version env hooks def version_id s =
     bindE (check_access hooks ''read'') (\<lambda>access.
       if access = Denied then Inl AccessDenied
       else (case find_version_by_id version_id (ds_versions s) of
               None \<Rightarrow> Inr None
             | Some v \<Rightarrow>
                 bindE (case enforce_access_constraints (sv_dates env)
                          (store_where (sv_num_text env) (sv_json_values env) (ac_slug def) (ds_joins s)) def (vr_parent v) access False (ds_rows s) of
                          Inl e \<Rightarrow> Inl (StatementFailed e)
                        | Inr ok \<Rightarrow> if ok then Inr () else Inl AccessDenied) (\<lambda>_.
                   Inr (Some (v\<lparr>vr_snapshot := strip_snapshot_fields
                     (field_read_denied hooks (ci_fields def) @ collect_api_hidden_field_names (ci_fields def) []) (vr_snapshot v)\<rparr>)))))"

end
