(* ===== verification/LocaleRead.thy ===== *)
theory LocaleRead
  imports WriteColumns
begin

text \<open>
  What an update changes and what a read in a locale shows of it (src/src/db/query/write/update.rs,
  read/find_by_id.rs, locale.rs).
\<close>

section \<open>What an update changes\<close>

text \<open>The columns of a field in the locale of a write, its time zone included.\<close>

definition write_columns :: "locale_context option \<Rightarrow> field_attrs \<times> string \<times> bool \<Rightarrow> string set" where
  "write_columns lx leaf =
     (case leaf of (a, pre, inherited) \<Rightarrow>
       (let key = prefixed_name pre (fa_name a) in
        {c. locale_write_column key a lx inherited = Some c \<or>
            fa_type a = Date \<and> fa_timezone a \<and> locale_write_column (tz_column key) a lx inherited = Some c}))"

text \<open>Whether an update writes a field: its data holds it, or it is a checkbox of a full update.\<close>

definition written_by :: "bool \<Rightarrow> document_fields \<Rightarrow> field_attrs \<times> string \<times> bool \<Rightarrow> bool" where
  "written_by skip data leaf \<longleftrightarrow>
     (case leaf of (a, pre, inherited) \<Rightarrow>
       attrs_has_parent_column a \<and>
       (map_of data (prefixed_name pre (fa_name a)) \<noteq> None \<or> fa_type a = Checkbox \<and> \<not> skip))"

lemma leaf_update_columns:
  "collect_leaf_update env lx skip data leaf = Inr zs \<Longrightarrow> c \<in> fst ` set zs \<Longrightarrow> c \<in> write_columns lx leaf \<and> written_by skip data leaf"
  by (cases leaf)
     (auto simp: collect_leaf_update_def leaf_values_def write_columns_def written_by_def Let_def
       split: if_splits option.splits)

lemma update_params_columns:
  assumes "collect_update_params env lx skip fds data = Inr sets" "c \<in> fst ` set sets"
  shows "\<exists>leaf \<in> set (walk_leaf_fields fds [] False). c \<in> write_columns lx leaf \<and> written_by skip data leaf"
proof -
  from assms(2) obtain v where "(c, v) \<in> set sets" by auto
  with collect_all_set [OF assms(1) [unfolded collect_update_params_def]]
  obtain leaf zs where "leaf \<in> set (walk_leaf_fields fds [] False)"
    "collect_leaf_update env lx skip data leaf = Inr zs" "(c, v) \<in> set zs" by blast
  with leaf_update_columns [of env lx skip data leaf zs c] show ?thesis by force
qed

lemma update_where_none: "update_where p (set_columns []) t = t"
  by (simp add: update_where_def set_columns_def map_idI)

lemma found_document_Inr [result_simps]: "found_document e f = Inr d \<longleftrightarrow> f = Inr (Some d)"
  by (auto simp: found_document_def bindE_Inr_iff split: option.splits)

lemma update_rows:
  assumes "update_inner env base64 now def lx skip i data t = Inr (t', d)"
  obtains sets where "collect_update_params env lx skip (ci_fields def) data = Inr sets"
    and "t' = update_where (\<lambda>r. fr_id r = i)
           (set_columns (sets @ (if ci_timestamps def then [(''updated_at'', DText now)] else []))) t"
    and "find_by_id_raw base64 def lx False i t' = Inr (Some d)"
proof -
  obtain sets where sets: "collect_update_params env lx skip (ci_fields def) data = Inr sets"
    using assms by (auto simp: update_inner_def bindE_Inr_iff)
  let ?sets = "sets @ (if ci_timestamps def then [(''updated_at'', DText now)] else [])"
  let ?t = "update_where (\<lambda>r. fr_id r = i) (set_columns ?sets) t"
  have "t' = ?t \<and> find_by_id_raw base64 def lx False i t' = Inr (Some d)"
  proof (cases "?sets = []")
    case True
    with assms sets show ?thesis unfolding update_inner_def Let_def
      by (auto simp: update_where_none result_simps)
  next
    case False
    with assms sets show ?thesis unfolding update_inner_def Let_def
      by (auto simp: result_simps split: if_split_asm)
  qed
  with sets that show thesis by blast
qed

lemma column_changed:
  "column (set_columns sets r) c \<noteq> column r c \<Longrightarrow> c \<in> fst ` set sets"
  by (cases "c = ''id''")
     (auto simp: column_def set_columns_def map_add_def split: option.splits if_splits dest!: map_of_SomeD intro: rev_image_eqI)

lemma updated_rows:
  assumes "update_inner env base64 now def lx skip i data t = Inr (t', d)"
  shows "list_all2 (\<lambda>r r'. fr_id r' = fr_id r \<and>
           (\<forall>c. column r' c \<noteq> column r c \<longrightarrow> fr_id r = i \<and>
              (c = ''updated_at'' \<and> ci_timestamps def \<or>
               (\<exists>leaf \<in> set (walk_leaf_fields (ci_fields def) [] False). c \<in> write_columns lx leaf \<and> written_by skip data leaf)))) t t'"
proof -
  obtain sets where sets: "collect_update_params env lx skip (ci_fields def) data = Inr sets"
    and t': "t' = update_where (\<lambda>r. fr_id r = i)
           (set_columns (sets @ (if ci_timestamps def then [(''updated_at'', DText now)] else []))) t"
    using assms by (rule update_rows)
  let ?sets = "sets @ (if ci_timestamps def then [(''updated_at'', DText now)] else [])"
  have changed: "c = ''updated_at'' \<and> ci_timestamps def \<or>
      (\<exists>leaf \<in> set (walk_leaf_fields (ci_fields def) [] False). c \<in> write_columns lx leaf \<and> written_by skip data leaf)"
    if "column (set_columns ?sets r) c \<noteq> column r c" for r c
    using column_changed [OF that] update_params_columns [OF sets, of c] by (auto split: if_splits)
  show ?thesis unfolding t' update_where_def list_all2_map2
    using changed by (intro list_all2_refl) simp
qed

text \<open>
  C36: An update changes nothing but the row it is for, and of that row only the time of the update and
  the columns, in the locale of the request, of fields its data holds or, in a full update, of
  checkboxes: what is stored in other locales and in fields that were not sent stays.
\<close>

theorem update_changes_only_given:
  assumes "update_inner env base64 now def lx skip i data t = Inr (t', d)"
  shows "list_all2 (\<lambda>r r'. fr_id r' = fr_id r \<and>
           (\<forall>c. column r' c \<noteq> column r c \<longrightarrow> fr_id r = i \<and>
              (c = ''updated_at'' \<and> ci_timestamps def \<or>
               (\<exists>leaf \<in> set (walk_leaf_fields (ci_fields def) [] False). c \<in> write_columns lx leaf \<and> written_by skip data leaf)))) t t'"
  using assms by (rule updated_rows)

section \<open>What a read shows\<close>

lemma raw_document_field:
  assumes "raw_document base64 def lx cols r = Inr d" "\<forall>ctx. lx = Some ctx \<longrightarrow> lx_mode ctx \<noteq> All"
    and "distinct (map fst cols)" "(k, cs) \<in> set cols" "k \<notin> {''id'', ''created_at'', ''updated_at''}"
  shows "map_of (doc_fields d) k = Some (db_to_json base64 (coalesce (map (column r) cs)))"
proof -
  let ?vals = "map (selected_value r) (filter (\<lambda>e. fst e \<noteq> ''id'') cols)"
  let ?shown = "filter (\<lambda>(n, v). n \<notin> {''id'', ''created_at'', ''updated_at''}) ?vals"
  have d: "doc_fields d = map (\<lambda>(n, v). (n, db_to_json base64 v)) ?shown"
    using assms(1,2)
    by (auto simp: raw_document_def Let_def locale_enabled_def row_to_document_def column_selected_def
        split: option.splits if_splits)
  have keys: "map fst ?vals = map fst (filter (\<lambda>e. fst e \<noteq> ''id'') cols)"
    by (simp add: selected_value_def o_def)
  have "distinct (map fst ?vals)"
    unfolding keys using assms(3) by (rule distinct_map_filter)
  then have "distinct (map fst ?shown)" by (rule distinct_map_filter)
  moreover have "(k, coalesce (map (column r) cs)) \<in> set ?shown"
    using assms(4,5) by (force simp: selected_value_def)
  ultimately have "map_of ?shown k = Some (coalesce (map (column r) cs))" by simp
  then show ?thesis unfolding d by (simp add: map_of_map)
qed

lemma walked_column_names:
  "(a, p, inh) \<in> set (walk_leaf_fields fds pre inherited) \<Longrightarrow> attrs_has_parent_column a
     \<Longrightarrow> prefixed_name p (fa_name a) \<in> set (collect_column_names fds pre)"
  "(a, p, inh) \<in> set (walk_leaf_tabs ts pre inherited) \<Longrightarrow> attrs_has_parent_column a
     \<Longrightarrow> prefixed_name p (fa_name a) \<in> set (collect_tab_names ts pre)"
proof (induction fds pre inherited and ts pre inherited rule: walk_leaf_fields_walk_leaf_tabs.induct)
qed (auto simp: leaf_columns_def Let_def split: field_type.splits)

text \<open>The column a field is read from first is the one it is written to.\<close>

lemma selected_write_column:
  assumes "select_columns def lx = Inr cols" "\<forall>ctx. lx = Some ctx \<longrightarrow> lx_mode ctx \<noteq> All"
    and "(a, pre, inh) \<in> set (walk_leaf_fields (ci_fields def) [] False)" "attrs_has_parent_column a"
    and "locale_write_column (prefixed_name pre (fa_name a)) a lx inh = Some col"
  shows "\<exists>cs. (prefixed_name pre (fa_name a), col # cs) \<in> set cols"
proof (cases "locale_enabled lx")
  case None
  then have "col = prefixed_name pre (fa_name a)"
    using assms(5) by (auto simp: locale_write_column_def locale_enabled_def split: option.splits if_splits)
  then show ?thesis
    using assms(1) None walked_column_names(1) [OF assms(3,4)]
    by (intro exI [of _ "[]"]) (auto simp: select_columns_def get_column_names_def)
next
  case (Some ctx)
  then have lx: "lx = Some ctx" and en: "is_enabled (lx_config ctx)"
    by (auto simp: locale_enabled_def split: option.splits if_splits)
  from assms(1) Some obtain cs where cs: "collect_all (leaf_select ctx) (walk_leaf_fields (ci_fields def) [] False) = Inr cs"
    by (auto simp: select_columns_def get_locale_select_columns_full_def bindE_Inr_iff)
  then have sub: "set cs \<subseteq> set cols"
    using assms(1) Some by (auto simp: select_columns_def get_locale_select_columns_full_def)
  from collect_all_Inr [OF cs assms(3)] obtain zs where zs: "leaf_select ctx (a, pre, inh) = Inr zs" "set zs \<subseteq> set cs" by blast
  have "\<exists>cs. (prefixed_name pre (fa_name a), col # cs) \<in> set zs"
    using zs(1) assms(2,4,5) en
    by (auto simp: leaf_select_def Let_def bindE_Inr_iff push_column_def add_locale_columns_def locale_write_column_def lx
        split: if_splits locale_mode.splits option.splits)
  with zs(2) sub show ?thesis by blast
qed

lemma update_stores:
  assumes "update_inner env base64 now def lx skip i data t = Inr (t', d)"
    and "collect_update_params env lx skip (ci_fields def) data = Inr sets" "distinct (map fst sets)"
    and leaf: "(a, pre, inh) \<in> set (walk_leaf_fields (ci_fields def) [] False)" "attrs_has_parent_column a"
      "\<not> (fa_type a = Date \<and> fa_timezone a)"
    and col: "locale_write_column (prefixed_name pre (fa_name a)) a lx inh = Some col" "col \<notin> {''id'', ''updated_at''}"
    and v: "map_of data (prefixed_name pre (fa_name a)) = Some v"
    and "r' \<in> set t'" "fr_id r' = i"
  shows "column r' col = coerce_json_value env (fa_type a) v"
proof -
  let ?sets = "sets @ (if ci_timestamps def then [(''updated_at'', DText now)] else [])"
  obtain sets' where "collect_update_params env lx skip (ci_fields def) data = Inr sets'"
    and "t' = update_where (\<lambda>r. fr_id r = i)
           (set_columns (sets' @ (if ci_timestamps def then [(''updated_at'', DText now)] else []))) t"
    using assms(1) by (rule update_rows)
  with assms(2) have "t' = update_where (\<lambda>r. fr_id r = i) (set_columns ?sets) t" by simp
  with \<open>r' \<in> set t'\<close> \<open>fr_id r' = i\<close> obtain r where r: "r' = set_columns ?sets r" by (auto simp: update_where_def)
  from collect_all_Inr [OF assms(2) [unfolded collect_update_params_def] leaf(1)]
  obtain zs where zs: "collect_leaf_update env lx skip data (a, pre, inh) = Inr zs" "set zs \<subseteq> set sets" by blast
  then have "(col, coerce_json_value env (fa_type a) v) \<in> set sets"
    using leaf(2,3) col(1) v by (auto simp: collect_leaf_update_def leaf_values_def Let_def split: if_splits)
  then have "map_of (rev sets) col = Some (coerce_json_value env (fa_type a) v)"
    using assms(3) by (intro map_of_is_SomeI) (simp_all add: rev_map [symmetric])
  with col(2) show ?thesis by (simp add: r column_set_columns)
qed


definition title_attrs :: field_attrs where
  "title_attrs = (new_attrs ''title'' Text)\<lparr>fa_localized := True\<rparr>"

definition posts_def :: auth_collection where
  "posts_def = \<lparr>ci_timestamps = True, ci_has_drafts = False, ci_fields = [FieldDefinition title_attrs [] [] []],
     ac_slug = ''posts'', ac_soft_delete = False, ac_auth = None\<rparr>"

definition in_german :: "locale_context" where
  "in_german = \<lparr>lx_mode = Single ''de'', lx_config = \<lparr>lc_default_locale = ''en'', lc_locales = [''en'', ''de''], lc_fallback = True\<rparr>\<rparr>"

definition posts_rows :: "find_row list" where
  "posts_rows = [\<lparr>fr_id = ''p1'', fr_cols = [(''title__en'', DText ''Hello''), (''title__de'', DNull)]\<rparr>]"

definition german_title :: document_fields where
  "german_title = [(''title'', JString ''Hallo'')]"

lemmas posts_defs =
  posts_def_def title_attrs_def in_german_def posts_rows_def german_title_def new_attrs_def attrs_has_parent_column_def
  is_enabled_def

lemma title_columns: "locale_column ''title'' ''de'' = Some ''title__de''" "locale_column ''title'' ''en'' = Some ''title__en''"
  by code_simp+

lemma posts_walk: "walk_leaf_fields (ci_fields posts_def) [] False = [(title_attrs, [], False)]"
  by (simp add: posts_defs)

lemma german_params:
  "collect_update_params plain_library (Some in_german) False (ci_fields posts_def) german_title = Inr [(''title__de'', DText ''Hallo'')]"
  unfolding collect_update_params_def posts_walk
  by (simp add: posts_defs collect_leaf_update_def leaf_values_def locale_write_column_def title_columns prefixed_name_def
      validate_no_null_byte_json_def validate_no_null_byte_def coerce_json_value_def coerce_value_def Let_def)

lemma german_columns:
  "select_columns posts_def (Some in_german) =
     Inr [(''id'', [''id'']), (''title'', [''title__de'', ''title__en'']), (''created_at'', [''created_at'']), (''updated_at'', [''updated_at''])]"
  unfolding select_columns_def get_locale_select_columns_full_def posts_walk
  by (simp add: posts_defs locale_enabled_def leaf_select_def push_column_def add_locale_columns_def title_columns
      prefixed_name_def Let_def)

definition german_rows :: "find_row list" where
  "german_rows = update_where (\<lambda>r. fr_id r = ''p1'') (set_columns [(''title__de'', DText ''Hallo''), (''updated_at'', DText ''now'')]) posts_rows"

lemma german_update:
  "\<exists>d. update_inner plain_library (\<lambda>b. b) ''now'' posts_def (Some in_german) False ''p1'' german_title posts_rows = Inr (german_rows, d)"
proof -
  have "\<exists>d. find_by_id_raw (\<lambda>b. b) posts_def (Some in_german) False ''p1'' german_rows = Inr (Some d)"
    unfolding find_by_id_raw_def german_columns
    by (simp add: german_rows_def posts_defs is_deleted_def raw_document_def locale_enabled_def Let_def)
  moreover have "ci_timestamps posts_def" "list_ex (\<lambda>r. fr_id r = ''p1'') posts_rows"
    by (simp_all add: posts_def_def posts_rows_def)
  ultimately show ?thesis
    by (auto simp: update_inner_def german_params german_rows_def [symmetric] found_document_def)
qed


theorem update_changes_only_given_witness:
  "\<exists>r d. update_inner plain_library (\<lambda>b. b) ''now'' posts_def (Some in_german) False ''p1'' german_title posts_rows = Inr ([r], d) \<and>
         column r ''title__en'' = DText ''Hello''"
proof -
  obtain d where d: "update_inner plain_library (\<lambda>b. b) ''now'' posts_def (Some in_german) False ''p1'' german_title posts_rows
      = Inr (german_rows, d)"
    using german_update by blast
  obtain r where r: "german_rows = [r]" by (simp add: german_rows_def posts_rows_def)
  have "write_columns (Some in_german) (title_attrs, [], False) = {''title__de''}"
    by (auto simp: write_columns_def posts_defs locale_write_column_def title_columns prefixed_name_def Let_def)
  with update_changes_only_given [OF d] have "column r ''title__en'' = column (hd posts_rows) ''title__en''"
    by (auto simp: r posts_walk posts_rows_def)
  then have "column r ''title__en'' = DText ''Hello''" by (simp add: posts_rows_def column_def)
  with d r show ?thesis by auto
qed

section \<open>All locales at once\<close>

text \<open>
  A read in all locales gathers a field's values by locale, but leaves the columns of a date's time
  zone as they are named in the table.
\<close>

definition when_def :: auth_collection where
  "when_def = posts_def\<lparr>ci_fields := [FieldDefinition ((new_attrs ''at'' Date)\<lparr>fa_localized := True, fa_timezone := True\<rparr>) [] [] []]\<rparr>"

lemma zone_columns_not_grouped:
  "group_locale_fields (lx_config in_german) (ci_fields when_def)
     [(''at__en'', JString ''e''), (''at__de'', JString ''d''), (''at_tz__en'', JString ''UTC''), (''at_tz__de'', JNull)] =
   Inr [(''at'', JObject [(''en'', JString ''e''), (''de'', JString ''d'')]), (''at_tz__en'', JString ''UTC''), (''at_tz__de'', JNull)]"
proof -
  have c: "locale_column ''at'' ''de'' = Some ''at__de''" "locale_column ''at'' ''en'' = Some ''at__en''" by code_simp+
  show ?thesis
    by (simp add: group_locale_fields_def when_def_def posts_defs group_leaf_def c prefixed_name_def Let_def json_remove_def json_put_def)
qed

end
