(* ===== verification/DocumentProperties.thy ===== *)
theory DocumentProperties
  imports DocumentService LocaleRead
begin

text \<open>
  What the document operations do to the store: drafts leave what is published alone, a published
  change leaves a version of itself, refused fields keep their columns, and without drafts nothing can be
  restored.
\<close>

section \<open>A version and its pruning\<close>

definition new_version :: "store_env \<Rightarrow> string \<Rightarrow> string \<Rightarrow> json_value \<Rightarrow> version_rows \<Rightarrow> version_row" where
  "new_version env i status snapshot t = snd (create_version (se_new_version env) i status snapshot t)"

lemma new_version_sel [simp]:
  "vr_id (new_version env i st sn t) = se_new_version env" "vr_parent (new_version env i st sn t) = i"
  "vr_status (new_version env i st sn t) = st" "vr_snapshot (new_version env i st sn t) = sn"
  "vr_version (new_version env i st sn t) = next_version_number i t"
  by (simp_all add: new_version_def create_version_def Let_def)

lemma pruned_version:
  assumes ok: "versions_ok (ds_versions s)" and fresh: "se_new_version env \<notin> vr_id ` set (ds_versions s)"
    and s': "s' = prune versions i (add_version env i st sn s)"
  shows "ds_rows s' = ds_rows s" "ds_joins s' = ds_joins s"
    and "versions_ok (ds_versions s')"
    and "find_latest_version i (ds_versions s') = Some (new_version env i st sn (ds_versions s))"
    and "q \<noteq> i \<Longrightarrow> versions_of q (ds_versions s') = versions_of q (ds_versions s)"
    and "versions = Some n \<Longrightarrow> 0 < n \<Longrightarrow> count_versions i (ds_versions s') \<le> int n"
proof -
  let ?t = "fst (create_version (se_new_version env) i st sn (ds_versions s))"
  let ?n = "case versions of Some n \<Rightarrow> n | None \<Rightarrow> 0"
  have t: "ds_versions s' = prune_versions i ?n ?t"
    unfolding s' by (simp add: prune_def add_version_def prune_versions_def split: option.split)
  show "ds_rows s' = ds_rows s" "ds_joins s' = ds_joins s"
    unfolding s' by (simp_all add: prune_def add_version_def split: option.split)
  have ok': "versions_ok ?t" using ok fresh by (rule create_version_ok)
  then show "versions_ok (ds_versions s')" unfolding t by (rule prune_versions_ok)
  have ids: "distinct (map vr_id ?t)" using ok' by (simp add: versions_ok_def)
  have newest: "find_latest_version i ?t = Some (new_version env i st sn (ds_versions s))"
    unfolding new_version_def by (rule find_latest_created)
  then obtain rest where first: "newest_first i ?t = new_version env i st sn (ds_versions s) # rest"
    unfolding latest_is_newest [OF ok'] by (auto split: list.splits)
  have kept: "newest_first i (prune_versions i ?n ?t) = (if ?n = 0 then newest_first i ?t else take ?n (newest_first i ?t))"
    using newest_first_prune [OF ids] by (simp add: prune_versions_def)
  then show "find_latest_version i (ds_versions s') = Some (new_version env i st sn (ds_versions s))"
    unfolding t latest_is_newest [OF prune_versions_ok [OF ok']] first by (cases ?n) simp_all
  show "versions_of q (ds_versions s') = versions_of q (ds_versions s)" if "q \<noteq> i"
    unfolding t using that versions_of_prune_other [of i q] versions_of_create(2) [of i q] by metis
  show "count_versions i (ds_versions s') \<le> int n" if "versions = Some n" "0 < n"
  proof -
    have "length (newest_first i (prune_versions i n ?t)) \<le> n" using kept that by simp
    then show ?thesis unfolding t using that by (simp add: count_versions_def newest_first_def)
  qed
qed

section \<open>Hooks that leave the store alone\<close>

definition quiet_hooks :: "write_hooks \<Rightarrow> bool" where
  "quiet_hooks hooks \<longleftrightarrow>
     (\<forall>x y. wh_before_validate hooks x = Inr y \<longrightarrow> snd y = snd x) \<and>
     (\<forall>x y. wh_before_change hooks x = Inr y \<longrightarrow> snd y = snd x) \<and>
     (\<forall>x s. wh_after_change hooks x = Inr s \<longrightarrow> s = snd x)"

lemma hook_step_Inr [result_simps]: "hook_step f x = Inr y \<longleftrightarrow> f x = Inr y"
  by (simp add: hook_step_def split: sum.split)

lemma quiet_before:
  assumes "quiet_hooks hooks" "run_before_write env hooks def exclude draft lx data s = Inr (d, s1)"
  shows "s1 = s"
  using assms
  by (fastforce simp: run_before_write_def quiet_hooks_def result_simps split: if_splits prod.splits)

lemma quiet_after: "quiet_hooks hooks \<Longrightarrow> run_after_change_hooks hooks doc s = Inr s' \<Longrightarrow> s' = s"
  by (fastforce simp: run_after_change_hooks_def quiet_hooks_def result_simps split: if_splits)

text \<open>An update that succeeds, step by step.\<close>

lemma update_steps:
  assumes "update_document_in_conn env hooks def i draft lx data s = Inr (s', d)" "quiet_hooks hooks"
  obtains kept doc where
      "run_before_write env hooks def (Some i) (draft \<and> ci_has_drafts def) lx
         (strip_denied_fields (field_write_denied hooks ''update'' (ci_fields def)) data) s = Inr (kept, s)"
    and "check_target env hooks def ''update'' i s = Inr ()"
    and "(if (draft \<and> ci_has_drafts def) \<and> sv_versions env \<noteq> None then persist_draft_version env def lx i kept s
          else persist_update_document env def lx i (to_value_map (ci_fields def) kept) s) = Inr (s', doc)"
    and "d = answer env hooks (ci_fields def) lx doc s'"
  using assms quiet_before [OF assms(2)] quiet_after [OF assms(2)]
  unfolding update_document_in_conn_def Let_def
  by (fastforce simp: result_simps split: prod.splits)

text \<open>
  C5: Saving a draft of a document changes no row and no join table, so what readers see stays, and
  adds one version to that document alone: the latest, with the status of a draft.
\<close>

theorem draft_leaves_published:
  assumes "update_document_in_conn env hooks def i True lx data s = Inr (s', d)"
    and "quiet_hooks hooks" "ci_has_drafts def" "sv_versions env \<noteq> None"
    and "versions_ok (ds_versions s)" "se_new_version (sv_store env) \<notin> vr_id ` set (ds_versions s)"
  shows "ds_rows s' = ds_rows s \<and> ds_joins s' = ds_joins s \<and>
    (\<exists>v. find_latest_version i (ds_versions s') = Some v \<and> vr_status v = ''draft''
       \<and> vr_version v = next_version_number i (ds_versions s)) \<and>
    (\<forall>q. q \<noteq> i \<longrightarrow> versions_of q (ds_versions s') = versions_of q (ds_versions s))"
proof -
  obtain kept doc where "persist_draft_version env def lx i kept s = Inr (s', doc)"
    by (rule update_steps [OF assms(1,2)]) (use assms(3,4) in simp)
  then obtain sn where s': "s' = prune (sv_versions env) i (add_version (sv_store env) i ''draft'' sn s)"
    by (auto simp: persist_draft_version_def save_draft_version_def Let_def result_simps)
  show ?thesis using pruned_version [OF assms(5,6) s'] by auto
qed

section \<open>Published changes\<close>

lemma status_set:
  assumes "set_status env def i status s = Inr s'"
  shows "ds_joins s' = ds_joins s" "ds_versions s' = ds_versions s" "ci_has_drafts def"
    and "ds_rows s' = update_where (\<lambda>r. fr_id r = i)
           (\<lambda>r. r\<lparr>fr_cols := (''updated_at'', DText (se_now env)) # (''_status'', DText status) # fr_cols r\<rparr>) (ds_rows s)"
  using assms by (auto simp: set_status_def set_document_status_def split: if_splits)

lemma find_update_id:
  "(\<And>r. fr_id (g r) = fr_id r) \<Longrightarrow>
     find (\<lambda>r. fr_id r = i) (update_where (\<lambda>r. fr_id r = i) g t) = map_option g (find (\<lambda>r. fr_id r = i) t)"
  by (induction t) auto

lemma status_read_back:
  assumes "set_status env def i status s = Inr s'" "find (\<lambda>r. fr_id r = i) (ds_rows s) \<noteq> None"
  shows "get_document_status def i (ds_rows s') = Some (Some status)"
  using assms status_set [OF assms(1)]
  by (auto simp: get_document_status_def find_update_id column_def)

lemma found_row: "find P xs = Some x \<Longrightarrow> x \<in> set xs \<and> P x"
  by (auto simp: find_Some_iff)

lemma raw_document_id: "raw_document base64 def lx cols r = Inr d \<Longrightarrow> doc_id d = fr_id r"
  by (auto simp: raw_document_def Let_def row_to_document_def result_simps split: option.splits if_splits)

lemma found_raw:
  assumes "find_by_id_raw base64 def lx b i t = Inr (Some d)"
  shows "doc_id d = i" "\<exists>r \<in> set t. fr_id r = i"
proof -
  from assms obtain cols r where r: "find (\<lambda>r. fr_id r = i \<and> (b \<or> \<not> is_deleted def r)) t = Some r"
    and d: "raw_document base64 def lx cols r = Inr d"
    unfolding find_by_id_raw_def bindE_Inr_iff
    by (cases "find (\<lambda>r. fr_id r = i \<and> (b \<or> \<not> is_deleted def r)) t") (auto simp: result_simps)
  show "doc_id d = i" "\<exists>r \<in> set t. fr_id r = i"
    using found_row [OF r] raw_document_id [OF d] by auto
qed

lemma update_finds:
  assumes "update_inner env base64 now def lx skip i data t = Inr (t', d)"
  shows "find (\<lambda>r. fr_id r = i) t' \<noteq> None" "doc_id d = i"
proof -
  have "find_by_id_raw base64 def lx False i t' = Inr (Some d)" using assms by (rule update_rows)
  then show "find (\<lambda>r. fr_id r = i) t' \<noteq> None" "doc_id d = i" using found_raw [of base64 def lx False i t' d] by (auto simp: find_None_iff)
qed

lemma lift_write_Inr [result_simps]: "lift_write r = Inr x \<longleftrightarrow> r = Inr x"
  by (simp add: lift_write_def split: sum.split)

lemma persist_update_steps:
  assumes "persist_update_with p env def lx i data s = Inr (s', doc)"
  obtains rows T s1 where
      "update_inner (write_env_of env) (se_base64 (sv_store env)) (se_now (sv_store env)) def lx p i data (ds_rows s) = Inr (rows, doc)"
    and "s1 = s\<lparr>ds_rows := rows, ds_joins := T\<rparr>" "doc_id doc = i"
    and "record_version env def ''published'' doc s1 = Inr s'"
proof -
  from assms obtain rows T s1 where
      u: "update_inner (write_env_of env) (se_base64 (sv_store env)) (se_now (sv_store env)) def lx p i data (ds_rows s) = Inr (rows, doc)"
    and s1: "s1 = s\<lparr>ds_rows := rows, ds_joins := T\<rparr>"
    and r: "record_version env def ''published'' doc s1 = Inr s'"
    by (auto simp: persist_update_with_def write_joins_def result_simps split: prod.splits option.splits)
  have "doc_id doc = i" using u by (rule update_finds)
  with u s1 r that show thesis by blast
qed

text \<open>
  C20: A published update of a versioned collection adds a version of what it stored: it is the latest
  of the document, has the status and the snapshot of the document written, and leaves the versions of
  other documents alone; no more versions stay than the cap, and with drafts the document is published.
\<close>

theorem publish_records_version:
  assumes "update_document_in_conn env hooks def i False lx data s = Inr (s', d)"
    and "quiet_hooks hooks" "sv_versions env = Some n"
    and "versions_ok (ds_versions s)" "se_new_version (sv_store env) \<notin> vr_id ` set (ds_versions s)"
  shows "(\<exists>doc v. d = answer env hooks (ci_fields def) lx doc s'
        \<and> find_latest_version i (ds_versions s') = Some v \<and> vr_status v = ''published''
        \<and> vr_snapshot v = build_snapshot (se_join (sv_store env)) (ds_joins s') (ci_fields def) doc) \<and>
    (\<forall>q. q \<noteq> i \<longrightarrow> versions_of q (ds_versions s') = versions_of q (ds_versions s)) \<and>
    (0 < n \<longrightarrow> count_versions i (ds_versions s') \<le> int n) \<and>
    (ci_has_drafts def \<longrightarrow> get_document_status def i (ds_rows s') = Some (Some ''published''))"
proof -
  obtain kept doc where "persist_update_with False env def lx i (to_value_map (ci_fields def) kept) s = Inr (s', doc)"
    and d: "d = answer env hooks (ci_fields def) lx doc s'"
    by (rule update_steps [OF assms(1,2)]) (simp add: persist_update_document_def)
  from this(1) obtain rows T s1 where
      u: "update_inner (write_env_of env) (se_base64 (sv_store env)) (se_now (sv_store env)) def lx False i
            (to_value_map (ci_fields def) kept) (ds_rows s) = Inr (rows, doc)"
    and s1: "s1 = s\<lparr>ds_rows := rows, ds_joins := T\<rparr>" "doc_id doc = i"
    and r: "record_version env def ''published'' doc s1 = Inr s'"
    by (rule persist_update_steps)
  from r assms(3) s1(2) obtain s2 where
      s2: "(if ci_has_drafts def then set_status (sv_store env) def i ''published'' s1 else Inr s1) = Inr s2"
    and s': "s' = prune (sv_versions env) i (add_version (sv_store env) i ''published''
               (build_snapshot (se_join (sv_store env)) (ds_joins s2) (ci_fields def) doc) s2)"
    by (auto simp: record_version_def create_version_snapshot_def result_simps)
  have v: "ds_versions s2 = ds_versions s" using s2 s1 by (auto split: if_splits dest: status_set(2))
  note new = pruned_version [OF _ _ s', unfolded v, OF assms(4,5)]
  have "\<exists>doc v. d = answer env hooks (ci_fields def) lx doc s'
      \<and> find_latest_version i (ds_versions s') = Some v \<and> vr_status v = ''published''
      \<and> vr_snapshot v = build_snapshot (se_join (sv_store env)) (ds_joins s') (ci_fields def) doc"
    using d new(2,4) by (intro exI [of _ doc]) simp
  moreover have "get_document_status def i (ds_rows s') = Some (Some ''published'')" if "ci_has_drafts def"
    using status_read_back [of "sv_store env" def i "''published''" s1 s2] s2 that update_finds(1) [OF u] new(1) s1(1) by simp
  ultimately show ?thesis using new(5) new(6) [OF assms(3)] by blast
qed

section \<open>Refused fields\<close>

text \<open>Hooks that, besides, add no keys to the data and put no objects under groups.\<close>

definition tame_hook :: "field_definition list \<Rightarrow> (document_fields \<times> doc_store \<Rightarrow> string + document_fields \<times> doc_store) \<Rightarrow> bool" where
  "tame_hook fds f \<longleftrightarrow>
     (\<forall>x y. f x = Inr y \<longrightarrow> fst ` set (fst y) \<subseteq> fst ` set (fst x) \<and> (groups_flat fds (fst x) \<longrightarrow> groups_flat fds (fst y)))"

lemma tame_before:
  assumes "tame_hook (ci_fields def) (wh_before_validate hooks)" "tame_hook (ci_fields def) (wh_before_change hooks)"
    and "run_before_write env hooks def exclude draft lx data s = Inr (d, s1)"
  shows "fst ` set d \<subseteq> fst ` set data" "groups_flat (ci_fields def) data \<Longrightarrow> groups_flat (ci_fields def) d"
proof -
  have "fst ` set d \<subseteq> fst ` set data \<and> (groups_flat (ci_fields def) data \<longrightarrow> groups_flat (ci_fields def) d)"
  proof (cases "wh_enabled hooks")
    case True
    with assms(3) obtain d1 s2 where "wh_before_validate hooks (data, s) = Inr (d1, s2)" "wh_before_change hooks (d1, s2) = Inr (d, s1)"
      by (auto simp: run_before_write_def result_simps split: prod.splits)
    with assms(1,2) show ?thesis unfolding tame_hook_def by (metis (no_types, lifting) dual_order.trans fst_conv)
  next
    case False
    with assms(3) show ?thesis by (auto simp: run_before_write_def result_simps)
  qed
  then show "fst ` set d \<subseteq> fst ` set data" "groups_flat (ci_fields def) data \<Longrightarrow> groups_flat (ci_fields def) d" by simp_all
qed

lemma to_value_map_absent: "groups_flat fds data \<Longrightarrow> n \<notin> fst ` set data \<Longrightarrow> map_of (to_value_map fds data) n = None"
  by (simp add: to_value_map_flat map_of_eq_None_iff)

lemma status_columns:
  assumes "set_status env def i status s = Inr s'" "c \<notin> {''updated_at'', ''_status''}"
  shows "list_all2 (\<lambda>r r'. fr_id r' = fr_id r \<and> column r' c = column r c) (ds_rows s) (ds_rows s')"
  unfolding status_set(4) [OF assms(1)] update_where_def list_all2_map2
  using assms(2) by (intro list_all2_refl) (simp add: column_def)

lemma prune_add_rows: "ds_rows (prune v i (add_version e j st sn s)) = ds_rows s"
  by (simp add: prune_def add_version_def split: option.split)

lemma record_version_columns:
  assumes "record_version env def status doc s = Inr s'" "c \<notin> {''updated_at'', ''_status''}"
  shows "list_all2 (\<lambda>r r'. fr_id r' = fr_id r \<and> column r' c = column r c) (ds_rows s) (ds_rows s')"
proof -
  have refl: "list_all2 (\<lambda>r r'. fr_id r' = fr_id r \<and> column r' c = column r c) rs rs" for rs by (rule list_all2_refl) simp
  have "ds_rows s' = ds_rows s \<or> (\<exists>s2. set_status (sv_store env) def (doc_id doc) status s = Inr s2 \<and> ds_rows s' = ds_rows s2)"
    using assms(1)
    by (cases "sv_versions env = None"; cases "ci_has_drafts def")
      (auto simp: record_version_def create_version_snapshot_def result_simps prune_add_rows)
  then show ?thesis
  proof
    assume "ds_rows s' = ds_rows s"
    then show ?thesis by (simp only: refl)
  next
    assume "\<exists>s2. set_status (sv_store env) def (doc_id doc) status s = Inr s2 \<and> ds_rows s' = ds_rows s2"
    then obtain s2 where s2: "set_status (sv_store env) def (doc_id doc) status s = Inr s2" and "ds_rows s' = ds_rows s2" by blast
    from this(2) show ?thesis using status_columns [OF s2 assms(2)] by simp
  qed
qed


section \<open>Restoring\<close>

text \<open>Without drafts there is no status to set, so nothing can be restored or unpublished.\<close>

lemma restore_needs_drafts: "\<not> ci_has_drafts def \<Longrightarrow> \<nexists>r. restore_version env lc def i snapshot status s = Inr r"
  by (auto simp: restore_version_def set_status_def set_document_status_def result_simps split: json_value.splits)

lemma unpublish_needs_drafts: "\<not> ci_has_drafts def \<Longrightarrow> \<nexists>s'. persist_unpublish env def i s = Inr s'"
  by (auto simp: persist_unpublish_def unpublish_with_snapshot_def set_status_def set_document_status_def result_simps)

text \<open>
  C40: Only with drafts can a version be restored or a document unpublished: in a versioned collection
  without them both operations end in an error, for every document, version and user.
\<close>

theorem restore_fails_without_drafts:
  assumes "\<not> ci_has_drafts def"
  shows "(\<nexists>r. restore_collection_version_core env hooks def i version_id s = Inr r)
    \<and> (\<nexists>r. unpublish_document_in_conn env hooks def i s = Inr r)"
  using restore_needs_drafts [OF assms] unpublish_needs_drafts [OF assms]
  by (auto simp: restore_collection_version_core_def unpublish_document_in_conn_def Let_def result_simps
      split: option.splits prod.splits)

section \<open>A collection of pages\<close>

text \<open>Pages have a title, and a note that only an administrator may change.\<close>

definition note_attrs :: field_attrs where
  "note_attrs = (new_attrs ''note'' Text)\<lparr>fa_access_update := Some ''admin''\<rparr>"

definition pages_def :: "bool \<Rightarrow> auth_collection" where
  "pages_def drafts = \<lparr>ci_timestamps = True, ci_has_drafts = drafts,
     ci_fields = [FieldDefinition (new_attrs ''title'' Text) [] [] [], FieldDefinition note_attrs [] [] []],
     ac_slug = ''pages'', ac_soft_delete = False, ac_auth = None\<rparr>"

definition pages_env :: service_env where
  "pages_env =
     \<lparr>sv_store = \<lparr>se_join = JoinTables.plain_env, se_base64 = \<lambda>b. b, se_now = ''now'', se_new_version = ''v2''\<rparr>,
      sv_versions = Some 1, sv_locales = \<lparr>lc_default_locale = ''en'', lc_locales = [], lc_fallback = False\<rparr>, sv_new_id = ''p2'',
      sv_dates = no_dates, sv_num_text = \<lambda>v. [], sv_json_values = \<lambda>js e r. [],
      sv_validation = \<lparr>ve_parse_json = \<lambda>s. None, ve_display = \<lambda>v. [], ve_dates = no_dates, ve_validate = \<lambda>f v d c n. Inr None\<rparr>,
      sv_nodes = None\<rparr>"

definition pages_hooks :: write_hooks where
  "pages_hooks =
     \<lparr>wh_enabled = True, wh_override = False, wh_access = \<lambda>op. Inr Allowed,
      wh_fields = \<lparr>av_available = True, av_check = no_admin\<rparr>,
      wh_before_validate = Inr, wh_before_change = Inr, wh_after_change = \<lambda>x. Inr (snd x)\<rparr>"

definition pages_store :: doc_store where
  "pages_store =
     \<lparr>ds_rows = [\<lparr>fr_id = ''p1'', fr_cols = [(''title'', DText ''Old''), (''note'', DText ''keep''), (''_status'', DText ''draft'')]\<rparr>],
      ds_joins = \<lambda>key. [],
      ds_versions = [\<lparr>vr_id = ''v1'', vr_parent = ''p1'', vr_version = 1, vr_status = ''draft'', vr_latest = True, vr_snapshot = JNull\<rparr>]\<rparr>"

definition pages_data :: document_fields where
  "pages_data = [(''title'', JString ''New''), (''note'', JString ''lost'')]"

lemma pages_saved:
  "\<not> isl (update_document_in_conn pages_env pages_hooks (pages_def True) ''p1'' True None pages_data pages_store)"
  by code_simp

lemma pages_published:
  "\<not> isl (update_document_in_conn pages_env pages_hooks (pages_def True) ''p1'' False None pages_data pages_store)"
  by code_simp

lemma not_isl_ex: "\<not> isl r \<Longrightarrow> \<exists>a b. r = Inr (a, b)"
  by (cases r) auto

lemma pages_assumptions:
  "quiet_hooks pages_hooks" "tame_hook fds (wh_before_validate pages_hooks)" "tame_hook fds (wh_before_change pages_hooks)"
  "sv_versions pages_env = Some 1" "versions_ok (ds_versions pages_store)"
  "se_new_version (sv_store pages_env) \<notin> vr_id ` set (ds_versions pages_store)"
  by (simp_all add: quiet_hooks_def tame_hook_def pages_hooks_def pages_env_def pages_store_def versions_ok_def)

theorem draft_leaves_published_witness:
  "\<exists>s' d v. update_document_in_conn pages_env pages_hooks (pages_def True) ''p1'' True None pages_data pages_store = Inr (s', d)
     \<and> ds_rows s' = ds_rows pages_store \<and> find_latest_version ''p1'' (ds_versions s') = Some v \<and> vr_status v = ''draft''"
proof -
  obtain s' d where u: "update_document_in_conn pages_env pages_hooks (pages_def True) ''p1'' True None pages_data pages_store = Inr (s', d)"
    using not_isl_ex [OF pages_saved] by blast
  have "ci_has_drafts (pages_def True)" "sv_versions pages_env \<noteq> None" by (simp_all add: pages_def_def pages_assumptions)
  from draft_leaves_published [OF u pages_assumptions(1) this pages_assumptions(5,6)] u show ?thesis by blast
qed

theorem publish_records_version_witness:
  "\<exists>s' d v. update_document_in_conn pages_env pages_hooks (pages_def True) ''p1'' False None pages_data pages_store = Inr (s', d)
     \<and> find_latest_version ''p1'' (ds_versions s') = Some v \<and> vr_status v = ''published''
     \<and> count_versions ''p1'' (ds_versions s') \<le> 1
     \<and> get_document_status (pages_def True) ''p1'' (ds_rows s') = Some (Some ''published'')"
proof -
  obtain s' d where u: "update_document_in_conn pages_env pages_hooks (pages_def True) ''p1'' False None pages_data pages_store = Inr (s', d)"
    using not_isl_ex [OF pages_published] by blast
  have "ci_has_drafts (pages_def True)" by (simp add: pages_def_def)
  with publish_records_version [OF u pages_assumptions(1,4,5,6)] u show ?thesis by auto
qed

lemma pages_walk:
  "walk_leaf_fields (ci_fields (pages_def b)) [] False = [(new_attrs ''title'' Text, [], False), (note_attrs, [], False)]"
  by (simp add: pages_def_def note_attrs_def new_attrs_def attrs_has_parent_column_def)


theorem restore_fails_without_drafts_witness:
  "(\<nexists>r. restore_collection_version_core pages_env pages_hooks (pages_def False) ''p1'' ''v1'' pages_store = Inr r)
   \<and> (\<nexists>r. unpublish_document_in_conn pages_env pages_hooks (pages_def False) ''p1'' pages_store = Inr r)"
  by (rule restore_fails_without_drafts) (simp add: pages_def_def)

end
