(* ===== verification/RestoreProperties.thy ===== *)
theory RestoreProperties
  imports DocumentProperties
begin

text \<open>
  Restoring a version (restore_collection_version_core of src/src/service/versions/restore.rs): what the
  snapshot holds is what the row holds afterwards, and the restored version is the latest.
\<close>

section \<open>The data of a snapshot without groups\<close>

fun no_groups :: "field_definition list \<Rightarrow> bool" and no_tab_groups :: "field_tab list \<Rightarrow> bool" where
  "no_groups [] = True"
| "no_groups (FieldDefinition a sub tabs blocks # fs) \<longleftrightarrow>
     fa_type a \<noteq> Group \<and> (fa_type a = Row \<or> fa_type a = Collapsible \<longrightarrow> no_groups sub) \<and>
     (fa_type a = Tabs \<longrightarrow> no_tab_groups tabs) \<and> no_groups fs"
| "no_tab_groups [] = True"
| "no_tab_groups (FieldTab l sub # ts) \<longleftrightarrow> no_groups sub \<and> no_tab_groups ts"

lemma set_json_put: "set (json_put k v ms) \<subseteq> insert (k, v) (set ms)" "fst ` set (json_put k v ms) = insert k (fst ` set ms)"
  by (auto simp: json_put_def image_iff)

lemma set_extend_data:
  "set (extend_data data kvs) \<subseteq> set data \<union> set kvs" "fst ` set (extend_data data kvs) = fst ` set data \<union> fst ` set kvs"
proof (induction kvs arbitrary: data)
  case (Cons kv kvs)
  case 1 show ?case using Cons(1) [of "json_put (fst kv) (snd kv) data"] set_json_put(1) [of "fst kv" "snd kv" data]
    by (auto simp: extend_data_def split_beta)
  case 2 show ?case using Cons(2) [of "json_put (fst kv) (snd kv) data"] set_json_put(2) [of "fst kv" "snd kv" data]
    by (auto simp: extend_data_def split_beta)
qed (simp_all add: extend_data_def)

text \<open>Everything gathered is a value of the snapshot under its own name.\<close>

definition from_snapshot :: "document_fields \<Rightarrow> document_fields \<Rightarrow> bool" where
  "from_snapshot obj data \<longleftrightarrow> (\<forall>(k, v) \<in> set data. map_of obj k = Some v)"

lemma from_snapshot_simps [simp]:
  "from_snapshot obj []"
  "from_snapshot obj data \<Longrightarrow> map_of obj k = Some v \<Longrightarrow> from_snapshot obj (json_put k v data)"
  "from_snapshot obj data \<Longrightarrow> from_snapshot obj kvs \<Longrightarrow> from_snapshot obj (extend_data data kvs)"
  using set_json_put(1) [of k v data] set_extend_data(1) [of data kvs] by (fastforce simp: from_snapshot_def)+

lemma first_of_same [simp]: "first_of obj k k = map_of obj k"
  by (simp add: first_of_def split: option.split)

lemma put_scalar_from: "from_snapshot obj data \<Longrightarrow> from_snapshot obj (put_scalar k (map_of obj k) data)"
  by (simp add: put_scalar_def split: option.split)

lemma extract_leaf_from: "from_snapshot obj data \<Longrightarrow> from_snapshot obj (extract_leaf obj False [] inherited a data)"
  by (simp add: extract_leaf_def put_scalar_from prefixed_name_def Let_def)

lemma extract_from:
  "no_groups fds \<Longrightarrow> from_snapshot obj data \<Longrightarrow> from_snapshot obj (extract_snapshot_recursive obj fds False [] inherited data)"
  "no_tab_groups ts \<Longrightarrow> from_snapshot obj data \<Longrightarrow> from_snapshot obj (extract_snapshot_tabs obj ts False [] inherited data)"
proof (induction fds and ts arbitrary: data inherited and data inherited rule: no_groups_no_tab_groups.induct)
qed (auto simp: extract_leaf_from)

lemma put_scalar_keys: "fst ` set data \<subseteq> fst ` set (put_scalar k v data)"
  using set_json_put(2) by (auto simp: put_scalar_def split: option.split)

lemma extract_leaf_keys:
  "fst ` set data \<subseteq> fst ` set (extract_leaf obj False [] inherited a data)"
  "attrs_has_parent_column a \<Longrightarrow> map_of obj (fa_name a) = Some w \<Longrightarrow> is_scalar_snapshot_value w
     \<Longrightarrow> fa_name a \<in> fst ` set (extract_leaf obj False [] inherited a data)"
proof -
  have put: "fst ` set data \<subseteq> fst ` set (put_scalar k' v' (put_scalar k v data))" for k v k' v'
    using put_scalar_keys by (rule subset_trans) (rule put_scalar_keys)
  then show "fst ` set data \<subseteq> fst ` set (extract_leaf obj False [] inherited a data)"
    by (simp add: extract_leaf_def put_scalar_keys Let_def)
  assume "attrs_has_parent_column a" "map_of obj (fa_name a) = Some w" "is_scalar_snapshot_value w"
  then show "fa_name a \<in> fst ` set (extract_leaf obj False [] inherited a data)"
    using set_json_put(2) [of "fa_name a" w data] put_scalar_keys
    by (fastforce simp: extract_leaf_def prefixed_name_def put_scalar_def [of "fa_name a"] Let_def)
qed

text \<open>What one field adds.\<close>

definition extract_field ::
  "document_fields \<Rightarrow> bool \<Rightarrow> field_attrs \<Rightarrow> field_definition list \<Rightarrow> field_tab list \<Rightarrow> document_fields \<Rightarrow> document_fields" where
  "extract_field obj inherited a sub tabs data =
     (if fa_type a = Row \<or> fa_type a = Collapsible then extend_data data (extract_snapshot_recursive obj sub False [] inherited [])
      else if fa_type a = Tabs then extract_snapshot_tabs obj tabs False [] inherited data
      else extract_leaf obj False [] inherited a data)"

lemma extract_step:
  "fa_type a \<noteq> Group \<Longrightarrow> extract_snapshot_recursive obj (FieldDefinition a sub tabs blocks # fs) False [] inherited data =
     extract_snapshot_recursive obj fs False [] inherited (extract_field obj inherited a sub tabs data)"
  by (simp add: extract_field_def)

lemma extract_keys:
  "no_groups fds \<Longrightarrow> fst ` set data \<subseteq> fst ` set (extract_snapshot_recursive obj fds False [] inherited data)"
  "no_tab_groups ts \<Longrightarrow> fst ` set data \<subseteq> fst ` set (extract_snapshot_tabs obj ts False [] inherited data)"
proof (induction fds and ts arbitrary: data inherited and data inherited rule: no_groups_no_tab_groups.induct)
  case (2 a sub tabs blocks fs data inherited)
  have "fst ` set data \<subseteq> fst ` set (extract_field obj inherited a sub tabs data)"
    using "2.prems" "2.IH"(2) extract_leaf_keys(1) [of data obj inherited a]
    by (simp add: extract_field_def set_extend_data(2))
  also have "\<dots> \<subseteq> fst ` set (extract_snapshot_recursive obj fs False [] inherited (extract_field obj inherited a sub tabs data))"
    using "2.prems" by (intro "2.IH"(3)) simp_all
  finally show ?case using "2.prems" by (simp add: extract_step del: extract_snapshot_recursive.simps)
next
  case (4 l sub ts data inherited)
  have "fst ` set data \<subseteq> fst ` set (extend_data data (extract_snapshot_recursive obj sub False [] inherited []))"
    by (simp add: set_extend_data(2))
  also have "\<dots> \<subseteq> fst ` set (extract_snapshot_tabs obj ts False [] inherited
      (extend_data data (extract_snapshot_recursive obj sub False [] inherited [])))"
    using "4.prems" by (intro "4.IH"(2)) simp_all
  finally show ?case by simp
qed simp_all

lemma extract_has_leaf:
  "no_groups fds \<Longrightarrow> (a, pre, inh) \<in> set (walk_leaf_fields fds [] inherited) \<Longrightarrow> attrs_has_parent_column a
     \<Longrightarrow> map_of obj (fa_name a) = Some w \<Longrightarrow> is_scalar_snapshot_value w
     \<Longrightarrow> fa_name a \<in> fst ` set (extract_snapshot_recursive obj fds False [] inherited data)"
  "no_tab_groups ts \<Longrightarrow> (a, pre, inh) \<in> set (walk_leaf_tabs ts [] inherited) \<Longrightarrow> attrs_has_parent_column a
     \<Longrightarrow> map_of obj (fa_name a) = Some w \<Longrightarrow> is_scalar_snapshot_value w
     \<Longrightarrow> fa_name a \<in> fst ` set (extract_snapshot_tabs obj ts False [] inherited data)"
proof (induction fds and ts arbitrary: data inherited and data inherited rule: no_groups_no_tab_groups.induct)
  case (2 b sub tabs blocks fs data inherited)
  show ?case
  proof (cases "(a, pre, inh) \<in> set (walk_leaf_fields fs [] inherited)")
    case True
    then show ?thesis using "2.prems" "2.IH"(3) by (simp add: extract_step del: extract_snapshot_recursive.simps)
  next
    case False
    then have "fa_name a \<in> fst ` set (extract_field obj inherited b sub tabs data)"
      using "2.prems" "2.IH"(1,2) extract_leaf_keys(2) [where data = data and inherited = inherited]
      by (cases "fa_type b") (auto simp: extract_field_def set_extend_data(2))
    then show ?thesis
      using "2.prems" extract_keys(1) [of fs "extract_field obj inherited b sub tabs data" obj inherited]
      by (simp add: extract_step subsetD del: extract_snapshot_recursive.simps)
  qed
next
  case (4 l sub ts data inherited)
  show ?case
  proof (cases "(a, pre, inh) \<in> set (walk_leaf_tabs ts [] inherited)")
    case True
    then show ?thesis using "4.prems" "4.IH"(2) by simp
  next
    case False
    then have "fa_name a \<in> fst ` set (extend_data data (extract_snapshot_recursive obj sub False [] inherited []))"
      using "4.prems" "4.IH"(1) by (simp add: set_extend_data(2))
    then show ?thesis
      using "4.prems" extract_keys(2) [of ts "extend_data data (extract_snapshot_recursive obj sub False [] inherited [])" obj inherited]
      by auto
  qed
qed simp_all

lemma extracted_value:
  assumes "no_groups fds" "(a, pre, inh) \<in> set (walk_leaf_fields fds [] False)" "attrs_has_parent_column a"
    and "map_of obj (fa_name a) = Some w" "is_scalar_snapshot_value w"
  shows "map_of (extract_snapshot_data obj fds False) (fa_name a) = Some w"
proof -
  let ?data = "extract_snapshot_recursive obj fds False [] False []"
  have "fa_name a \<in> fst ` set ?data" using assms by (rule extract_has_leaf)
  then obtain v where v: "map_of ?data (fa_name a) = Some v" using map_of_eq_None_iff [of ?data "fa_name a"] by blast
  then have "(fa_name a, v) \<in> set ?data" by (rule map_of_SomeD)
  moreover have "from_snapshot obj ?data" using assms(1) by (intro extract_from) simp_all
  ultimately have "map_of obj (fa_name a) = Some v" unfolding from_snapshot_def by blast
  with v assms(4) show ?thesis by (simp add: extract_snapshot_data_def)
qed

lemma no_groups_prefix:
  "no_groups fds \<Longrightarrow> (a, p, inh) \<in> set (walk_leaf_fields fds pre inherited) \<Longrightarrow> p = pre"
  "no_tab_groups ts \<Longrightarrow> (a, p, inh) \<in> set (walk_leaf_tabs ts pre inherited) \<Longrightarrow> p = pre"
proof (induction fds and ts rule: no_groups_no_tab_groups.induct)
qed (auto split: field_type.splits)

section \<open>What a restore leaves\<close>

lemma restore_steps:
  assumes "restore_version env lc def i (JObject obj) status s = Inr (s', d)" "\<not> is_enabled lc"
  obtains rows s1 s2 where
      "update_inner (je_write (se_join env)) (se_base64 env) (se_now env) def None False i
         (extract_snapshot_data obj (ci_fields def) False) (ds_rows s) = Inr (rows, d)"
    and "ds_rows s1 = rows" "set_status env def i status s1 = Inr s2"
    and "s' = add_version env i status (JObject obj) s2"
proof -
  from assms obtain rows s1 s2 where
      u: "update_inner (je_write (se_join env)) (se_base64 env) (se_now env) def None False i
            (extract_snapshot_data obj (ci_fields def) False) (ds_rows s) = Inr (rows, d)"
    and j: "restore_locale_and_join_data env lc (ci_fields def) i obj (s\<lparr>ds_rows := rows\<rparr>) = Inr s1"
    and r: "set_status env def i status s1 = Inr s2" "s' = add_version env i status (JObject obj) s2"
    by (auto simp: restore_version_def default_locale_ctx_def result_simps)
  have "ds_rows s1 = rows"
    using j assms(2) by (auto simp: restore_locale_and_join_data_def Let_def result_simps split: if_splits option.splits)
  with u r that show thesis by blast
qed

lemma restored_column:
  assumes "restore_version env lc def i (JObject obj) status s = Inr (s', d)" "\<not> is_enabled lc"
    and "no_groups (ci_fields def)" "(a, pre, inh) \<in> set (walk_leaf_fields (ci_fields def) [] False)"
      "attrs_has_parent_column a" "\<not> (fa_type a = Date \<and> fa_timezone a)"
    and "collect_update_params (je_write (se_join env)) None False (ci_fields def)
           (extract_snapshot_data obj (ci_fields def) False) = Inr sets" "distinct (map fst sets)"
    and "fa_name a \<notin> {''id'', ''updated_at'', ''_status''}"
    and "map_of obj (fa_name a) = Some w" "is_scalar_snapshot_value w"
  shows "\<exists>r. find (\<lambda>r. fr_id r = i) (ds_rows s') = Some r
           \<and> column r (fa_name a) = coerce_json_value (je_write (se_join env)) (fa_type a) w"
proof -
  obtain rows s1 s2 where
      u: "update_inner (je_write (se_join env)) (se_base64 env) (se_now env) def None False i
            (extract_snapshot_data obj (ci_fields def) False) (ds_rows s) = Inr (rows, d)"
    and s: "ds_rows s1 = rows" "set_status env def i status s1 = Inr s2" "s' = add_version env i status (JObject obj) s2"
    using assms(1,2) by (rule restore_steps)
  obtain r where r: "find (\<lambda>r. fr_id r = i) rows = Some r" using update_finds(1) [OF u] by blast
  have key: "prefixed_name pre (fa_name a) = fa_name a"
    using no_groups_prefix(1) [OF assms(3,4)] by (simp add: prefixed_name_def)
  have "column r (fa_name a) = coerce_json_value (je_write (se_join env)) (fa_type a) w"
  proof (rule update_stores [OF u assms(7,8,4,5,6)])
    show "locale_write_column (prefixed_name pre (fa_name a)) a None inh = Some (fa_name a)"
      by (simp add: key locale_write_column_def)
    show "map_of (extract_snapshot_data obj (ci_fields def) False) (prefixed_name pre (fa_name a)) = Some w"
      unfolding key using assms(3,4,5,10,11) by (rule extracted_value)
    show "r \<in> set rows" "fr_id r = i" using found_row [OF r] by simp_all
  qed (use assms(9) in simp)
  moreover obtain r' where "find (\<lambda>r. fr_id r = i) (ds_rows s') = Some r'" "column r' (fa_name a) = column r (fa_name a)"
    using r s(1,3) assms(9) by (auto simp: status_set(4) [OF s(2)] add_version_def find_update_id column_def)
  ultimately show ?thesis by auto
qed


section \<open>A restored page\<close>

text \<open>A version of page p1, and one of another page.\<close>

definition history_store :: doc_store where
  "history_store = pages_store\<lparr>ds_versions :=
     [\<lparr>vr_id = ''v1'', vr_parent = ''p1'', vr_version = 1, vr_status = ''published'', vr_latest = True,
       vr_snapshot = JObject [(''title'', JString ''First''), (''note'', JNull)]\<rparr>,
      \<lparr>vr_id = ''v9'', vr_parent = ''p9'', vr_version = 1, vr_status = ''published'', vr_latest = True,
       vr_snapshot = JObject [(''title'', JString ''Ninth'')]\<rparr>]\<rparr>"

lemma page_restored:
  "\<not> isl (restore_collection_version_core pages_env pages_hooks (pages_def True) ''p1'' ''v1'' history_store)"
  by code_simp


text \<open>A version is found by its id alone, so one document can be given the content of another.\<close>

lemma restores_other_document:
  "map_option (\<lambda>r. column r ''title'')
     (case restore_collection_version_core pages_env pages_hooks (pages_def True) ''p1'' ''v9'' history_store of
        Inl e \<Rightarrow> None | Inr (s', d) \<Rightarrow> find (\<lambda>r. fr_id r = ''p1'') (ds_rows s')) = Some (DText ''Ninth'')"
  by code_simp

end
