(* ===== verification/Populate.thy ===== *)
theory Populate
  imports AccessConstraints Snapshots
begin

text \<open>
  Population of a document (src/src/db/query/populate/, the path of a single document): references are
  replaced by the documents they name, to a depth, with a set of visited documents against cycles and
  a cache of populated documents.  Concurrent loads of the same document are one load; here there is
  one request at a time.
\<close>

section \<open>The cache\<close>

text \<open>The backends in core/cache/; a document reads back from its JSON as it was.\<close>

datatype cache = NoneCache | MemoryCache nat "(string \<times> document) list"

definition cache_get :: "cache \<Rightarrow> string \<Rightarrow> document option" where
  "cache_get c k = (case c of NoneCache \<Rightarrow> None | MemoryCache n es \<Rightarrow> map_of es k)"

definition cache_set :: "cache \<Rightarrow> string \<Rightarrow> document \<Rightarrow> cache" where
  "cache_set c k d =
     (case c of
        NoneCache \<Rightarrow> NoneCache
      | MemoryCache n es \<Rightarrow>
          if length es < n \<or> map_of es k \<noteq> None then MemoryCache n ((k, d) # filter (\<lambda>(k', d'). k' \<noteq> k) es) else c)"

definition locale_cache_key :: "locale_context option \<Rightarrow> string option" where
  "locale_cache_key lx =
     map_option (\<lambda>ctx. case lx_mode ctx of Single l \<Rightarrow> l | Default \<Rightarrow> ''_default_'' | All \<Rightarrow> ''_all_'') lx"

definition populate_cache_key :: "string \<Rightarrow> string \<Rightarrow> string option \<Rightarrow> string" where
  "populate_cache_key collection i loc =
     ''populate:'' @ collection @ '':'' @ i @ (case loc of None \<Rightarrow> [] | Some l \<Rightarrow> '':'' @ l)"

datatype cache_or_fetch = Hit document | Fresh "document option"

definition cache_or_fetch_doc :: "cache \<Rightarrow> string \<Rightarrow> document option \<Rightarrow> cache_or_fetch \<times> cache" where
  "cache_or_fetch_doc c k fetched =
     (case cache_get c k of
        Some d \<Rightarrow> (Hit d, c)
      | None \<Rightarrow> (Fresh fetched, case fetched of None \<Rightarrow> c | Some d \<Rightarrow> cache_set c k d))"

section \<open>References and what replaces them\<close>

definition parse_poly_ref :: "string \<Rightarrow> (string \<times> string) option" where
  "parse_poly_ref s =
     (case split_once (CHR ''/'') s of
        None \<Rightarrow> None
      | Some (col, i) \<Rightarrow> if col = [] \<or> i = [] then None else Some (col, i))"

text \<open>A field of the document that is named like a part of the envelope takes its place.\<close>

definition document_to_json :: "document \<Rightarrow> string \<Rightarrow> json_value" where
  "document_to_json d collection =
     JObject (with_timestamps d (extend_data [(''id'', JString (doc_id d)), (''collection'', JString collection)] (doc_fields d)))"

text \<open>The sizes of an upload (core/upload/metadata.rs).\<close>

record upload_config =
  up_enabled :: bool
  up_sizes :: "string list"
  up_webp :: bool
  up_avif :: bool

definition string_member :: "document_fields \<Rightarrow> string \<Rightarrow> string option" where
  "string_member ms k = (case map_of ms k of Some (JString s) \<Rightarrow> Some s | _ \<Rightarrow> None)"

definition u32_member :: "document_fields \<Rightarrow> string \<Rightarrow> (string \<times> json_value) list" where
  "u32_member ms k = (case map_of ms k of
     Some (JNumber (JInt n)) \<Rightarrow> if 0 \<le> n \<and> n < 2 ^ 32 then [(k, JNumber (JInt n))] else []
   | _ \<Rightarrow> [])"

definition renamed :: "string \<Rightarrow> (string \<times> json_value) list \<Rightarrow> (string \<times> json_value) list" where
  "renamed k = map (\<lambda>(k', v). (k, v))"

definition take_format :: "bool \<Rightarrow> string \<Rightarrow> string \<Rightarrow> document_fields \<Rightarrow> document_fields \<times> document_fields" where
  "take_format enabled fmt size_name ms =
     (let k = size_name @ ''_'' @ fmt @ ''_url''
      in if \<not> enabled then ([], ms)
         else (case string_member ms k of None \<Rightarrow> [] | Some u \<Rightarrow> [(fmt, JObject [(''url'', JString u)])], json_remove k ms))"

definition collect_format_urls :: "upload_config \<Rightarrow> string \<Rightarrow> document_fields \<Rightarrow> document_fields \<times> document_fields" where
  "collect_format_urls up name ms =
     (let (webp, ms1) = take_format (up_webp up) ''webp'' name ms; (avif, ms2) = take_format (up_avif up) ''avif'' name ms1
      in (webp @ avif, ms2))"

definition assemble_size :: "upload_config \<Rightarrow> string \<Rightarrow> document_fields \<times> document_fields \<Rightarrow> document_fields \<times> document_fields" where
  "assemble_size up name acc =
     (case acc of (sizes, ms) \<Rightarrow>
       let rest = json_remove (name @ ''_height'') (json_remove (name @ ''_width'') (json_remove (name @ ''_url'') ms))
       in case string_member ms (name @ ''_url'') of
            Some url \<Rightarrow>
              (let (formats, rest') = collect_format_urls up name rest
               in (json_put name (JObject ([(''url'', JString url)]
                     @ renamed ''width'' (u32_member ms (name @ ''_width'')) @ renamed ''height'' (u32_member ms (name @ ''_height''))
                     @ (if formats = [] then [] else [(''formats'', JObject formats)]))) sizes, rest'))
          | None \<Rightarrow> (sizes, json_remove (name @ ''_avif_url'') (json_remove (name @ ''_webp_url'') rest)))"

definition assemble_sizes_object :: "upload_config \<Rightarrow> document \<Rightarrow> document" where
  "assemble_sizes_object up d =
     (let (sizes, ms) = fold (assemble_size up) (up_sizes up) ([], doc_fields d)
      in d\<lparr>doc_fields := if sizes = [] then ms else json_put ''sizes'' (JObject sizes) ms\<rparr>)"

section \<open>Collections and their documents\<close>

record target =
  tg_def :: auth_collection
  tg_upload :: "upload_config option"
  tg_store :: doc_store

record populate_env =
  pe_collections :: "string \<Rightarrow> target option"
  pe_join :: join_env
  pe_base64 :: "string \<Rightarrow> string"
  pe_locale :: "locale_context option"
  pe_dates :: date_library
  pe_num_text :: "db_value \<Rightarrow> string"
  pe_json_values :: "(string \<times> string) list \<Rightarrow> string \<Rightarrow> join_row \<Rightarrow> db_value list"

definition sized :: "target \<Rightarrow> document \<Rightarrow> document" where
  "sized t d = (case tg_upload t of Some up \<Rightarrow> if up_enabled up then assemble_sizes_object up d else d | None \<Rightarrow> d)"

definition find_document_by_id :: "populate_env \<Rightarrow> target \<Rightarrow> string \<Rightarrow> write_error + document option" where
  "find_document_by_id env t i =
     bindE (find_by_id_raw (pe_base64 env) (tg_def t) (pe_locale env) False i (ds_rows (tg_store t))) (\<lambda>d.
       Inr (map_option (hydrate_doc (pe_join env) (pe_locale env) (ds_joins (tg_store t)) None (ci_fields (tg_def t))) d))"

definition find_by_ids :: "populate_env \<Rightarrow> target \<Rightarrow> string list \<Rightarrow> write_error + document list" where
  "find_by_ids env t ids =
     (if ids = [] then Inr []
      else bindE (select_columns (tg_def t) (pe_locale env)) (\<lambda>cols.
             bindE (collect_all (\<lambda>r. bindE (raw_document (pe_base64 env) (tg_def t) (pe_locale env) cols r) (\<lambda>d. Inr [d]))
                      (filter (\<lambda>r. fr_id r \<in> set ids \<and> \<not> is_deleted (tg_def t) r) (ds_rows (tg_store t))))
               (\<lambda>docs. Inr (hydrate_documents (pe_join env) (pe_locale env) (ds_joins (tg_store t)) None (ci_fields (tg_def t)) docs))))"

text \<open>\<open>find\<close> with filters only: the default order, no cursor, no limit.  \<open>None\<close> is an error.\<close>

definition find_matching :: "populate_env \<Rightarrow> target \<Rightarrow> bool \<Rightarrow> filter_clause list \<Rightarrow> document list option" where
  "find_matching env t include_deleted filters =
     (let def = tg_def t; s = tg_store t; (col, dir) = resolve_order None (ci_timestamps def)
      in if \<not> list_all (\<lambda>c. list_all (\<lambda>f. validate_filter_field def (ff_field f)) (filters_of_clause c)) filters then None
         else (case (resolve_filters (ci_fields def) (pe_locale env) filters, select_columns def (pe_locale env)) of
                 (Some resolved, Inr cols) \<Rightarrow>
                   (case build_where_clause (pe_dates env) resolved (ac_slug def) (ci_fields def) (pe_locale env) of
                      Inl e \<Rightarrow> None
                    | Inr w \<Rightarrow>
                        (case collect_all (\<lambda>r. bindE (raw_document (pe_base64 env) def (pe_locale env) cols r) (\<lambda>d. Inr [d]))
                                (sort_key (order_key (cursor_status_active (ci_has_drafts def) col) col dir False)
                                  (filter (\<lambda>r. selects (store_where (pe_num_text env) (pe_json_values env) (ac_slug def) (ds_joins s)) r w
                                     \<and> (include_deleted \<or> \<not> is_deleted def r)) (ds_rows s))) of
                           Inl e \<Rightarrow> None | Inr docs \<Rightarrow> Some docs))
               | _ \<Rightarrow> None))"

section \<open>One reference\<close>

text \<open>
  What a call carries along: the visited documents and the cache.  \<open>OutOfFuel\<close> is no error of the
  program: it is what the recursion answers where its fuel ends.
\<close>

datatype populate_error = ReadFailed write_error | AccessFailed string | OutOfFuel

type_synonym visits = "(string \<times> string) list"
type_synonym populate_state = "visits \<times> cache"
type_synonym 'a populating = "populate_state \<Rightarrow> populate_error + 'a \<times> populate_state"
type_synonym join_access = "(string \<Rightarrow> string + access_result) option"
type_synonym populator = "string \<Rightarrow> target \<Rightarrow> join_access \<Rightarrow> int \<Rightarrow> document \<Rightarrow> document populating"

definition lift_read :: "write_error + 'a \<Rightarrow> populate_error + 'a" where
  "lift_read r = (case r of Inl e \<Rightarrow> Inl (ReadFailed e) | Inr x \<Rightarrow> Inr x)"

definition cache_key :: "populate_env \<Rightarrow> string \<Rightarrow> string \<Rightarrow> string" where
  "cache_key env col i = populate_cache_key col i (locale_cache_key (pe_locale env))"

text \<open>The document, populated one level less, is cached and shown.\<close>

definition expand :: "populate_env \<Rightarrow> populator \<Rightarrow> string \<Rightarrow> target \<Rightarrow> int \<Rightarrow> string \<Rightarrow> document \<Rightarrow> json_value populating" where
  "expand env rec col t depth i d st =
     bindE (rec col t None (depth - 1) (sized t d) st) (\<lambda>(d', (visited, c)).
       Inr (document_to_json d' col, (visited, cache_set c (cache_key env col i) d')))"

text \<open>From the cache or the database; \<open>None\<close> is a document that is not there or could not be read.\<close>

definition load_and_expand ::
  "populate_env \<Rightarrow> populator \<Rightarrow> string \<Rightarrow> target \<Rightarrow> int \<Rightarrow> string \<Rightarrow> json_value option populating" where
  "load_and_expand env rec col t depth i st =
     (case st of (visited, c) \<Rightarrow>
       case cache_or_fetch_doc c (cache_key env col i) (case find_document_by_id env t i of Inr d \<Rightarrow> d | Inl e \<Rightarrow> None) of
         (Hit d, c') \<Rightarrow> Inr (Some (document_to_json d col), (visited, c'))
       | (Fresh None, c') \<Rightarrow> Inr (None, (visited, c'))
       | (Fresh (Some d), c') \<Rightarrow> bindE (expand env rec col t depth i d (visited, c')) (\<lambda>(v, st'). Inr (Some v, st')))"

definition string_items :: "json_value option \<Rightarrow> string list option" where
  "string_items v = (case v of Some (JArray vs) \<Rightarrow> Some (List.map_filter (\<lambda>v. as_json_str v) vs) | _ \<Rightarrow> None)"

text \<open>A has-one field: a missing document is null in the document, and left as it is in a container.\<close>

definition populate_one ::
  "bool \<Rightarrow> populate_env \<Rightarrow> populator \<Rightarrow> int \<Rightarrow> string \<Rightarrow> string \<Rightarrow> target \<Rightarrow> string \<Rightarrow> document_fields \<Rightarrow> document_fields populating" where
  "populate_one in_map env rec depth name col t i ms st =
     (if (col, i) \<in> set (fst st) then Inr (ms, st)
      else bindE (load_and_expand env rec col t depth i st) (\<lambda>(v, st').
             Inr (case v of Some w \<Rightarrow> json_put name w ms | None \<Rightarrow> if in_map then ms else json_put name JNull ms, st')))"

definition populate_has_one ::
  "bool \<Rightarrow> populate_env \<Rightarrow> populator \<Rightarrow> int \<Rightarrow> string \<Rightarrow> string \<Rightarrow> target \<Rightarrow> document_fields \<Rightarrow> document_fields populating" where
  "populate_has_one in_map env rec depth name col t ms st =
     (case map_of ms name of
        Some (JString i) \<Rightarrow> if i = [] then Inr (ms, st) else populate_one in_map env rec depth name col t i ms st
      | _ \<Rightarrow> Inr (ms, st))"

text \<open>A reference with its collection, when that is known.\<close>

definition known_ref :: "populate_env \<Rightarrow> string \<Rightarrow> (string \<times> string \<times> target) option" where
  "known_ref env item =
     (case parse_poly_ref item of
        None \<Rightarrow> None
      | Some (col, i) \<Rightarrow> map_option (\<lambda>t. (col, i, t)) (pe_collections env col))"

definition populate_poly_has_one ::
  "bool \<Rightarrow> populate_env \<Rightarrow> populator \<Rightarrow> int \<Rightarrow> string \<Rightarrow> document_fields \<Rightarrow> document_fields populating" where
  "populate_poly_has_one in_map env rec depth name ms st =
     (case map_of ms name of
        Some (JString raw) \<Rightarrow>
          (case known_ref env raw of
             None \<Rightarrow> Inr (ms, st)
           | Some (col, i, t) \<Rightarrow> populate_one in_map env rec depth name col t i ms st)
      | _ \<Rightarrow> Inr (ms, st))"

section \<open>Many references of a document\<close>

text \<open>
  The documents of the references that have not been visited are read first; a document found is
  taken out, and one that is missing is dropped.
\<close>

fun nonpoly_items ::
  "populate_env \<Rightarrow> populator \<Rightarrow> int \<Rightarrow> string \<Rightarrow> target \<Rightarrow> (string \<Rightarrow> document option) \<Rightarrow> string list \<Rightarrow> json_value list populating" where
  "nonpoly_items env rec depth col t fetched [] st = Inr ([], st)"
| "nonpoly_items env rec depth col t fetched (i # ids) st =
     (if (col, i) \<in> set (fst st)
      then bindE (nonpoly_items env rec depth col t fetched ids st) (\<lambda>(vs, st'). Inr (JString i # vs, st'))
      else (case cache_get (snd st) (cache_key env col i) of
              Some d \<Rightarrow> bindE (nonpoly_items env rec depth col t fetched ids st) (\<lambda>(vs, st'). Inr (document_to_json d col # vs, st'))
            | None \<Rightarrow>
                (case fetched i of
                   None \<Rightarrow> nonpoly_items env rec depth col t fetched ids st
                 | Some d \<Rightarrow>
                     bindE (expand env rec col t depth i d st) (\<lambda>(v, st').
                       bindE (nonpoly_items env rec depth col t (fetched(i := None)) ids st') (\<lambda>(vs, st''). Inr (v # vs, st''))))))"

definition by_id :: "document list \<Rightarrow> string \<Rightarrow> document option" where
  "by_id docs = map_of (rev (map (\<lambda>d. (doc_id d, d)) docs))"

definition populate_nonpoly_has_many ::
  "populate_env \<Rightarrow> populator \<Rightarrow> int \<Rightarrow> string \<Rightarrow> string \<Rightarrow> target \<Rightarrow> document_fields \<Rightarrow> document_fields populating" where
  "populate_nonpoly_has_many env rec depth name col t ms st =
     (case string_items (map_of ms name) of
        None \<Rightarrow> Inr (ms, st)
      | Some ids \<Rightarrow>
          bindE (lift_read (find_by_ids env t (filter (\<lambda>i. (col, i) \<notin> set (fst st)) ids))) (\<lambda>docs.
            bindE (nonpoly_items env rec depth col t (by_id docs) ids st) (\<lambda>(vs, st').
              Inr (json_put name (JArray vs) ms, st'))))"

text \<open>An item becomes a value or is dropped; a document that was found is taken out.\<close>

type_synonym fetched = "string \<times> string \<Rightarrow> document option"

definition resolve_poly_item ::
  "populate_env \<Rightarrow> populator \<Rightarrow> int \<Rightarrow> string set \<Rightarrow> string \<Rightarrow> fetched \<Rightarrow> (json_value option \<times> fetched) populating" where
  "resolve_poly_item env rec depth read_cols item fetched st =
     (case known_ref env item of
        None \<Rightarrow> Inr ((Some (JString item), fetched), st)
      | Some (col, i, t) \<Rightarrow>
          if (col, i) \<in> set (fst st) \<or> col \<notin> read_cols then Inr ((Some (JString item), fetched), st)
          else (case fetched (col, i) of
                  None \<Rightarrow> Inr ((None, fetched), st)
                | Some d \<Rightarrow>
                    bindE (expand env rec col t depth (doc_id d) d st) (\<lambda>(v, st'). Inr ((Some v, fetched((col, i) := None)), st'))))"

fun poly_items :: "populate_env \<Rightarrow> populator \<Rightarrow> int \<Rightarrow> string set \<Rightarrow> string list \<Rightarrow> fetched \<Rightarrow> json_value list populating" where
  "poly_items env rec depth cols [] fetched st = Inr ([], st)"
| "poly_items env rec depth cols (item # rest) fetched st =
     bindE (resolve_poly_item env rec depth cols item fetched st) (\<lambda>((v, fetched'), st').
       bindE (poly_items env rec depth cols rest fetched' st') (\<lambda>(vs, st''). Inr ((case v of None \<Rightarrow> vs | Some w \<Rightarrow> w # vs), st'')))"

definition open_refs :: "visits \<Rightarrow> string list \<Rightarrow> (string \<times> string) list" where
  "open_refs visited items = filter (\<lambda>ci. ci \<notin> set visited) (List.map_filter parse_poly_ref items)"

text \<open>One query per collection of the references that have not been visited.\<close>

fun fetch_collections ::
  "populate_env \<Rightarrow> (string \<times> string) list \<Rightarrow> string list \<Rightarrow> write_error + fetched \<times> string set" where
  "fetch_collections env refs [] = Inr (Map.empty, {})"
| "fetch_collections env refs (col # cols) =
     (case pe_collections env col of
        None \<Rightarrow> fetch_collections env refs cols
      | Some t \<Rightarrow>
          bindE (find_by_ids env t (map snd (filter (\<lambda>(c, i). c = col) refs))) (\<lambda>docs.
            bindE (fetch_collections env refs cols) (\<lambda>(fetched, read_cols).
              Inr (\<lambda>(c, i). if c = col then by_id docs i else fetched (c, i), insert col read_cols))))"

definition populate_poly_has_many ::
  "populate_env \<Rightarrow> populator \<Rightarrow> int \<Rightarrow> string \<Rightarrow> document_fields \<Rightarrow> document_fields populating" where
  "populate_poly_has_many env rec depth name ms st =
     (case string_items (map_of ms name) of
        None \<Rightarrow> Inr (ms, st)
      | Some items \<Rightarrow>
          (let refs = open_refs (fst st) items
           in bindE (lift_read (fetch_collections env refs (remdups (map fst refs)))) (\<lambda>(fetched, cols).
                bindE (poly_items env rec depth cols items fetched st) (\<lambda>(vs, st'). Inr (json_put name (JArray vs) ms, st')))))"

section \<open>References in groups, arrays and blocks\<close>

fun items_in_map ::
  "populate_env \<Rightarrow> populator \<Rightarrow> int \<Rightarrow> (string \<Rightarrow> (string \<times> string \<times> target) option) \<Rightarrow> string list \<Rightarrow> json_value list populating" where
  "items_in_map env rec depth resolve [] st = Inr ([], st)"
| "items_in_map env rec depth resolve (item # rest) st =
     bindE (case resolve item of
              None \<Rightarrow> Inr (None, st)
            | Some (col, i, t) \<Rightarrow> if (col, i) \<in> set (fst st) then Inr (None, st) else load_and_expand env rec col t depth i st)
       (\<lambda>(v, st'). bindE (items_in_map env rec depth resolve rest st') (\<lambda>(vs, st''). Inr (unwrap_or (JString item) v # vs, st'')))"

definition populate_has_many_in_map ::
  "populate_env \<Rightarrow> populator \<Rightarrow> int \<Rightarrow> string \<Rightarrow> (string \<Rightarrow> (string \<times> string \<times> target) option) \<Rightarrow> document_fields
   \<Rightarrow> document_fields populating" where
  "populate_has_many_in_map env rec depth name resolve ms st =
     (case string_items (map_of ms name) of
        None \<Rightarrow> Inr (ms, st)
      | Some items \<Rightarrow> bindE (items_in_map env rec depth resolve items st) (\<lambda>(vs, st'). Inr (json_put name (JArray vs) ms, st')))"

definition effective_depth :: "relationship_config \<Rightarrow> int \<Rightarrow> int" where
  "effective_depth rc depth = (case rc_max_depth rc of Some mx \<Rightarrow> if mx < depth then mx else depth | None \<Rightarrow> depth)"

definition populate_rel_in_map ::
  "populate_env \<Rightarrow> populator \<Rightarrow> int \<Rightarrow> field_attrs \<Rightarrow> document_fields \<Rightarrow> document_fields populating" where
  "populate_rel_in_map env rec depth a ms st =
     (case fa_relationship a of
        None \<Rightarrow> Inr (ms, st)
      | Some rc \<Rightarrow>
          (let d = effective_depth rc depth; col = rc_collection rc; name = fa_name a
           in if d \<le> 0 then Inr (ms, st)
              else if is_polymorphic rc
              then (if rc_has_many rc then populate_has_many_in_map env rec d name (known_ref env) ms st
                    else populate_poly_has_one True env rec d name ms st)
              else (case pe_collections env col of
                      None \<Rightarrow> Inr (ms, st)
                    | Some t \<Rightarrow>
                        if rc_has_many rc then populate_has_many_in_map env rec d name (\<lambda>i. Some (col, i, t)) ms st
                        else populate_has_one True env rec d name col t ms st)))"

text \<open>A container is taken out of the map and put back; what is no object or array is not put back.\<close>

definition in_object :: "(document_fields \<Rightarrow> document_fields populating) \<Rightarrow> string \<Rightarrow> document_fields \<Rightarrow> document_fields populating" where
  "in_object f name ms st =
     (case map_of ms name of
        Some (JObject inner) \<Rightarrow> bindE (f inner st) (\<lambda>(inner', st'). Inr (json_put name (JObject inner') ms, st'))
      | _ \<Rightarrow> Inr (json_remove name ms, st))"

fun each_object :: "(document_fields \<Rightarrow> document_fields populating) \<Rightarrow> json_value list \<Rightarrow> json_value list populating" where
  "each_object f [] st = Inr ([], st)"
| "each_object f (v # vs) st =
     bindE (case v of JObject ms \<Rightarrow> bindE (f ms st) (\<lambda>(ms', st'). Inr (JObject ms', st')) | _ \<Rightarrow> Inr (v, st)) (\<lambda>(v', st').
       bindE (each_object f vs st') (\<lambda>(vs', st''). Inr (v' # vs', st'')))"

definition in_array :: "(document_fields \<Rightarrow> document_fields populating) \<Rightarrow> string \<Rightarrow> document_fields \<Rightarrow> document_fields populating" where
  "in_array f name ms st =
     (case map_of ms name of
        Some (JArray items) \<Rightarrow> bindE (each_object f items st) (\<lambda>(items', st'). Inr (json_put name (JArray items') ms, st'))
      | _ \<Rightarrow> Inr (json_remove name ms, st))"

definition map_block_type :: "document_fields \<Rightarrow> string" where
  "map_block_type ms = unwrap_or [] (Option.bind (map_of ms ''_block_type'') as_json_str)"

text \<open>
  The walk over the fields of a map, \<open>rel\<close> being \<open>populate_rel_in_map\<close> at the depth of the document.
  Layout wrappers are transparent, whether they are flattened before or here.
\<close>

type_synonym in_fields = "document_fields \<Rightarrow> document_fields populating"

definition and_then :: "in_fields \<Rightarrow> in_fields \<Rightarrow> in_fields" where
  "and_then f g ms st = bindE (f ms st) (\<lambda>(ms', st'). g ms' st')"

definition unchanged :: in_fields where
  "unchanged ms st = Inr (ms, st)"

fun populate_in_map :: "(field_attrs \<Rightarrow> in_fields) \<Rightarrow> field_definition list \<Rightarrow> in_fields"
  and populate_in_map_tabs :: "(field_attrs \<Rightarrow> in_fields) \<Rightarrow> field_tab list \<Rightarrow> in_fields"
  and populate_block :: "(field_attrs \<Rightarrow> in_fields) \<Rightarrow> block_definition list \<Rightarrow> in_fields"
where
  "populate_in_map rel [] = unchanged"
| "populate_in_map rel (FieldDefinition a sub tabs blocks # fs) =
     and_then
       (if is_ref_type (fa_type a) then rel a
        else if fa_type a = Group then in_object (populate_in_map rel sub) (fa_name a)
        else if fa_type a = Array then in_array (populate_in_map rel sub) (fa_name a)
        else if fa_type a = Blocks then in_array (populate_block rel blocks) (fa_name a)
        else if fa_type a = Row \<or> fa_type a = Collapsible then populate_in_map rel sub
        else if fa_type a = Tabs then populate_in_map_tabs rel tabs
        else unchanged)
       (populate_in_map rel fs)"
| "populate_in_map_tabs rel [] = unchanged"
| "populate_in_map_tabs rel (FieldTab l sub # ts) = and_then (populate_in_map rel sub) (populate_in_map_tabs rel ts)"
| "populate_block rel [] = unchanged"
| "populate_block rel (BlockDefinition bt sub # bs) =
     (\<lambda>ms. if bt = map_block_type ms then populate_in_map rel sub ms else populate_block rel bs ms)"

fun populate_containers :: "(field_attrs \<Rightarrow> in_fields) \<Rightarrow> field_definition list \<Rightarrow> in_fields"
  and populate_containers_tabs :: "(field_attrs \<Rightarrow> in_fields) \<Rightarrow> field_tab list \<Rightarrow> in_fields"
where
  "populate_containers rel [] = unchanged"
| "populate_containers rel (FieldDefinition a sub tabs blocks # fs) =
     and_then
       (if fa_type a = Group then in_object (populate_in_map rel sub) (fa_name a)
        else if fa_type a = Array then in_array (populate_in_map rel sub) (fa_name a)
        else if fa_type a = Blocks then in_array (populate_block rel blocks) (fa_name a)
        else if fa_type a = Row \<or> fa_type a = Collapsible then populate_containers rel sub
        else if fa_type a = Tabs then populate_containers_tabs rel tabs
        else unchanged)
       (populate_containers rel fs)"
| "populate_containers_tabs rel [] = unchanged"
| "populate_containers_tabs rel (FieldTab l sub # ts) = and_then (populate_containers rel sub) (populate_containers_tabs rel ts)"

section \<open>A document\<close>

definition is_selected :: "string list option \<Rightarrow> string \<Rightarrow> bool" where
  "is_selected select name \<longleftrightarrow> (case select of None \<Rightarrow> True | Some names \<Rightarrow> name \<in> set names)"

definition populate_reference ::
  "populate_env \<Rightarrow> populator \<Rightarrow> int \<Rightarrow> field_attrs \<Rightarrow> document_fields \<Rightarrow> document_fields populating" where
  "populate_reference env rec depth a ms st =
     (case fa_relationship a of
        None \<Rightarrow> Inr (ms, st)
      | Some rc \<Rightarrow>
          (let d = effective_depth rc depth; col = rc_collection rc; name = fa_name a
           in if d \<le> 0 then Inr (ms, st)
              else if is_polymorphic rc
              then (if rc_has_many rc then populate_poly_has_many env rec d name ms st
                    else populate_poly_has_one False env rec d name ms st)
              else (case pe_collections env col of
                      None \<Rightarrow> Inr (ms, st)
                    | Some t \<Rightarrow>
                        if rc_has_many rc then populate_nonpoly_has_many env rec d name col t ms st
                        else populate_has_one False env rec d name col t ms st)))"

fun populate_flat ::
  "populate_env \<Rightarrow> populator \<Rightarrow> string list option \<Rightarrow> int \<Rightarrow> field_definition list \<Rightarrow> document_fields \<Rightarrow> document_fields populating" where
  "populate_flat env rec select depth [] ms st = Inr (ms, st)"
| "populate_flat env rec select depth (f # fs) ms st =
     bindE (if is_ref_type (fa_type (fd_attrs f)) \<and> is_selected select (fa_name (fd_attrs f))
            then populate_reference env rec depth (fd_attrs f) ms st else Inr (ms, st))
       (\<lambda>(ms', st'). populate_flat env rec select depth fs ms' st')"

fun joined_documents ::
  "populate_env \<Rightarrow> populator \<Rightarrow> string \<Rightarrow> target \<Rightarrow> join_access \<Rightarrow> int \<Rightarrow> document list \<Rightarrow> json_value list populating" where
  "joined_documents env rec col t access depth [] st = Inr ([], st)"
| "joined_documents env rec col t access depth (d # ds) st =
     bindE (rec col t access (depth - 1)
              (sized t (hydrate_doc (pe_join env) (pe_locale env) (ds_joins (tg_store t)) None (ci_fields (tg_def t)) d)) st) (\<lambda>(d', st').
       bindE (joined_documents env rec col t access depth ds st') (\<lambda>(vs, st''). Inr (document_to_json d' col # vs, st'')))"

definition populate_join_docs ::
  "populate_env \<Rightarrow> populator \<Rightarrow> join_access \<Rightarrow> int \<Rightarrow> string \<Rightarrow> string \<times> string \<Rightarrow> target \<Rightarrow> json_value list populating" where
  "populate_join_docs env rec access depth i jc t st =
     (let on_field = SingleFilter \<lparr>ff_field = snd jc, ff_op = Equals i\<rparr>;
          found = (\<lambda>fs. joined_documents env rec (fst jc) t access depth (unwrap_or [] (find_matching env t False fs)) st)
      in case access of
           None \<Rightarrow> found [on_field]
         | Some check \<Rightarrow>
             (case check (fst jc) of
                Inl e \<Rightarrow> Inl (AccessFailed e)
              | Inr Denied \<Rightarrow> Inr ([], st)
              | Inr (Constrained extra) \<Rightarrow> found (on_field # extra)
              | Inr Allowed \<Rightarrow> found [on_field]))"

fun populate_join_fields ::
  "populate_env \<Rightarrow> populator \<Rightarrow> string list option \<Rightarrow> join_access \<Rightarrow> int \<Rightarrow> string \<Rightarrow> field_definition list \<Rightarrow> document_fields
   \<Rightarrow> document_fields populating" where
  "populate_join_fields env rec select access depth i [] ms st = Inr (ms, st)"
| "populate_join_fields env rec select access depth i (f # fs) ms st =
     bindE (let a = fd_attrs f
            in if fa_type a \<noteq> Join \<or> \<not> is_selected select (fa_name a) then Inr (ms, st)
               else (case fa_join a of
                       None \<Rightarrow> Inr (ms, st)
                     | Some jc \<Rightarrow>
                         (case pe_collections env (fst jc) of
                            None \<Rightarrow> Inr (ms, st)
                          | Some t \<Rightarrow>
                              bindE (populate_join_docs env rec access depth i jc t st) (\<lambda>(vs, st').
                                Inr (json_put (fa_name a) (JArray vs) ms, st')))))
       (\<lambda>(ms', st'). populate_join_fields env rec select access depth i fs ms' st')"

definition populate_step ::
  "populate_env \<Rightarrow> populator \<Rightarrow> string \<Rightarrow> target \<Rightarrow> join_access \<Rightarrow> string list option \<Rightarrow> int \<Rightarrow> document \<Rightarrow> document populating" where
  "populate_step env rec slug t access select depth d st =
     (if depth \<le> 0 \<or> (slug, doc_id d) \<in> set (fst st) then Inr (d, st)
      else (let fds = ci_fields (tg_def t) in
            bindE (populate_flat env rec select depth (flatten_array_sub_fields fds) (doc_fields d) ((slug, doc_id d) # fst st, snd st))
              (\<lambda>(ms1, st1). bindE (populate_containers (populate_rel_in_map env rec depth) fds ms1 st1)
                (\<lambda>(ms2, st2). bindE (populate_join_fields env rec select access depth (doc_id d) fds ms2 st2)
                  (\<lambda>(ms3, st3). Inr (d\<lparr>doc_fields := ms3\<rparr>, st3))))))"

text \<open>The recursion, with fuel for its levels: each level calls the next with a lower depth.\<close>

primrec populate_upto ::
  "populate_env \<Rightarrow> nat \<Rightarrow> string \<Rightarrow> target \<Rightarrow> join_access \<Rightarrow> string list option \<Rightarrow> int \<Rightarrow> document \<Rightarrow> document populating" where
  "populate_upto env 0 = (\<lambda>slug t access select depth d st. if depth \<le> 0 then Inr (d, st) else Inl OutOfFuel)"
| "populate_upto env (Suc n) = (\<lambda>slug t access select depth d st.
     populate_step env (\<lambda>slug t access depth d st. populate_upto env n slug t access None depth d st) slug t access select depth d st)"

definition populate_relationships ::
  "populate_env \<Rightarrow> string \<Rightarrow> target \<Rightarrow> join_access \<Rightarrow> string list option \<Rightarrow> int \<Rightarrow> document \<Rightarrow> document populating" where
  "populate_relationships env slug t access select depth d st = populate_upto env (nat depth) slug t access select depth d st"

end
