(* ===== verification/ReadService.thy ===== *)
theory ReadService
  imports Populate
begin

text \<open>
  Reading one document through the service (src/src/service/read/find_by_id.rs, validate_filters.rs,
  post_process.rs, and find_by_id_full in src/src/db/ops.rs): access, the constraints of the access hook,
  the draft of the latest version, and what becomes of the document before it is answered.
\<close>

section \<open>The request\<close>

datatype read_error = ReadDenied string | ReadHookFailed string | QueryFailed | PopulateFailed

text \<open>
  The hooks for the user of the request: the access function of the collection (for its trash or for
  reading), the ones of the collections that join fields show, the hooks, and the access of the fields.
\<close>

record read_hooks =
  rh_override :: bool
  rh_access :: "bool \<Rightarrow> string \<Rightarrow> string + access_result"
  rh_join :: "string \<Rightarrow> string + access_result"
  rh_before :: "string option"
  rh_fields :: access_vm
  rh_after :: "document \<Rightarrow> document"

record read_input =
  ri_id :: string
  ri_depth :: int
  ri_select :: "string list option"
  ri_registry :: bool
  ri_override :: bool
  ri_use_draft :: bool
  ri_constraints :: "filter_clause list option"
  ri_include_deleted :: bool

definition check_read_access :: "read_hooks \<Rightarrow> bool \<Rightarrow> string \<Rightarrow> read_error + access_result" where
  "check_read_access hooks trash i =
     (if rh_override hooks then Inr Allowed
      else (case rh_access hooks trash i of Inl e \<Rightarrow> Inl (ReadHookFailed e) | Inr a \<Rightarrow> Inr a))"

definition check_join_access :: "read_hooks \<Rightarrow> string \<Rightarrow> string + access_result" where
  "check_join_access hooks col = (if rh_override hooks then Inr Allowed else rh_join hooks col)"

definition read_denied :: "read_hooks \<Rightarrow> field_definition list \<Rightarrow> string list" where
  "read_denied hooks fds = (if rh_override hooks then [] else check_field_read_access (rh_fields hooks) fds)"

section \<open>Constraints\<close>

definition check_access_filter :: "bool \<Rightarrow> bool \<Rightarrow> field_filter \<Rightarrow> bool" where
  "check_access_filter trash injecting f \<longleftrightarrow>
     (let first = hd (split_on (CHR ''.'') (ff_field f))
      in \<not> starts_with ''_'' first \<or> (first = ''_deleted_at'' \<and> trash) \<or> (first = ''_status'' \<and> injecting))"

definition validate_access_constraints :: "filter_clause list \<Rightarrow> bool \<Rightarrow> bool \<Rightarrow> bool" where
  "validate_access_constraints filters trash injecting \<longleftrightarrow>
     list_all (\<lambda>c. list_all (check_access_filter trash injecting) (filters_of_clause c)) filters"

definition read_constraints :: "auth_collection \<Rightarrow> read_input \<Rightarrow> access_result \<Rightarrow> read_error + filter_clause list option" where
  "read_constraints def inp access =
     (case access of
        Constrained extra \<Rightarrow>
          if validate_access_constraints extra (ri_include_deleted inp) (\<not> ri_use_draft inp \<and> ci_has_drafts def)
          then Inr (Some (case ri_constraints inp of Some existing \<Rightarrow> existing @ extra | None \<Rightarrow> extra))
          else Inl (ReadHookFailed ''filter on a system column'')
      | _ \<Rightarrow> Inr (ri_constraints inp))"

section \<open>The document\<close>

definition document_from_snapshot :: "string \<Rightarrow> json_value \<Rightarrow> document option" where
  "document_from_snapshot i snapshot =
     (case snapshot of
        JObject ms \<Rightarrow>
          Some \<lparr>doc_id = i, doc_created_at = string_member ms ''created_at'', doc_updated_at = string_member ms ''updated_at'',
                doc_fields = json_remove ''updated_at'' (json_remove ''created_at'' ms)\<rparr>
      | _ \<Rightarrow> None)"

definition draft_document :: "target \<Rightarrow> string \<Rightarrow> document option" where
  "draft_document t i =
     (case find_latest_version i (ds_versions (tg_store t)) of
        None \<Rightarrow> None
      | Some v \<Rightarrow> if vr_status v = ''draft'' then document_from_snapshot i (vr_snapshot v) else None)"

definition read_row :: "populate_env \<Rightarrow> target \<Rightarrow> string \<Rightarrow> filter_clause list option \<Rightarrow> bool \<Rightarrow> read_error + document option" where
  "read_row env t i constraints include_deleted =
     (case constraints of
        Some filters \<Rightarrow>
          (case find_matching env t include_deleted (filters @ [id_filter i]) of
             None \<Rightarrow> Inl QueryFailed
           | Some [] \<Rightarrow> Inr None
           | Some (d # ds) \<Rightarrow> Inr (Some d))
      | None \<Rightarrow>
          (case find_by_id_raw (pe_base64 env) (tg_def t) (pe_locale env) include_deleted i (ds_rows (tg_store t)) of
             Inl e \<Rightarrow> Inl QueryFailed
           | Inr d \<Rightarrow> Inr d))"

definition find_by_id_full ::
  "populate_env \<Rightarrow> target \<Rightarrow> string \<Rightarrow> filter_clause list option \<Rightarrow> bool \<Rightarrow> bool \<Rightarrow> read_error + document option" where
  "find_by_id_full env t i constraints use_draft include_deleted =
     (case (if use_draft \<and> ci_has_drafts (tg_def t) then draft_document t i else None) of
        Some d \<Rightarrow> Inr (Some d)
      | None \<Rightarrow>
          bindE (read_row env t i constraints include_deleted) (\<lambda>d.
            Inr (map_option (hydrate_doc (pe_join env) (pe_locale env) (ds_joins (tg_store t)) None (ci_fields (tg_def t))) d)))"

section \<open>Before it is answered\<close>

text \<open>A caller that overrides access neither sees nor fills the shared cache.\<close>

definition effective_populate_state :: "read_input \<Rightarrow> cache \<Rightarrow> cache" where
  "effective_populate_state inp c = (if ri_override inp then NoneCache else c)"

text \<open>
  The program answers with what was populated so far when population fails; here such a call ends in
  \<open>PopulateFailed\<close>.
\<close>

definition populate_answer ::
  "populate_env \<Rightarrow> read_hooks \<Rightarrow> read_input \<Rightarrow> target \<Rightarrow> document \<Rightarrow> cache \<Rightarrow> read_error + document \<times> cache" where
  "populate_answer env hooks inp t d c =
     (if 0 < ri_depth inp \<and> ri_registry inp
      then (case populate_relationships env (ac_slug (tg_def t)) t (Some (check_join_access hooks)) (ri_select inp) (ri_depth inp) d
                   ([], effective_populate_state inp c) of
              Inl e \<Rightarrow> Inl PopulateFailed
            | Inr (d', st) \<Rightarrow> Inr (d', if ri_override inp then c else snd st))
      else Inr (d, c))"

definition strip_read :: "read_hooks \<Rightarrow> field_definition list \<Rightarrow> document \<Rightarrow> document" where
  "strip_read hooks fds d =
     d\<lparr>doc_fields := strip_fields (read_denied hooks fds @ collect_api_hidden_field_names fds []) (doc_fields d)\<rparr>"

definition selected_part :: "string list option \<Rightarrow> document \<Rightarrow> document" where
  "selected_part select d = (case select of None \<Rightarrow> d | Some names \<Rightarrow> apply_select_to_document names d)"

definition post_process_single ::
  "populate_env \<Rightarrow> read_hooks \<Rightarrow> read_input \<Rightarrow> target \<Rightarrow> document \<Rightarrow> cache \<Rightarrow> read_error + document \<times> cache" where
  "post_process_single env hooks inp t d c =
     bindE (populate_answer env hooks inp t d c) (\<lambda>(d', c').
       Inr (rh_after hooks (strip_read hooks (ci_fields (tg_def t)) (selected_part (ri_select inp) (sized t d'))), c'))"

definition service_find_by_id ::
  "populate_env \<Rightarrow> read_hooks \<Rightarrow> read_input \<Rightarrow> target \<Rightarrow> cache \<Rightarrow> read_error + document option \<times> cache" where
  "service_find_by_id env hooks inp t c =
     bindE (check_read_access hooks (ri_include_deleted inp) (ri_id inp)) (\<lambda>access.
       if access = Denied
       then Inl (ReadDenied (if ri_include_deleted inp then ''Trash access denied'' else ''Read access denied''))
       else bindE (read_constraints (tg_def t) inp access) (\<lambda>constraints.
         bindE (case rh_before hooks of Some e \<Rightarrow> Inl (ReadHookFailed e) | None \<Rightarrow> Inr ()) (\<lambda>_.
           bindE (find_by_id_full env t (ri_id inp) constraints (ri_use_draft inp) (ri_include_deleted inp)) (\<lambda>found.
             case found of
               None \<Rightarrow> Inr (None, c)
             | Some d \<Rightarrow> bindE (post_process_single env hooks inp t d c) (\<lambda>(d', c'). Inr (Some d', c'))))))"

end
