(* ===== verification/PopulateProperties.thy ===== *)
theory PopulateProperties
  imports Populate DocumentProperties
begin

text \<open>
  Population ends, and what it puts in place of a reference is the document the reference names; what
  it shows of that document depends on the other references and on the cache.
\<close>

section \<open>The levels of the recursion\<close>

definition agree :: "int \<Rightarrow> populator \<Rightarrow> populator \<Rightarrow> bool" where
  "agree k rec rec' \<longleftrightarrow> (\<forall>slug t access depth. depth < k \<longrightarrow> rec slug t access depth = rec' slug t access depth)"

lemma agree_le: "agree k rec rec' \<Longrightarrow> j \<le> k \<Longrightarrow> agree j rec rec'"
  by (auto simp: agree_def)

lemma effective_depth_le: "effective_depth rc depth \<le> depth"
  by (simp add: effective_depth_def split: option.split)

lemma expand_cong: "agree depth rec rec' \<Longrightarrow> expand env rec col t depth i d st = expand env rec' col t depth i d st"
  by (simp add: expand_def agree_def)

lemma load_and_expand_cong: "agree depth rec rec' \<Longrightarrow> load_and_expand env rec col t depth i st = load_and_expand env rec' col t depth i st"
  by (simp add: load_and_expand_def expand_cong split: prod.split cache_or_fetch.split option.split)

lemma nonpoly_items_cong:
  "agree depth rec rec' \<Longrightarrow> nonpoly_items env rec depth col t fetched ids st = nonpoly_items env rec' depth col t fetched ids st"
  by (induction ids arbitrary: fetched st) (simp_all add: expand_cong cong: if_cong option.case_cong prod.case_cong)

lemma poly_items_cong:
  "agree depth rec rec' \<Longrightarrow> poly_items env rec depth cols items fetched st = poly_items env rec' depth cols items fetched st"
proof (induction items arbitrary: fetched st)
  case (Cons item items)
  have "resolve_poly_item env rec depth cols item fetched st = resolve_poly_item env rec' depth cols item fetched st"
    by (simp add: resolve_poly_item_def expand_cong [OF Cons.prems] cong: if_cong option.case_cong prod.case_cong)
  then show ?case by (simp add: Cons.IH [OF Cons.prems] cong: prod.case_cong)
qed simp

lemma items_in_map_cong:
  "agree depth rec rec' \<Longrightarrow> items_in_map env rec depth resolve items st = items_in_map env rec' depth resolve items st"
  by (induction items arbitrary: st) (simp_all add: load_and_expand_cong cong: if_cong option.case_cong prod.case_cong)

lemma populate_one_cong:
  "agree depth rec rec' \<Longrightarrow> populate_one in_map env rec depth name col t i ms st = populate_one in_map env rec' depth name col t i ms st"
  by (simp add: populate_one_def load_and_expand_cong)

lemmas reference_defs =
  populate_has_one_def populate_poly_has_one_def populate_nonpoly_has_many_def populate_poly_has_many_def populate_has_many_in_map_def

lemma reference_cong:
  assumes "agree depth rec rec'"
  shows "populate_reference env rec depth a ms st = populate_reference env rec' depth a ms st"
    and "populate_rel_in_map env rec depth a ms st = populate_rel_in_map env rec' depth a ms st"
proof -
  have d: "agree (effective_depth rc depth) rec rec'" for rc using assms effective_depth_le by (rule agree_le)
  note congs = populate_one_cong [OF d] nonpoly_items_cong [OF d] poly_items_cong [OF d] items_in_map_cong [OF d]
  show "populate_reference env rec depth a ms st = populate_reference env rec' depth a ms st"
    by (simp add: populate_reference_def reference_defs congs Let_def cong: option.case_cong if_cong prod.case_cong json_value.case_cong)
  show "populate_rel_in_map env rec depth a ms st = populate_rel_in_map env rec' depth a ms st"
    by (simp add: populate_rel_in_map_def reference_defs congs Let_def cong: option.case_cong if_cong prod.case_cong json_value.case_cong)
qed

lemma flat_cong: "agree depth rec rec' \<Longrightarrow> populate_flat env rec select depth fs = populate_flat env rec' select depth fs"
  by (induction fs) (auto intro!: ext simp: reference_cong(1))

lemma joined_cong:
  "agree depth rec rec' \<Longrightarrow> joined_documents env rec col t access depth ds st = joined_documents env rec' col t access depth ds st"
  by (induction ds arbitrary: st) (simp_all add: agree_def cong: prod.case_cong)

lemma join_docs_cong:
  "agree depth rec rec' \<Longrightarrow> populate_join_docs env rec access depth i jc t st = populate_join_docs env rec' access depth i jc t st"
  by (simp add: populate_join_docs_def joined_cong Let_def)

lemma join_fields_cong:
  "agree depth rec rec' \<Longrightarrow> populate_join_fields env rec select access depth i fs = populate_join_fields env rec' select access depth i fs"
  by (induction fs) (auto intro!: ext simp: join_docs_cong Let_def cong: option.case_cong if_cong)

lemma step_cong:
  assumes "agree depth rec rec'"
  shows "populate_step env rec slug t access select depth d st = populate_step env rec' slug t access select depth d st"
proof -
  have "populate_rel_in_map env rec depth = populate_rel_in_map env rec' depth"
    by (intro ext) (rule reference_cong(2) [OF assms])
  then show ?thesis by (simp add: populate_step_def flat_cong [OF assms] join_fields_cong [OF assms] Let_def)
qed

lemma step_done: "depth \<le> 0 \<Longrightarrow> populate_step env rec slug t access select depth d st = Inr (d, st)"
  by (simp add: populate_step_def)

text \<open>Fuel beyond the depth changes nothing.\<close>

abbreviation next_level :: "populate_env \<Rightarrow> nat \<Rightarrow> populator" where
  "next_level env n \<equiv> \<lambda>slug t access depth d st. populate_upto env n slug t access None depth d st"

lemma enough_fuel:
  "nat depth \<le> n \<Longrightarrow> nat depth \<le> m \<Longrightarrow>
     populate_upto env n slug t access select depth d st = populate_upto env m slug t access select depth d st"
proof (induction n arbitrary: m slug t access select depth d st)
  case 0
  then show ?case by (cases m) (simp_all add: step_done)
next
  case (Suc n)
  show ?case
  proof (cases m)
    case 0
    with Suc.prems show ?thesis by (simp add: step_done)
  next
    case (Suc m')
    have "agree depth (next_level env n) (next_level env m')"
      unfolding agree_def using Suc Suc.prems by (auto intro!: ext Suc.IH)
    then show ?thesis unfolding Suc populate_upto.simps by (rule step_cong)
  qed
qed

section \<open>What holds after a call\<close>

text \<open>The fuel has not run out, and a result is as stated.\<close>

definition post :: "populate_error + 'a \<Rightarrow> ('a \<Rightarrow> bool) \<Rightarrow> bool" where
  "post r Q \<longleftrightarrow> r \<noteq> Inl OutOfFuel \<and> (\<forall>x. r = Inr x \<longrightarrow> Q x)"

lemma post_simps [simp]:
  "post (Inr x) Q \<longleftrightarrow> Q x" "post (Inl e) Q \<longleftrightarrow> e \<noteq> OutOfFuel"
  by (simp_all add: post_def)

lemma post_lift_read [simp]: "post (lift_read r) Q \<longleftrightarrow> (\<forall>x. r = Inr x \<longrightarrow> Q x)"
  by (cases r) (simp_all add: post_def lift_read_def)

lemma post_mono: "post r Q \<Longrightarrow> (\<And>x. Q x \<Longrightarrow> R x) \<Longrightarrow> post r R"
  by (auto simp: post_def)

lemma post_step: "post r P \<Longrightarrow> (\<And>x. P x \<Longrightarrow> post (f x) Q) \<Longrightarrow> post (bindE r f) Q"
  by (cases r) (auto simp: post_def)

text \<open>A walk over the members of an object keeps a property of the cache.\<close>

definition keeps_cache :: "(cache \<Rightarrow> bool) \<Rightarrow> in_fields \<Rightarrow> bool" where
  "keeps_cache I f \<longleftrightarrow> (\<forall>ms st. I (snd st) \<longrightarrow> post (f ms st) (\<lambda>(r, st'). I (snd st')))"

lemma keepsD: "keeps_cache I f \<Longrightarrow> I (snd st) \<Longrightarrow> post (f ms st) (\<lambda>(r, st'). I (snd st'))"
  unfolding keeps_cache_def by blast

lemma keepsI: "(\<And>ms st. I (snd st) \<Longrightarrow> post (f ms st) (\<lambda>(r, st'). I (snd st'))) \<Longrightarrow> keeps_cache I f"
  unfolding keeps_cache_def by blast

lemma keeps_unchanged [intro]: "keeps_cache I unchanged"
  by (simp add: keeps_cache_def unchanged_def)

lemma keeps_and_then [intro]: "keeps_cache I f \<Longrightarrow> keeps_cache I g \<Longrightarrow> keeps_cache I (and_then f g)"
  by (rule keepsI, unfold and_then_def, erule post_step [OF keepsD], assumption) (auto intro: keepsD)

lemma keeps_in_object [intro]: "keeps_cache I f \<Longrightarrow> keeps_cache I (in_object f name)"
  by (rule keepsI) (auto simp: in_object_def intro!: post_step [OF keepsD] split: option.split json_value.split)

lemma keeps_each: "keeps_cache I f \<Longrightarrow> I (snd st) \<Longrightarrow> post (each_object f vs st) (\<lambda>(vs', st'). I (snd st'))"
proof (induction vs arbitrary: st)
  case (Cons v vs)
  have "post (case v of JObject ms \<Rightarrow> bindE (f ms st) (\<lambda>(ms', st'). Inr (JObject ms', st')) | _ \<Rightarrow> Inr (v, st)) (\<lambda>(v', st'). I (snd st'))"
    using Cons.prems by (cases v) (auto intro!: post_step [OF keepsD])
  then show ?case unfolding each_object.simps
    by (rule post_step) (auto intro!: post_step [OF Cons.IH [OF Cons.prems(1)]])
qed simp

lemma keeps_in_array [intro]: "keeps_cache I f \<Longrightarrow> keeps_cache I (in_array f name)"
  by (rule keepsI) (auto simp: in_array_def intro!: post_step [OF keeps_each] split: option.split json_value.split)

lemma keeps_if: "keeps_cache I f \<Longrightarrow> keeps_cache I g \<Longrightarrow> keeps_cache I (\<lambda>ms. if P ms then f ms else g ms)"
  unfolding keeps_cache_def by simp

lemma keeps_in_map:
  "(\<And>a. keeps_cache I (rel a)) \<Longrightarrow> keeps_cache I (populate_in_map rel fds)"
  "(\<And>a. keeps_cache I (rel a)) \<Longrightarrow> keeps_cache I (populate_in_map_tabs rel ts)"
  "(\<And>a. keeps_cache I (rel a)) \<Longrightarrow> keeps_cache I (populate_block rel bs)"
proof (induction rel fds and rel ts and rel bs rule: populate_in_map_populate_in_map_tabs_populate_block.induct)
  case (6 rel bt sub bs)
  show ?case
  proof (cases "\<exists>ms. bt = map_block_type ms"; cases "\<exists>ms. bt \<noteq> map_block_type ms")
  qed (use 6 in \<open>auto intro!: keeps_if\<close>)
qed auto

lemma keeps_containers:
  "(\<And>a. keeps_cache I (rel a)) \<Longrightarrow> keeps_cache I (populate_containers rel fds)"
  "(\<And>a. keeps_cache I (rel a)) \<Longrightarrow> keeps_cache I (populate_containers_tabs rel ts)"
proof (induction rel fds and rel ts rule: populate_containers_populate_containers_tabs.induct)
qed (auto intro!: keeps_and_then keeps_in_object keeps_in_array keeps_in_map)

section \<open>What a cache promises\<close>

text \<open>
  A cache with the invariant \<open>I\<close> promises \<open>H col i d\<close> of every document \<open>d\<close> shown for the reference to
  \<open>i\<close> of \<open>col\<close>.  A document of a collection that is not in its trash may be stored under its own id.
\<close>

definition lives :: "target \<Rightarrow> string \<Rightarrow> bool" where
  "lives t i \<longleftrightarrow> (\<exists>r \<in> set (ds_rows (tg_store t)). fr_id r = i \<and> \<not> is_deleted (tg_def t) r)"

definition names_living :: "target \<Rightarrow> string \<Rightarrow> document \<Rightarrow> bool" where
  "names_living t i d \<longleftrightarrow> doc_id d = i \<and> lives t i"

definition names_ref :: "populate_env \<Rightarrow> string \<times> string \<Rightarrow> document \<Rightarrow> bool" where
  "names_ref env ci d \<longleftrightarrow> (\<exists>t. pe_collections env (fst ci) = Some t \<and> names_living t (snd ci) d)"

locale cache_invariant =
  fixes env :: populate_env and I :: "cache \<Rightarrow> bool" and H :: "string \<Rightarrow> string \<Rightarrow> document \<Rightarrow> bool"
  assumes hit: "I c \<Longrightarrow> cache_get c (cache_key env col i) = Some d \<Longrightarrow> H col i d"
    and stored: "I c \<Longrightarrow> pe_collections env col = Some t \<Longrightarrow> lives t (doc_id d)
      \<Longrightarrow> I (cache_set c (cache_key env col (doc_id d)) d)"
    and own: "pe_collections env col = Some t \<Longrightarrow> lives t (doc_id d) \<Longrightarrow> H col (doc_id d) d"

definition shown :: "(string \<Rightarrow> string \<Rightarrow> document \<Rightarrow> bool) \<Rightarrow> string \<Rightarrow> string \<Rightarrow> json_value \<Rightarrow> bool" where
  "shown H col i v \<longleftrightarrow> (\<exists>d. v = document_to_json d col \<and> H col i d)"

lemma shownI: "H col i d \<Longrightarrow> shown H col i (document_to_json d col)"
  unfolding shown_def by blast

lemma doc_id_sized [simp]: "doc_id (sized t d) = doc_id d"
  by (simp add: sized_def assemble_sizes_object_def Let_def split: option.split prod.split)

lemma found_document_names: "find_document_by_id env t i = Inr (Some d) \<Longrightarrow> names_living t i d"
proof -
  assume "find_document_by_id env t i = Inr (Some d)"
  then obtain e where e: "find_by_id_raw (pe_base64 env) (tg_def t) (pe_locale env) False i (ds_rows (tg_store t)) = Inr (Some e)"
    and d: "doc_id d = doc_id e"
    by (auto simp: find_document_by_id_def result_simps)
  from e obtain cols r where r: "find (\<lambda>r. fr_id r = i \<and> \<not> is_deleted (tg_def t) r) (ds_rows (tg_store t)) = Some r"
    and doc: "raw_document (pe_base64 env) (tg_def t) (pe_locale env) cols r = Inr e"
    unfolding find_by_id_raw_def bindE_Inr_iff
    by (cases "find (\<lambda>r. fr_id r = i \<and> \<not> is_deleted (tg_def t) r) (ds_rows (tg_store t))") (auto simp: result_simps)
  from r have "r \<in> set (ds_rows (tg_store t)) \<and> fr_id r = i \<and> \<not> is_deleted (tg_def t) r"
    by (rule found_row)
  then show ?thesis using raw_document_id [OF doc] d by (auto simp: names_living_def lives_def)
qed

lemma distribute_ids: "map doc_id (distribute n g docs) = map doc_id docs"
  by (induction docs arbitrary: g) (simp_all add: Let_def split: option.split)

lemma hydrate_documents_ids:
  "map doc_id (hydrate_documents env lx T select fs docs) = map doc_id docs"
  "map doc_id (hydrate_documents_tabs env lx T select ts docs) = map doc_id docs"
proof (induction env lx T select fs docs and env lx T select ts docs rule: hydrate_documents_hydrate_documents_tabs.induct)
  case (2 env lx T select a sub tabs blocks fs docs)
  then show ?case by (cases "fa_type a") (simp_all add: hydrate_relationship_batch_def distribute_ids comp_def is_ref_type_def)
qed simp_all

lemma read_documents_live:
  assumes "find_by_ids env t ids = Inr docs" "d \<in> set docs"
  shows "lives t (doc_id d)"
proof -
  have "ids \<noteq> []" using assms by (cases ids) (simp_all add: find_by_ids_def)
  with assms(1) obtain cols raw where
    raw: "collect_all (\<lambda>r. bindE (raw_document (pe_base64 env) (tg_def t) (pe_locale env) cols r) (\<lambda>d. Inr [d]))
        (filter (\<lambda>r. fr_id r \<in> set ids \<and> \<not> is_deleted (tg_def t) r) (ds_rows (tg_store t))) = Inr raw"
    and "Inr (hydrate_documents (pe_join env) (pe_locale env) (ds_joins (tg_store t)) None (ci_fields (tg_def t)) raw) = (Inr docs :: write_error + document list)"
    unfolding find_by_ids_def bindE_Inr_iff if_not_P [OF \<open>ids \<noteq> []\<close>] by blast
  then have docs: "docs = hydrate_documents (pe_join env) (pe_locale env) (ds_joins (tg_store t)) None (ci_fields (tg_def t)) raw" by simp
  have "doc_id d \<in> set (map doc_id docs)" using assms(2) by simp
  then have "doc_id d \<in> set (map doc_id raw)" unfolding docs hydrate_documents_ids(1) .
  then obtain e where "e \<in> set raw" "doc_id e = doc_id d" by auto
  moreover from collect_all_set [OF raw \<open>e \<in> set raw\<close>] obtain r where
    "r \<in> set (ds_rows (tg_store t))" "\<not> is_deleted (tg_def t) r" "raw_document (pe_base64 env) (tg_def t) (pe_locale env) cols r = Inr e"
    by (auto simp: bindE_Inr_iff)
  ultimately show ?thesis unfolding lives_def using raw_document_id by metis
qed

lemma by_id_names: "find_by_ids env t ids = Inr docs \<Longrightarrow> by_id docs i = Some d \<Longrightarrow> names_living t i d"
  by (auto simp: by_id_def names_living_def dest!: map_of_SomeD intro: read_documents_live)

text \<open>A call of the recursion keeps the promise and the id of the document.\<close>

locale level = cache_invariant +
  fixes rec :: populator and k :: int
  assumes call: "depth < k \<Longrightarrow> I (snd st) \<Longrightarrow> post (rec col t access depth d st) (\<lambda>(d', st'). doc_id d' = doc_id d \<and> I (snd st'))"
begin

lemma expand_post:
  assumes "depth \<le> k" "I (snd st)" "pe_collections env col = Some t" "names_living t i d"
  shows "post (expand env rec col t depth i d st) (\<lambda>(v, st'). shown H col i v \<and> I (snd st'))"
proof -
  have "post (rec col t None (depth - 1) (sized t d) st) (\<lambda>(d', st'). doc_id d' = i \<and> I (snd st'))"
    using call [of "depth - 1" st col t None "sized t d"] assms by (simp add: names_living_def)
  then show ?thesis
    unfolding expand_def
    by (rule post_step) (use stored [OF _ assms(3)] own [OF assms(3)] assms(4) [unfolded names_living_def] in \<open>fastforce simp: shownI split: prod.split\<close>)
qed

lemma load_post:
  assumes "depth \<le> k" "I (snd st)" "pe_collections env col = Some t"
  shows "post (load_and_expand env rec col t depth i st) (\<lambda>(v, st'). (\<forall>w. v = Some w \<longrightarrow> shown H col i w) \<and> I (snd st'))"
proof (cases "cache_get (snd st) (cache_key env col i)")
  case (Some d)
  then show ?thesis using hit [OF assms(2) Some] assms(2)
    by (auto simp: load_and_expand_def cache_or_fetch_doc_def shownI split: prod.split)
next
  case None
  define fetched where "fetched = (case find_document_by_id env t i of Inr d \<Rightarrow> d | Inl e \<Rightarrow> None)"
  show ?thesis
  proof (cases fetched)
    case None
    with \<open>cache_get _ _ = None\<close> assms(2) show ?thesis
      unfolding load_and_expand_def fetched_def [symmetric] by (simp add: cache_or_fetch_doc_def split_beta)
  next
    case (Some d)
    then have i: "names_living t i d" by (auto simp: fetched_def split: sum.splits dest: found_document_names)
    have "I (snd (fst st, cache_set (snd st) (cache_key env col i) d))"
      using stored [OF assms(2,3), of d] i by (auto simp: names_living_def)
    from expand_post [OF assms(1) this assms(3) i]
    have "post (expand env rec col t depth i d (fst st, cache_set (snd st) (cache_key env col i) d))
      (\<lambda>(v, st'). shown H col i v \<and> I (snd st'))" .
    with \<open>cache_get _ _ = None\<close> Some show ?thesis
      unfolding load_and_expand_def fetched_def [symmetric]
      by (auto simp: cache_or_fetch_doc_def split_beta intro!: post_step)
  qed
qed

lemma nonpoly_post:
  assumes "depth \<le> k" "pe_collections env col = Some t"
  shows "I (snd st) \<Longrightarrow> (\<And>i d. fetched i = Some d \<Longrightarrow> names_living t i d)
    \<Longrightarrow> post (nonpoly_items env rec depth col t fetched ids st) (\<lambda>(vs, st'). I (snd st'))"
proof (induction ids arbitrary: fetched st)
  case (Cons i ids)
  show ?case
  proof (cases "fetched i")
    case None
    then show ?thesis using Cons by (auto intro!: post_step [OF Cons.IH] split: option.split)
  next
    case (Some d)
    have "post (expand env rec col t depth i d st) (\<lambda>(v, st'). I (snd st'))"
      by (rule post_mono [OF expand_post [OF assms(1) Cons.prems(1) assms(2) Cons.prems(2) [OF Some]]]) auto
    moreover have "(fetched(i := None)) j = Some e \<Longrightarrow> names_living t j e" for j e
      using Cons.prems(2) by (auto split: if_splits)
    ultimately show ?thesis using Cons Some
      by (auto intro!: post_step [OF Cons.IH] post_step [OF \<open>post (expand _ _ _ _ _ _ _ _) _\<close>] split: option.split)
  qed
qed simp

lemma poly_post:
  assumes "depth \<le> k"
  shows "I (snd st) \<Longrightarrow> (\<And>ci d. fetched ci = Some d \<Longrightarrow> names_ref env ci d)
    \<Longrightarrow> post (poly_items env rec depth cols items fetched st) (\<lambda>(vs, st'). I (snd st'))"
proof (induction items arbitrary: fetched st)
  case (Cons item items)
  have named: "names_living t (doc_id d) d" if "fetched (col, i) = Some d" "pe_collections env col = Some t" for col i d t
    using Cons.prems(2) [OF that(1)] that(2) by (auto simp: names_ref_def names_living_def)
  have "post (resolve_poly_item env rec depth cols item fetched st)
      (\<lambda>((v, fetched'), st'). I (snd st') \<and> (\<forall>ci d. fetched' ci = Some d \<longrightarrow> names_ref env ci d))"
    using Cons.prems named
    by (auto simp: resolve_poly_item_def known_ref_def intro!: post_step [OF expand_post [OF assms Cons.prems(1)]]
        split: option.split prod.split if_splits)
  then show ?case unfolding poly_items.simps
    by (rule post_step) (auto intro!: post_step [OF Cons.IH])
qed simp

lemma items_post:
  assumes "depth \<le> k" "\<And>item col i t. resolve item = Some (col, i, t) \<Longrightarrow> pe_collections env col = Some t"
  shows "I (snd st) \<Longrightarrow> post (items_in_map env rec depth resolve items st) (\<lambda>(vs, st'). I (snd st'))"
proof (induction items arbitrary: st)
  case (Cons item items)
  have "post (case resolve item of
              None \<Rightarrow> Inr (None, st)
            | Some (col, i, t) \<Rightarrow> if (col, i) \<in> set (fst st) then Inr (None, st) else load_and_expand env rec col t depth i st)
       (\<lambda>(v, st'). I (snd st'))"
    using Cons.prems assms by (auto intro!: post_mono [OF load_post] split: option.split prod.split)
  then show ?case unfolding items_in_map.simps
    by (rule post_step) (auto intro!: post_step [OF Cons.IH])
qed simp

lemma one_post:
  assumes "depth \<le> k" "I (snd st)" "pe_collections env col = Some t"
  shows "post (populate_one in_map env rec depth name col t i ms st) (\<lambda>(ms', st'). I (snd st') \<and>
    (map_of ms' name \<in> {map_of ms name, Some JNull} \<or> (\<exists>v. map_of ms' name = Some v \<and> shown H col i v)))"
  using assms
  by (auto simp: populate_one_def map_of_json_put intro!: post_step [OF load_post] split: option.split)

lemma one_keeps: "depth \<le> k \<Longrightarrow> pe_collections env col = Some t \<Longrightarrow> keeps_cache I (populate_one in_map env rec depth name col t i)"
  by (rule keepsI, rule post_mono [OF one_post]) auto

lemma has_one_keeps:
  "depth \<le> k \<Longrightarrow> pe_collections env col = Some t \<Longrightarrow> keeps_cache I (populate_has_one in_map env rec depth name col t)"
  "depth \<le> k \<Longrightarrow> keeps_cache I (populate_poly_has_one in_map env rec depth name)"
  by (rule keepsI; auto simp: populate_has_one_def populate_poly_has_one_def known_ref_def intro!: keepsD [OF one_keeps]
      split: option.split json_value.split)+

lemma fetched_names:
  "fetch_collections env refs cols = Inr (f, rc) \<Longrightarrow> f ci = Some e \<Longrightarrow> names_ref env ci e"
  by (induction cols arbitrary: f rc)
    (auto simp: result_simps names_ref_def dest: by_id_names split: option.splits if_splits prod.splits)

lemma has_many_keeps:
  assumes "depth \<le> k"
  shows "pe_collections env col = Some t \<Longrightarrow> keeps_cache I (populate_nonpoly_has_many env rec depth name col t)"
    and "keeps_cache I (populate_poly_has_many env rec depth name)"
    and "(\<And>item col i t. resolve item = Some (col, i, t) \<Longrightarrow> pe_collections env col = Some t)
      \<Longrightarrow> keeps_cache I (populate_has_many_in_map env rec depth name resolve)"
proof -
  show "keeps_cache I (populate_nonpoly_has_many env rec depth name col t)" if "pe_collections env col = Some t"
  proof (rule keepsI)
    fix ms and st :: populate_state assume st: "I (snd st)"
    have read: "post (lift_read (find_by_ids env t ids)) (\<lambda>docs. \<exists>ids. find_by_ids env t ids = Inr docs)" for ids by auto
    have items: "find_by_ids env t rs = Inr docs \<Longrightarrow> post (nonpoly_items env rec depth col t (by_id docs) ids st) (\<lambda>(vs, st'). I (snd st'))"
      for rs docs ids
      using assms that st by (rule nonpoly_post) (rule by_id_names)
    show "post (populate_nonpoly_has_many env rec depth name col t ms st) (\<lambda>(r, st'). I (snd st'))"
      using st by (auto simp: populate_nonpoly_has_many_def intro!: post_step [OF read] post_step [OF items] split: option.split)
  qed
  show "keeps_cache I (populate_poly_has_many env rec depth name)"
  proof (rule keepsI)
    fix ms and st :: populate_state assume st: "I (snd st)"
    have read: "post (lift_read (fetch_collections env refs cols)) (\<lambda>(f, rc). \<forall>ci e. f ci = Some e \<longrightarrow> names_ref env ci e)" for refs cols
      using fetched_names [of refs cols] by auto
    show "post (populate_poly_has_many env rec depth name ms st) (\<lambda>(r, st'). I (snd st'))"
      using st by (auto simp: populate_poly_has_many_def Let_def intro!: post_step [OF read] post_step [OF poly_post [OF assms]] split: option.split)
  qed
  show "keeps_cache I (populate_has_many_in_map env rec depth name resolve)"
    if "\<And>item col i t. resolve item = Some (col, i, t) \<Longrightarrow> pe_collections env col = Some t"
  proof (rule keepsI)
    fix ms and st :: populate_state assume st: "I (snd st)"
    have items: "post (items_in_map env rec depth resolve items st) (\<lambda>(vs, st'). I (snd st'))" for items
      using assms that st by (rule items_post)
    show "post (populate_has_many_in_map env rec depth name resolve ms st) (\<lambda>(r, st'). I (snd st'))"
      using st by (auto simp: populate_has_many_in_map_def intro!: post_step [OF items] split: option.split)
  qed
qed

lemma known_ref_collection: "known_ref env item = Some (col, i, t) \<Longrightarrow> pe_collections env col = Some t"
  by (auto simp: known_ref_def split: option.splits)

lemma reference_keeps:
  assumes "depth \<le> k"
  shows "keeps_cache I (populate_reference env rec depth a)" "keeps_cache I (populate_rel_in_map env rec depth a)"
proof -
  have d: "effective_depth rc depth \<le> k" for rc using effective_depth_le assms by (rule order_trans)
  note kept = has_one_keeps [OF d] has_many_keeps [OF d] known_ref_collection
  show "keeps_cache I (populate_reference env rec depth a)"
    by (rule keepsI) (auto simp: populate_reference_def Let_def intro!: keepsD [OF kept(1)] keepsD [OF kept(2)] keepsD [OF kept(3)]
        keepsD [OF kept(4)] split: option.split)
  show "keeps_cache I (populate_rel_in_map env rec depth a)"
    by (rule keepsI) (auto simp: populate_rel_in_map_def Let_def intro!: keepsD [OF kept(1)] keepsD [OF kept(2)] keepsD [OF kept(5)]
        intro: kept(6) split: option.split)
qed

lemma flat_keeps: "depth \<le> k \<Longrightarrow> keeps_cache I (populate_flat env rec select depth fs)"
proof (induction fs)
  case Nil
  show ?case by (rule keepsI) simp
next
  case (Cons f fs)
  have "populate_flat env rec select depth (f # fs) = and_then
      (if is_ref_type (fa_type (fd_attrs f)) \<and> is_selected select (fa_name (fd_attrs f))
       then populate_reference env rec depth (fd_attrs f) else unchanged) (populate_flat env rec select depth fs)"
    by (intro ext) (simp add: and_then_def unchanged_def)
  then show ?case using Cons reference_keeps(1) by auto
qed

lemma joined_post: "depth \<le> k \<Longrightarrow> I (snd st) \<Longrightarrow> post (joined_documents env rec col t access depth ds st) (\<lambda>(vs, st'). I (snd st'))"
proof (induction ds arbitrary: st)
  case (Cons d ds)
  have "depth - 1 < k" using Cons.prems by simp
  then show ?case unfolding joined_documents.simps
    by (rule post_step [OF call]) (use Cons.prems in \<open>auto intro!: post_step [OF Cons.IH]\<close>)
qed simp

lemma join_docs_post:
  "depth \<le> k \<Longrightarrow> I (snd st) \<Longrightarrow> post (populate_join_docs env rec access depth i jc t st) (\<lambda>(vs, st'). I (snd st'))"
  by (auto simp: populate_join_docs_def Let_def intro!: joined_post split: option.split sum.split access_result.split)

lemma join_fields_keeps: "depth \<le> k \<Longrightarrow> keeps_cache I (populate_join_fields env rec select access depth i fs)"
proof (induction fs)
  case Nil
  show ?case by (rule keepsI) simp
next
  case (Cons f fs)
  let ?one = "\<lambda>ms st. let a = fd_attrs f
            in if fa_type a \<noteq> Join \<or> \<not> is_selected select (fa_name a) then Inr (ms, st)
               else (case fa_join a of
                       None \<Rightarrow> Inr (ms, st)
                     | Some jc \<Rightarrow>
                         (case pe_collections env (fst jc) of
                            None \<Rightarrow> Inr (ms, st)
                          | Some t \<Rightarrow>
                              bindE (populate_join_docs env rec access depth i jc t st) (\<lambda>(vs, st').
                                Inr (json_put (fa_name a) (JArray vs) ms, st'))))"
  have "populate_join_fields env rec select access depth i (f # fs) = and_then ?one (populate_join_fields env rec select access depth i fs)"
    by (intro ext) (simp add: and_then_def)
  moreover have "keeps_cache I ?one"
    by (rule keepsI) (auto simp: Let_def intro!: post_step [OF join_docs_post [OF Cons.prems]] split: option.split)
  ultimately show ?case using Cons by auto
qed

lemma step_post:
  assumes "depth \<le> k" "I (snd st)"
  shows "post (populate_step env rec slug t access select depth d st) (\<lambda>(d', st'). doc_id d' = doc_id d \<and> I (snd st'))"
proof -
  let ?fds = "ci_fields (tg_def t)"
  have flat: "post (populate_flat env rec select depth (flatten_array_sub_fields ?fds) (doc_fields d) ((slug, doc_id d) # fst st, snd st))
      (\<lambda>(r, st'). I (snd st'))"
    using keepsD [OF flat_keeps [OF assms(1)]] assms(2) by simp
  have "keeps_cache I (populate_containers (populate_rel_in_map env rec depth) ?fds)"
    by (rule keeps_containers) (rule reference_keeps(2) [OF assms(1)])
  then show ?thesis
    unfolding populate_step_def Let_def
    using assms(2)
    by (auto intro!: post_step [OF flat] post_step [OF keepsD, of I "populate_containers (populate_rel_in_map env rec depth) ?fds"]
        post_step [OF keepsD [OF join_fields_keeps [OF assms(1)]]])
qed

end

context cache_invariant
begin

lemma upto_level: "level env I H (next_level env n) (int n + 1)"
proof (induction n)
  case 0
  show ?case by unfold_locales simp
next
  case (Suc n)
  show ?case
    by unfold_locales (simp, rule level.step_post [OF Suc]; simp)
qed

end

section \<open>Every cache and the caches of one's own documents\<close>

text \<open>A cache that holds, under their own ids alone, documents that are there: no write has left it stale.\<close>

definition slugs_plain :: "populate_env \<Rightarrow> bool" where
  "slugs_plain env \<longleftrightarrow> (\<forall>col. pe_collections env col \<noteq> None \<longrightarrow> CHR '':'' \<notin> set col)"

definition own_entries :: "populate_env \<Rightarrow> cache \<Rightarrow> bool" where
  "own_entries env c \<longleftrightarrow>
     (\<forall>k d. cache_get c k = Some d \<longrightarrow> (\<exists>col t. pe_collections env col = Some t \<and> lives t (doc_id d) \<and> k = cache_key env col (doc_id d)))"

lemma map_of_other: "map_of (filter (\<lambda>(k', d'). k' \<noteq> k) es) j = (if j = k then None else map_of es j)"
  by (induction es) auto

lemma cache_get_set: "cache_get (cache_set c k d) j = Some e \<Longrightarrow> j = k \<and> e = d \<or> cache_get c j = Some e"
  by (auto simp: cache_get_def cache_set_def map_of_other split: cache.splits if_splits)

lemma own_entries_set:
  "own_entries env c \<Longrightarrow> pe_collections env col = Some t \<Longrightarrow> lives t (doc_id d) \<Longrightarrow> own_entries env (cache_set c (cache_key env col (doc_id d)) d)"
  unfolding own_entries_def by (metis cache_get_set option.distinct(1))

lemma own_entries_empty: "own_entries env NoneCache" "own_entries env (MemoryCache n [])"
  by (simp_all add: own_entries_def cache_get_def)

lemma cache_key_inject:
  assumes "cache_key env col i = cache_key env col' i'" "CHR '':'' \<notin> set col" "CHR '':'' \<notin> set col'"
  shows "col = col' \<and> i = i'"
proof -
  have eq: "col @ CHR '':'' # i = col' @ CHR '':'' # i'"
    using assms(1) by (simp add: cache_key_def populate_cache_key_def)
  have "split_once (CHR '':'') (col @ CHR '':'' # i) = Some (col, i)" "split_once (CHR '':'') (col' @ CHR '':'' # i') = Some (col', i')"
    using assms(2,3) by (simp_all only: split_once_Some) simp_all
  then show ?thesis unfolding eq by simp
qed

interpretation any_cache: cache_invariant env "\<lambda>c. True" "\<lambda>col i d. True" for env
  by unfold_locales simp_all

interpretation own_cache: cache_invariant env "\<lambda>c. slugs_plain env \<longrightarrow> own_entries env c"
    "\<lambda>col i d. slugs_plain env \<longrightarrow> CHR '':'' \<notin> set col \<longrightarrow> (\<exists>t. pe_collections env col = Some t \<and> names_living t i d)" for env
proof unfold_locales
  fix c col i d assume "slugs_plain env \<longrightarrow> own_entries env c" "cache_get c (cache_key env col i) = Some d"
  then show "slugs_plain env \<longrightarrow> CHR '':'' \<notin> set col \<longrightarrow> (\<exists>t. pe_collections env col = Some t \<and> names_living t i d)"
    unfolding own_entries_def slugs_plain_def names_living_def using cache_key_inject
    by (metis option.distinct(1))
qed (auto simp: own_entries_set names_living_def)

interpretation any_level: level env "\<lambda>c. True" "\<lambda>col i d. True" "next_level env n" "int n + 1" for env n
  by (rule any_cache.upto_level)

interpretation own_level: level env "\<lambda>c. slugs_plain env \<longrightarrow> own_entries env c"
    "\<lambda>col i d. slugs_plain env \<longrightarrow> CHR '':'' \<notin> set col \<longrightarrow> (\<exists>t. pe_collections env col = Some t \<and> names_living t i d)" "next_level env n" "int n + 1" for env n
  by (rule own_cache.upto_level)

section \<open>Population ends\<close>

text \<open>A reference one level down, as the code calls itself.\<close>

definition references_of :: "populate_env \<Rightarrow> populator" where
  "references_of env slug t access depth = populate_relationships env slug t access None depth"

lemma agree_references: "depth \<le> int n + 1 \<Longrightarrow> agree depth (references_of env) (next_level env n)"
  unfolding agree_def references_of_def populate_relationships_def by (auto intro!: ext enough_fuel)

text \<open>
  C8: Populating a document ends, however its references lead around: the levels of the recursion, as
  many as the depth asks for, suffice at every depth for the equation of the recursive function, in
  which each call is one level less deep.
\<close>

theorem population_ends:
  "populate_relationships env slug t access select depth d st = populate_step env (references_of env) slug t access select depth d st
   \<and> populate_relationships env slug t access select depth d st \<noteq> Inl OutOfFuel"
proof -
  have "populate_relationships env slug t access select depth d st = populate_upto env (Suc (nat depth)) slug t access select depth d st"
    unfolding populate_relationships_def by (rule enough_fuel) simp_all
  also have step: "\<dots> = populate_step env (references_of env) slug t access select depth d st"
    unfolding populate_upto.simps by (rule step_cong [symmetric], rule agree_references) simp
  finally have eq: "populate_relationships env slug t access select depth d st
      = populate_step env (references_of env) slug t access select depth d st" .
  have "post (populate_step env (next_level env (nat depth)) slug t access select depth d st) (\<lambda>(d', st'). doc_id d' = doc_id d \<and> True)"
    by (rule any_level.step_post) simp_all
  then show ?thesis using eq step by (simp add: post_def)
qed

section \<open>What replaces a reference\<close>


section \<open>Posts and users\<close>

definition user_ref :: "string \<Rightarrow> field_definition" where
  "user_ref name = FieldDefinition ((new_attrs name Relationship)
     \<lparr>fa_relationship := Some \<lparr>rc_collection = ''users'', rc_has_many = False, rc_polymorphic = [], rc_max_depth = None\<rparr>\<rparr>) [] [] []"

definition small_def :: "string \<Rightarrow> field_definition list \<Rightarrow> auth_collection" where
  "small_def slug fds = \<lparr>ci_timestamps = False, ci_has_drafts = False, ci_fields = fds, ac_slug = slug, ac_soft_delete = False, ac_auth = None\<rparr>"

definition users_target :: target where
  "users_target =
     \<lparr>tg_def = small_def ''users'' [user_ref ''boss''], tg_upload = None,
      tg_store = \<lparr>ds_rows = [\<lparr>fr_id = ''u1'', fr_cols = [(''boss'', DText ''u2'')]\<rparr>, \<lparr>fr_id = ''u2'', fr_cols = [(''boss'', DNull)]\<rparr>],
        ds_joins = \<lambda>k. [], ds_versions = []\<rparr>\<rparr>"

definition posts_target :: target where
  "posts_target =
     \<lparr>tg_def = small_def ''posts'' [user_ref ''author'', user_ref ''editor'', FieldDefinition (new_attrs ''meta'' Group) [user_ref ''by''] [] []],
      tg_upload = None, tg_store = \<lparr>ds_rows = [], ds_joins = \<lambda>k. [], ds_versions = []\<rparr>\<rparr>"

definition site :: populate_env where
  "site =
     \<lparr>pe_collections = \<lambda>c. if c = ''users'' then Some users_target else if c = ''posts'' then Some posts_target else None,
      pe_join = JoinTables.plain_env, pe_base64 = \<lambda>b. b, pe_locale = None, pe_dates = no_dates, pe_num_text = \<lambda>v. [],
      pe_json_values = \<lambda>js e r. []\<rparr>"

definition sample_post :: document where
  "sample_post = \<lparr>doc_id = ''p1'', doc_created_at = None, doc_updated_at = None,
     doc_fields = [(''author'', JString ''u1''), (''editor'', JString ''u1''), (''meta'', JObject [(''by'', JString ''u9'')])]\<rparr>"

definition populated :: "int \<Rightarrow> cache \<Rightarrow> document_fields \<Rightarrow> (document_fields \<times> cache) option" where
  "populated depth c ms =
     (case populate_relationships site ''posts'' posts_target None None depth (sample_post\<lparr>doc_fields := ms\<rparr>) ([], c) of
        Inl e \<Rightarrow> None | Inr (d, st) \<Rightarrow> Some (doc_fields d, snd st))"

text \<open>Of two references to the same user the second is expanded at depth one, but not at depth two.\<close>

lemma second_reference_not_expanded:
  "map_option (\<lambda>r. map_of (fst r) ''editor'') (populated 2 NoneCache (doc_fields sample_post)) = Some (Some (JString ''u1''))"
  "map_option (\<lambda>r. map_of (fst r) ''editor'') (populated 1 NoneCache (doc_fields sample_post))
     \<noteq> Some (Some (JString ''u1''))"
  by code_simp+

text \<open>The cache knows no depths: a request of depth one decides what one of depth two shows.\<close>

definition boss_shown :: "(document_fields \<times> cache) option \<Rightarrow> json_value option option" where
  "boss_shown r = map_option (\<lambda>r. case map_of (fst r) ''author'' of Some (JObject u) \<Rightarrow> map_of u ''boss'' | _ \<Rightarrow> None) r"

lemma cache_ignores_depth:
  "boss_shown (populated 2 (snd (the (populated 1 (MemoryCache 9 []) (doc_fields sample_post)))) (doc_fields sample_post))
     = Some (Some (JString ''u2''))"
  "boss_shown (populated 2 (MemoryCache 9 []) (doc_fields sample_post)) \<noteq> Some (Some (JString ''u2''))"
  "boss_shown (populated 1 (snd (the (populated 2 (MemoryCache 9 []) (doc_fields sample_post)))) (doc_fields sample_post))
     \<noteq> Some (Some (JString ''u2''))"
  by code_simp+

text \<open>A document that is not there is null in a field of the document and its id in a field of a group.\<close>

lemma missing_document_in_group:
  "map_option (\<lambda>r. map_of (fst r) ''meta'') (populated 1 NoneCache (doc_fields sample_post)) = Some (Some (JObject [(''by'', JString ''u9'')]))"
  "map_option (\<lambda>r. map_of (fst r) ''author'') (populated 1 NoneCache [(''author'', JString ''u9'')]) = Some (Some JNull)"
  by code_simp+

text \<open>A field of the document takes the place of the collection it is shown with.\<close>

lemma field_replaces_collection:
  "document_to_json \<lparr>doc_id = ''u1'', doc_created_at = None, doc_updated_at = None, doc_fields = [(''collection'', JString ''x'')]\<rparr> ''users''
     = JObject [(''collection'', JString ''x''), (''id'', JString ''u1'')]"
  by code_simp

lemma author_populated:
  "\<not> isl (populate_reference site (references_of site) 1 (fd_attrs (user_ref ''author'')) (doc_fields sample_post) ([], MemoryCache 9 []))"
  by code_simp


end
