(* ===== verification/ReadProperties.thy ===== *)
theory ReadProperties
  imports ReadService PopulateProperties
begin

text \<open>
  What the constraints of an access hook decide about the document that is read, where they decide
  nothing, and what a reader does not see.
\<close>

section \<open>Rows a constrained read finds\<close>

lemma collected_docs: "collect_all (\<lambda>r. bindE (f r) (\<lambda>d. Inr [d])) xs = Inr ds \<Longrightarrow> ds = [] \<longleftrightarrow> xs = []"
  by (cases xs) (auto simp: bindE_Inr_iff)

lemma find_matching_nonempty:
  assumes "find_matching env t incl filters = Some docs" "pe_locale env = None"
  shows "docs \<noteq> [] \<longleftrightarrow> (\<exists>r \<in> set (ds_rows (tg_store t)). (incl \<or> \<not> is_deleted (tg_def t) r) \<and>
      list_all (clause_holds (filter_holds (build_filter_sql (pe_dates env) (ac_slug (tg_def t)) (ci_fields (tg_def t)) None)
        (store_where (pe_num_text env) (pe_json_values env) (ac_slug (tg_def t)) (ds_joins (tg_store t))) r)) filters)"
proof -
  from assms obtain w cols where w: "build_where_clause (pe_dates env) filters (ac_slug (tg_def t)) (ci_fields (tg_def t)) None = Inr w"
    and docs: "\<exists>xs. collect_all (\<lambda>r. bindE (raw_document (pe_base64 env) (tg_def t) None cols r) (\<lambda>d. Inr [d])) xs = Inr docs
      \<and> set xs = {r \<in> set (ds_rows (tg_store t)). selects (store_where (pe_num_text env) (pe_json_values env) (ac_slug (tg_def t)) (ds_joins (tg_store t))) r w
           \<and> (incl \<or> \<not> is_deleted (tg_def t) r)}"
    unfolding find_matching_def
    by (auto simp: Let_def resolve_filters_default split: prod.splits if_splits option.splits sum.splits) fastforce
  from docs obtain xs where "docs = [] \<longleftrightarrow> xs = []"
    and xs: "set xs = {r \<in> set (ds_rows (tg_store t)). selects (store_where (pe_num_text env) (pe_json_values env) (ac_slug (tg_def t)) (ds_joins (tg_store t))) r w
           \<and> (incl \<or> \<not> is_deleted (tg_def t) r)}"
    using collected_docs by blast
  then have "docs \<noteq> [] \<longleftrightarrow> (\<exists>r. r \<in> set xs)" by (cases xs) auto
  also have "\<dots> \<longleftrightarrow> (\<exists>r \<in> set (ds_rows (tg_store t)). (incl \<or> \<not> is_deleted (tg_def t) r) \<and>
      selects (store_where (pe_num_text env) (pe_json_values env) (ac_slug (tg_def t)) (ds_joins (tg_store t))) r w)"
    unfolding xs mem_Collect_eq by blast
  finally show ?thesis unfolding where_clause_holds [OF w] .
qed

lemma read_row_exact:
  assumes "read_row env t i (Some filters) incl = Inr found" "pe_locale env = None"
    and "lookup_column_field_type ''id'' (ci_fields (tg_def t)) = None"
  shows "found \<noteq> None \<longleftrightarrow> (\<exists>r \<in> set (ds_rows (tg_store t)). fr_id r = i \<and> (incl \<or> \<not> is_deleted (tg_def t) r) \<and>
      list_all (clause_holds (filter_holds (build_filter_sql (pe_dates env) (ac_slug (tg_def t)) (ci_fields (tg_def t)) None)
        (store_where (pe_num_text env) (pe_json_values env) (ac_slug (tg_def t)) (ds_joins (tg_store t))) r)) filters)"
proof -
  from assms(1) obtain docs where docs: "find_matching env t incl (filters @ [id_filter i]) = Some docs"
    and "found \<noteq> None \<longleftrightarrow> docs \<noteq> []"
    by (auto simp: read_row_def split: option.splits list.splits)
  then show ?thesis
    using find_matching_nonempty [OF docs assms(2)] by (auto simp: id_filter_holds [OF assms(3)])
qed

lemma service_found:
  assumes "service_find_by_id env hooks inp t c = Inr (r, c')"
  shows "\<exists>access constraints found. check_read_access hooks (ri_include_deleted inp) (ri_id inp) = Inr access \<and> access \<noteq> Denied
    \<and> read_constraints (tg_def t) inp access = Inr constraints
    \<and> find_by_id_full env t (ri_id inp) constraints (ri_use_draft inp) (ri_include_deleted inp) = Inr found
    \<and> (r = None \<longleftrightarrow> found = None)"
  using assms by (auto simp: service_find_by_id_def bindE_Inr_iff split: if_splits option.splits)


section \<open>A draft is read past access\<close>

lemma step_def_only: "tg_def t' = tg_def t \<Longrightarrow> populate_step env rec slug t' access select depth d st = populate_step env rec slug t access select depth d st"
  by (simp add: populate_step_def)

lemma populate_def_only:
  "tg_def t' = tg_def t \<Longrightarrow> populate_relationships env slug t' access select depth d st = populate_relationships env slug t access select depth d st"
  unfolding populate_relationships_def by (cases "nat depth") (simp_all add: step_def_only [of t' t])

definition rows_replaced :: "find_row list \<Rightarrow> target \<Rightarrow> target" where
  "rows_replaced rows t = t\<lparr>tg_store := (tg_store t)\<lparr>ds_rows := rows\<rparr>\<rparr>"

lemma rows_replaced_simps [simp]:
  "tg_def (rows_replaced rows t) = tg_def t" "tg_upload (rows_replaced rows t) = tg_upload t"
  "draft_document (rows_replaced rows t) i = draft_document t i"
  by (simp_all add: rows_replaced_def draft_document_def)

lemma post_process_rows: "post_process_single env hooks inp (rows_replaced rows t) d c = post_process_single env hooks inp t d c"
  by (simp add: post_process_single_def populate_answer_def populate_def_only [of "rows_replaced rows t" t] sized_def)

text \<open>
  C7: When the latest version of a document is a draft, a reader who asks for drafts gets that draft
  whatever clauses the access hook constrains the read to, and whether the document is one of others,
  in the trash or gone from the table: such a read is the one of a user who may read everything.
\<close>

theorem draft_read_ignores_constraints:
  assumes "draft_document t (ri_id inp) = Some d" "ri_use_draft inp" "ci_has_drafts (tg_def t)"
    and "validate_access_constraints extra (ri_include_deleted inp) False"
  shows "service_find_by_id env (hooks\<lparr>rh_access := \<lambda>trash i. Inr (Constrained extra)\<rparr>) inp t c
       = service_find_by_id env (hooks\<lparr>rh_access := \<lambda>trash i. Inr Allowed\<rparr>) inp (rows_replaced rows t) c"
proof -
  have post: "post_process_single env (hooks\<lparr>rh_access := f\<rparr>) inp t d c = post_process_single env hooks inp t d c" for f
  proof -
    have "check_join_access (hooks\<lparr>rh_access := f\<rparr>) = check_join_access hooks"
      by (intro ext) (simp add: check_join_access_def)
    then show ?thesis by (simp add: post_process_single_def populate_answer_def strip_read_def read_denied_def)
  qed
  show ?thesis
    using assms
    by (auto simp: service_find_by_id_def find_by_id_full_def check_read_access_def read_constraints_def bindE_def post post_process_rows
        split: option.split)
qed

section \<open>What a reader does not see\<close>


section \<open>Notes of several authors\<close>

definition drafts_def :: auth_collection where
  "drafts_def = notes_def\<lparr>ci_has_drafts := True\<rparr>"

definition drafted_row :: "string \<Rightarrow> string \<Rightarrow> string \<Rightarrow> find_row" where
  "drafted_row i author status =
     \<lparr>fr_id = i, fr_cols = [(''author'', DText author), (''_status'', DText status), (''_deleted_at'', DNull)]\<rparr>"

definition drafts_target :: target where
  "drafts_target =
     \<lparr>tg_def = drafts_def, tg_upload = None,
      tg_store = \<lparr>ds_rows = [drafted_row ''n1'' ''u2'' ''published'', drafted_row ''n2'' ''u1'' ''published'', drafted_row ''n3'' ''u1'' ''draft''],
        ds_joins = \<lambda>k. [],
        ds_versions = [\<lparr>vr_id = ''v1'', vr_parent = ''n1'', vr_version = 2, vr_status = ''draft'', vr_latest = True,
          vr_snapshot = JObject [(''author'', JString ''u2'')]\<rparr>]\<rparr>\<rparr>"

definition own_notes :: read_hooks where
  "own_notes = \<lparr>rh_override = False, rh_access = \<lambda>trash i. Inr (Constrained [own_filter]), rh_join = \<lambda>c. Inr Denied, rh_before = None,
     rh_fields = \<lparr>av_available = True, av_check = \<lambda>f. None\<rparr>, rh_after = \<lambda>d. d\<rparr>"

definition plain_read :: "string \<Rightarrow> bool \<Rightarrow> int \<Rightarrow> read_input" where
  "plain_read i draft depth = \<lparr>ri_id = i, ri_depth = depth, ri_select = None, ri_registry = True, ri_override = False, ri_use_draft = draft,
     ri_constraints = None, ri_include_deleted = False\<rparr>"

abbreviation read_note :: "string \<Rightarrow> bool \<Rightarrow> read_error + document option \<times> cache" where
  "read_note i draft \<equiv> service_find_by_id site own_notes (plain_read i draft 0) drafts_target NoneCache"

lemma notes_read:
  "\<not> isl (read_note ''n1'' False)" "\<not> isl (read_note ''n2'' False)"
  by code_simp+


theorem draft_read_ignores_constraints_witness:
  "read_note ''n1'' True = service_find_by_id site (own_notes\<lparr>rh_access := \<lambda>trash i. Inr Allowed\<rparr>) (plain_read ''n1'' True 0)
     (rows_replaced [] drafts_target) NoneCache
   \<and> read_note ''n1'' True = Inr (Some \<lparr>doc_id = ''n1'', doc_created_at = None, doc_updated_at = None, doc_fields = [(''author'', JString ''u2'')]\<rparr>, NoneCache)"
proof
  have own: "own_notes = own_notes\<lparr>rh_access := \<lambda>trash i. Inr (Constrained [own_filter])\<rparr>" by (simp add: own_notes_def)
  have "draft_document drafts_target ''n1'' \<noteq> None" "ci_has_drafts (tg_def drafts_target)" "validate_access_constraints [own_filter] False False"
    by code_simp+
  then show "read_note ''n1'' True = service_find_by_id site (own_notes\<lparr>rh_access := \<lambda>trash i. Inr Allowed\<rparr>) (plain_read ''n1'' True 0)
     (rows_replaced [] drafts_target) NoneCache"
    by (subst own) (auto intro!: draft_read_ignores_constraints simp: plain_read_def)
  show "read_note ''n1'' True = Inr (Some \<lparr>doc_id = ''n1'', doc_created_at = None, doc_updated_at = None, doc_fields = [(''author'', JString ''u2'')]\<rparr>, NoneCache)"
    by code_simp
qed

text \<open>A document that was never published, or is no longer, is read without asking for drafts.\<close>

lemma unpublished_document_read:
  "\<not> isl (read_note ''n3'' False)" "map_sum id fst (read_note ''n3'' False) \<noteq> Inr None"
  by code_simp+

section \<open>A post by an author with a secret\<close>

definition secret_users :: target where
  "secret_users =
     \<lparr>tg_def = small_def ''users'' [FieldDefinition ((new_attrs ''secret'' Text)\<lparr>fa_hidden := True\<rparr>) [] [] []], tg_upload = None,
      tg_store = \<lparr>ds_rows = [\<lparr>fr_id = ''u1'', fr_cols = [(''secret'', DText ''s'')]\<rparr>], ds_joins = \<lambda>k. [], ds_versions = []\<rparr>\<rparr>"

definition open_posts :: target where
  "open_posts =
     \<lparr>tg_def = small_def ''posts'' [user_ref ''author'', FieldDefinition ((new_attrs ''note'' Text)\<lparr>fa_hidden := True\<rparr>) [] [] []], tg_upload = None,
      tg_store = \<lparr>ds_rows = [\<lparr>fr_id = ''p1'', fr_cols = [(''author'', DText ''u1''), (''note'', DText ''n'')]\<rparr>], ds_joins = \<lambda>k. [], ds_versions = []\<rparr>\<rparr>"

definition blog :: populate_env where
  "blog = site\<lparr>pe_collections := \<lambda>c. if c = ''users'' then Some secret_users else if c = ''posts'' then Some open_posts else None\<rparr>"

definition reader :: read_hooks where
  "reader = own_notes\<lparr>rh_access := \<lambda>trash i. Inr Allowed\<rparr>"

definition read_fields :: "read_error + document option \<times> cache \<Rightarrow> document_fields" where
  "read_fields r = (case r of Inr (Some d, c) \<Rightarrow> doc_fields d | _ \<Rightarrow> [])"

abbreviation read_post :: "read_error + document option \<times> cache" where
  "read_post \<equiv> service_find_by_id blog reader (plain_read ''p1'' False 1) open_posts NoneCache"

text \<open>The hidden field of the author shows in the post, where the one of the post does not.\<close>

lemma populated_document_not_stripped:
  "path_value (read_fields read_post) [''author'', ''secret''] = Some (JString ''s'')" "path_value (read_fields read_post) [''note''] = None"
  by code_simp+

lemma post_read: "read_fields read_post \<noteq> []"
  by code_simp


end
